(* ===== verification/Prelude.thy ===== *)
theory Prelude
  imports Main "HOL-Library.List_Lexorder" "HOL-Library.Word" "HOL-Library.Code_Target_Numeral"
begin

text \<open>
  What every component shares: Rust's \<open>Result\<close> as a sum with the early return of
  the question-mark operator, Rust strings as lists of Unicode scalar values with the
  standard-library operations the program calls on them, decimal printing and parsing of
  machine integers, and the Unicode data the program takes from crates and from the
  standard library's tables, which is a parameter of the model.
\<close>

named_theorems result_simps \<open>equations that decide a computation in the result type\<close>
named_theorems text_simps \<open>equations that normalise the text operations\<close>

section \<open>Results and early returns\<close>

abbreviation Ok :: "'a \<Rightarrow> 'e + 'a" where "Ok \<equiv> Inr"
abbreviation Err :: "'e \<Rightarrow> 'e + 'a" where "Err \<equiv> Inl"

text \<open>The question-mark operator: the rest of a function runs on the success value only.\<close>

definition rbind :: "'e + 'a \<Rightarrow> ('a \<Rightarrow> 'e + 'b) \<Rightarrow> 'e + 'b" where
  "rbind m f = (case m of Inl e \<Rightarrow> Inl e | Inr x \<Rightarrow> f x)"

lemma rbind_simps [simp, result_simps]:
  "rbind (Inl e) f = Inl e"
  "rbind (Inr x) f = f x"
  by (simp_all add: rbind_def)

lemma rbind_eq_Ok [simp, result_simps]: "rbind m f = Inr y \<longleftrightarrow> (\<exists>x. m = Inr x \<and> f x = Inr y)"
  by (cases m) (simp_all add: rbind_def)

lemma rbind_eq_Err [result_simps]:
  "rbind m f = Inl e \<longleftrightarrow> m = Inl e \<or> (\<exists>x. m = Inr x \<and> f x = Inl e)"
  by (cases m) (simp_all add: rbind_def)

lemma rbind_cong [fundef_cong]:
  "m = m' \<Longrightarrow> (\<And>x. m' = Inr x \<Longrightarrow> f x = g x) \<Longrightarrow> rbind m f = rbind m' g"
  by (cases m') (simp_all add: rbind_def)

lemma rbind_assoc: "rbind (rbind m f) g = rbind m (\<lambda>x. rbind (f x) g)"
  by (cases m) (simp_all add: rbind_def)

text \<open>A check that returns early with an error, and \<open>ok_or\<close> on an option.\<close>

definition ensure :: "bool \<Rightarrow> 'e \<Rightarrow> 'e + unit" where
  "ensure b e = (if b then Ok () else Err e)"

lemma ensure_simps [simp, result_simps]:
  "ensure True e = Inr ()"
  "ensure False e = Inl e"
  "ensure b e = Inr u \<longleftrightarrow> b"
  "ensure b e = Inl e' \<longleftrightarrow> \<not> b \<and> e' = e"
  by (auto simp: ensure_def)

definition ok_or :: "'a option \<Rightarrow> 'e \<Rightarrow> 'e + 'a" where
  "ok_or v e = (case v of None \<Rightarrow> Err e | Some x \<Rightarrow> Ok x)"

lemma ok_or_simps [simp, result_simps]:
  "ok_or None e = Inl e"
  "ok_or (Some x) e = Inr x"
  "ok_or v e = Inr x \<longleftrightarrow> v = Some x"
  "ok_or v e = Inl e' \<longleftrightarrow> v = None \<and> e' = e"
  by (auto simp: ok_or_def split: option.splits)

definition map_err :: "('e \<Rightarrow> 'f) \<Rightarrow> 'e + 'a \<Rightarrow> 'f + 'a" where
  "map_err f m = (case m of Inl e \<Rightarrow> Inl (f e) | Inr x \<Rightarrow> Inr x)"

lemma map_err_simps [simp, result_simps]:
  "map_err f (Inl e) = Inl (f e)"
  "map_err f (Inr x) = Inr x"
  "map_err f m = Inr x \<longleftrightarrow> m = Inr x"
  by (auto simp: map_err_def split: sum.splits)

definition unwrap_or :: "'a \<Rightarrow> 'a option \<Rightarrow> 'a" where
  "unwrap_or d v = (case v of None \<Rightarrow> d | Some x \<Rightarrow> x)"

lemma unwrap_or_simps [simp, result_simps]: "unwrap_or d None = d" "unwrap_or d (Some x) = x"
  by (simp_all add: unwrap_or_def)

definition filter_opt :: "('a \<Rightarrow> bool) \<Rightarrow> 'a option \<Rightarrow> 'a option" where
  "filter_opt p v = (case v of None \<Rightarrow> None | Some x \<Rightarrow> if p x then Some x else None)"

lemma filter_opt_eq_Some [simp]: "filter_opt p v = Some x \<longleftrightarrow> v = Some x \<and> p x"
  by (auto simp: filter_opt_def split: option.splits)

text \<open>An iterator of results collected into one result: the first error wins.\<close>

fun traverse :: "('a \<Rightarrow> 'e + 'b) \<Rightarrow> 'a list \<Rightarrow> 'e + 'b list" where
  "traverse f [] = Ok []"
| "traverse f (x # xs) = rbind (f x) (\<lambda>y. rbind (traverse f xs) (\<lambda>ys. Ok (y # ys)))"

lemma traverse_Ok_iff: "traverse f xs = Inr ys \<longleftrightarrow> list_all2 (\<lambda>x y. f x = Inr y) xs ys"
  by (induction xs arbitrary: ys) (auto simp: list_all2_Cons1)

lemma traverse_length: "traverse f xs = Inr ys \<Longrightarrow> length ys = length xs"
  by (auto simp: traverse_Ok_iff dest: list_all2_lengthD)

lemma traverse_cong [fundef_cong]:
  "xs = ys \<Longrightarrow> (\<And>x. x \<in> set ys \<Longrightarrow> f x = g x) \<Longrightarrow> traverse f xs = traverse g ys"
  by (induction xs arbitrary: ys) (auto cong: rbind_cong)

section \<open>Strings\<close>

text \<open>
  A Rust \<open>String\<close> is its sequence of Unicode scalar values; \<open>str\<close> turns an ASCII literal of
  the source into one. \<open>chars().count()\<close> is the length of the list, \<open>len()\<close> is the number of
  UTF-8 bytes.
\<close>

type_synonym rstr = "nat list"

definition str :: "string \<Rightarrow> rstr" where
  "str s = map of_char s"

lemma inj_of_char_nat: "inj (of_char :: char \<Rightarrow> nat)"
  by (rule inj_of_char)

lemma str_eq_iff [simp]: "str a = str b \<longleftrightarrow> a = b"
  unfolding str_def by (rule inj_map_eq_map [OF inj_of_char_nat])

lemma str_Nil_iff [simp]:
  "str a = [] \<longleftrightarrow> a = []"
  "[] = str a \<longleftrightarrow> a = []"
  by (simp_all add: str_def)

lemma str_Nil [simp]: "str [] = []"
  by (simp add: str_def)

lemma str_append: "str (a @ b) = str a @ str b"
  by (simp add: str_def)

lemma length_str [simp]: "length (str a) = length a"
  by (simp add: str_def)

definition utf8_width :: "nat \<Rightarrow> nat" where
  "utf8_width c = (if c < 128 then 1 else if c < 2048 then 2 else if c < 65536 then 3 else 4)"

definition byte_len :: "rstr \<Rightarrow> nat" where
  "byte_len s = sum_list (map utf8_width s)"

lemma byte_len_simps [simp]:
  "byte_len [] = 0"
  "byte_len (c # s) = utf8_width c + byte_len s"
  "byte_len (s @ t) = byte_len s + byte_len t"
  by (simp_all add: byte_len_def)

lemma utf8_width_bounds: "1 \<le> utf8_width c" "utf8_width c \<le> 4"
  by (simp_all add: utf8_width_def)

lemma length_le_byte_len: "length s \<le> byte_len s"
proof (induction s)
  case (Cons c s)
  then show ?case using utf8_width_bounds(1) [of c] by simp
qed simp

subsection \<open>Character classes\<close>

text \<open>\<open>char::is_whitespace\<close> (the White-Space property), \<open>char::is_control\<close> (category Cc) and the ASCII classes.\<close>

definition is_whitespace :: "nat \<Rightarrow> bool" where
  "is_whitespace c \<longleftrightarrow>
     9 \<le> c \<and> c \<le> 13 \<or> c = 32 \<or> c = 133 \<or> c = 160 \<or> c = 5760 \<or> 8192 \<le> c \<and> c \<le> 8202 \<or>
     c = 8232 \<or> c = 8233 \<or> c = 8239 \<or> c = 8287 \<or> c = 12288"

definition is_control :: "nat \<Rightarrow> bool" where
  "is_control c \<longleftrightarrow> c < 32 \<or> 127 \<le> c \<and> c \<le> 159"

definition is_ascii_digit :: "nat \<Rightarrow> bool" where
  "is_ascii_digit c \<longleftrightarrow> 48 \<le> c \<and> c \<le> 57"

definition is_lower_hex :: "nat \<Rightarrow> bool" where
  "is_lower_hex c \<longleftrightarrow> is_ascii_digit c \<or> 97 \<le> c \<and> c \<le> 102"

definition is_ascii_hexdigit :: "nat \<Rightarrow> bool" where
  "is_ascii_hexdigit c \<longleftrightarrow> is_lower_hex c \<or> 65 \<le> c \<and> c \<le> 70"

definition is_ascii_alphanumeric :: "nat \<Rightarrow> bool" where
  "is_ascii_alphanumeric c \<longleftrightarrow> is_ascii_digit c \<or> 65 \<le> c \<and> c \<le> 90 \<or> 97 \<le> c \<and> c \<le> 122"

definition ascii_lower :: "nat \<Rightarrow> nat" where
  "ascii_lower c = (if 65 \<le> c \<and> c \<le> 90 then c + 32 else c)"

text \<open>
  Unicode tables: the general category comes from the crate unicode-general-category, full
  case folding from the crate caseless, and the three case and alphanumeric tables from the
  standard library's generated data. None of them is under src/, so they are a parameter.
\<close>

datatype general_category =
  Control | Format | UppercaseLetter | LowercaseLetter | TitlecaseLetter | ModifierLetter |
  OtherLetter | DecimalNumber | LetterNumber | OtherNumber | OtherCategory

record unicode =
  category :: "nat \<Rightarrow> general_category"
  case_fold :: "rstr \<Rightarrow> rstr"
  uppercase :: "nat \<Rightarrow> rstr"
  lowercase :: "nat \<Rightarrow> rstr"
  str_lowercase :: "rstr \<Rightarrow> rstr"
  alphanumeric :: "nat \<Rightarrow> bool"

text \<open>The ASCII fragment of the tables: a concrete instance for the witnesses.\<close>

definition ascii_unicode :: unicode where
  "ascii_unicode = \<lparr>
     category = (\<lambda>c. if is_control c then Control
                     else if 65 \<le> c \<and> c \<le> 90 then UppercaseLetter
                     else if 97 \<le> c \<and> c \<le> 122 then LowercaseLetter
                     else if is_ascii_digit c then DecimalNumber
                     else if c = 8203 then Format else OtherCategory),
     case_fold = map ascii_lower,
     uppercase = (\<lambda>c. if 97 \<le> c \<and> c \<le> 122 then [c - 32] else [c]),
     lowercase = (\<lambda>c. [ascii_lower c]),
     str_lowercase = map ascii_lower,
     alphanumeric = is_ascii_alphanumeric\<rparr>"

subsection \<open>Splitting, joining and trimming\<close>

text \<open>\<open>str::split\<close> with a character predicate: one piece more than there are separators.\<close>

fun split_on :: "(nat \<Rightarrow> bool) \<Rightarrow> rstr \<Rightarrow> rstr list" where
  "split_on p [] = [[]]"
| "split_on p (c # cs) =
     (if p c then [] # split_on p cs
      else (case split_on p cs of [] \<Rightarrow> [[c]] | w # ws \<Rightarrow> (c # w) # ws))"

definition split_whitespace :: "rstr \<Rightarrow> rstr list" where
  "split_whitespace s = filter (\<lambda>w. w \<noteq> []) (split_on is_whitespace s)"

text \<open>\<open>[String]::join\<close>.\<close>

fun join :: "rstr \<Rightarrow> rstr list \<Rightarrow> rstr" where
  "join sep [] = []"
| "join sep [w] = w"
| "join sep (w # v # ws) = w @ sep @ join sep (v # ws)"

definition trim_start_matches :: "(nat \<Rightarrow> bool) \<Rightarrow> rstr \<Rightarrow> rstr" where
  "trim_start_matches p s = dropWhile p s"

definition trim_end_matches :: "(nat \<Rightarrow> bool) \<Rightarrow> rstr \<Rightarrow> rstr" where
  "trim_end_matches p s = rev (dropWhile p (rev s))"

definition trim_matches :: "(nat \<Rightarrow> bool) \<Rightarrow> rstr \<Rightarrow> rstr" where
  "trim_matches p s = trim_end_matches p (trim_start_matches p s)"

definition trim :: "rstr \<Rightarrow> rstr" where
  "trim s = trim_matches is_whitespace s"

fun strip_prefix :: "rstr \<Rightarrow> rstr \<Rightarrow> rstr option" where
  "strip_prefix [] s = Some s"
| "strip_prefix (p # ps) [] = None"
| "strip_prefix (p # ps) (c # cs) = (if p = c then strip_prefix ps cs else None)"

definition strip_suffix :: "rstr \<Rightarrow> rstr \<Rightarrow> rstr option" where
  "strip_suffix p s = map_option rev (strip_prefix (rev p) (rev s))"

lemma strip_prefix_iff [text_simps]: "strip_prefix p s = Some t \<longleftrightarrow> s = p @ t"
  by (induction p s rule: strip_prefix.induct) auto

lemma strip_suffix_iff [text_simps]: "strip_suffix p s = Some t \<longleftrightarrow> s = t @ p"
proof -
  have "strip_suffix p s = Some t \<longleftrightarrow> rev s = rev p @ rev t"
    by (auto simp: strip_suffix_def strip_prefix_iff)
  also have "\<dots> \<longleftrightarrow> s = t @ p"
    by (metis rev_append rev_rev_ident)
  finally show ?thesis .
qed

lemma split_on_not_Nil [simp]: "split_on p s \<noteq> []"
  by (induction s) (auto split: list.splits)

lemma split_on_pieces: "w \<in> set (split_on p s) \<Longrightarrow> c \<in> set w \<Longrightarrow> \<not> p c \<and> c \<in> set s"
  by (induction s arbitrary: w c) (fastforce split: list.splits if_splits)+

lemma split_on_none: "(\<And>c. c \<in> set s \<Longrightarrow> \<not> p c) \<Longrightarrow> split_on p s = [s]"
  by (induction s) auto

lemma split_on_sep:
  "(\<And>c. c \<in> set w \<Longrightarrow> \<not> p c) \<Longrightarrow> p d \<Longrightarrow> split_on p (w @ d # s) = w # split_on p s"
  by (induction w) auto

lemma dropWhile_head: "dropWhile p s = c # t \<Longrightarrow> \<not> p c"
  by (induction s) (auto split: if_splits)

lemma set_trim_end: "set (trim_end_matches p s) \<subseteq> set s"
  by (auto simp: trim_end_matches_def dest: set_dropWhileD)

lemma set_trim_matches: "set (trim_matches p s) \<subseteq> set s"
  unfolding trim_matches_def trim_start_matches_def
  by (meson set_dropWhileD set_trim_end subset_iff)

lemma length_trim_end: "length (trim_end_matches p s) \<le> length s"
  using length_dropWhile_le [of p "rev s"] by (simp add: trim_end_matches_def)

lemma length_trim_matches: "length (trim_matches p s) \<le> length s"
  unfolding trim_matches_def trim_start_matches_def
  by (meson length_trim_end length_dropWhile_le le_trans)

text \<open>A text is trimmed when neither end matches; trimming gives that and changes nothing else.\<close>

definition trimmed :: "(nat \<Rightarrow> bool) \<Rightarrow> rstr \<Rightarrow> bool" where
  "trimmed p s \<longleftrightarrow> s = [] \<or> \<not> p (hd s) \<and> \<not> p (last s)"

lemma dropWhile_id_iff: "dropWhile p s = s \<longleftrightarrow> s = [] \<or> \<not> p (hd s)"
proof (cases s)
  case (Cons c t)
  have "length (dropWhile p t) < length (c # t)"
    using length_dropWhile_le [of p t] by simp
  then have "dropWhile p t \<noteq> c # t" by (metis less_irrefl)
  with Cons show ?thesis by simp
qed simp

lemma trim_end_id_iff: "trim_end_matches p s = s \<longleftrightarrow> s = [] \<or> \<not> p (last s)"
proof -
  have "trim_end_matches p s = s \<longleftrightarrow> dropWhile p (rev s) = rev s"
    by (auto simp: trim_end_matches_def rev_swap)
  then show ?thesis by (auto simp: dropWhile_id_iff hd_rev)
qed

lemma trim_end_last: "trim_end_matches p s = [] \<or> \<not> p (last (trim_end_matches p s))"
proof (cases "dropWhile p (rev s)")
  case (Cons c t)
  then have "\<not> p c" by (rule dropWhile_head)
  with Cons show ?thesis by (simp add: trim_end_matches_def)
qed (simp add: trim_end_matches_def)

lemma trim_end_prefix: "\<exists>r. s = trim_end_matches p s @ r"
proof -
  have "rev s = takeWhile p (rev s) @ dropWhile p (rev s)" by simp
  then have "s = rev (dropWhile p (rev s)) @ rev (takeWhile p (rev s))"
    by (metis rev_append rev_rev_ident)
  then show ?thesis by (auto simp: trim_end_matches_def)
qed

lemma trim_matches_trimmed: "trimmed p (trim_matches p s)"
proof -
  let ?d = "dropWhile p s"
  let ?t = "trim_end_matches p ?d"
  obtain r where r: "?d = ?t @ r"
    using trim_end_prefix by blast
  have "?t = [] \<or> \<not> p (hd ?t)"
  proof (cases ?t)
    case (Cons c u)
    with r have "?d = c # (u @ r)" by simp
    then have "\<not> p c" by (rule dropWhile_head)
    with Cons show ?thesis by simp
  qed simp
  then show ?thesis
    using trim_end_last [of p ?d]
    by (auto simp: trimmed_def trim_matches_def trim_start_matches_def)
qed

lemma trim_matches_id_iff: "trim_matches p s = s \<longleftrightarrow> trimmed p s"
proof
  assume "trim_matches p s = s"
  then show "trimmed p s" by (metis trim_matches_trimmed)
next
  assume t: "trimmed p s"
  then have "dropWhile p s = s"
    by (auto simp: dropWhile_id_iff trimmed_def)
  moreover have "trim_end_matches p s = s"
    using t by (auto simp: trim_end_id_iff trimmed_def)
  ultimately show "trim_matches p s = s"
    by (simp add: trim_matches_def trim_start_matches_def)
qed

lemma trim_matches_idem [simp]: "trim_matches p (trim_matches p s) = trim_matches p s"
  by (simp add: trim_matches_id_iff trim_matches_trimmed)

lemma trim_matches_Nil [simp]: "trim_matches p [] = []"
  by (simp add: trim_matches_def trim_start_matches_def trim_end_matches_def)

section \<open>Machine integers\<close>

text \<open>The range of \<open>i64\<close>, whose values the model keeps as integers, and the checked and saturating operations.\<close>

definition i64_max :: int where "i64_max = 9223372036854775807"
definition i64_min :: int where "i64_min = - 9223372036854775808"

definition checked_add_i64 :: "int \<Rightarrow> int \<Rightarrow> int option" where
  "checked_add_i64 a b = (if i64_min \<le> a + b \<and> a + b \<le> i64_max then Some (a + b) else None)"

definition saturating_add_i64 :: "int \<Rightarrow> int \<Rightarrow> int" where
  "saturating_add_i64 a b = max i64_min (min i64_max (a + b))"

definition checked_inc_u64 :: "64 word \<Rightarrow> 64 word option" where
  "checked_inc_u64 w = (if w = - 1 then None else Some (w + 1))"

definition saturating_inc_u64 :: "64 word \<Rightarrow> 64 word" where
  "saturating_inc_u64 w = (if w = - 1 then w else w + 1)"

lemma checked_inc_u64_unat: "checked_inc_u64 w = Some v \<Longrightarrow> unat v = unat w + 1"
proof -
  assume "checked_inc_u64 w = Some v"
  then have "w \<noteq> - 1" "v = w + 1" by (auto simp: checked_inc_u64_def split: if_splits)
  then have "1 + w \<noteq> 0" by (metis add.commute add_eq_0_iff)
  then show ?thesis using \<open>v = w + 1\<close> unatSuc [of w] by (simp add: add.commute)
qed

text \<open>A \<open>u32\<close> widened to \<open>u64\<close> and narrowed again.\<close>

lemma unat_u32_u64 [simp]: "unat (ucast (d :: 32 word) :: 64 word) = unat d"
proof -
  have "unat d < 2 ^ 64" using unsigned_less [of d, where ?'a = nat] by simp
  then show ?thesis by (simp add: unsigned_ucast_eq take_bit_nat_eq_self)
qed

lemma u32_width: "unat (d :: 32 word) < 2 ^ 32"
  using unsigned_less [of d, where ?'a = nat] by simp

lemma ucast_u32_u64 [simp]: "(ucast (ucast (d :: 32 word) :: 64 word) :: 32 word) = d"
proof (rule word_unat_eq_iff [THEN iffD2])
  have "unat d < 2 ^ 32" by (rule u32_width)
  then show "unat (ucast (ucast d :: 64 word) :: 32 word) = unat d"
    by (simp add: unsigned_ucast_eq take_bit_nat_eq_self take_bit_word_eq_self)
qed

subsection \<open>Decimal text\<close>

fun show_nat :: "nat \<Rightarrow> rstr" where
  "show_nat n = (if n < 10 then [48 + n] else show_nat (n div 10) @ [48 + n mod 10])"

declare show_nat.simps [simp del]

definition show_int :: "int \<Rightarrow> rstr" where
  "show_int i = (if i < 0 then 45 # show_nat (nat (- i)) else show_nat (nat i))"

definition digits_value :: "rstr \<Rightarrow> nat" where
  "digits_value s = foldl (\<lambda>a c. 10 * a + (c - 48)) 0 s"

text \<open>\<open>str::parse\<close> for an unsigned type with the given largest value: an optional plus sign, at least one digit, no overflow.\<close>

definition parse_unsigned :: "nat \<Rightarrow> rstr \<Rightarrow> nat option" where
  "parse_unsigned bound s =
     (let d = (case s of c # t \<Rightarrow> if c = 43 then t else s | [] \<Rightarrow> []) in
      if d \<noteq> [] \<and> list_all is_ascii_digit d \<and> digits_value d \<le> bound
      then Some (digits_value d) else None)"

definition parse_signed :: "nat \<Rightarrow> rstr \<Rightarrow> int option" where
  "parse_signed bound s =
     (case s of
        c # t \<Rightarrow>
          if c = 45 then
            (if t \<noteq> [] \<and> list_all is_ascii_digit t \<and> digits_value t \<le> bound + 1
             then Some (- int (digits_value t)) else None)
          else map_option int (parse_unsigned bound s)
      | [] \<Rightarrow> None)"

lemma show_nat_nonempty [simp]: "show_nat n \<noteq> []"
  by (subst show_nat.simps) simp

lemma show_nat_digits: "list_all is_ascii_digit (show_nat n)"
proof (induction n rule: show_nat.induct)
  case (1 n)
  then show ?case
    by (cases "n < 10") (simp_all add: show_nat.simps [of n] is_ascii_digit_def list_all_iff)
qed

lemma digits_value_snoc: "digits_value (s @ [c]) = 10 * digits_value s + (c - 48)"
  by (simp add: digits_value_def)

lemma digits_value_show_nat [simp]: "digits_value (show_nat n) = n"
proof (induction n rule: show_nat.induct)
  case (1 n)
  show ?case
  proof (cases "n < 10")
    case True
    then show ?thesis by (subst show_nat.simps) (simp add: digits_value_def)
  next
    case False
    with 1 show ?thesis
      by (subst show_nat.simps) (simp add: digits_value_snoc)
  qed
qed

lemma show_nat_inj [simp]: "show_nat a = show_nat b \<longleftrightarrow> a = b"
  by (metis digits_value_show_nat)

lemma show_nat_hd_not_plus: "show_nat n = c # t \<Longrightarrow> is_ascii_digit c \<and> list_all is_ascii_digit t"
  using show_nat_digits [of n] by simp

lemma parse_unsigned_show_nat: "n \<le> bound \<Longrightarrow> parse_unsigned bound (show_nat n) = Some n"
proof -
  assume n: "n \<le> bound"
  obtain c t where ct: "show_nat n = c # t"
    by (meson list.exhaust show_nat_nonempty)
  then have "c \<noteq> 43"
    using show_nat_hd_not_plus by (fastforce simp: is_ascii_digit_def)
  then show ?thesis
    using n ct show_nat_digits [of n] digits_value_show_nat [of n]
    by (simp add: parse_unsigned_def Let_def)
qed

end
