(* ===== verification/Ordered_Map.thy ===== *)
theory Ordered_Map
  imports Prelude
begin

text \<open>
  \<open>BTreeMap\<close> and the default \<open>serde_json::Map\<close> of the program: an association list in
  strictly increasing key order. The locale \<open>keyed_map\<close> states what the components rely on
  (what a lookup returns after each operation); it is interpreted on the model's own
  operations at the end of the theory.
\<close>

type_synonym ('k, 'v) omap = "('k \<times> 'v) list"

definition om_get :: "('k, 'v) omap \<Rightarrow> 'k \<Rightarrow> 'v option" where
  "om_get m k = map_of m k"

fun om_insert :: "'k::linorder \<Rightarrow> 'v \<Rightarrow> ('k, 'v) omap \<Rightarrow> ('k, 'v) omap" where
  "om_insert k v [] = [(k, v)]"
| "om_insert k v ((a, b) # m) =
     (if k < a then (k, v) # (a, b) # m
      else if k = a then (k, v) # m
      else (a, b) # om_insert k v m)"

definition om_retain :: "('k \<Rightarrow> bool) \<Rightarrow> ('k, 'v) omap \<Rightarrow> ('k, 'v) omap" where
  "om_retain p m = filter (\<lambda>e. p (fst e)) m"

definition om_remove :: "'k \<Rightarrow> ('k, 'v) omap \<Rightarrow> ('k, 'v) omap" where
  "om_remove k m = om_retain (\<lambda>a. a \<noteq> k) m"

definition om_map_values :: "('v \<Rightarrow> 'w) \<Rightarrow> ('k, 'v) omap \<Rightarrow> ('k, 'w) omap" where
  "om_map_values f m = map (\<lambda>e. (fst e, f (snd e))) m"

definition om_contains :: "('k, 'v) omap \<Rightarrow> 'k \<Rightarrow> bool" where
  "om_contains m k \<longleftrightarrow> om_get m k \<noteq> None"

definition om_keys :: "('k, 'v) omap \<Rightarrow> 'k list" where
  "om_keys m = map fst m"

text \<open>\<open>BTreeMap::from\<close> on an array, and a collected iterator: later entries replace earlier ones.\<close>

definition om_from :: "('k::linorder \<times> 'v) list \<Rightarrow> ('k, 'v) omap" where
  "om_from es = foldl (\<lambda>m e. om_insert (fst e) (snd e) m) [] es"

definition om_wf :: "('k::linorder, 'v) omap \<Rightarrow> bool" where
  "om_wf m \<longleftrightarrow> sorted_wrt (<) (map fst m)"

section \<open>The interface\<close>

locale keyed_map =
  fixes empty :: "'m"
    and get :: "'m \<Rightarrow> 'k \<Rightarrow> 'v option"
    and insert :: "'k \<Rightarrow> 'v \<Rightarrow> 'm \<Rightarrow> 'm"
    and retain :: "('k \<Rightarrow> bool) \<Rightarrow> 'm \<Rightarrow> 'm"
    and wf :: "'m \<Rightarrow> bool"
  assumes get_empty: "get empty k = None"
    and get_insert: "get (insert k v m) k' = (if k' = k then Some v else get m k')"
    and get_retain: "get (retain p m) k = (if p k then get m k else None)"
    and wf_empty: "wf empty"
    and wf_insert: "wf m \<Longrightarrow> wf (insert k v m)"
    and wf_retain: "wf m \<Longrightarrow> wf (retain p m)"
begin

lemma get_insert_same: "get (insert k v m) k = Some v"
  by (simp add: get_insert)

lemma get_insert_other: "k' \<noteq> k \<Longrightarrow> get (insert k v m) k' = get m k'"
  by (simp add: get_insert)

lemma get_foldl_insert:
  "get (foldl (\<lambda>m e. insert (fst e) (snd e) m) m es) k =
     (case map_of (rev es) k of None \<Rightarrow> get m k | Some v \<Rightarrow> Some v)"
proof (induction es rule: rev_induct)
  case (snoc e es)
  then show ?case by (cases e) (simp add: get_insert)
qed simp

lemma wf_foldl_insert: "wf m \<Longrightarrow> wf (foldl (\<lambda>m e. insert (fst e) (snd e) m) m es)"
  by (induction es arbitrary: m) (simp_all add: wf_insert)

lemma retain_hides: "\<not> p k \<Longrightarrow> get (retain p m) k = None"
  by (simp add: get_retain)

end

section \<open>The ordered association list provides it\<close>

lemma om_get_insert [simp]: "om_get (om_insert k v m) k' = (if k' = k then Some v else om_get m k')"
  unfolding om_get_def by (induction k v m rule: om_insert.induct) auto

lemma om_get_retain [simp]: "om_get (om_retain p m) k = (if p k then om_get m k else None)"
  unfolding om_get_def om_retain_def by (induction m) auto

lemma om_get_empty [simp]: "om_get [] k = None"
  by (simp add: om_get_def)

lemma om_insert_keys: "fst ` set (om_insert k v m) = insert k (fst ` set m)"
  by (induction k v m rule: om_insert.induct) auto

lemma om_wf_Cons: "om_wf ((a, b) # m) \<longleftrightarrow> (\<forall>k \<in> fst ` set m. a < k) \<and> om_wf m"
  by (auto simp: om_wf_def)

lemma om_wf_insert: "om_wf m \<Longrightarrow> om_wf (om_insert k v m)"
proof (induction k v m rule: om_insert.induct)
  case (1 k v)
  show ?case by (simp add: om_wf_def)
next
  case (2 k v a b m)
  then show ?case
    by (fastforce simp: om_wf_Cons om_insert_keys)
qed

lemma om_wf_retain: "om_wf m \<Longrightarrow> om_wf (om_retain p m)"
  by (induction m) (auto simp: om_wf_def om_retain_def)

interpretation om: keyed_map "[]" om_get om_insert om_retain om_wf
  by unfold_locales (simp_all add: om_wf_insert om_wf_retain om_wf_def [of "[]"])

lemma om_get_remove [simp]: "om_get (om_remove k m) k' = (if k' = k then None else om_get m k')"
  by (simp add: om_remove_def)

lemma om_wf_remove: "om_wf m \<Longrightarrow> om_wf (om_remove k m)"
  by (simp add: om_remove_def om_wf_retain)

lemma om_get_map_values [simp]: "om_get (om_map_values f m) k = map_option f (om_get m k)"
  unfolding om_get_def om_map_values_def by (induction m) auto

lemma om_wf_map_values [simp]: "om_wf (om_map_values f m) = om_wf m"
  by (simp add: om_wf_def om_map_values_def comp_def)

lemma om_get_from: "om_get (om_from es) k = map_of (rev es) k"
  by (simp add: om_from_def om.get_foldl_insert split: option.splits)

lemma om_wf_from: "om_wf (om_from es)"
  unfolding om_from_def by (rule om.wf_foldl_insert) (rule om.wf_empty)

lemma om_keys_retain [simp]: "om_keys (om_retain p m) = filter p (om_keys m)"
  by (induction m) (auto simp: om_keys_def om_retain_def)

lemma om_keys_map_values [simp]: "om_keys (om_map_values f m) = om_keys m"
  by (simp add: om_keys_def om_map_values_def)

lemma set_om_keys_insert [simp]: "set (om_keys (om_insert k v m)) = insert k (set (om_keys m))"
  using om_insert_keys [of k v m] by (simp add: om_keys_def)

lemma set_om_keys_from [simp]: "set (om_keys (om_from es)) = fst ` set es"
  unfolding om_from_def by (induction es rule: rev_induct) (simp_all add: om_keys_def om_insert_keys)

lemma om_contains_iff: "om_contains m k \<longleftrightarrow> k \<in> set (om_keys m)"
  by (auto simp: om_contains_def om_get_def om_keys_def map_of_eq_None_iff)

lemma om_get_in_set: "om_get m k = Some v \<Longrightarrow> (k, v) \<in> set m"
  by (simp add: om_get_def map_of_SomeD)

lemma om_wf_distinct: "om_wf m \<Longrightarrow> distinct (om_keys m)"
  by (induction m) (force simp: om_wf_Cons om_keys_def)+

lemma om_map_values_cong [fundef_cong]:
  "m = n \<Longrightarrow> (\<And>e. e \<in> set n \<Longrightarrow> f (snd e) = g (snd e)) \<Longrightarrow> om_map_values f m = om_map_values g n"
  by (simp add: om_map_values_def)

lemma set_om_retain [simp]: "e \<in> set (om_retain p m) \<longleftrightarrow> e \<in> set m \<and> p (fst e)"
  by (auto simp: om_retain_def)

lemma set_om_map_values: "e \<in> set (om_map_values f m) \<longleftrightarrow> (\<exists>d \<in> set m. e = (fst d, f (snd d)))"
  by (auto simp: om_map_values_def)

lemma om_retain_map_values: "om_retain p (om_map_values f m) = om_map_values f (om_retain p m)"
  by (induction m) (auto simp: om_retain_def om_map_values_def)

lemma om_retain_retain [simp]: "om_retain p (om_retain q m) = om_retain (\<lambda>k. q k \<and> p k) m"
  by (simp add: om_retain_def)

lemma om_map_values_idem:
  "(\<And>e. e \<in> set m \<Longrightarrow> f (f (snd e)) = f (snd e)) \<Longrightarrow> om_map_values f (om_map_values f m) = om_map_values f m"
  by (simp add: om_map_values_def)

lemma set_om_insert: "e \<in> set (om_insert k v m) \<Longrightarrow> e = (k, v) \<or> e \<in> set m"
  by (induction k v m rule: om_insert.induct) (auto split: if_splits)

lemma set_om_from: "set (om_from es) \<subseteq> set es"
  unfolding om_from_def by (induction es rule: rev_induct) (auto dest!: set_om_insert)

lemma map_fixed: "(\<And>x. x \<in> set xs \<Longrightarrow> f x = x) \<Longrightarrow> map f xs = xs"
  by (induction xs) auto

lemma om_retain_all: "(\<And>e. e \<in> set m \<Longrightarrow> p (fst e)) \<Longrightarrow> om_retain p m = m"
  by (simp add: om_retain_def filter_id_conv)

lemma om_map_values_fixed: "(\<And>e. e \<in> set m \<Longrightarrow> f (snd e) = snd e) \<Longrightarrow> om_map_values f m = m"
  unfolding om_map_values_def by (rule map_fixed) simp

text \<open>Two ordered maps with the same lookups are the same list: the representation is canonical.\<close>

lemma om_wf_get_set: "om_wf m \<Longrightarrow> (k, v) \<in> set m \<longleftrightarrow> om_get m k = Some v"
  using om_wf_distinct [of m] by (simp add: om_get_def om_keys_def)

lemma om_ext:
  "om_wf m \<Longrightarrow> om_wf n \<Longrightarrow> (\<And>k. om_get m k = om_get n k) \<Longrightarrow> m = n"
proof -
  assume wf: "om_wf m" "om_wf n" and eq: "\<And>k. om_get m k = om_get n k"
  have same: "set m = set n"
    using wf eq by (force simp: om_wf_get_set)
  then have "set (map fst m) = set (map fst n)" by simp
  then have keys: "map fst m = map fst n"
    using wf unfolding om_wf_def
    by (metis sorted_distinct_set_unique strict_sorted_iff)
  show "m = n"
  proof (rule nth_equalityI)
    show len: "length m = length n" using keys by (metis length_map)
    fix i assume i: "i < length m"
    have "fst (m ! i) = fst (n ! i)"
      using keys i len by (metis nth_map)
    moreover have "om_get n (fst (m ! i)) = Some (snd (m ! i))"
      using wf(1) eq i by (metis nth_mem om_wf_get_set prod.collapse)
    moreover have "om_get n (fst (n ! i)) = Some (snd (n ! i))"
      using wf(2) i len by (metis nth_mem om_wf_get_set prod.collapse)
    ultimately show "m ! i = n ! i" by (simp add: prod_eq_iff)
  qed
qed

section \<open>Sizes\<close>

definition om_total :: "('v \<Rightarrow> nat) \<Rightarrow> ('k, 'v) omap \<Rightarrow> nat" where
  "om_total f m = sum_list (map (\<lambda>e. f (snd e)) m)"

lemma om_total_insert:
  "om_wf m \<Longrightarrow> om_total f (om_insert k v m) + (case om_get m k of None \<Rightarrow> 0 | Some w \<Rightarrow> f w) = om_total f m + f v"
proof (induction k v m rule: om_insert.induct)
  case (2 k v a b m)
  have wf: "om_wf m" "\<forall>j \<in> fst ` set m. a < j" using 2(2) by (auto simp: om_wf_Cons)
  have "k < a \<Longrightarrow> map_of m k = None" using wf(2) by (force simp: map_of_eq_None_iff)
  then show ?case using 2(1) [OF _ _ wf(1)] by (auto simp: om_total_def om_get_def)
qed (simp add: om_total_def)

lemma om_length_insert:
  "om_wf m \<Longrightarrow> length (om_insert k v m) = (if om_get m k = None then Suc (length m) else length m)"
proof (induction k v m rule: om_insert.induct)
  case (2 k v a b m)
  have wf: "om_wf m" "\<forall>j \<in> fst ` set m. a < j" using 2(2) by (auto simp: om_wf_Cons)
  have "k < a \<Longrightarrow> map_of m k = None" using wf(2) by (force simp: map_of_eq_None_iff)
  then show ?case using 2(1) [OF _ _ wf(1)] by (auto simp: om_get_def)
qed simp

lemma om_get_member: "om_get m k = Some v \<Longrightarrow> (k, v) \<in> set m"
  by (simp add: om_get_def map_of_SomeD)

lemma om_insert_member: "e \<in> set (om_insert k v m) \<Longrightarrow> e = (k, v) \<or> e \<in> set m"
  by (induction k v m rule: om_insert.induct) (auto split: if_splits)

end
