(* ===== verification/Text_Policy.thy ===== *)
theory Text_Policy
  imports Ordered_Map
begin

text \<open>
  The text policy of the domain crate: text.rs (cleaning of lines, identifiers and messages,
  visible text, room identifiers), the identifier checks of message_attachments.rs,
  message_pins.rs, agent_avatar.rs, provider_turn.rs and the search text of message_search.rs.
\<close>

section \<open>Rejections\<close>

record command_rejection =
  rej_code :: string
  rej_message :: rstr

definition reject :: "string \<Rightarrow> string \<Rightarrow> command_rejection" where
  "reject code message = \<lparr>rej_code = code, rej_message = str message\<rparr>"

lemma reject_eq_iff [simp]: "reject c m = reject d n \<longleftrightarrow> c = d \<and> m = n"
  by (simp add: reject_def)

lemma rej_code_reject [simp]: "rej_code (reject c m) = c"
  by (simp add: reject_def)

section \<open>Cleaning (text.rs)\<close>

definition MAX_MESSAGE_CHARACTERS :: nat where "MAX_MESSAGE_CHARACTERS = 12000"
definition MAX_TEXT_CHAT_CHARACTERS :: nat where "MAX_TEXT_CHAT_CHARACTERS = 2000"

definition clean_single_line :: "rstr \<Rightarrow> nat \<Rightarrow> rstr" where
  "clean_single_line v limit =
     take limit (join [32] (split_whitespace (map (\<lambda>c. if c \<in> {13, 10, 9} then 32 else c) v)))"

definition is_python_whitespace :: "nat \<Rightarrow> bool" where
  "is_python_whitespace c \<longleftrightarrow> is_whitespace c \<or> 28 \<le> c \<and> c \<le> 31"

definition clean_trimmed_crlf_text :: "rstr \<Rightarrow> nat \<Rightarrow> rstr" where
  "clean_trimmed_crlf_text v limit =
     trim_matches is_python_whitespace
       (take limit (trim_matches is_python_whitespace
          (map (\<lambda>c. if c \<in> {13, 10} then 32 else c) v)))"

definition clean_identifier :: "rstr \<Rightarrow> nat \<Rightarrow> rstr" where
  "clean_identifier v limit = clean_trimmed_crlf_text v limit"

definition validate_room_id :: "rstr \<Rightarrow> command_rejection + rstr" where
  "validate_room_id v =
     (let room_id = clean_identifier v 128 in
      if room_id = [] \<or> room_id \<in> {str ''.'', str ''..''} \<or> (\<exists>c \<in> set room_id. c \<in> {47, 92})
      then Err (reject ''bad_request'' ''room_id is required.'')
      else Ok room_id)"

text \<open>\<open>replace\<close> of a CR LF pair by LF, left to right.\<close>

fun replace_crlf :: "rstr \<Rightarrow> rstr" where
  "replace_crlf (a # b # s) =
     (if a = 13 \<and> b = 10 then 10 # replace_crlf s else a # replace_crlf (b # s))"
| "replace_crlf s = s"

definition clean_message :: "rstr \<Rightarrow> nat \<Rightarrow> rstr" where
  "clean_message v limit =
     take limit (trim (map (\<lambda>c. if c = 13 then 10 else c) (replace_crlf (filter (\<lambda>c. c \<noteq> 0) v))))"

definition has_visible_text :: "unicode \<Rightarrow> rstr \<Rightarrow> bool" where
  "has_visible_text U v \<longleftrightarrow>
     (\<exists>c \<in> set v. \<not> is_whitespace c \<and> category U c \<noteq> Control \<and> category U c \<noteq> Format)"

section \<open>Identifiers of assets, messages and turns\<close>

text \<open>The check shared by the asset namespaces: a prefix and a fixed number of lowercase hexadecimal bytes.\<close>

definition is_prefixed_hex :: "rstr \<Rightarrow> nat \<Rightarrow> rstr \<Rightarrow> bool" where
  "is_prefixed_hex prefix n v =
     (case strip_prefix prefix v of
        None \<Rightarrow> False
      | Some hex \<Rightarrow> byte_len hex = n \<and> list_all is_lower_hex hex)"

definition MAX_MESSAGE_ATTACHMENTS_PER_EVENT :: nat where "MAX_MESSAGE_ATTACHMENTS_PER_EVENT = 8"

definition is_message_attachment_id :: "rstr \<Rightarrow> bool" where
  "is_message_attachment_id v = is_prefixed_hex (str ''ma_'') 32 v"

definition is_agent_avatar_asset_id :: "rstr \<Rightarrow> bool" where
  "is_agent_avatar_asset_id v = is_prefixed_hex (str ''aa_'') 32 v"

definition agent_avatar_asset_id :: "rstr \<Rightarrow> rstr option" where
  "agent_avatar_asset_id reference =
     (case strip_prefix (str ''/api/agent-avatars/'') reference of
        None \<Rightarrow> None
      | Some asset \<Rightarrow> if is_agent_avatar_asset_id asset then Some asset else None)"

definition agent_avatar_url :: "rstr \<Rightarrow> rstr option" where
  "agent_avatar_url asset =
     (if is_agent_avatar_asset_id asset then Some (str ''/api/agent-avatars/'' @ asset) else None)"

definition canonical_message_attachment_filename :: "rstr \<Rightarrow> rstr" where
  "canonical_message_attachment_filename v =
     (let normalized = map (\<lambda>c. if c = 92 then 47 else c) v;
          name = last (split_on (\<lambda>c. c = 47) normalized);
          truncated = take 120 (trim (filter (\<lambda>c. \<not> is_control c \<and> c \<notin> {47, 92}) name));
          name = trim truncated
      in if name = [] \<or> name \<in> {str ''.'', str ''..''} then str ''attachment.bin'' else name)"

text \<open>The regular expression of a custom channel identifier, \<open>^c[0-9a-f]{12}$\<close>.\<close>

definition is_custom_channel_id :: "rstr \<Rightarrow> bool" where
  "is_custom_channel_id v = is_prefixed_hex (str ''c'') 12 v"

definition is_message_event_id :: "rstr \<Rightarrow> bool" where
  "is_message_event_id v \<longleftrightarrow> v \<noteq> [] \<and> byte_len v \<le> 128 \<and> 0 \<notin> set v"

definition canonical_bounded_id :: "rstr \<Rightarrow> nat \<Rightarrow> bool" where
  "canonical_bounded_id v max_bytes \<longleftrightarrow>
     v \<noteq> [] \<and> byte_len v \<le> max_bytes \<and> trim v = v \<and> \<not> (\<exists>c \<in> set v. is_control c)"

definition is_provider_turn_id :: "rstr \<Rightarrow> bool" where
  "is_provider_turn_id v = canonical_bounded_id v 128"

definition is_room_observation_agent_id :: "rstr \<Rightarrow> bool" where
  "is_room_observation_agent_id v = canonical_bounded_id v 128"

definition is_provider_input :: "unicode \<Rightarrow> rstr \<Rightarrow> bool" where
  "is_provider_input U v \<longleftrightarrow> length v \<le> 20000 \<and> 0 \<notin> set v \<and> has_visible_text U v"

definition is_room_observation_view :: "unicode \<Rightarrow> rstr \<Rightarrow> bool" where
  "is_room_observation_view U v \<longleftrightarrow>
     length v \<le> 20000 \<and> byte_len v \<le> 96 * 1024 \<and> 0 \<notin> set v \<and> has_visible_text U v"

section \<open>Search text (message\_search.rs)\<close>

definition clean_message_search_value :: "rstr \<Rightarrow> nat \<Rightarrow> rstr" where
  "clean_message_search_value v limit = clean_trimmed_crlf_text v limit"

definition clean_message_search_query :: "rstr \<Rightarrow> rstr" where
  "clean_message_search_query v = clean_message_search_value v 200"

definition casefold_message_search_text :: "unicode \<Rightarrow> rstr \<Rightarrow> rstr" where
  "casefold_message_search_text U v = case_fold U v"

definition compact_casefolded_message_search_text :: "rstr \<Rightarrow> rstr" where
  "compact_casefolded_message_search_text v = filter (\<lambda>c. \<not> is_python_whitespace c) v"

section \<open>Identifiers are canonical\<close>

lemma clean_trimmed_length: "length (clean_trimmed_crlf_text v n) \<le> n"
  unfolding clean_trimmed_crlf_text_def
  by (rule order_trans [OF length_trim_matches]) simp

lemma clean_trimmed_set:
  "c \<in> set (clean_trimmed_crlf_text v n) \<Longrightarrow> c \<noteq> 13 \<and> c \<noteq> 10"
proof -
  assume "c \<in> set (clean_trimmed_crlf_text v n)"
  then have "c \<in> set (map (\<lambda>c. if c \<in> {13, 10} then 32 else c) v)"
    unfolding clean_trimmed_crlf_text_def
    by (meson in_set_takeD set_trim_matches subsetD)
  then show ?thesis by auto
qed

lemma map_crlf_id: "(\<And>c. c \<in> set v \<Longrightarrow> c \<noteq> 13 \<and> c \<noteq> 10) \<Longrightarrow>
    map (\<lambda>c. if c \<in> {13, 10} then 32 else c) v = (v :: rstr)"
  by (induction v) auto

lemma clean_trimmed_idem [text_simps]:
  "clean_trimmed_crlf_text (clean_trimmed_crlf_text v n) n = clean_trimmed_crlf_text v n"
proof -
  let ?r = "clean_trimmed_crlf_text v n"
  have "map (\<lambda>c. if c \<in> {13, 10} then 32 else c) ?r = ?r"
    by (rule map_crlf_id) (rule clean_trimmed_set)
  moreover have "trim_matches is_python_whitespace ?r = ?r"
    unfolding clean_trimmed_crlf_text_def by (rule trim_matches_idem)
  moreover have "take n ?r = ?r"
    using clean_trimmed_length by simp
  ultimately show ?thesis
    unfolding clean_trimmed_crlf_text_def [of "?r" n] by simp
qed

text \<open>C29: an accepted room identifier is a single path-safe component of at most
  128 characters that names no parent directory, contains no line break, and is accepted
  again unchanged.\<close>

theorem room_id_canonical:
  assumes "validate_room_id v = Ok r"
  shows "r \<noteq> [] \<and> r \<noteq> str ''.'' \<and> r \<noteq> str ''..'' \<and> length r \<le> 128
    \<and> 47 \<notin> set r \<and> 92 \<notin> set r \<and> 10 \<notin> set r \<and> 13 \<notin> set r
    \<and> trimmed is_python_whitespace r \<and> validate_room_id r = Ok r"
proof -
  have r: "r = clean_trimmed_crlf_text v 128"
    and ok: "r \<noteq> []" "r \<notin> {str ''.'', str ''..''}" "\<forall>c \<in> set r. c \<noteq> 47 \<and> c \<noteq> 92"
    using assms by (auto simp: validate_room_id_def clean_identifier_def Let_def split: if_splits)
  have "clean_identifier r 128 = r"
    by (simp add: r clean_identifier_def clean_trimmed_idem)
  then have "validate_room_id r = Ok r"
    using ok by (auto simp: validate_room_id_def Let_def)
  moreover have "length r \<le> 128" using r clean_trimmed_length by simp
  moreover have "10 \<notin> set r" "13 \<notin> set r" using r clean_trimmed_set by blast+
  moreover have "trimmed is_python_whitespace r"
    unfolding r clean_trimmed_crlf_text_def by (rule trim_matches_trimmed)
  ultimately show ?thesis using ok by auto
qed

theorem room_id_canonical_witness:
  "validate_room_id (str '' lobby '') = Ok (str ''lobby'')
   \<and> validate_room_id (str ''lobby'') = Ok (str ''lobby'')"
proof -
  have h: "validate_room_id (str '' lobby '') = Ok (str ''lobby'')" by code_simp
  then show ?thesis using room_id_canonical [OF h] by simp
qed

section \<open>Messages are bounded and free of NUL and CR\<close>

lemma replace_crlf_id: "13 \<notin> set s \<Longrightarrow> replace_crlf s = s"
  by (induction s rule: replace_crlf.induct) auto

lemma replace_crlf_set: "c \<in> set (replace_crlf s) \<Longrightarrow> c \<in> set s"
  by (induction s rule: replace_crlf.induct) (auto split: if_splits)

lemma clean_message_set: "c \<in> set (clean_message v n) \<Longrightarrow> c \<noteq> 0 \<and> c \<noteq> 13"
proof -
  assume "c \<in> set (clean_message v n)"
  then have "c \<in> set (map (\<lambda>c. if c = 13 then 10 else c) (replace_crlf (filter (\<lambda>c. c \<noteq> 0) v)))"
    unfolding clean_message_def trim_def
    by (meson in_set_takeD set_trim_matches subsetD)
  then show ?thesis by (auto dest: replace_crlf_set split: if_splits)
qed

lemma clean_message_length: "length (clean_message v n) \<le> n"
  by (simp add: clean_message_def)

lemma clean_message_hd: "clean_message v n = c # t \<Longrightarrow> \<not> is_whitespace c"
proof -
  assume a: "clean_message v n = c # t"
  let ?t = "trim (map (\<lambda>c. if c = 13 then 10 else c) (replace_crlf (filter (\<lambda>c. c \<noteq> 0) v)))"
  have e: "take n ?t @ drop n ?t = ?t" by (rule append_take_drop_id)
  have f: "take n ?t = c # t" using a unfolding clean_message_def .
  have "?t = c # (t @ drop n ?t)" using e unfolding f by simp
  then obtain u where u: "?t = c # u" by blast
  have "trimmed is_whitespace ?t" unfolding trim_def by (rule trim_matches_trimmed)
  then show ?thesis unfolding u by (simp add: trimmed_def)
qed

lemma map_cr_id: "13 \<notin> set v \<Longrightarrow> map (\<lambda>c. if c = 13 then 10 else c) v = (v :: rstr)"
  by (induction v) auto

lemma clean_message_fixed:
  assumes "\<And>c. c \<in> set v \<Longrightarrow> c \<noteq> 0 \<and> c \<noteq> 13" "length v \<le> n" "trimmed is_whitespace v"
  shows "clean_message v n = v"
proof -
  have "filter (\<lambda>c. c \<noteq> 0) v = v" using assms(1) by (simp add: filter_id_conv)
  moreover have "13 \<notin> set v" using assms(1) by blast
  ultimately show ?thesis
    using assms(2,3) trim_matches_id_iff [of is_whitespace v]
    by (simp add: clean_message_def replace_crlf_id map_cr_id trim_def)
qed

lemma clean_message_trimmed_iff:
  "trimmed is_whitespace (clean_message v n) \<longleftrightarrow>
     clean_message v n = [] \<or> \<not> is_whitespace (last (clean_message v n))"
  using clean_message_hd [of v n] by (cases "clean_message v n") (auto simp: trimmed_def)

lemma clean_message_idem_iff:
  "clean_message (clean_message v n) n = clean_message v n \<longleftrightarrow>
     clean_message v n = [] \<or> \<not> is_whitespace (last (clean_message v n))"
proof -
  let ?r = "clean_message v n"
  have fix_iff: "clean_message ?r n = ?r \<longleftrightarrow> trimmed is_whitespace ?r"
  proof
    assume "trimmed is_whitespace ?r"
    then show "clean_message ?r n = ?r"
      by (intro clean_message_fixed clean_message_length) (auto dest: clean_message_set)
  next
    assume fixed: "clean_message ?r n = ?r"
    have no13: "13 \<notin> set ?r" using clean_message_set by blast
    have no0: "filter (\<lambda>c. c \<noteq> 0) ?r = ?r"
      using clean_message_set [of _ v n] by (intro filter_True) blast
    have cut: "take n (trim ?r) = ?r"
      using fixed no0 no13 unfolding clean_message_def [of ?r n]
      by (simp add: replace_crlf_id map_cr_id)
    have "length (trim ?r) \<le> length ?r"
      unfolding trim_def by (rule length_trim_matches)
    then have "trim ?r = ?r"
      using cut clean_message_length [of v n] by (simp add: order_trans)
    then show "trimmed is_whitespace ?r" by (simp add: trim_def trim_matches_id_iff)
  qed
  then show ?thesis by (simp add: clean_message_trimmed_iff)
qed

lemma replace_crlf_length: "length (replace_crlf s) \<le> length s"
  by (induction s rule: replace_crlf.induct) auto

lemma clean_message_short_trimmed:
  assumes "length v \<le> n"
  shows "trimmed is_whitespace (clean_message v n)"
proof -
  let ?t = "trim (map (\<lambda>c. if c = 13 then 10 else c) (replace_crlf (filter (\<lambda>c. c \<noteq> 0) v)))"
  have "length ?t \<le> length (replace_crlf (filter (\<lambda>c. c \<noteq> 0) v))"
    unfolding trim_def by (rule order_trans [OF length_trim_matches]) simp
  also have "\<dots> \<le> length (filter (\<lambda>c. c \<noteq> 0) v)" by (rule replace_crlf_length)
  also have "\<dots> \<le> length v" by (rule length_filter_le)
  finally have "length ?t \<le> length v" .
  then have "clean_message v n = ?t" using assms by (simp add: clean_message_def)
  then show ?thesis unfolding trim_def by (simp only: trim_matches_trimmed)
qed

text \<open>A cleaned message has at most the limit's characters, holds no NUL
  and no carriage return, and does not start with whitespace; cleaning it again changes
  nothing exactly when the limit did not cut it just after whitespace.\<close>

theorem clean_message_canonical:
  "length (clean_message v n) \<le> n
   \<and> 0 \<notin> set (clean_message v n) \<and> 13 \<notin> set (clean_message v n)
   \<and> (clean_message v n = [] \<or> \<not> is_whitespace (hd (clean_message v n)))
   \<and> (clean_message (clean_message v n) n = clean_message v n \<longleftrightarrow>
        clean_message v n = [] \<or> \<not> is_whitespace (last (clean_message v n)))"
proof -
  have "clean_message v n = [] \<or> \<not> is_whitespace (hd (clean_message v n))"
    using clean_message_hd [of v n] by (cases "clean_message v n") auto
  then show ?thesis
    using clean_message_length clean_message_set clean_message_idem_iff by blast
qed

theorem clean_message_canonical_witness:
  "clean_message (str '' ab cd'') 3 = str ''ab ''
   \<and> clean_message (clean_message (str '' ab cd'') 3) 3 \<noteq> clean_message (str '' ab cd'') 3"
proof -
  have c: "clean_message (str '' ab cd'') 3 = str ''ab ''" by code_simp
  have l: "is_whitespace (last (str ''ab ''))" by code_simp
  show ?thesis using clean_message_canonical [of "str '' ab cd''" 3] c l by auto
qed

section \<open>Single lines\<close>

text \<open>The words of a line: nonempty, without whitespace.\<close>

definition good_words :: "rstr list \<Rightarrow> bool" where
  "good_words ws \<longleftrightarrow> (\<forall>w \<in> set ws. w \<noteq> [] \<and> (\<forall>c \<in> set w. \<not> is_whitespace c))"

lemma good_words_simps [simp]:
  "good_words []"
  "good_words (w # ws) \<longleftrightarrow> w \<noteq> [] \<and> (\<forall>c \<in> set w. \<not> is_whitespace c) \<and> good_words ws"
  by (auto simp: good_words_def)

lemma is_whitespace_32 [simp]: "is_whitespace 32"
  by (simp add: is_whitespace_def)

lemma split_whitespace_good: "good_words (split_whitespace v)"
  using split_on_pieces [of _ is_whitespace v]
  by (auto simp: good_words_def split_whitespace_def)

lemma join_word: "join [32] (w # ws) = w @ (if ws = [] then [] else 32 # join [32] ws)"
  by (cases ws) simp_all

lemma split_whitespace_sep:
  "\<forall>c \<in> set w. \<not> is_whitespace c \<Longrightarrow> w \<noteq> [] \<Longrightarrow>
   split_whitespace (w @ 32 # s) = w # split_whitespace s"
  by (simp add: split_whitespace_def split_on_sep)

lemma split_whitespace_word:
  "\<forall>c \<in> set w. \<not> is_whitespace c \<Longrightarrow> w \<noteq> [] \<Longrightarrow> split_whitespace w = [w]"
  by (simp add: split_whitespace_def split_on_none)

lemma split_whitespace_join:
  "good_words ws \<Longrightarrow> sp = [] \<or> sp = [32] \<Longrightarrow> split_whitespace (join [32] ws @ sp) = ws"
proof (induction ws)
  case Nil
  then show ?case by (auto simp: split_whitespace_def)
next
  case (Cons w ws)
  show ?case
  proof (cases "ws = []")
    case True
    then show ?thesis
      using Cons.prems split_whitespace_sep [of w "[]"] split_whitespace_word [of w]
      by (auto simp: split_whitespace_def)
  next
    case False
    then show ?thesis
      using Cons split_whitespace_sep [of w "join [32] ws @ sp"] by (simp add: join_word)
  qed
qed

lemma join_eq_Nil: "good_words ws \<Longrightarrow> join [32] ws = [] \<longleftrightarrow> ws = []"
  by (cases ws) (simp_all add: join_word)

lemma take_join:
  "good_words ws \<Longrightarrow>
   \<exists>vs sp. good_words vs \<and> (sp = [] \<or> sp = [32] \<and> vs \<noteq> []) \<and> take n (join [32] ws) = join [32] vs @ sp"
proof (induction ws arbitrary: n)
  case Nil
  show ?case by (intro exI [of _ "[]"]) simp
next
  case (Cons w ws)
  consider "n = 0" | "0 < n" "n \<le> length w \<or> ws = []" | "n = Suc (length w)" "ws \<noteq> []"
    | m where "n = Suc (length w) + m" "0 < m" "ws \<noteq> []"
  proof -
    assume a: "n = 0 \<Longrightarrow> thesis" "0 < n \<Longrightarrow> n \<le> length w \<or> ws = [] \<Longrightarrow> thesis"
      "n = Suc (length w) \<Longrightarrow> ws \<noteq> [] \<Longrightarrow> thesis"
      "\<And>m. n = Suc (length w) + m \<Longrightarrow> 0 < m \<Longrightarrow> ws \<noteq> [] \<Longrightarrow> thesis"
    show thesis
    proof (cases "n \<le> length w \<or> ws = []")
      case True
      then show ?thesis using a(1,2) by blast
    next
      case False
      then have "n = Suc (length w) + (n - Suc (length w))" by simp
      then show ?thesis using a(3) a(4) [of "n - Suc (length w)"] False by linarith
    qed
  qed
  then show ?case
  proof cases
    case 1
    then show ?thesis by (intro exI [of _ "[]"]) simp
  next
    case 2
    then have "take n (join [32] (w # ws)) = join [32] [take n w] @ []"
      by (auto simp: join_word)
    moreover have "good_words [take n w]"
      using Cons.prems 2 by (auto dest: in_set_takeD)
    ultimately show ?thesis by blast
  next
    case 3
    then have "take n (join [32] (w # ws)) = join [32] [w] @ [32]"
      by (simp add: join_word)
    moreover have "good_words [w]" using Cons.prems by simp
    ultimately show ?thesis by blast
  next
    case (4 m)
    obtain vs sp where vs: "good_words vs" "sp = [] \<or> sp = [32] \<and> vs \<noteq> []"
      "take m (join [32] ws) = join [32] vs @ sp"
      using Cons by (metis good_words_simps(2))
    have "join [32] ws \<noteq> []" using Cons.prems 4 by (simp add: join_eq_Nil)
    then have "vs \<noteq> []" using vs 4 by (cases vs) auto
    then have "take n (join [32] (w # ws)) = join [32] (w # vs) @ sp"
      using 4 vs by (simp add: join_word)
    moreover have "good_words (w # vs)" using Cons.prems vs by simp
    ultimately show ?thesis using vs(2) by blast
  qed
qed

lemma join_chars: "good_words ws \<Longrightarrow> c \<in> set (join [32] ws) \<Longrightarrow> c = 32 \<or> \<not> is_whitespace c"
  by (induction ws) (auto simp: join_word split: if_splits)

lemma single_line_shape:
  "\<exists>ws sp. good_words ws \<and> (sp = [] \<or> sp = [32] \<and> ws \<noteq> []) \<and> clean_single_line v n = join [32] ws @ sp"
  unfolding clean_single_line_def by (rule take_join) (rule split_whitespace_good)

lemma clean_single_line_join:
  assumes "good_words ws" "sp = [] \<or> sp = [32]" "length (join [32] ws) \<le> n"
  shows "clean_single_line (join [32] ws @ sp) n = join [32] ws"
proof -
  have "map (\<lambda>c. if c \<in> {13, 10, 9} then 32 else c) (join [32] ws @ sp) = join [32] ws @ sp"
  proof (rule map_idI)
    fix c assume "c \<in> set (join [32] ws @ sp)"
    then have "c = 32 \<or> \<not> is_whitespace c" using assms(1,2) join_chars by auto
    then show "(if c \<in> {13, 10, 9} then 32 else c) = c" by (auto simp: is_whitespace_def)
  qed
  then show ?thesis
    using assms split_whitespace_join [OF assms(1,2)] by (simp add: clean_single_line_def)
qed

lemma clean_single_line_length: "length (clean_single_line v n) \<le> n"
  by (simp add: clean_single_line_def)

lemma last_join: "good_words ws \<Longrightarrow> ws \<noteq> [] \<Longrightarrow> \<not> is_whitespace (last (join [32] ws))"
  by (induction ws) (auto simp: join_word join_eq_Nil)

text \<open>Cleaning twice, thrice, and when once was enough.\<close>

lemma single_line_facts:
  "clean_single_line (clean_single_line (clean_single_line v n) n) n
     = clean_single_line (clean_single_line v n) n
   \<and> clean_single_line (clean_single_line v n) n = trim_end_matches is_whitespace (clean_single_line v n)
   \<and> (clean_single_line (clean_single_line v n) n = clean_single_line v n \<longleftrightarrow>
        clean_single_line v n = [] \<or> last (clean_single_line v n) \<noteq> 32)"
proof -
  obtain ws sp where ws: "good_words ws" "sp = [] \<or> sp = [32] \<and> ws \<noteq> []"
    and v: "clean_single_line v n = join [32] ws @ sp"
    using single_line_shape by blast
  have len: "length (join [32] ws) \<le> n"
    using clean_single_line_length [of v n] v by simp
  have twice: "clean_single_line (clean_single_line v n) n = join [32] ws"
    using v ws len clean_single_line_join by auto
  have thrice: "clean_single_line (join [32] ws) n = join [32] ws"
    using clean_single_line_join [of ws "[]" n] ws len by simp
  have noend: "join [32] ws = [] \<or> \<not> is_whitespace (last (join [32] ws))"
    using ws last_join by (cases "ws = []") auto
  have "trim_end_matches is_whitespace (join [32] ws @ sp) = join [32] ws"
    using ws noend trim_end_id_iff [of is_whitespace "join [32] ws"]
    by (auto simp: trim_end_matches_def)
  then show ?thesis
    using twice thrice v noend ws by auto
qed

text \<open>Cleaning a line twice is the same as cleaning it three times; once is
  enough exactly when the limit did not leave a trailing space, and the second cleaning then
  removes that space and nothing else.\<close>

theorem single_line_fixpoint:
  "clean_single_line (clean_single_line (clean_single_line v n) n) n
     = clean_single_line (clean_single_line v n) n
   \<and> clean_single_line (clean_single_line v n) n = trim_end_matches is_whitespace (clean_single_line v n)
   \<and> (clean_single_line (clean_single_line v n) n = clean_single_line v n \<longleftrightarrow>
        clean_single_line v n = [] \<or> last (clean_single_line v n) \<noteq> 32)"
  by (rule single_line_facts)

theorem single_line_fixpoint_witness:
  "clean_single_line (str '' ab cd'') 3 = str ''ab ''
   \<and> clean_single_line (clean_single_line (str '' ab cd'') 3) 3 = str ''ab''"
proof -
  have c: "clean_single_line (str '' ab cd'') 3 = str ''ab ''" by code_simp
  have e: "trim_end_matches is_whitespace (str ''ab '') = str ''ab''" by code_simp
  show ?thesis using single_line_fixpoint [of "str '' ab cd''" 3] c e by auto
qed

end
