(* ===== verification/Json.thy ===== *)
theory Json
  imports Ordered_Map
begin

text \<open>
  JSON values as \<open>serde_json::Value\<close> holds them, their accessors, and the canonical encoding
  of canonical_json.rs, whose SHA-256 digest is the identity of a command payload and of a
  room-settings revision. The section on unique decoding shows that the encoding determines
  the value, so two payloads share a digest only if they are equal or SHA-256 collides.
\<close>

section \<open>Values\<close>

text \<open>
  A number is a \<open>u64\<close>, a negative \<open>i64\<close> or a float. The program never computes with a float:
  the model keeps the text that serde-json prints for it.
\<close>

datatype jnumber = PosInt "64 word" | NegInt "64 word" | Float rstr

datatype json =
  Null | Bool bool | Number jnumber | String rstr | Array "json list" | Object "(rstr \<times> json) list"

type_synonym jmap = "(rstr, json) omap"

fun as_object :: "json \<Rightarrow> jmap option" where
  "as_object (Object m) = Some m"
| "as_object v = None"

fun as_array :: "json \<Rightarrow> json list option" where
  "as_array (Array vs) = Some vs"
| "as_array v = None"

fun as_str :: "json \<Rightarrow> rstr option" where
  "as_str (String s) = Some s"
| "as_str v = None"

fun as_bool :: "json \<Rightarrow> bool option" where
  "as_bool (Bool b) = Some b"
| "as_bool v = None"

fun number_as_i64 :: "jnumber \<Rightarrow> int option" where
  "number_as_i64 (PosInt w) = (if uint w \<le> i64_max then Some (uint w) else None)"
| "number_as_i64 (NegInt w) = Some (sint w)"
| "number_as_i64 (Float t) = None"

fun number_as_u64 :: "jnumber \<Rightarrow> 64 word option" where
  "number_as_u64 (PosInt w) = Some w"
| "number_as_u64 (NegInt w) = None"
| "number_as_u64 (Float t) = None"

fun as_i64 :: "json \<Rightarrow> int option" where
  "as_i64 (Number n) = number_as_i64 n"
| "as_i64 v = None"

lemma as_eq_Some [simp]:
  "as_object v = Some m \<longleftrightarrow> v = Object m"
  "as_array v = Some vs \<longleftrightarrow> v = Array vs"
  "as_str v = Some s \<longleftrightarrow> v = String s"
  "as_bool v = Some b \<longleftrightarrow> v = Bool b"
  by (cases v; auto)+

lemma as_i64_range: "as_i64 v = Some i \<Longrightarrow> i64_min \<le> i \<and> i \<le> i64_max"
proof (cases v)
  case (Number n)
  assume "as_i64 v = Some i"
  with Number show ?thesis
  proof (cases n)
    case (PosInt w)
    then show ?thesis
      using Number \<open>as_i64 v = Some i\<close> order_trans [of "i64_min" 0 "uint w"]
      by (auto simp: i64_min_def split: if_splits)
  next
    case (NegInt w)
    have "- (2 ^ 63) \<le> sint w" "sint w < 2 ^ 63"
      using sint_greater_eq [of w] sint_less [of w] by simp_all
    then show ?thesis
      using Number NegInt \<open>as_i64 v = Some i\<close> by (simp add: i64_min_def i64_max_def)
  qed simp
qed simp_all

text \<open>What \<open>json!\<close> builds from a nonnegative integer, a string list and an object literal.\<close>

definition json_i64 :: "int \<Rightarrow> json" where
  "json_i64 i = Number (if 0 \<le> i then PosInt (word_of_int i) else NegInt (word_of_int i))"

definition json_u32 :: "32 word \<Rightarrow> json" where
  "json_u32 w = Number (PosInt (ucast w))"

definition as_u32 :: "json \<Rightarrow> 32 word option" where
  "as_u32 v =
     (case v of
        Number (PosInt w) \<Rightarrow> if unat w < 2 ^ 32 then Some (ucast w) else None
      | _ \<Rightarrow> None)"

definition json_strs :: "rstr list \<Rightarrow> json" where
  "json_strs ss = Array (map String ss)"

definition json_object :: "(rstr \<times> json) list \<Rightarrow> json" where
  "json_object es = Object (om_from es)"

lemma as_u32_json_u32 [simp]: "as_u32 (json_u32 d) = Some d"
  using u32_width [of d] by (simp add: as_u32_def json_u32_def)

section \<open>The canonical encoding\<close>

definition hex_digit :: "nat \<Rightarrow> nat" where
  "hex_digit n = (if n < 10 then 48 + n else 87 + n)"

definition escape_char :: "nat \<Rightarrow> rstr" where
  "escape_char c =
     (if c = 34 then [92, 34]
      else if c = 92 then [92, 92]
      else if c = 8 then [92, 98]
      else if c = 12 then [92, 102]
      else if c = 10 then [92, 110]
      else if c = 13 then [92, 114]
      else if c = 9 then [92, 116]
      else if c \<le> 31 then [92, 117, 48, 48, hex_digit (c div 16), hex_digit (c mod 16)]
      else [c])"

definition encode_string :: "rstr \<Rightarrow> rstr" where
  "encode_string s = [34] @ concat (map escape_char s) @ [34]"

fun number_to_string :: "jnumber \<Rightarrow> rstr" where
  "number_to_string (PosInt w) = show_nat (unat w)"
| "number_to_string (NegInt w) = show_int (sint w)"
| "number_to_string (Float t) = t"

lemma size_json_list [termination_simp]: "v \<in> set vs \<Longrightarrow> size v < Suc (size_list size vs)"
  by (induction vs) auto

lemma size_json_entries [termination_simp]:
  "(k, v) \<in> set m \<Longrightarrow> size v < Suc (size_list (size_prod (\<lambda>x. 0) size) m)"
  by (induction m) auto

lemma size_json_entry [termination_simp]:
  "e \<in> set m \<Longrightarrow> size (snd e) < Suc (size_list (size_prod (\<lambda>x. 0) size) m)"
  by (cases e) (simp add: size_json_entries)

function encode :: "json \<Rightarrow> rstr" where
  "encode Null = str ''null''"
| "encode (Bool b) = (if b then str ''true'' else str ''false'')"
| "encode (Number n) = number_to_string n"
| "encode (String s) = encode_string s"
| "encode (Array vs) = [91] @ join [44] (map encode vs) @ [93]"
| "encode (Object m) =
     [123] @ join [44] (map (\<lambda>e. encode_string (fst e) @ [58] @ encode (snd e)) (sort_key fst m))
     @ [125]"
  by pat_completeness auto
termination
  by (relation "measure size") (auto simp: termination_simp)

section \<open>Unique decoding\<close>

text \<open>
  The character set of a printed number, and the values the parser of serde-json and the
  constructors produce: a negative number is negative, a float prints with a point or an
  exponent, object keys are strictly increasing.
\<close>

definition number_char :: "nat \<Rightarrow> bool" where
  "number_char c \<longleftrightarrow> is_ascii_digit c \<or> c \<in> {43, 45, 46, 69, 101}"

definition float_mark :: "nat \<Rightarrow> bool" where
  "float_mark c \<longleftrightarrow> c \<in> {46, 69, 101}"

fun number_wf :: "jnumber \<Rightarrow> bool" where
  "number_wf (PosInt w) = True"
| "number_wf (NegInt w) = (sint w < 0)"
| "number_wf (Float t) = (list_all number_char t \<and> list_ex float_mark t)"

function json_wf :: "json \<Rightarrow> bool" where
  "json_wf Null = True"
| "json_wf (Bool b) = True"
| "json_wf (Number n) = number_wf n"
| "json_wf (String s) = True"
| "json_wf (Array vs) = (\<forall>v \<in> set vs. json_wf v)"
| "json_wf (Object m) = (om_wf m \<and> (\<forall>e \<in> set m. json_wf (snd e)))"
  by pat_completeness auto
termination
  by (relation "measure size") (auto simp: termination_simp)

lemma hex_digit_inj: "a < 16 \<Longrightarrow> b < 16 \<Longrightarrow> hex_digit a = hex_digit b \<Longrightarrow> a = b"
  by (auto simp: hex_digit_def split: if_splits)

lemma escape_char_shape:
  "escape_char c = [c] \<and> c \<noteq> 92 \<or>
   (\<exists>k. escape_char c = [92, k] \<and> k \<noteq> 117 \<and>
        (c, k) \<in> {(34, 34), (92, 92), (8, 98), (12, 102), (10, 110), (13, 114), (9, 116)}) \<or>
   c \<le> 31 \<and> escape_char c = [92, 117, 48, 48, hex_digit (c div 16), hex_digit (c mod 16)]"
  by (simp add: escape_char_def)

lemma hex_pair_inj:
  "c \<le> 31 \<Longrightarrow> d \<le> 31 \<Longrightarrow> hex_digit (c div 16) = hex_digit (d div 16) \<Longrightarrow>
   hex_digit (c mod 16) = hex_digit (d mod 16) \<Longrightarrow> c = d"
proof -
  assume a: "c \<le> 31" "d \<le> 31" "hex_digit (c div 16) = hex_digit (d div 16)"
    "hex_digit (c mod 16) = hex_digit (d mod 16)"
  have "c div 16 < 16" "d div 16 < 16" using a(1,2) by (simp_all add: less_mult_imp_div_less)
  then have "c div 16 = d div 16" using a(3) by (rule hex_digit_inj)
  moreover have "c mod 16 = d mod 16" by (rule hex_digit_inj [OF _ _ a(4)]) simp_all
  ultimately show "c = d" by (metis div_mult_mod_eq)
qed

lemma escape_char_decode:
  assumes "escape_char c @ r = escape_char d @ s"
  shows "c = d \<and> r = s"
  using escape_char_shape [of c] escape_char_shape [of d]
proof (elim disjE exE conjE)
  fix k l
  assume "escape_char c = [92, k]" "escape_char d = [92, l]"
    "(c, k) \<in> {(34, 34), (92, 92), (8, 98), (12, 102), (10, 110), (13, 114), (9, 116)}"
    "(d, l) \<in> {(34, 34), (92, 92), (8, 98), (12, 102), (10, 110), (13, 114), (9, 116)}"
  then show ?thesis using assms by auto
next
  assume "c \<le> 31" "d \<le> 31"
    "escape_char c = [92, 117, 48, 48, hex_digit (c div 16), hex_digit (c mod 16)]"
    "escape_char d = [92, 117, 48, 48, hex_digit (d div 16), hex_digit (d mod 16)]"
  then show ?thesis using assms hex_pair_inj [of c d] by simp
qed (use assms in simp_all)

lemma escape_char_not_quote: "\<exists>x xs. escape_char c = x # xs \<and> x \<noteq> 34"
  by (auto simp: escape_char_def)

lemma escaped_decode:
  "concat (map escape_char a) @ 34 # r = concat (map escape_char b) @ 34 # s \<Longrightarrow> a = b \<and> r = s"
proof (induction a arbitrary: b)
  case Nil
  show ?case
  proof (cases b)
    case (Cons d b')
    then show ?thesis
      using Nil.prems escape_char_not_quote [of d] by auto
  qed (use Nil.prems in simp)
next
  case (Cons c a)
  show ?case
  proof (cases b)
    case Nil
    then show ?thesis
      using Cons.prems escape_char_not_quote [of c] by auto
  next
    case (Cons d b')
    with Cons.prems have
      "escape_char c @ (concat (map escape_char a) @ 34 # r) =
       escape_char d @ (concat (map escape_char b') @ 34 # s)" by simp
    from escape_char_decode [OF this] Cons.IH [of b'] Cons show ?thesis by simp
  qed
qed

lemma encode_string_decode:
  "encode_string a @ r = encode_string b @ s \<Longrightarrow> a = b \<and> r = s"
  unfolding encode_string_def by (rule escaped_decode) simp

lemma encode_string_hd: "\<exists>t. encode_string s = 34 # t"
  by (simp add: encode_string_def)

subsection \<open>Numbers\<close>

lemma show_nat_number_chars: "list_all number_char (show_nat n)"
  using show_nat_digits [of n] by (auto simp: list_all_iff number_char_def)

lemma number_to_string_chars: "number_wf n \<Longrightarrow> list_all number_char (number_to_string n)"
  by (cases n) (auto simp: show_nat_number_chars show_int_def number_char_def)

lemma number_to_string_nonempty: "number_wf n \<Longrightarrow> number_to_string n \<noteq> []"
  by (cases n) (auto simp: show_int_def)

lemma digit_not_mark: "is_ascii_digit c \<Longrightarrow> \<not> float_mark c \<and> c \<noteq> 45"
  by (auto simp: is_ascii_digit_def float_mark_def)

lemma show_nat_no_mark: "\<not> list_ex float_mark (show_nat n) \<and> hd (show_nat n) \<noteq> 45"
proof -
  have "\<forall>c \<in> set (show_nat n). is_ascii_digit c"
    using show_nat_digits by (auto simp: list_all_iff)
  then show ?thesis
    by (metis digit_not_mark hd_in_set list_ex_iff show_nat_nonempty)
qed

lemma number_to_string_inj:
  assumes "number_wf a" "number_wf b" "number_to_string a = number_to_string b"
  shows "a = b"
proof (cases a)
  case (PosInt v)
  then show ?thesis
    using assms show_nat_no_mark [of "unat v"]
    by (cases b) (auto simp: show_int_def word_unat_eq_iff)
next
  case (NegInt v)
  then have v: "number_to_string a = 45 # show_nat (nat (- sint v))"
    using assms by (simp add: show_int_def)
  then show ?thesis
  proof (cases b)
    case (PosInt w)
    then show ?thesis
      using v assms show_nat_no_mark [of "unat w"] by (metis list.sel(1) number_to_string.simps(1))
  next
    case (NegInt w)
    then have "sint v = sint w"
      using v assms \<open>a = NegInt v\<close> by (simp add: show_int_def)
    then show ?thesis using \<open>a = NegInt v\<close> NegInt by (simp add: sint_word_ariths(1) signed_word_eqI)
  next
    case (Float t)
    then show ?thesis
      using v assms show_nat_no_mark [of "nat (- sint v)"] by (auto simp: float_mark_def)
  qed
next
  case (Float t)
  then show ?thesis
    using assms show_nat_no_mark
    by (cases b) (auto simp: show_int_def float_mark_def)
qed

text \<open>A number is followed by a delimiter or by the end of the text.\<close>

definition ends :: "rstr \<Rightarrow> bool" where
  "ends r \<longleftrightarrow> r = [] \<or> hd r \<in> {44, 93, 125}"

lemma takeWhile_number:
  "list_all number_char t \<Longrightarrow> ends r \<Longrightarrow> takeWhile number_char (t @ r) = t"
  by (cases r) (auto simp: ends_def list_all_iff number_char_def is_ascii_digit_def takeWhile_append)

lemma number_decode:
  assumes "number_wf a" "number_wf b" "ends r" "ends s"
    and "number_to_string a @ r = number_to_string b @ s"
  shows "a = b \<and> r = s"
proof -
  have "number_to_string a = number_to_string b"
    using assms takeWhile_number number_to_string_chars by metis
  with assms show ?thesis using number_to_string_inj by simp
qed

subsection \<open>Sequences\<close>

text \<open>
  Items that decode uniquely before a delimiter and never start with the closing bracket
  decode uniquely as a comma-separated sequence.
\<close>

lemma join_cons: "join sep (w # ws) = w @ (if ws = [] then [] else sep @ join sep ws)"
  by (cases ws) simp_all

lemma join_decode:
  assumes "\<And>x y r s. x \<in> set xs \<Longrightarrow> P y \<Longrightarrow> ends r \<Longrightarrow> ends s \<Longrightarrow>
             f x @ r = f y @ s \<Longrightarrow> x = y \<and> r = s"
    and "\<And>x. P x \<Longrightarrow> f x \<noteq> [] \<and> hd (f x) \<notin> {93, 125}"
    and "\<forall>x \<in> set xs. P x" "\<forall>y \<in> set ys. P y" "close \<in> {93, 125}"
    and "join [44] (map f xs) @ close # r = join [44] (map f ys) @ close # s"
  shows "xs = ys \<and> r = s"
  using assms
proof (induction xs arbitrary: ys)
  case Nil
  show ?case
  proof (cases ys)
    case (Cons y ys')
    then have "close # r = f y @ ((if ys' = [] then [] else [44] @ join [44] (map f ys')) @ close # s)"
      using Nil.prems(6) by (simp add: join_cons)
    moreover have "f y \<noteq> []" using Nil.prems(2,4) Cons by simp
    ultimately have "hd (f y) = close" by (cases "f y") auto
    then show ?thesis using Nil.prems(2) [of y] Nil.prems(4,5) Cons by auto
  qed (use Nil.prems in simp)
next
  case (Cons x xs)
  let ?rest = "\<lambda>zs t. (if zs = [] then close # t else 44 # join [44] (map f zs) @ close # t)"
  have form: "join [44] (map f (z # zs)) @ close # t = f z @ ?rest zs t" for z zs t
    by (simp add: join_cons)
  show ?case
  proof (cases ys)
    case Nil
    then have "f x @ ?rest xs r = close # s"
      using Cons.prems(6) form [of x xs r] by simp
    moreover have "f x \<noteq> []" using Cons.prems(2,3) by simp
    ultimately have "hd (f x) = close" by (cases "f x") auto
    then show ?thesis using Cons.prems(2) [of x] Cons.prems(3,5) by auto
  next
    case (Cons y ys')
    have "f x @ ?rest xs r = f y @ ?rest ys' s"
      using Cons.prems(6) Cons form by metis
    moreover have "ends (?rest xs r)" "ends (?rest ys' s)"
      using Cons.prems(5) by (auto simp: ends_def)
    ultimately have xy: "x = y" and rest: "?rest xs r = ?rest ys' s"
      using Cons.prems(1) [of x y] Cons.prems(4) Cons by auto
    have ne: "xs = [] \<longleftrightarrow> ys' = []"
      using rest Cons.prems(5) by (auto split: if_splits)
    show ?thesis
    proof (cases "xs = []")
      case True
      with rest ne xy Cons show ?thesis by simp
    next
      case False
      then have "join [44] (map f xs) @ close # r = join [44] (map f ys') @ close # s"
        using rest ne by simp
      moreover have "x' = y' \<and> r' = s'"
        if "x' \<in> set xs" "P y'" "ends r'" "ends s'" "f x' @ r' = f y' @ s'" for x' y' r' s'
        using that Cons.prems(1) [of x' y' r' s'] by simp
      ultimately have "xs = ys' \<and> r = s"
        using Cons.prems(2-5) Cons Cons.IH [of ys'] by simp
      with xy Cons show ?thesis by simp
    qed
  qed
qed

subsection \<open>Values\<close>

text \<open>The first character tells the kind of value.\<close>

definition kind_char :: "json \<Rightarrow> nat \<Rightarrow> bool" where
  "kind_char v c = (case v of Null \<Rightarrow> c = 110 | Bool b \<Rightarrow> c = (if b then 116 else 102)
      | Number n \<Rightarrow> number_char c | String s \<Rightarrow> c = 34 | Array vs \<Rightarrow> c = 91 | Object m \<Rightarrow> c = 123)"

lemma encode_hd: "json_wf v \<Longrightarrow> \<exists>c t. encode v = c # t \<and> kind_char v c"
proof (cases v)
  case (Number n)
  assume "json_wf v"
  with Number have wf: "number_wf n" by simp
  obtain c t where "number_to_string n = c # t"
    using number_to_string_nonempty [OF wf] by (meson list.exhaust)
  then show ?thesis
    using number_to_string_chars [OF wf] Number by (simp add: kind_char_def)
qed (auto simp: kind_char_def str_def encode_string_def)

lemma number_char_others:
  "\<not> number_char 110" "\<not> number_char 116" "\<not> number_char 102" "\<not> number_char 34"
  "\<not> number_char 91" "\<not> number_char 93" "\<not> number_char 123" "\<not> number_char 125"
  by (simp_all add: number_char_def is_ascii_digit_def)

lemma encode_not_closing: "json_wf v \<Longrightarrow> encode v \<noteq> [] \<and> hd (encode v) \<notin> {93, 125}"
  using encode_hd [of v] number_char_others
  by (cases v) (auto simp: kind_char_def)

lemma sort_key_wf: "om_wf m \<Longrightarrow> sort_key fst m = m"
  unfolding om_wf_def by (metis sort_key_id_if_sorted strict_sorted_imp_sorted)

definition encode_entry :: "rstr \<times> json \<Rightarrow> rstr" where
  "encode_entry e = encode_string (fst e) @ [58] @ encode (snd e)"

lemma encode_object_wf: "om_wf m \<Longrightarrow> encode (Object m) = [123] @ join [44] (map encode_entry m) @ [125]"
  by (simp add: sort_key_wf encode_entry_def [abs_def])

definition decodes :: "json \<Rightarrow> bool" where
  "decodes a \<longleftrightarrow> (\<forall>b r s. json_wf a \<longrightarrow> json_wf b \<longrightarrow> ends r \<longrightarrow> ends s \<longrightarrow>
     encode a @ r = encode b @ s \<longrightarrow> a = b \<and> r = s)"

lemma same_kind:
  assumes "json_wf a" "json_wf b" "encode a @ r = encode b @ s"
  shows "\<exists>c. kind_char a c \<and> kind_char b c"
  using encode_hd [OF assms(1)] encode_hd [OF assms(2)] assms(3) by force

lemma decodes_array:
  assumes "\<And>v. v \<in> set vs \<Longrightarrow> decodes v"
  shows "decodes (Array vs)"
  unfolding decodes_def
proof (intro allI impI)
  fix b r s
  assume wf: "json_wf (Array vs)" "json_wf b" and e: "encode (Array vs) @ r = encode b @ s"
  obtain ws where b: "b = Array ws"
    using same_kind [OF wf e] number_char_others by (cases b) (auto simp: kind_char_def split: if_splits)
  have "vs = ws \<and> r = s"
  proof (rule join_decode [where P = json_wf and f = encode and close = 93])
    show "join [44] (map encode vs) @ 93 # r = join [44] (map encode ws) @ 93 # s"
      using e b by simp
  next
    fix x y t u
    assume "x \<in> set vs" "json_wf y" "ends t" "ends u" "encode x @ t = encode y @ u"
    then show "x = y \<and> t = u" using assms [of x] wf by (simp add: decodes_def)
  qed (use wf b encode_not_closing in auto)
  with b show "Array vs = b \<and> r = s" by simp
qed

lemma decodes_object:
  assumes "\<And>e. e \<in> set m \<Longrightarrow> decodes (snd e)"
  shows "decodes (Object m)"
  unfolding decodes_def
proof (intro allI impI)
  fix b r s
  assume wf: "json_wf (Object m)" "json_wf b" and e: "encode (Object m) @ r = encode b @ s"
  obtain n where b: "b = Object n"
    using same_kind [OF wf e] number_char_others by (cases b) (auto simp: kind_char_def split: if_splits)
  have enc: "encode (Object m) = [123] @ join [44] (map encode_entry m) @ [125]"
    "encode (Object n) = [123] @ join [44] (map encode_entry n) @ [125]"
    using wf b by (simp_all only: encode_object_wf json_wf.simps)
  have "m = n \<and> r = s"
  proof (rule join_decode [where P = "\<lambda>e. json_wf (snd e)" and f = encode_entry and close = 125])
    show "join [44] (map encode_entry m) @ 125 # r = join [44] (map encode_entry n) @ 125 # s"
      using e enc b by simp
  next
    fix x y t u
    assume x: "x \<in> set m" "json_wf (snd y)" "ends t" "ends u" "encode_entry x @ t = encode_entry y @ u"
    then have "encode_string (fst x) @ 58 # encode (snd x) @ t =
               encode_string (fst y) @ 58 # encode (snd y) @ u"
      by (simp add: encode_entry_def)
    from encode_string_decode [OF this] have "fst x = fst y" "encode (snd x) @ t = encode (snd y) @ u"
      by simp_all
    then show "x = y \<and> t = u"
      using x assms [of x] wf by (auto simp: decodes_def prod_eq_iff)
  qed (use wf b in \<open>auto simp: encode_entry_def encode_string_def\<close>)
  with b show "Object m = b \<and> r = s" by simp
qed

lemma decodes: "decodes a"
proof (induction a)
  case (Number n)
  show ?case
    unfolding decodes_def
  proof (intro allI impI)
    fix b r s
    assume *: "json_wf (Number n)" "json_wf b" "ends r" "ends s"
      "encode (Number n) @ r = encode b @ s"
    obtain k where "b = Number k"
      using same_kind [OF *(1,2,5)] number_char_others by (cases b) (auto simp: kind_char_def split: if_splits)
    then show "Number n = b \<and> r = s" using * number_decode [of n k r s] by simp
  qed
next
  case (String t)
  show ?case
    unfolding decodes_def
  proof (intro allI impI)
    fix b r s
    assume *: "json_wf (String t)" "json_wf b" "encode (String t) @ r = encode b @ s"
    obtain k where "b = String k"
      using same_kind [OF *] number_char_others by (cases b) (auto simp: kind_char_def split: if_splits)
    then show "String t = b \<and> r = s" using * encode_string_decode [of t r k s] by simp
  qed
next
  case (Array vs)
  then show ?case by (rule decodes_array)
next
  case (Object m)
  then show ?case
    by (intro decodes_object) (metis prod.collapse snds.intros)
next
  case Null
  show ?case
    unfolding decodes_def
  proof (intro allI impI)
    fix b r s
    assume *: "json_wf Null" "json_wf b" "encode Null @ r = encode b @ s"
    have "b = Null"
      using same_kind [OF *] number_char_others by (cases b) (auto simp: kind_char_def split: if_splits)
    then show "Null = b \<and> r = s" using * by simp
  qed
next
  case (Bool c)
  show ?case
    unfolding decodes_def
  proof (intro allI impI)
    fix b r s
    assume *: "json_wf (Bool c)" "json_wf b" "encode (Bool c) @ r = encode b @ s"
    have "b = Bool c"
      using same_kind [OF *] number_char_others
      by (cases b) (auto simp: kind_char_def split: if_splits)
    then show "Bool c = b \<and> r = s" using * by simp
  qed
qed

lemma encode_inj:
  "json_wf a \<Longrightarrow> json_wf b \<Longrightarrow> encode a = encode b \<Longrightarrow> a = b"
  using decodes [of a] by (metis append_Nil2 decodes_def ends_def)

text \<open>The order in which a JSON object lists its distinct keys does not change its encoding.\<close>

lemma om_wf_sort_key: "distinct (om_keys m) \<Longrightarrow> om_wf (sort_key fst m)"
proof -
  assume "distinct (om_keys m)"
  then have "distinct (map fst (sort_key fst m))"
    by (simp add: om_keys_def distinct_map)
  then show ?thesis by (simp add: om_wf_def strict_sorted_iff)
qed

lemma encode_object_key_order:
  assumes "set m = set n" "distinct (om_keys m)" "distinct (om_keys n)"
  shows "encode (Object m) = encode (Object n)"
proof -
  have wf: "om_wf (sort_key fst m)" "om_wf (sort_key fst n)"
    using assms om_wf_sort_key by blast+
  have "set (sort_key fst m) = set (sort_key fst n)" using assms(1) by simp
  then have "om_get (sort_key fst m) k = om_get (sort_key fst n) k" for k
    using om_wf_get_set [OF wf(1)] om_wf_get_set [OF wf(2)]
    by (metis not_Some_eq)
  then have "sort_key fst m = sort_key fst n" using wf om_ext by blast
  then show ?thesis by simp
qed

end
