(* ===== verification/Room_Model.thy ===== *)
theory Room_Model
  imports Text_Policy Json
begin

text \<open>
  The records and enumerations of the domain crate (model.rs, agent_session_state.rs,
  agent_session_initial.rs, the queued input of room_turn.rs and the persona summary of
  persona.rs) with the operations model.rs and agent_session_initial.rs give them. A time
  stamp is an integer (nanoseconds since the epoch), an identifier the code draws with
  \<open>Uuid::new_v4\<close> is an argument.
\<close>

type_synonym timestamp = int
type_synonym uuid = "128 word"

definition LOCAL_OPERATOR_USER_ID :: rstr where
  "LOCAL_OPERATOR_USER_ID = str ''operator-local-user''"

definition LOCAL_OPERATOR_PARTICIPANT_ID :: rstr where
  "LOCAL_OPERATOR_PARTICIPANT_ID = str ''operator-local''"

definition CURRENT_RUNTIME_PROFILE_VERSION :: "32 word" where
  "CURRENT_RUNTIME_PROFILE_VERSION = 5"

section \<open>Rooms, participants and principals\<close>

datatype room_status = Room_Active | Room_Closed | Room_Archived

record room =
  room_id :: rstr
  room_uid :: uuid
  room_label :: rstr
  room_state :: room_status
  room_created_at :: timestamp
  room_updated_at :: timestamp

definition room_new :: "uuid \<Rightarrow> rstr \<Rightarrow> rstr \<Rightarrow> timestamp \<Rightarrow> room" where
  "room_new uid rid label now =
     \<lparr>room_id = rid, room_uid = uid, room_label = label, room_state = Room_Active,
      room_created_at = now, room_updated_at = now\<rparr>"

datatype participant_status = Joined | Left | Kicked | Exported | Detached

datatype participant_role = Human | Director | Implementer | Reviewer | Agent

record participant =
  part_room_id :: rstr
  part_id :: rstr
  part_display_name :: rstr
  part_avatar_image_url :: rstr
  part_type :: rstr
  part_status :: participant_status
  part_role :: participant_role
  part_owner_id :: rstr
  part_muted :: bool
  part_created_at :: timestamp
  part_updated_at :: timestamp

definition detach_runtime :: "timestamp \<Rightarrow> participant \<Rightarrow> participant" where
  "detach_runtime now p =
     (if part_status p \<in> {Joined, Detached}
      then p\<lparr>part_status := Detached, part_updated_at := now\<rparr> else p)"

datatype client_kind = Browser | Room_Connector | Agent_Bridge

datatype invite_scope = Read_Write | Read_Only

record capability_set =
  cap_room_history :: bool
  cap_room_vote_summary :: bool
  cap_room_random :: bool
  cap_message_send :: bool
  cap_message_modify :: bool
  cap_room_manage :: bool
  cap_participant_leave :: bool
  cap_participant_mute :: bool
  cap_agent_control :: bool
  cap_bridge_publish :: bool

definition for_principal :: "client_kind \<Rightarrow> invite_scope \<Rightarrow> bool \<Rightarrow> capability_set" where
  "for_principal kind scope is_operator =
     (let bridge = kind = Agent_Bridge;
          writable = scope = Read_Write
      in \<lparr>cap_room_history = \<not> bridge,
          cap_room_vote_summary = \<not> bridge,
          cap_room_random = (writable \<and> \<not> bridge),
          cap_message_send = (writable \<and> \<not> bridge),
          cap_message_modify = (writable \<and> \<not> bridge),
          cap_room_manage = is_operator,
          cap_participant_leave = \<not> bridge,
          cap_participant_mute = is_operator,
          cap_agent_control = is_operator,
          cap_bridge_publish = (bridge \<and> writable)\<rparr>)"

definition local_operator :: "client_kind \<Rightarrow> invite_scope \<Rightarrow> capability_set" where
  "local_operator kind scope = for_principal kind scope True"

record authenticated_principal =
  pr_principal_id :: rstr
  pr_participant_id :: rstr
  pr_display_name :: rstr
  pr_room_id :: rstr
  pr_client_kind :: client_kind
  pr_invite_scope :: invite_scope
  pr_is_operator :: bool
  pr_capabilities :: capability_set

section \<open>Room events\<close>

record actor =
  actor_participant_id :: rstr
  actor_participant_type :: rstr

record room_event =
  ev_v :: "32 word"
  ev_id :: rstr
  ev_seq :: int
  ev_created_at :: timestamp
  ev_room_id :: rstr
  ev_type :: rstr
  ev_actor :: actor
  ev_participant_id :: "rstr option"
  ev_participant_type :: "rstr option"
  ev_actor_id :: "rstr option"
  ev_actor_type :: "rstr option"
  ev_display_name :: "rstr option"
  ev_content :: "rstr option"
  ev_message_kind :: "rstr option"
  ev_extra :: jmap

definition is_current_lobby_message :: "room_event \<Rightarrow> bool" where
  "is_current_lobby_message e \<longleftrightarrow>
     ev_type e = str ''message_final'' \<and>
     om_get (ev_extra e) (str ''message_deleted'') \<noteq> Some (Bool True)"

section \<open>Agent sessions\<close>

datatype agent_session_status =
  Session_Available | Session_Attached | Session_Unavailable | Session_Detached | Session_Error

datatype agent_runtime_status =
  Runtime_Stopped | Runtime_Starting | Runtime_Idle | Runtime_Busy | Runtime_Paused |
  Runtime_Stopping | Runtime_Disconnected | Runtime_Recovering | Runtime_Error

datatype agent_turn_phase = Phase_None | Phase_Thinking | Phase_Streaming

datatype agent_lifecycle_action = Action_None | Action_Start | Action_Stop

datatype agent_lifecycle_intent_status =
  Intent_None | Intent_Prepared | Intent_Effect_Inflight | Intent_Unconfirmed | Intent_Effect_Applied

definition turn_phase_is_none :: "agent_turn_phase \<Rightarrow> bool" where
  "turn_phase_is_none p = (case p of Phase_None \<Rightarrow> True | _ \<Rightarrow> False)"

fun lifecycle_action_as_str :: "agent_lifecycle_action \<Rightarrow> rstr" where
  "lifecycle_action_as_str Action_None = str ''''"
| "lifecycle_action_as_str Action_Start = str ''start''"
| "lifecycle_action_as_str Action_Stop = str ''stop''"

definition lifecycle_action_is_none :: "agent_lifecycle_action \<Rightarrow> bool" where
  "lifecycle_action_is_none a = (case a of Action_None \<Rightarrow> True | _ \<Rightarrow> False)"

definition intent_status_is_none :: "agent_lifecycle_intent_status \<Rightarrow> bool" where
  "intent_status_is_none s = (case s of Intent_None \<Rightarrow> True | _ \<Rightarrow> False)"

datatype room_input_delivery_kind = Ordered_Observation | Ambient_Observation

record queued_room_input =
  qi_event_id :: rstr
  qi_delivery_kind :: room_input_delivery_kind

datatype persona_asset_kind = Persona_Card | Persona_Module

record persona_asset_summary =
  pas_id :: rstr
  pas_display_name :: rstr
  pas_asset_kind :: persona_asset_kind
  pas_source_kind :: rstr
  pas_lorebook_count :: nat
  pas_asset_count :: nat
  pas_ignored_feature_count :: "64 word"
  pas_tag_count :: nat
  pas_thumbnail_url :: rstr

record agent_session =
  as_avatar_image_url :: rstr
  as_room_id :: rstr
  as_session_id :: rstr
  as_participant_id :: rstr
  as_display_name :: rstr
  as_status :: agent_session_status
  as_runtime_status :: agent_runtime_status
  as_enabled :: bool
  as_provider_kind :: rstr
  as_runtime_kind :: rstr
  as_connection_kind :: rstr
  as_external_owned :: bool
  as_external_retained_interrupt :: "bool option"
  as_process_ownership :: rstr
  as_model :: rstr
  as_reasoning_effort :: rstr
  as_service_tier :: rstr
  as_variant :: rstr
  as_execution_harness :: rstr
  as_permission_mode :: rstr
  as_max_output_tokens :: "32 word"
  as_catalog_revision :: rstr
  as_persona_card_id :: rstr
  as_persona_card :: "persona_asset_summary option"
  as_transport :: rstr
  as_last_seen_event_id :: rstr
  as_last_seen_seq :: int
  as_last_provider_sync_event_id :: rstr
  as_last_provider_sync_seq :: int
  as_bootstrap_cutoff_seq :: int
  as_turn_count :: "64 word"
  as_active_turn_id :: rstr
  as_turn_phase :: agent_turn_phase
  as_last_error :: rstr
  as_last_error_code :: rstr
  as_recovery_required :: bool
  as_provider_session_active :: bool
  as_provider_session_reused :: bool
  as_created_at :: timestamp
  as_updated_at :: timestamp

record durable_agent_session =
  das_public :: agent_session
  das_executable :: rstr
  das_executable_identity :: rstr
  das_workspace :: rstr
  das_workspace_identity :: rstr
  das_provider_endpoint :: rstr
  das_runtime_profile_key :: rstr
  das_runtime_profile_version :: "32 word"
  das_provider_session_id :: rstr
  das_runtime_handle_id :: rstr
  das_runtime_owner_id :: rstr
  das_runtime_lease_token :: rstr
  das_turn_generation :: "64 word"
  das_schedule_requested :: bool
  das_pending_inputs :: "queued_room_input list"
  das_inflight_inputs :: "queued_room_input list"
  das_active_source_event_id :: rstr
  das_input_up_to_event_id :: rstr
  das_input_up_to_seq :: int
  das_lifecycle_intent_action :: agent_lifecycle_action
  das_lifecycle_intent_id :: rstr
  das_lifecycle_intent_status :: agent_lifecycle_intent_status

text \<open>The stored form before validation: the fields and what the document holds besides them.\<close>

record raw_durable_agent_session = durable_agent_session +
  raw_unknown :: jmap

definition persona_is_valid :: "agent_session \<Rightarrow> bool" where
  "persona_is_valid public =
     (case (as_persona_card_id public, as_persona_card public) of
        (persona_id, None) \<Rightarrow> persona_id = []
      | (persona_id, Some summary) \<Rightarrow> persona_id \<noteq> [] \<and> persona_id = pas_id summary)"

definition durable_from_raw :: "raw_durable_agent_session \<Rightarrow> rstr + durable_agent_session" where
  "durable_from_raw raw =
     (case om_keys (raw_unknown raw) of
        field # _ \<Rightarrow> Err (str ''unknown Agent Session field `'' @ field @ str ''`'')
      | [] \<Rightarrow>
          if \<not> persona_is_valid (das_public raw)
          then Err (str ''Agent Session persona selection is inconsistent'')
          else Ok (durable_agent_session.truncate raw))"

record agent_session_draft =
  draft_agent_id :: rstr
  draft_display_name :: rstr
  draft_provider_kind :: rstr
  draft_runtime_kind :: rstr
  draft_connection_kind :: rstr
  draft_executable :: rstr
  draft_executable_identity :: rstr
  draft_workspace :: rstr
  draft_workspace_identity :: rstr
  draft_provider_endpoint :: rstr
  draft_model :: rstr
  draft_reasoning_effort :: rstr
  draft_service_tier :: rstr
  draft_variant :: rstr
  draft_execution_harness :: rstr
  draft_permission_mode :: rstr
  draft_max_output_tokens :: "32 word"
  draft_catalog_revision :: rstr
  draft_persona_card_id :: rstr
  draft_runtime_profile_key :: rstr
  draft_transport :: rstr

datatype agent_runtime_custody = Custody_Server | Custody_External

definition without_runtime :: "agent_session \<Rightarrow> durable_agent_session" where
  "without_runtime public =
     \<lparr>das_public = public,
      das_executable = [],
      das_executable_identity = [],
      das_workspace = [],
      das_workspace_identity = [],
      das_provider_endpoint = [],
      das_runtime_profile_key = [],
      das_runtime_profile_version = CURRENT_RUNTIME_PROFILE_VERSION,
      das_provider_session_id = [],
      das_runtime_handle_id = [],
      das_runtime_owner_id = [],
      das_runtime_lease_token = [],
      das_turn_generation = 0,
      das_schedule_requested = False,
      das_pending_inputs = [],
      das_inflight_inputs = [],
      das_active_source_event_id = [],
      das_input_up_to_event_id = [],
      das_input_up_to_seq = 0,
      das_lifecycle_intent_action = Action_None,
      das_lifecycle_intent_id = [],
      das_lifecycle_intent_status = Intent_None\<rparr>"

definition initial_session ::
  "rstr \<Rightarrow> agent_runtime_custody \<Rightarrow> timestamp \<Rightarrow> agent_session_draft \<Rightarrow> durable_agent_session" where
  "initial_session rid custody now d =
     (without_runtime
       \<lparr>as_avatar_image_url = [],
        as_room_id = rid,
        as_session_id = draft_agent_id d,
        as_participant_id = draft_agent_id d,
        as_display_name = draft_display_name d,
        as_status = Session_Available,
        as_runtime_status = Runtime_Stopped,
        as_enabled = False,
        as_provider_kind = draft_provider_kind d,
        as_runtime_kind = draft_runtime_kind d,
        as_connection_kind = draft_connection_kind d,
        as_external_owned = (custody = Custody_External),
        as_external_retained_interrupt = None,
        as_process_ownership = (case custody of Custody_Server \<Rightarrow> str ''server'' | Custody_External \<Rightarrow> str ''external''),
        as_model = draft_model d,
        as_reasoning_effort = draft_reasoning_effort d,
        as_service_tier = draft_service_tier d,
        as_variant = draft_variant d,
        as_execution_harness = draft_execution_harness d,
        as_permission_mode = draft_permission_mode d,
        as_max_output_tokens = draft_max_output_tokens d,
        as_catalog_revision = draft_catalog_revision d,
        as_persona_card_id = draft_persona_card_id d,
        as_persona_card = None,
        as_transport = draft_transport d,
        as_last_seen_event_id = [],
        as_last_seen_seq = 0,
        as_last_provider_sync_event_id = [],
        as_last_provider_sync_seq = 0,
        as_bootstrap_cutoff_seq = 0,
        as_turn_count = 0,
        as_active_turn_id = [],
        as_turn_phase = Phase_None,
        as_last_error = [],
        as_last_error_code = [],
        as_recovery_required = False,
        as_provider_session_active = False,
        as_provider_session_reused = False,
        as_created_at = now,
        as_updated_at = now\<rparr>)
     \<lparr>das_executable := draft_executable d,
      das_executable_identity := draft_executable_identity d,
      das_workspace := draft_workspace d,
      das_workspace_identity := draft_workspace_identity d,
      das_provider_endpoint := draft_provider_endpoint d,
      das_runtime_profile_key := draft_runtime_profile_key d\<rparr>"

end
