(* ===== verification/Commands.thy ===== *)
theory Commands
  imports Room_Model
begin

text \<open>
  The command payloads of the room (command.rs, channel_messages.rs, side_chat.rs,
  room_history.rs): parsing, the write policy and the construction of message events. SHA-256,
  the parser of the uuid crate and the identifier drawn for a new event are parameters.
\<close>

section \<open>Message payloads (command.rs)\<close>

record message_send =
  ms_content :: rstr
  ms_attachment_ids :: "rstr list"

text \<open>The loop over the entries, with the identifiers seen so far.\<close>

fun parse_attachment_entries :: "rstr list \<Rightarrow> json list \<Rightarrow> command_rejection + rstr list" where
  "parse_attachment_entries seen [] = Ok []"
| "parse_attachment_entries seen (value # values) =
     rbind (ok_or (as_str value) (reject ''bad_request'' ''attachment_ids entries must be strings.'')) (\<lambda>attachment_id.
     rbind (ensure (is_message_attachment_id attachment_id)
              (reject ''bad_request'' ''Message attachment id is invalid.'')) (\<lambda>_.
     rbind (ensure (attachment_id \<notin> set seen)
              (reject ''bad_request'' ''Message attachment ids must be distinct.'')) (\<lambda>_.
     rbind (parse_attachment_entries (attachment_id # seen) values) (\<lambda>rest.
     Ok (attachment_id # rest)))))"

definition parse_attachment_ids :: "json option \<Rightarrow> command_rejection + rstr list" where
  "parse_attachment_ids v =
     (case v of
        None \<Rightarrow> Ok []
      | Some value \<Rightarrow>
          rbind (ok_or (as_array value) (reject ''bad_request'' ''attachment_ids must be an array.'')) (\<lambda>values.
          rbind (ensure (length values \<le> MAX_MESSAGE_ATTACHMENTS_PER_EVENT)
                   (reject ''bad_request'' ''At most 8 attachments are allowed.'')) (\<lambda>_.
          parse_attachment_entries [] values)))"

definition message_send_from_payload :: "unicode \<Rightarrow> json \<Rightarrow> command_rejection + message_send" where
  "message_send_from_payload U payload =
     rbind (ok_or (as_object payload) (reject ''bad_request'' ''payload must be an object.'')) (\<lambda>obj.
     rbind (ensure (om_contains obj (str ''content'') \<and>
                    list_all (\<lambda>k. k \<in> {str ''content'', str ''attachment_ids''}) (om_keys obj))
              (reject ''bad_request'' ''message.send accepts exactly content and optional attachment_ids fields.'')) (\<lambda>_.
     rbind (ok_or (Option.bind (om_get obj (str ''content'')) as_str)
              (reject ''bad_request'' ''message.send content must be a string.'')) (\<lambda>raw.
     let content = clean_message raw MAX_MESSAGE_CHARACTERS in
     rbind (parse_attachment_ids (om_get obj (str ''attachment_ids''))) (\<lambda>attachment_ids.
     rbind (ensure (has_visible_text U content \<or> attachment_ids \<noteq> [])
              (reject ''empty'' ''Message content or an attachment is required.'')) (\<lambda>_.
     Ok \<lparr>ms_content = content, ms_attachment_ids = attachment_ids\<rparr>)))))"

text \<open>\<open>sha256\<close> maps a text to the hexadecimal digest of its UTF-8 bytes.\<close>

definition canonical_payload_hash :: "(rstr \<Rightarrow> rstr) \<Rightarrow> json \<Rightarrow> rstr" where
  "canonical_payload_hash sha256 payload = sha256 (encode payload)"

section \<open>The write policy and message events (command.rs)\<close>

definition require_active_write_participant ::
  "authenticated_principal \<Rightarrow> participant \<Rightarrow> command_rejection + unit" where
  "require_active_write_participant pr p =
     rbind (ensure (pr_room_id pr = part_room_id p \<and> pr_participant_id pr = part_id p \<and>
                    part_status p = Joined)
              (reject ''session_revoked'' ''This room session has ended.'')) (\<lambda>_.
     ensure (\<not> part_muted p) (reject ''muted'' ''This participant is muted.''))"

definition require_message_write_authority ::
  "authenticated_principal \<Rightarrow> participant \<Rightarrow> command_rejection + unit" where
  "require_message_write_authority pr p =
     rbind (ensure (pr_client_kind pr \<noteq> Agent_Bridge \<and> cap_message_send (pr_capabilities pr))
              (reject ''permission_denied'' ''This room session cannot send messages.'')) (\<lambda>_.
     require_active_write_participant pr p)"

definition prepare_authorized_participant_message_event ::
  "rstr \<Rightarrow> participant \<Rightarrow> int \<Rightarrow> timestamp \<Rightarrow> rstr \<Rightarrow> rstr \<Rightarrow> jmap \<Rightarrow> command_rejection + room_event" where
  "prepare_authorized_participant_message_event fresh p sequence now content message_kind extra =
     rbind (ensure (0 < sequence)
              (reject ''invalid_state'' ''Room event sequence must be positive.'')) (\<lambda>_.
     Ok \<lparr>ev_v = 1,
         ev_id = fresh,
         ev_seq = sequence,
         ev_created_at = now,
         ev_room_id = part_room_id p,
         ev_type = str ''message_final'',
         ev_actor = \<lparr>actor_participant_id = part_id p, actor_participant_type = part_type p\<rparr>,
         ev_participant_id = Some (part_id p),
         ev_participant_type = Some (part_type p),
         ev_actor_id = Some (part_id p),
         ev_actor_type = Some (part_type p),
         ev_display_name = Some (part_display_name p),
         ev_content = Some content,
         ev_message_kind = Some message_kind,
         ev_extra = extra\<rparr>)"

definition prepare_participant_message_event ::
  "rstr \<Rightarrow> authenticated_principal \<Rightarrow> participant \<Rightarrow> int \<Rightarrow> timestamp \<Rightarrow> rstr \<Rightarrow> rstr \<Rightarrow> jmap
     \<Rightarrow> command_rejection + room_event" where
  "prepare_participant_message_event fresh pr p sequence now content message_kind extra =
     rbind (require_message_write_authority pr p) (\<lambda>_.
     prepare_authorized_participant_message_event fresh p sequence now content message_kind extra)"

definition prepare_message_event ::
  "rstr \<Rightarrow> authenticated_principal \<Rightarrow> participant \<Rightarrow> message_send \<Rightarrow> int \<Rightarrow> timestamp
     \<Rightarrow> command_rejection + room_event" where
  "prepare_message_event fresh pr p command sequence now =
     prepare_participant_message_event fresh pr p sequence now (ms_content command) (str ''message'') []"

section \<open>Room history (room\_history.rs)\<close>

definition ROOM_HISTORY_MAX_EVENTS :: int where "ROOM_HISTORY_MAX_EVENTS = 200"

record room_history_request =
  rh_before_seq :: int
  rh_limit :: int

definition integer_field :: "json option \<Rightarrow> string \<Rightarrow> command_rejection + int option" where
  "integer_field v field =
     (case v of
        None \<Rightarrow> Ok None
      | Some value \<Rightarrow>
          rbind (ok_or (as_i64 value)
                   (reject ''bad_request'' (''room.history '' @ field @ '' must be an integer.''))) (\<lambda>i.
          Ok (Some i)))"

definition room_history_from_payload :: "json \<Rightarrow> command_rejection + room_history_request" where
  "room_history_from_payload payload =
     rbind (ok_or (as_object payload) (reject ''bad_request'' ''payload must be an object.'')) (\<lambda>obj.
     rbind (ensure (list_all (\<lambda>k. k \<in> {str ''before_seq'', str ''limit''}) (om_keys obj))
              (reject ''bad_request'' ''room.history accepts only before_seq and limit fields.'')) (\<lambda>_.
     rbind (integer_field (om_get obj (str ''before_seq'')) ''before_seq'') (\<lambda>before_seq.
     rbind (integer_field (om_get obj (str ''limit'')) ''limit'') (\<lambda>limit.
     Ok \<lparr>rh_before_seq = max (unwrap_or 0 before_seq) 0,
         rh_limit = max 1 (min (unwrap_or ROOM_HISTORY_MAX_EVENTS limit) ROOM_HISTORY_MAX_EVENTS)\<rparr>))))"

section \<open>Channel messages (channel\_messages.rs)\<close>

definition CHANNEL_HISTORY_PAGE_SIZE :: int where "CHANNEL_HISTORY_PAGE_SIZE = 80"

definition CHANNEL_MESSAGE_EVENT_TYPE :: rstr where
  "CHANNEL_MESSAGE_EVENT_TYPE = str ''channel_message_final''"

record channel_history_request =
  ch_channel_id :: rstr
  ch_page :: room_history_request

definition channel_history_from_payload :: "json \<Rightarrow> command_rejection + channel_history_request" where
  "channel_history_from_payload payload =
     rbind (ok_or (as_object payload)
              (reject ''bad_request'' ''Channel history payload must be an object.'')) (\<lambda>fields.
     rbind (ok_or (case Option.bind (om_get fields (str ''channel_id'')) as_str of
                     None \<Rightarrow> None
                   | Some channel \<Rightarrow> if is_custom_channel_id channel then Some channel else None)
              (reject ''bad_request'' ''Channel id is invalid.'')) (\<lambda>channel.
     let fields = om_remove (str ''channel_id'') fields;
         fields = (if om_contains fields (str ''limit'') then fields
                   else om_insert (str ''limit'') (json_i64 CHANNEL_HISTORY_PAGE_SIZE) fields) in
     rbind (room_history_from_payload (Object fields)) (\<lambda>page.
     Ok \<lparr>ch_channel_id = channel, ch_page = page\<rparr>)))"

record channel_message_send =
  cms_channel_id :: rstr
  cms_content :: rstr

text \<open>
  The derived decoder of a struct of two strings: an object with exactly these fields, or an
  array with the fields in order, as the derived visitor of serde accepts both.
\<close>

definition decode_channel_message_send :: "json \<Rightarrow> channel_message_send option" where
  "decode_channel_message_send v =
     (case v of
        Object m \<Rightarrow>
          if list_all (\<lambda>k. k \<in> {str ''channel_id'', str ''content''}) (om_keys m) then
            (case (Option.bind (om_get m (str ''channel_id'')) as_str,
                   Option.bind (om_get m (str ''content'')) as_str) of
               (Some channel, Some content) \<Rightarrow> Some \<lparr>cms_channel_id = channel, cms_content = content\<rparr>
             | _ \<Rightarrow> None)
          else None
      | Array [String channel, String content] \<Rightarrow> Some \<lparr>cms_channel_id = channel, cms_content = content\<rparr>
      | _ \<Rightarrow> None)"

definition channel_message_from_payload :: "unicode \<Rightarrow> json \<Rightarrow> command_rejection + channel_message_send" where
  "channel_message_from_payload U payload =
     rbind (ok_or (decode_channel_message_send payload)
              (reject ''bad_request'' ''Channel messages require channel_id and content.'')) (\<lambda>command.
     rbind (ensure (is_custom_channel_id (cms_channel_id command))
              (reject ''bad_request'' ''Channel id is invalid.'')) (\<lambda>_.
     let content = clean_message (cms_content command) MAX_TEXT_CHAT_CHARACTERS in
     rbind (ensure (has_visible_text U content)
              (reject ''empty'' ''Channel message text is required.'')) (\<lambda>_.
     Ok (command\<lparr>cms_content := content\<rparr>))))"

definition prepare_channel_message_event ::
  "rstr \<Rightarrow> authenticated_principal \<Rightarrow> participant \<Rightarrow> channel_message_send \<Rightarrow> int \<Rightarrow> timestamp
     \<Rightarrow> command_rejection + room_event" where
  "prepare_channel_message_event fresh pr p command sequence now =
     rbind (prepare_participant_message_event fresh pr p sequence now (cms_content command)
              (str ''message'') (om_from [(str ''channel_id'', String (cms_channel_id command))])) (\<lambda>event.
     Ok (event\<lparr>ev_type := CHANNEL_MESSAGE_EVENT_TYPE\<rparr>))"

section \<open>Side-chat sends (side\_chat.rs)\<close>

definition SIDE_CHAT_MAX_MESSAGES :: nat where "SIDE_CHAT_MAX_MESSAGES = 200"
definition SIDE_CHAT_TTL_SECONDS :: int where "SIDE_CHAT_TTL_SECONDS = 24 * 60 * 60"

record side_chat_message =
  scm_id :: uuid
  scm_seq :: int
  scm_created_at :: timestamp
  scm_participant_id :: rstr
  scm_display_name :: rstr
  scm_content :: rstr

record side_chat_snapshot =
  scs_room_id :: rstr
  scs_room_uid :: uuid
  scs_generation :: uuid
  scs_retained_after_seq :: int
  scs_latest_seq :: int
  scs_messages :: "side_chat_message list"

record side_chat_update =
  scu_room_id :: rstr
  scu_generation :: uuid
  scu_retained_after_seq :: int
  scu_message :: side_chat_message

record side_chat_send =
  scd_generation :: uuid
  scd_after_seq :: int
  scd_content :: rstr

definition decode_side_chat_send :: "(rstr \<Rightarrow> uuid option) \<Rightarrow> json \<Rightarrow> side_chat_send option" where
  "decode_side_chat_send parse_uuid v =
     (let build = (\<lambda>g a c.
        (case (Option.bind (Option.bind g as_str) parse_uuid, Option.bind a as_i64, Option.bind c as_str) of
           (Some generation, Some after_seq, Some content) \<Rightarrow>
             Some \<lparr>scd_generation = generation, scd_after_seq = after_seq, scd_content = content\<rparr>
         | _ \<Rightarrow> None))
      in case v of
        Object m \<Rightarrow>
          if list_all (\<lambda>k. k \<in> {str ''generation'', str ''after_seq'', str ''content''}) (om_keys m)
          then build (om_get m (str ''generation'')) (om_get m (str ''after_seq'')) (om_get m (str ''content''))
          else None
      | Array [g, a, c] \<Rightarrow> build (Some g) (Some a) (Some c)
      | _ \<Rightarrow> None)"

definition side_chat_send_from_payload ::
  "unicode \<Rightarrow> (rstr \<Rightarrow> uuid option) \<Rightarrow> json \<Rightarrow> command_rejection + side_chat_send" where
  "side_chat_send_from_payload U parse_uuid payload =
     rbind (ok_or (decode_side_chat_send parse_uuid payload)
              (reject ''bad_request'' ''Side chat requires generation, after_seq and content.'')) (\<lambda>request.
     rbind (ensure (0 \<le> scd_after_seq request)
              (reject ''bad_request'' ''Side chat cursor is invalid.'')) (\<lambda>_.
     let content = clean_message (scd_content request) MAX_TEXT_CHAT_CHARACTERS in
     rbind (ensure (has_visible_text U content)
              (reject ''empty'' ''Side chat text is required.'')) (\<lambda>_.
     Ok (request\<lparr>scd_content := content\<rparr>))))"

section \<open>Payload hashes identify payloads\<close>

text \<open>Two well-formed payloads with the same canonical hash are the same
  payload, unless their two encodings are a collision of the digest; and a payload object
  hashes the same whatever order its keys are listed in.\<close>

theorem payload_hash_identity:
  assumes "json_wf a" "json_wf b" "canonical_payload_hash sha256 a = canonical_payload_hash sha256 b"
  shows "a = b \<or> encode a \<noteq> encode b \<and> sha256 (encode a) = sha256 (encode b)"
  using assms encode_inj by (auto simp: canonical_payload_hash_def)

theorem payload_hash_identity_witness:
  "encode (Bool True) \<noteq> encode Null"
  using payload_hash_identity [of "Bool True" Null "\<lambda>_. []"]
  by (simp add: canonical_payload_hash_def)

text \<open>The hash of an object does not depend on the order of its distinct keys.\<close>

theorem payload_hash_key_order:
  assumes "set m = set n" "distinct (om_keys m)" "distinct (om_keys n)"
  shows "canonical_payload_hash sha256 (Object m) = canonical_payload_hash sha256 (Object n)"
  using encode_object_key_order [OF assms] by (simp add: canonical_payload_hash_def)

theorem payload_hash_key_order_witness:
  "canonical_payload_hash rev (Object [(str ''b'', Null), (str ''a'', Bool True)])
   = canonical_payload_hash rev (Object [(str ''a'', Bool True), (str ''b'', Null)])"
  by (rule payload_hash_key_order) (auto simp: om_keys_def)

section \<open>Accepted messages\<close>

lemma parse_attachment_entries_Ok:
  "parse_attachment_entries seen vs = Ok ids \<longleftrightarrow>
     vs = map String ids \<and> list_all is_message_attachment_id ids \<and> distinct ids \<and> set ids \<inter> set seen = {}"
  by (induction vs arbitrary: seen ids) (auto simp: Cons_eq_map_conv)

lemma parse_attachment_ids_Ok:
  "parse_attachment_ids v = Ok ids \<longleftrightarrow>
     (v = None \<and> ids = [] \<or> v = Some (json_strs ids)) \<and> length ids \<le> 8
     \<and> list_all is_message_attachment_id ids \<and> distinct ids"
  by (cases v)
    (auto simp: parse_attachment_ids_def parse_attachment_entries_Ok json_strs_def
      MAX_MESSAGE_ATTACHMENTS_PER_EVENT_def)

text \<open>Exactly which payloads \<open>message.send\<close> accepts and what it makes of
  them: an object with a text content and at most an \<open>attachment_ids\<close> array of up to eight
  distinct identifiers of the attachment namespace, whose cleaned text is visible unless
  there is an attachment; the accepted text is the cleaned one.\<close>

theorem message_send_accepts:
  "message_send_from_payload U payload = Ok command \<longleftrightarrow>
     (\<exists>obj raw. payload = Object obj
        \<and> set (om_keys obj) \<subseteq> {str ''content'', str ''attachment_ids''}
        \<and> om_get obj (str ''content'') = Some (String raw)
        \<and> ms_content command = clean_message raw 12000
        \<and> (om_get obj (str ''attachment_ids'') = None \<and> ms_attachment_ids command = []
           \<or> om_get obj (str ''attachment_ids'') = Some (json_strs (ms_attachment_ids command)))
        \<and> length (ms_attachment_ids command) \<le> 8
        \<and> list_all is_message_attachment_id (ms_attachment_ids command)
        \<and> distinct (ms_attachment_ids command)
        \<and> (has_visible_text U (ms_content command) \<or> ms_attachment_ids command \<noteq> []))"
  (is "?l \<longleftrightarrow> ?r")
proof
  assume ?l
  then show ?r
    by (cases payload)
      (auto simp: message_send_from_payload_def Let_def parse_attachment_ids_Ok list_all_iff
        MAX_MESSAGE_CHARACTERS_def bind_eq_Some_conv)
next
  assume ?r
  then show ?l
    by (cases command)
      (auto simp: message_send_from_payload_def Let_def parse_attachment_ids_Ok list_all_iff
        MAX_MESSAGE_CHARACTERS_def om_contains_def)
qed

theorem message_send_accepts_witness:
  "message_send_from_payload ascii_unicode (Object [(str ''content'', String (str '' hi ''))])
     = Ok \<lparr>ms_content = str ''hi'', ms_attachment_ids = []\<rparr>"
proof -
  have c: "clean_message (str '' hi '') 12000 = str ''hi''" by code_simp
  have v: "has_visible_text ascii_unicode (str ''hi'')" by code_simp
  show ?thesis
    using c v by (subst message_send_accepts) (auto simp: om_keys_def om_get_def)
qed

section \<open>Who may write, and what is written\<close>

definition may_write_as :: "authenticated_principal \<Rightarrow> participant \<Rightarrow> bool" where
  "may_write_as pr p \<longleftrightarrow>
     pr_room_id pr = part_room_id p \<and> pr_participant_id pr = part_id p \<and>
     part_status p = Joined \<and> \<not> part_muted p"

lemma require_active_write_Ok [simp]:
  "require_active_write_participant pr p = Ok u \<longleftrightarrow> may_write_as pr p"
  by (auto simp: require_active_write_participant_def may_write_as_def)

lemma require_message_write_Ok [simp]:
  "require_message_write_authority pr p = Ok u \<longleftrightarrow>
     pr_client_kind pr \<noteq> Agent_Bridge \<and> cap_message_send (pr_capabilities pr) \<and> may_write_as pr p"
  by (auto simp: require_message_write_authority_def)

text \<open>The identity a stored message event carries: every actor field names the same participant.\<close>

definition actor_canonical :: "room_event \<Rightarrow> bool" where
  "actor_canonical e \<longleftrightarrow>
     (let a = ev_actor e in
      ev_participant_id e = Some (actor_participant_id a) \<and>
      ev_actor_id e = Some (actor_participant_id a) \<and>
      ev_participant_type e = Some (actor_participant_type a) \<and>
      ev_actor_type e = Some (actor_participant_type a))"

lemma prepare_authorized_Ok:
  "prepare_authorized_participant_message_event fresh p n now c k x = Ok e \<Longrightarrow>
     0 < n \<and> actor_canonical e \<and> actor_participant_id (ev_actor e) = part_id p
     \<and> actor_participant_type (ev_actor e) = part_type p
     \<and> ev_room_id e = part_room_id p \<and> ev_seq e = n \<and> ev_id e = fresh \<and> ev_created_at e = now
     \<and> ev_type e = str ''message_final'' \<and> ev_content e = Some c \<and> ev_message_kind e = Some k
     \<and> ev_extra e = x"
  by (auto simp: prepare_authorized_participant_message_event_def actor_canonical_def)

text \<open>A message event is built exactly when the principal is not an agent
  bridge, holds the send capability, belongs to the participant and its room, and the
  participant is joined and not muted, with a positive sequence number; the event then
  names that participant in every actor field and carries the command's text.\<close>

theorem message_event_authority:
  "prepare_message_event fresh pr p command n now = Ok e \<longleftrightarrow>
     pr_client_kind pr \<noteq> Agent_Bridge \<and> cap_message_send (pr_capabilities pr) \<and>
     pr_room_id pr = part_room_id p \<and> pr_participant_id pr = part_id p \<and>
     part_status p = Joined \<and> \<not> part_muted p \<and> 0 < n \<and>
     e = \<lparr>ev_v = 1, ev_id = fresh, ev_seq = n, ev_created_at = now, ev_room_id = part_room_id p,
          ev_type = str ''message_final'', ev_actor = \<lparr>actor_participant_id = part_id p, actor_participant_type = part_type p\<rparr>,
          ev_participant_id = Some (part_id p), ev_participant_type = Some (part_type p),
          ev_actor_id = Some (part_id p), ev_actor_type = Some (part_type p),
          ev_display_name = Some (part_display_name p), ev_content = Some (ms_content command),
          ev_message_kind = Some (str ''message''), ev_extra = []\<rparr>"
  by (auto simp: prepare_message_event_def prepare_participant_message_event_def
      prepare_authorized_participant_message_event_def may_write_as_def)

section \<open>Cursors\<close>

text \<open>An accepted history request, of the lobby or of a channel, never asks
  for a negative cursor nor for less than one or more than 200 events, and a channel request
  names a custom channel.\<close>

theorem room_history_bounds:
  "(\<forall>r. room_history_from_payload payload = Ok r \<longrightarrow> 0 \<le> rh_before_seq r \<and> 1 \<le> rh_limit r \<and> rh_limit r \<le> 200)
   \<and> (\<forall>r. channel_history_from_payload payload = Ok r \<longrightarrow>
        is_custom_channel_id (ch_channel_id r) \<and> 0 \<le> rh_before_seq (ch_page r)
        \<and> 1 \<le> rh_limit (ch_page r) \<and> rh_limit (ch_page r) \<le> 200)"
proof -
  have page: "0 \<le> rh_before_seq r \<and> 1 \<le> rh_limit r \<and> rh_limit r \<le> 200"
    if "room_history_from_payload v = Ok r" for v r
    using that by (auto simp: room_history_from_payload_def ROOM_HISTORY_MAX_EVENTS_def)
  then show ?thesis
    by (auto simp: channel_history_from_payload_def Let_def split: option.splits if_splits dest!: page)
qed

theorem room_history_bounds_witness:
  "\<exists>r. channel_history_from_payload (Object [(str ''channel_id'', String (str ''c0123456789ab''))]) = Ok r
     \<and> is_custom_channel_id (ch_channel_id r) \<and> rh_limit (ch_page r) \<le> 200"
proof -
  let ?v = "Object [(str ''channel_id'', String (str ''c0123456789ab''))]"
  have "channel_history_from_payload ?v
    = Ok \<lparr>ch_channel_id = str ''c0123456789ab'', ch_page = \<lparr>rh_before_seq = 0, rh_limit = 80\<rparr>\<rparr>"
    by code_simp
  then show ?thesis using room_history_bounds [of Null] room_history_bounds [of ?v] by blast
qed

end
