(* ===== verification/Room_Settings.thy ===== *)
theory Room_Settings
  imports Commands
begin

text \<open>
  The settings of a room (room\_settings.rs): the stored document with its validation, the
  strict partial update, and the revision clients use for optimistic concurrency. SHA-256
  and the uppercase table are parameters.
\<close>

definition ROOM_LABEL_LIMIT :: nat where "ROOM_LABEL_LIMIT = 128"
definition ROOM_TOPIC_LIMIT :: nat where "ROOM_TOPIC_LIMIT = 160"
definition IMAGE_URL_LIMIT :: nat where "IMAGE_URL_LIMIT = 240"
definition CHANNEL_NAME_LIMIT :: nat where "CHANNEL_NAME_LIMIT = 60"
definition MAX_CHANNELS :: nat where "MAX_CHANNELS = 50"

record room_appearance =
  ap_banner_preset :: rstr
  ap_banner_image_url :: rstr
  ap_icon_image_url :: rstr
  ap_icon_label :: rstr
  ap_invite_scope :: rstr

record room_channel =
  chan_id :: rstr
  chan_name :: rstr
  chan_type :: rstr
  chan_position :: "32 word"
  chan_created_at :: rstr

record room_settings =
  rs_label :: rstr
  rs_topic :: rstr
  rs_appearance :: room_appearance
  rs_conversation_mode :: rstr
  rs_tool_mode :: rstr
  rs_ordered_exclude_previous_speaker :: bool
  rs_channels :: "room_channel list"

record public_room_settings =
  prs_settings_revision :: rstr
  prs_label :: rstr
  prs_topic :: rstr
  prs_appearance :: room_appearance
  prs_conversation_mode :: rstr
  prs_tool_mode :: rstr
  prs_ordered_exclude_previous_speaker :: bool
  prs_channels :: "room_channel list"

record room_appearance_patch =
  app_banner_preset :: "rstr option"
  app_banner_image_url :: "rstr option"
  app_icon_image_url :: "rstr option"
  app_icon_label :: "rstr option"
  app_invite_scope :: "rstr option"

record room_settings_patch =
  rsp_label :: "rstr option"
  rsp_topic :: "rstr option"
  rsp_appearance :: room_appearance_patch
  rsp_conversation_mode :: "rstr option"
  rsp_tool_mode :: "rstr option"
  rsp_ordered_exclude_previous_speaker :: "bool option"
  rsp_channels :: "room_channel list option"

record room_settings_error =
  rse_code :: string
  rse_message :: rstr

definition bad_request :: "rstr \<Rightarrow> room_settings_error" where
  "bad_request message = \<lparr>rse_code = ''bad_request'', rse_message = message\<rparr>"

definition unsupported :: "rstr \<Rightarrow> room_settings_error" where
  "unsupported message = \<lparr>rse_code = ''room_setting_unsupported'', rse_message = message\<rparr>"

section \<open>Validation\<close>

definition require_canonical_text :: "rstr \<Rightarrow> string \<Rightarrow> nat \<Rightarrow> room_settings_error + unit" where
  "require_canonical_text v field limit =
     ensure (clean_single_line v limit = v)
       (bad_request (str field @ str '' must be canonical single-line text up to '' @ show_nat limit @ str '' characters.''))"

definition is_room_appearance_asset_id :: "rstr \<Rightarrow> bool" where
  "is_room_appearance_asset_id v = is_prefixed_hex (str ''ra_'') 32 v"

definition room_appearance_asset_id :: "rstr \<Rightarrow> rstr option" where
  "room_appearance_asset_id v =
     Option.bind (strip_prefix (str ''/api/attachments/'') v) (\<lambda>t.
     Option.bind (strip_suffix (str ''?view=1'') t) (\<lambda>asset.
     if is_room_appearance_asset_id asset then Some asset else None))"

definition require_asset_url :: "rstr \<Rightarrow> string \<Rightarrow> room_settings_error + unit" where
  "require_asset_url v field =
     rbind (require_canonical_text v field IMAGE_URL_LIMIT) (\<lambda>_.
     ensure (v = [] \<or> room_appearance_asset_id v \<noteq> None)
       (bad_request (str field @ str '' must be empty or a canonical room attachment URL.'')))"

definition require_short_label :: "unicode \<Rightarrow> rstr \<Rightarrow> room_settings_error + unit" where
  "require_short_label U v =
     ensure (take 2 (concat (map (uppercase U) (clean_single_line v 2))) = v)
       (bad_request (str ''icon_label is not canonical.''))"

definition validate_appearance :: "unicode \<Rightarrow> room_appearance \<Rightarrow> room_settings_error + room_appearance" where
  "validate_appearance U raw =
     rbind (require_canonical_text (ap_banner_preset raw) ''banner_preset'' 24) (\<lambda>_.
     rbind (ensure (ap_banner_preset raw \<in> {str ''default'', str ''forest'', str ''midnight'', str ''ember'', str ''custom''})
              (bad_request (str ''Unsupported banner_preset: '' @ ap_banner_preset raw @ str ''.''))) (\<lambda>_.
     rbind (require_asset_url (ap_banner_image_url raw) ''banner_image_url'') (\<lambda>_.
     rbind (require_asset_url (ap_icon_image_url raw) ''icon_image_url'') (\<lambda>_.
     rbind (require_short_label U (ap_icon_label raw)) (\<lambda>_.
     rbind (ensure (ap_invite_scope raw \<in> {str ''room'', str ''read_only''})
              (bad_request (str ''Unsupported invite_scope: '' @ ap_invite_scope raw @ str ''.''))) (\<lambda>_.
     Ok \<lparr>ap_banner_preset = ap_banner_preset raw,
         ap_banner_image_url = ap_banner_image_url raw,
         ap_icon_image_url = ap_icon_image_url raw,
         ap_icon_label = ap_icon_label raw,
         ap_invite_scope = ap_invite_scope raw\<rparr>))))))"

text \<open>The loop over the channels, with the identifiers seen and the position in the list.\<close>

fun validate_channels :: "rstr list \<Rightarrow> nat \<Rightarrow> room_channel list \<Rightarrow> room_settings_error + unit" where
  "validate_channels seen position [] = Ok ()"
| "validate_channels seen position (channel # channels) =
     rbind (ensure (is_custom_channel_id (chan_id channel) \<and> chan_id channel \<notin> set seen)
              (bad_request (str ''Channel ids must be unique canonical ids.''))) (\<lambda>_.
     rbind (require_canonical_text (chan_name channel) ''channel name'' CHANNEL_NAME_LIMIT) (\<lambda>_.
     rbind (ensure (chan_name channel \<noteq> [] \<and> chan_type channel \<in> {str ''text'', str ''voice''})
              (bad_request (str ''Channel name or type is invalid.''))) (\<lambda>_.
     rbind (ensure (unat (chan_position channel) = position)
              (bad_request (str ''Channel positions must be dense and match list order.''))) (\<lambda>_.
     rbind (require_canonical_text (chan_created_at channel) ''channel created_at'' 64) (\<lambda>_.
     validate_channels (chan_id channel # seen) (Suc position) channels)))))"

definition validate_settings :: "unicode \<Rightarrow> room_settings \<Rightarrow> room_settings_error + room_settings" where
  "validate_settings U raw =
     rbind (require_canonical_text (rs_label raw) ''label'' ROOM_LABEL_LIMIT) (\<lambda>_.
     rbind (require_canonical_text (rs_topic raw) ''topic'' ROOM_TOPIC_LIMIT) (\<lambda>_.
     rbind (ensure (rs_conversation_mode raw \<in> {str ''ordered'', str ''ambient''})
              (bad_request (str ''Unsupported conversation_mode: '' @ rs_conversation_mode raw @ str ''.''))) (\<lambda>_.
     rbind (ensure (rs_tool_mode raw \<in> {str ''chat'', str ''tabletop''})
              (bad_request (str ''Unsupported tool_mode: '' @ rs_tool_mode raw @ str ''.''))) (\<lambda>_.
     rbind (ensure (length (rs_channels raw) \<le> MAX_CHANNELS)
              (bad_request (str ''channels cannot contain more than 50 entries.''))) (\<lambda>_.
     rbind (validate_channels [] 0 (rs_channels raw)) (\<lambda>_.
     rbind (validate_appearance U (rs_appearance raw)) (\<lambda>appearance.
     Ok \<lparr>rs_label = rs_label raw,
         rs_topic = rs_topic raw,
         rs_appearance = appearance,
         rs_conversation_mode = rs_conversation_mode raw,
         rs_tool_mode = rs_tool_mode raw,
         rs_ordered_exclude_previous_speaker = rs_ordered_exclude_previous_speaker raw,
         rs_channels = rs_channels raw\<rparr>)))))))"

definition defaults :: "rstr \<Rightarrow> room_settings" where
  "defaults label =
     \<lparr>rs_label = clean_single_line label ROOM_LABEL_LIMIT,
      rs_topic = [],
      rs_appearance = \<lparr>ap_banner_preset = str ''default'', ap_banner_image_url = [],
        ap_icon_image_url = [], ap_icon_label = [], ap_invite_scope = str ''room''\<rparr>,
      rs_conversation_mode = str ''ordered'',
      rs_tool_mode = str ''chat'',
      rs_ordered_exclude_previous_speaker = True,
      rs_channels = []\<rparr>"

section \<open>Partial updates\<close>

definition require_known_keys :: "jmap \<Rightarrow> string list \<Rightarrow> string \<Rightarrow> room_settings_error + unit" where
  "require_known_keys obj keys field =
     (let unknown = filter (\<lambda>k. k \<notin> set (map str keys)) (om_keys obj) in
      if unknown = [] then Ok ()
      else Err (bad_request (str ''Unsupported '' @ str field @ str '' fields: '' @ join (str '', '') unknown @ str ''.'')))"

definition required_string :: "jmap \<Rightarrow> string \<Rightarrow> room_settings_error + rstr" where
  "required_string obj field =
     ok_or (filter_opt (\<lambda>v. v \<noteq> []) (Option.bind (om_get obj (str field)) as_str))
       (bad_request (str field @ str '' is required.''))"

definition optional_string :: "jmap \<Rightarrow> string \<Rightarrow> room_settings_error + rstr option" where
  "optional_string obj field =
     (case om_get obj (str field) of
        None \<Rightarrow> Ok None
      | Some v \<Rightarrow> ok_or (map_option Some (as_str v)) (bad_request (str field @ str '' must be a string.'')))"

definition optional_bool :: "jmap \<Rightarrow> string \<Rightarrow> room_settings_error + bool option" where
  "optional_bool obj field =
     (case om_get obj (str field) of
        None \<Rightarrow> Ok None
      | Some v \<Rightarrow> ok_or (map_option Some (as_bool v)) (bad_request (str field @ str '' must be a boolean.'')))"

text \<open>The derived decoder of a channel: an object with exactly the fields, or an array of them in order.\<close>

definition decode_channel :: "json \<Rightarrow> room_channel option" where
  "decode_channel v =
     (let build = (\<lambda>i n t p c.
        (case (Option.bind i as_str, Option.bind n as_str, Option.bind t as_str,
               Option.bind p as_u32, Option.bind c as_str) of
           (Some i, Some n, Some t, Some p, Some c) \<Rightarrow>
             Some \<lparr>chan_id = i, chan_name = n, chan_type = t, chan_position = p, chan_created_at = c\<rparr>
         | _ \<Rightarrow> None))
      in case v of
        Object m \<Rightarrow>
          if list_all (\<lambda>k. k \<in> {str ''id'', str ''name'', str ''type'', str ''position'', str ''created_at''}) (om_keys m)
          then build (om_get m (str ''id'')) (om_get m (str ''name'')) (om_get m (str ''type''))
                 (om_get m (str ''position'')) (om_get m (str ''created_at''))
          else None
      | Array [i, n, t, p, c] \<Rightarrow> build (Some i) (Some n) (Some t) (Some p) (Some c)
      | _ \<Rightarrow> None)"

definition decode_list :: "(json \<Rightarrow> 'a option) \<Rightarrow> json \<Rightarrow> 'a list option" where
  "decode_list d v =
     (case v of
        Array vs \<Rightarrow> (case traverse (\<lambda>x. ok_or (d x) ()) vs of Inl _ \<Rightarrow> None | Inr xs \<Rightarrow> Some xs)
      | _ \<Rightarrow> None)"

definition optional_channels :: "jmap \<Rightarrow> string \<Rightarrow> room_settings_error + room_channel list option" where
  "optional_channels obj field =
     (case om_get obj (str field) of
        None \<Rightarrow> Ok None
      | Some v \<Rightarrow> ok_or (map_option Some (decode_list decode_channel v)) (bad_request (str field @ str '' is invalid.'')))"

definition appearance_patch_default :: room_appearance_patch where
  "appearance_patch_default =
     \<lparr>app_banner_preset = None, app_banner_image_url = None, app_icon_image_url = None,
      app_icon_label = None, app_invite_scope = None\<rparr>"

definition appearance_patch_parse :: "json \<Rightarrow> room_settings_error + room_appearance_patch" where
  "appearance_patch_parse v =
     rbind (ok_or (as_object v) (bad_request (str ''appearance must be an object.''))) (\<lambda>obj.
     rbind (require_known_keys obj
              [''banner_preset'', ''banner_image_url'', ''icon_image_url'', ''icon_label'', ''invite_scope'']
              ''appearance'') (\<lambda>_.
     rbind (ensure (obj \<noteq> []) (bad_request (str ''appearance update must not be empty.''))) (\<lambda>_.
     rbind (optional_string obj ''banner_preset'') (\<lambda>banner_preset.
     rbind (optional_string obj ''banner_image_url'') (\<lambda>banner_image_url.
     rbind (optional_string obj ''icon_image_url'') (\<lambda>icon_image_url.
     rbind (optional_string obj ''icon_label'') (\<lambda>icon_label.
     rbind (optional_string obj ''invite_scope'') (\<lambda>invite_scope.
     Ok \<lparr>app_banner_preset = banner_preset, app_banner_image_url = banner_image_url,
         app_icon_image_url = icon_image_url, app_icon_label = icon_label,
         app_invite_scope = invite_scope\<rparr>))))))))"

definition appearance_patch_is_empty :: "room_appearance_patch \<Rightarrow> bool" where
  "appearance_patch_is_empty p \<longleftrightarrow>
     app_banner_preset p = None \<and> app_banner_image_url p = None \<and> app_icon_image_url p = None \<and>
     app_icon_label p = None \<and> app_invite_scope p = None"

definition appearance_patch_apply :: "room_appearance_patch \<Rightarrow> room_appearance \<Rightarrow> room_appearance" where
  "appearance_patch_apply p current =
     \<lparr>ap_banner_preset = unwrap_or (ap_banner_preset current) (app_banner_preset p),
      ap_banner_image_url = unwrap_or (ap_banner_image_url current) (app_banner_image_url p),
      ap_icon_image_url = unwrap_or (ap_icon_image_url current) (app_icon_image_url p),
      ap_icon_label = unwrap_or (ap_icon_label current) (app_icon_label p),
      ap_invite_scope = unwrap_or (ap_invite_scope current) (app_invite_scope p)\<rparr>"

definition settings_patch_parse :: "jmap \<Rightarrow> room_settings_error + room_settings_patch" where
  "settings_patch_parse obj =
     rbind (optional_string obj ''label'') (\<lambda>label.
     rbind (optional_string obj ''topic'') (\<lambda>topic.
     rbind (case om_get obj (str ''appearance'') of
              None \<Rightarrow> Ok appearance_patch_default
            | Some v \<Rightarrow> appearance_patch_parse v) (\<lambda>appearance.
     rbind (optional_string obj ''conversation_mode'') (\<lambda>conversation_mode.
     rbind (optional_string obj ''tool_mode'') (\<lambda>tool_mode.
     rbind (optional_bool obj ''ordered_exclude_previous_speaker'') (\<lambda>exclude_previous.
     rbind (optional_channels obj ''channels'') (\<lambda>channels.
     Ok \<lparr>rsp_label = label, rsp_topic = topic, rsp_appearance = appearance,
         rsp_conversation_mode = conversation_mode, rsp_tool_mode = tool_mode,
         rsp_ordered_exclude_previous_speaker = exclude_previous, rsp_channels = channels\<rparr>)))))))"

definition settings_patch_is_empty :: "room_settings_patch \<Rightarrow> bool" where
  "settings_patch_is_empty p \<longleftrightarrow>
     rsp_label p = None \<and> rsp_topic p = None \<and> appearance_patch_is_empty (rsp_appearance p) \<and>
     rsp_conversation_mode p = None \<and> rsp_tool_mode p = None \<and>
     rsp_ordered_exclude_previous_speaker p = None \<and> rsp_channels p = None"

definition require_available :: "room_settings_patch \<Rightarrow> room_settings_error + unit" where
  "require_available p =
     ensure (case rsp_channels p of None \<Rightarrow> True
             | Some channels \<Rightarrow> \<not> list_ex (\<lambda>c. chan_type c \<noteq> str ''text'') channels)
       (unsupported (str ''Voice channels are deferred; only text channels can be configured.''))"

definition settings_patch_apply :: "unicode \<Rightarrow> room_settings_patch \<Rightarrow> room_settings \<Rightarrow> room_settings_error + room_settings" where
  "settings_patch_apply U p current =
     validate_settings U
       \<lparr>rs_label = unwrap_or (rs_label current) (rsp_label p),
        rs_topic = unwrap_or (rs_topic current) (rsp_topic p),
        rs_appearance = appearance_patch_apply (rsp_appearance p) (rs_appearance current),
        rs_conversation_mode = unwrap_or (rs_conversation_mode current) (rsp_conversation_mode p),
        rs_tool_mode = unwrap_or (rs_tool_mode current) (rsp_tool_mode p),
        rs_ordered_exclude_previous_speaker =
          unwrap_or (rs_ordered_exclude_previous_speaker current) (rsp_ordered_exclude_previous_speaker p),
        rs_channels = unwrap_or (rs_channels current) (rsp_channels p)\<rparr>"

definition strict_update :: "unicode \<Rightarrow> room_settings \<Rightarrow> json \<Rightarrow> room_settings_error + rstr \<times> room_settings" where
  "strict_update U current payload =
     rbind (ok_or (as_object payload) (bad_request (str ''payload must be an object.''))) (\<lambda>obj.
     rbind (require_known_keys obj
              [''expected_revision'', ''label'', ''topic'', ''appearance'', ''conversation_mode'',
               ''tool_mode'', ''ordered_exclude_previous_speaker'', ''channels''] ''room settings'') (\<lambda>_.
     rbind (required_string obj ''expected_revision'') (\<lambda>expected_revision.
     rbind (ensure (length expected_revision \<le> 96 \<and> clean_single_line expected_revision 96 = expected_revision)
              (bad_request (str ''expected_revision is not canonical.''))) (\<lambda>_.
     rbind (settings_patch_parse obj) (\<lambda>patch.
     rbind (ensure (\<not> settings_patch_is_empty patch)
              (bad_request (str ''At least one room-global setting is required.''))) (\<lambda>_.
     rbind (require_available patch) (\<lambda>_.
     rbind (settings_patch_apply U patch current) (\<lambda>next_settings.
     Ok (expected_revision, next_settings)))))))))"

section \<open>The stored document and its revision\<close>

definition encode_appearance :: "room_appearance \<Rightarrow> json" where
  "encode_appearance a = json_object
     [(str ''banner_preset'', String (ap_banner_preset a)),
      (str ''banner_image_url'', String (ap_banner_image_url a)),
      (str ''icon_image_url'', String (ap_icon_image_url a)),
      (str ''icon_label'', String (ap_icon_label a)),
      (str ''invite_scope'', String (ap_invite_scope a))]"

definition encode_channel :: "room_channel \<Rightarrow> json" where
  "encode_channel c = json_object
     [(str ''id'', String (chan_id c)),
      (str ''name'', String (chan_name c)),
      (str ''type'', String (chan_type c)),
      (str ''position'', json_u32 (chan_position c)),
      (str ''created_at'', String (chan_created_at c))]"

definition encode_settings :: "room_settings \<Rightarrow> json" where
  "encode_settings s = json_object
     [(str ''label'', String (rs_label s)),
      (str ''topic'', String (rs_topic s)),
      (str ''appearance'', encode_appearance (rs_appearance s)),
      (str ''conversation_mode'', String (rs_conversation_mode s)),
      (str ''tool_mode'', String (rs_tool_mode s)),
      (str ''ordered_exclude_previous_speaker'', Bool (rs_ordered_exclude_previous_speaker s)),
      (str ''channels'', Array (map encode_channel (rs_channels s)))]"

text \<open>The raw decoders, before validation, and the validating decoder of the stored document.\<close>

definition decode_raw_appearance :: "json \<Rightarrow> room_appearance option" where
  "decode_raw_appearance v =
     (let build = (\<lambda>a b c d e.
        (case (Option.bind a as_str, Option.bind b as_str, Option.bind c as_str,
               Option.bind d as_str, Option.bind e as_str) of
           (Some a, Some b, Some c, Some d, Some e) \<Rightarrow>
             Some \<lparr>ap_banner_preset = a, ap_banner_image_url = b, ap_icon_image_url = c,
                   ap_icon_label = d, ap_invite_scope = e\<rparr>
         | _ \<Rightarrow> None))
      in case v of
        Object m \<Rightarrow>
          if list_all (\<lambda>k. k \<in> {str ''banner_preset'', str ''banner_image_url'', str ''icon_image_url'',
               str ''icon_label'', str ''invite_scope''}) (om_keys m)
          then build (om_get m (str ''banner_preset'')) (om_get m (str ''banner_image_url''))
                 (om_get m (str ''icon_image_url'')) (om_get m (str ''icon_label'')) (om_get m (str ''invite_scope''))
          else None
      | Array [a, b, c, d, e] \<Rightarrow> build (Some a) (Some b) (Some c) (Some d) (Some e)
      | _ \<Rightarrow> None)"

definition decode_raw_settings :: "json \<Rightarrow> room_settings option" where
  "decode_raw_settings v =
     (let build = (\<lambda>a b c d e f g.
        (case (Option.bind a as_str, Option.bind b as_str, Option.bind c decode_raw_appearance,
               Option.bind d as_str, Option.bind e as_str, Option.bind f as_bool,
               Option.bind g (decode_list decode_channel)) of
           (Some a, Some b, Some c, Some d, Some e, Some f, Some g) \<Rightarrow>
             Some \<lparr>rs_label = a, rs_topic = b, rs_appearance = c, rs_conversation_mode = d,
                   rs_tool_mode = e, rs_ordered_exclude_previous_speaker = f, rs_channels = g\<rparr>
         | _ \<Rightarrow> None))
      in case v of
        Object m \<Rightarrow>
          if list_all (\<lambda>k. k \<in> {str ''label'', str ''topic'', str ''appearance'', str ''conversation_mode'',
               str ''tool_mode'', str ''ordered_exclude_previous_speaker'', str ''channels''}) (om_keys m)
          then build (om_get m (str ''label'')) (om_get m (str ''topic'')) (om_get m (str ''appearance''))
                 (om_get m (str ''conversation_mode'')) (om_get m (str ''tool_mode''))
                 (om_get m (str ''ordered_exclude_previous_speaker'')) (om_get m (str ''channels''))
          else None
      | Array [a, b, c, d, e, f, g] \<Rightarrow> build (Some a) (Some b) (Some c) (Some d) (Some e) (Some f) (Some g)
      | _ \<Rightarrow> None)"

definition settings_from_json :: "unicode \<Rightarrow> json \<Rightarrow> room_settings option" where
  "settings_from_json U v =
     (case decode_raw_settings v of
        None \<Rightarrow> None
      | Some raw \<Rightarrow> (case validate_settings U raw of Inl _ \<Rightarrow> None | Inr s \<Rightarrow> Some s))"

definition public_settings :: "(rstr \<Rightarrow> rstr) \<Rightarrow> room_settings \<Rightarrow> public_room_settings" where
  "public_settings sha256 s =
     \<lparr>prs_settings_revision = str ''room-settings-v1-'' @ sha256 (encode (encode_settings s)),
      prs_label = rs_label s,
      prs_topic = rs_topic s,
      prs_appearance = rs_appearance s,
      prs_conversation_mode = rs_conversation_mode s,
      prs_tool_mode = rs_tool_mode s,
      prs_ordered_exclude_previous_speaker = rs_ordered_exclude_previous_speaker s,
      prs_channels = rs_channels s\<rparr>"

section \<open>Valid settings\<close>

definition canonical_line :: "nat \<Rightarrow> rstr \<Rightarrow> bool" where
  "canonical_line limit v \<longleftrightarrow> clean_single_line v limit = v"

definition appearance_valid :: "unicode \<Rightarrow> room_appearance \<Rightarrow> bool" where
  "appearance_valid U a \<longleftrightarrow>
     ap_banner_preset a \<in> {str ''default'', str ''forest'', str ''midnight'', str ''ember'', str ''custom''} \<and>
     list_all (\<lambda>u. u = [] \<or> canonical_line 240 u \<and> room_appearance_asset_id u \<noteq> None)
       [ap_banner_image_url a, ap_icon_image_url a] \<and>
     take 2 (concat (map (uppercase U) (clean_single_line (ap_icon_label a) 2))) = ap_icon_label a \<and>
     ap_invite_scope a \<in> {str ''room'', str ''read_only''}"

definition channel_valid :: "room_channel \<Rightarrow> bool" where
  "channel_valid c \<longleftrightarrow>
     is_custom_channel_id (chan_id c) \<and> chan_name c \<noteq> [] \<and> canonical_line 60 (chan_name c) \<and>
     chan_type c \<in> {str ''text'', str ''voice''} \<and> canonical_line 64 (chan_created_at c)"

definition settings_valid :: "unicode \<Rightarrow> room_settings \<Rightarrow> bool" where
  "settings_valid U s \<longleftrightarrow>
     canonical_line 128 (rs_label s) \<and> canonical_line 160 (rs_topic s) \<and>
     rs_conversation_mode s \<in> {str ''ordered'', str ''ambient''} \<and>
     rs_tool_mode s \<in> {str ''chat'', str ''tabletop''} \<and>
     length (rs_channels s) \<le> 50 \<and> list_all channel_valid (rs_channels s) \<and>
     distinct (map chan_id (rs_channels s)) \<and>
     map (unat \<circ> chan_position) (rs_channels s) = [0..<length (rs_channels s)] \<and>
     appearance_valid U (rs_appearance s)"

lemma require_canonical_text_Ok [simp]:
  "require_canonical_text v field limit = Ok u \<longleftrightarrow> canonical_line limit v"
  by (simp add: require_canonical_text_def canonical_line_def)

lemma clean_single_line_Nil [simp]: "clean_single_line [] n = []"
  by (simp add: clean_single_line_def split_whitespace_def)

lemma canonical_line_simps [simp]: "canonical_line n []"
  by (simp add: canonical_line_def)

lemma canonical_presets:
  "canonical_line 24 (str ''default'')" "canonical_line 24 (str ''forest'')" "canonical_line 24 (str ''midnight'')"
  "canonical_line 24 (str ''ember'')" "canonical_line 24 (str ''custom'')"
  by code_simp+

lemma validate_appearance_Ok:
  "validate_appearance U a = Ok b \<longleftrightarrow> b = a \<and> appearance_valid U a"
  using canonical_presets
  by (cases a) (auto simp: validate_appearance_def appearance_valid_def require_asset_url_def
      require_short_label_def IMAGE_URL_LIMIT_def)

lemma validate_channels_Ok:
  "validate_channels seen n cs = Ok u \<longleftrightarrow>
     list_all channel_valid cs \<and> distinct (map chan_id cs) \<and> chan_id ` set cs \<inter> set seen = {} \<and>
     map (unat \<circ> chan_position) cs = [n..<n + length cs]"
proof (induction cs arbitrary: seen n)
  case (Cons c cs)
  have "[n..<n + length (c # cs)] = n # [Suc n..<Suc n + length cs]"
    by (simp add: upt_rec)
  then show ?case
    using Cons.IH [of "chan_id c # seen" "Suc n"]
    by (auto simp: channel_valid_def CHANNEL_NAME_LIMIT_def)
qed simp

lemma validate_settings_Ok:
  "validate_settings U s = Ok t \<longleftrightarrow> t = s \<and> settings_valid U s"
  by (cases s)
    (auto simp: validate_settings_def settings_valid_def validate_channels_Ok validate_appearance_Ok
      ROOM_LABEL_LIMIT_def ROOM_TOPIC_LIMIT_def MAX_CHANNELS_def)

lemma require_known_keys_Ok [simp]:
  "require_known_keys obj keys field = Ok u \<longleftrightarrow> set (om_keys obj) \<subseteq> str ` set keys"
  by (auto simp: require_known_keys_def Let_def filter_empty_conv)

lemma optional_absent:
  "om_get obj (str f) = None \<Longrightarrow> optional_string obj f = Ok v \<Longrightarrow> v = None"
  "om_get obj (str f) = None \<Longrightarrow> optional_bool obj f = Ok w \<Longrightarrow> w = None"
  "om_get obj (str f) = None \<Longrightarrow> optional_channels obj f = Ok x \<Longrightarrow> x = None"
  by (simp_all add: optional_string_def optional_bool_def optional_channels_def)

lemma appearance_patch_default_apply [simp]: "appearance_patch_apply appearance_patch_default a = a"
  by (cases a) (simp add: appearance_patch_apply_def appearance_patch_default_def)



section \<open>The stored document\<close>

lemma decode_encode_channel [simp]: "decode_channel (encode_channel c) = Some c"
  by (cases c) (simp add: decode_channel_def encode_channel_def json_object_def om_get_from list_all_iff)

lemma traverse_map: "(\<And>x. x \<in> set xs \<Longrightarrow> f (g x) = Ok x) \<Longrightarrow> traverse f (map g xs) = Ok xs"
  by (induction xs) auto

lemma decode_encode_channels [simp]: "decode_list decode_channel (Array (map encode_channel cs)) = Some cs"
  by (simp add: decode_list_def traverse_map)

lemma decode_encode_appearance [simp]: "decode_raw_appearance (encode_appearance a) = Some a"
  by (cases a) (simp add: decode_raw_appearance_def encode_appearance_def json_object_def om_get_from list_all_iff)

lemma decode_encode_settings: "decode_raw_settings (encode_settings s) = Some s"
  by (cases s) (simp add: decode_raw_settings_def encode_settings_def json_object_def om_get_from list_all_iff)

lemma settings_from_json_encode:
  "settings_from_json U (encode_settings s) = (if settings_valid U s then Some s else None)"
proof -
  have "validate_settings U s = Ok s" if "settings_valid U s"
    using that by (simp add: validate_settings_Ok)
  moreover have "\<exists>e. validate_settings U s = Inl e" if "\<not> settings_valid U s"
    using that validate_settings_Ok by (cases "validate_settings U s") auto
  ultimately show ?thesis by (auto simp: settings_from_json_def decode_encode_settings)
qed

text \<open>A stored settings document loads again exactly when the settings are valid,
  and then gives them back unchanged; in particular every accepted update reloads.\<close>

theorem settings_reload:
  "settings_from_json U (encode_settings s) = (if settings_valid U s then Some s else None)"
  by (rule settings_from_json_encode)

lemma json_wf_object: "list_all (\<lambda>e. json_wf (snd e)) es \<Longrightarrow> json_wf (json_object es)"
  using set_om_from [of es] by (auto simp: json_object_def om_wf_from list_all_iff)

lemma json_wf_u32 [simp]: "json_wf (json_u32 w)"
  by (simp add: json_u32_def)

lemma json_wf_settings: "json_wf (encode_settings s)"
proof -
  have c: "json_wf (encode_channel c)" for c
    unfolding encode_channel_def by (rule json_wf_object) simp
  have a: "json_wf (encode_appearance a)" for a
    unfolding encode_appearance_def by (rule json_wf_object) simp
  show ?thesis
    unfolding encode_settings_def by (rule json_wf_object) (auto simp: a c)
qed

text \<open>The public revision identifies the settings: two rooms show the
  same revision only if their settings are equal or their canonical documents collide under
  the digest, so a compare-and-set on the revision cannot overwrite unseen settings.\<close>

theorem settings_revision_identity:
  assumes "prs_settings_revision (public_settings sha256 s) = prs_settings_revision (public_settings sha256 t)"
  shows "s = t \<or> encode (encode_settings s) \<noteq> encode (encode_settings t)
                \<and> sha256 (encode (encode_settings s)) = sha256 (encode (encode_settings t))"
proof -
  have "s = t" if "encode (encode_settings s) = encode (encode_settings t)"
    using encode_inj [OF json_wf_settings json_wf_settings that] decode_encode_settings
    by (metis option.inject)
  with assms show ?thesis by (auto simp: public_settings_def)
qed

theorem settings_revision_identity_witness:
  "encode (encode_settings (defaults (str ''a''))) \<noteq> encode (encode_settings (defaults (str ''b'')))"
proof -
  have "defaults (str ''a'') \<noteq> defaults (str ''b'')" by code_simp
  then show ?thesis
    using settings_revision_identity [of "\<lambda>_. []" "defaults (str ''a'')" "defaults (str ''b'')"]
    by (simp add: public_settings_def)
qed

lemma defaults_valid_iff: "settings_valid U (defaults label) \<longleftrightarrow> canonical_line 128 (clean_single_line label 128)"
  by (simp add: settings_valid_def defaults_def appearance_valid_def ROOM_LABEL_LIMIT_def)

text \<open>The settings a new room starts with are valid, and so its document loads, when
  its label is canonical or empty; the default settings of a label whose cleaned form was cut
  just after a space do not load.\<close>

theorem defaults_valid:
  "settings_valid U (defaults label) \<longleftrightarrow>
     clean_single_line label 128 = [] \<or> last (clean_single_line label 128) \<noteq> 32"
proof -
  have "canonical_line 128 (clean_single_line label 128) \<longleftrightarrow>
      clean_single_line label 128 = [] \<or> last (clean_single_line label 128) \<noteq> 32"
    unfolding canonical_line_def using single_line_facts [of label 128] by blast
  then show ?thesis by (simp add: defaults_valid_iff)
qed

theorem defaults_valid_witness:
  "settings_valid ascii_unicode (defaults (str ''My  room''))"
proof -
  have "last (clean_single_line (str ''My  room'') 128) \<noteq> 32" by code_simp
  then show ?thesis using defaults_valid [of ascii_unicode "str ''My  room''"] by simp
qed

end
