(* ===== verification/Store_Base.thy ===== *)
theory Store_Base
  imports Room_Settings
begin

text \<open>
  What the modules of the persistence crate share: the error type, the insertion of a row
  under a primary key, and the decoding of the settings document of a room.
\<close>

text \<open>The errors of the store; what the database driver, the JSON decoder and the file system report
  is not told apart.\<close>

datatype persistence_error =
  Database_Error
| Json_Error
| Runtime_Authority_Task rstr
| Authority_Conflict rstr
| Unowned_Database
| Writer_Already_Active rstr
| Writer_Lease
| Unsafe_Database_Path string
| Initialization_Not_Allowed
| Invalid_Schema_Version rstr
| Schema_Version_Mismatch int int
| Invalid_Server_Id
| Invalid_Host_Identity
| Host_Identity_Missing
| Invalid_Human_Invite
| Host_Identity_File
| Host_Identity_Entropy
| Room_Missing
| Participant_Missing
| Persona_Asset_Missing
| Invalid_Persona_Asset
| Command_Conflict
| Invalid_Cursor int
| Subscription_Catch_Up_Exceeded int int
| Subscription_Sequence_Gap int int
| Command_Rejected string rstr
| Stored_Command_Rejected rstr rstr
| Command_Unresolved string rstr

definition rejected :: "string \<Rightarrow> string \<Rightarrow> persistence_error" where
  "rejected code message = Command_Rejected code (str message)"

lemma rejected_eq [simp]: "rejected a b = rejected c d \<longleftrightarrow> a = c \<and> b = d"
  by (simp add: rejected_def)

definition rejection :: "command_rejection \<Rightarrow> persistence_error" where
  "rejection e = Command_Rejected (rej_code e) (rej_message e)"

definition insert_row :: "'k \<Rightarrow> 'v \<Rightarrow> ('k \<rightharpoonup> 'v) \<Rightarrow> persistence_error + ('k \<rightharpoonup> 'v)" where
  "insert_row k v t = (if t k = None then Ok (t(k \<mapsto> v)) else Err Database_Error)"

lemma insert_row_Ok [simp]: "insert_row k v t = Ok t' \<longleftrightarrow> t k = None \<and> t' = t(k \<mapsto> v)"
  by (auto simp: insert_row_def)

definition load_settings :: "unicode \<Rightarrow> json \<Rightarrow> persistence_error + room_settings" where
  "load_settings U v = ok_or (settings_from_json U v) Json_Error"

lemma load_settings_encoded [simp]:
  "load_settings U (encode_settings s) = (if settings_valid U s then Ok s else Err Json_Error)"
  by (simp add: load_settings_def settings_from_json_encode)

end
