(* ===== verification/Idempotency.thy ===== *)
theory Idempotency
  imports Prelude
begin

text \<open>
  The contract of an operation that a client may retry: once a request has committed, issuing
  it again, with whatever fresh identifiers and time the server draws for the retry, returns
  the committed result marked as a replay and changes nothing. Room creation and side-chat
  sends provide it.
\<close>

locale idempotent_request =
  fixes run :: "'n \<Rightarrow> 'q \<Rightarrow> 's \<Rightarrow> 'e + 'r \<times> 's"
    and replayed :: "'r \<Rightarrow> 'r"
    and admissible :: "'q \<Rightarrow> bool"
  assumes replay: "admissible q \<Longrightarrow> run n q s = Ok (r, s') \<Longrightarrow> run n' q s' = Ok (replayed r, s')"
    and replayed_idem: "replayed (replayed r) = replayed r"
begin

text \<open>Retrying with a list of fresh draws.\<close>

definition retries :: "'n list \<Rightarrow> 'q \<Rightarrow> 'r \<times> 's \<Rightarrow> 'e + 'r \<times> 's" where
  "retries ns q x = foldl (\<lambda>m n. rbind m (\<lambda>y. run n q (snd y))) (Ok x) ns"

lemma retries_stable:
  assumes "admissible q" "run n q s = Ok (r, s')"
  shows "retries ns q (r, s') = Ok (if ns = [] then r else replayed r, s')"
proof (induction ns rule: rev_induct)
  case Nil
  then show ?case by (simp add: retries_def)
next
  case (snoc m ns)
  show ?case
  proof (cases "ns = []")
    case True
    then show ?thesis using replay [OF assms, of m] by (simp add: retries_def)
  next
    case False
    have "run m q s' = Ok (replayed r, s')" using replay [OF assms] .
    with False snoc show ?thesis by (simp add: retries_def)
  qed
qed

lemma retry_keeps_state:
  "admissible q \<Longrightarrow> run n q s = Ok (r, s') \<Longrightarrow> run n' q s' = Ok (r', s'') \<Longrightarrow> s'' = s' \<and> r' = replayed r"
  using replay by fastforce

end

end
