(* ===== verification/Room_Directory.thy ===== *)
theory Room_Directory
  imports Store_Base Idempotency "HOL-Library.Product_Lexorder" "HOL-Library.Multiset"
begin

text \<open>
  The room directory of the store (persistence/room\_directory.rs) and the handler in front of
  it (server/room\_directory\_web.rs): listing and idempotent creation. A table is a map from
  its primary key, a transaction a function that returns the new tables or an error and
  leaves them as they were. The settings of a row are kept as the stored document and
  validated whenever the code decodes them.
\<close>

definition invalid_room_state :: persistence_error where
  "invalid_room_state = rejected ''invalid_state'' ''Stored room authority is invalid.''"

record bootstrap_status =
  bs_server_id :: rstr
  bs_authority_lineage_id :: rstr

record operator_profile =
  op_display_name :: rstr
  op_avatar_image_url :: rstr

record room_create_commit =
  rcc_room :: room
  rcc_settings :: room_settings
  rcc_events :: "room_event list"
  rcc_deduplicated :: bool
  rcc_server_id :: rstr
  rcc_authority_lineage_id :: rstr

record stored_room_summary =
  srs_room :: room
  srs_settings :: room_settings
  srs_cleanup_pending :: bool
  srs_deletion_pending :: bool

text \<open>The tables; a creation result is stored with its payload hash, the two skipped fields blank.\<close>

record directory =
  dir_rooms :: "(rstr, room \<times> json) omap"
  dir_cursors :: "rstr \<rightharpoonup> int"
  dir_participants :: "rstr \<times> rstr \<rightharpoonup> participant"
  dir_events :: "rstr \<times> int \<rightharpoonup> room_event"
  dir_results :: "rstr \<times> rstr \<rightharpoonup> rstr \<times> room_create_commit"

definition empty_directory :: directory where
  "empty_directory =
     \<lparr>dir_rooms = [], dir_cursors = Map.empty, dir_participants = Map.empty,
      dir_events = Map.empty, dir_results = Map.empty\<rparr>"

text \<open>Decoding a stored creation result validates the settings inside it.\<close>

definition load_commit :: "unicode \<Rightarrow> room_create_commit \<Rightarrow> persistence_error + room_create_commit" where
  "load_commit U c =
     rbind (load_settings U (encode_settings (rcc_settings c))) (\<lambda>settings.
     Ok (c\<lparr>rcc_settings := settings, rcc_server_id := [], rcc_authority_lineage_id := []\<rparr>))"

definition room_created_event :: "rstr \<Rightarrow> rstr \<Rightarrow> rstr \<Rightarrow> timestamp \<Rightarrow> room_event" where
  "room_created_event fresh rid label now =
     \<lparr>ev_v = 1,
      ev_id = fresh,
      ev_seq = 1,
      ev_created_at = now,
      ev_room_id = rid,
      ev_type = str ''room_created'',
      ev_actor = \<lparr>actor_participant_id = LOCAL_OPERATOR_PARTICIPANT_ID, actor_participant_type = str ''human''\<rparr>,
      ev_participant_id = None,
      ev_participant_type = None,
      ev_actor_id = Some LOCAL_OPERATOR_PARTICIPANT_ID,
      ev_actor_type = Some (str ''human''),
      ev_display_name = None,
      ev_content = None,
      ev_message_kind = None,
      ev_extra = om_from [(str ''label'', String label)]\<rparr>"

definition replay_room_creation ::
  "unicode \<Rightarrow> directory \<Rightarrow> rstr \<Rightarrow> rstr \<Rightarrow> rstr \<Rightarrow> rstr \<Rightarrow> bootstrap_status
     \<Rightarrow> persistence_error + room_create_commit option" where
  "replay_room_creation U dir request_id rid label payload_hash authority =
     (case dir_results dir (LOCAL_OPERATOR_USER_ID, request_id) of
        None \<Rightarrow> Ok None
      | Some (stored_hash, result) \<Rightarrow>
          rbind (ensure (stored_hash = payload_hash)
                   (rejected ''room_create_request_conflict'' ''Room creation request id was reused with a different payload.'')) (\<lambda>_.
          rbind (load_commit U result) (\<lambda>stored.
          rbind (ensure (\<not> rcc_deduplicated stored \<and> room_id (rcc_room stored) = rid \<and>
                         rs_label (rcc_settings stored) = label) invalid_room_state) (\<lambda>_.
          Ok (Some (stored\<lparr>rcc_deduplicated := True, rcc_events := [],
                           rcc_server_id := bs_server_id authority,
                           rcc_authority_lineage_id := bs_authority_lineage_id authority\<rparr>))))))"

definition create_room_in_transaction ::
  "unicode \<Rightarrow> uuid \<Rightarrow> rstr \<Rightarrow> timestamp \<Rightarrow> (persistence_error + operator_profile) \<Rightarrow> directory \<Rightarrow> rstr \<Rightarrow> rstr
     \<Rightarrow> rstr \<Rightarrow> rstr \<Rightarrow> bootstrap_status \<Rightarrow> persistence_error + room_create_commit \<times> directory" where
  "create_room_in_transaction U uid fresh now profile dir request_id rid label payload_hash authority =
     rbind (replay_room_creation U dir request_id rid label payload_hash authority) (\<lambda>replay.
     case replay of
       Some commit \<Rightarrow> Ok (commit, dir)
     | None \<Rightarrow>
       rbind (case om_get (dir_rooms dir) rid of
                None \<Rightarrow> Ok ()
              | Some (room, document) \<Rightarrow>
                  rbind (load_settings U document) (\<lambda>settings.
                  if room_id room \<noteq> rid \<or> rs_label settings \<noteq> room_label room then Err invalid_room_state
                  else Err (rejected ''room_already_exists'' ''A different request already owns this room id.''))) (\<lambda>_.
       rbind profile (\<lambda>profile.
       let room = room_new uid rid label now;
           settings = defaults label;
           operator = \<lparr>part_room_id = rid, part_id = LOCAL_OPERATOR_PARTICIPANT_ID,
             part_display_name = op_display_name profile, part_avatar_image_url = op_avatar_image_url profile,
             part_type = str ''human'', part_status = Joined, part_role = Human, part_owner_id = [],
             part_muted = False, part_created_at = now, part_updated_at = now\<rparr>;
           event = room_created_event fresh rid label now;
           commit = \<lparr>rcc_room = room, rcc_settings = settings, rcc_events = [event], rcc_deduplicated = False,
             rcc_server_id = bs_server_id authority, rcc_authority_lineage_id = bs_authority_lineage_id authority\<rparr> in
       rbind (insert_row rid 0 (dir_cursors dir)) (\<lambda>cursors.
       rbind (insert_row (rid, LOCAL_OPERATOR_PARTICIPANT_ID) operator (dir_participants dir)) (\<lambda>participants.
       rbind (insert_row (rid, 1) event (dir_events dir)) (\<lambda>events.
       rbind (insert_row (LOCAL_OPERATOR_USER_ID, request_id) (payload_hash, commit) (dir_results dir)) (\<lambda>results.
       Ok (commit,
           \<lparr>dir_rooms = om_insert rid (room, encode_settings settings) (dir_rooms dir),
            dir_cursors = cursors, dir_participants = participants, dir_events = events,
            dir_results = results\<rparr>))))))))"

definition create_room_for_local_operator ::
  "unicode \<Rightarrow> (rstr \<Rightarrow> rstr) \<Rightarrow> (rstr \<Rightarrow> uuid option) \<Rightarrow> uuid \<Rightarrow> rstr \<Rightarrow> timestamp
     \<Rightarrow> (persistence_error + operator_profile) \<Rightarrow> (persistence_error + bootstrap_status)
     \<Rightarrow> directory \<Rightarrow> rstr \<Rightarrow> rstr \<Rightarrow> rstr \<Rightarrow> persistence_error + room_create_commit \<times> directory" where
  "create_room_for_local_operator U sha256 parse_uuid uid fresh now profile bootstrap dir request_id rid label =
     rbind (ensure (parse_uuid request_id \<noteq> None)
              (rejected ''room_create_request_invalid'' ''Room creation request id must be a UUID.'')) (\<lambda>_.
     let payload_hash = canonical_payload_hash sha256
           (json_object [(str ''room_id'', String rid), (str ''label'', String label)]) in
     rbind bootstrap (\<lambda>authority.
     create_room_in_transaction U uid fresh now profile dir request_id rid label payload_hash authority))"

text \<open>The handler's choice of the identifier and the label (after the operator check and the body decoder).\<close>

definition create_room_handler ::
  "unicode \<Rightarrow> (rstr \<Rightarrow> rstr) \<Rightarrow> (rstr \<Rightarrow> uuid option) \<Rightarrow> uuid \<Rightarrow> rstr \<Rightarrow> timestamp
     \<Rightarrow> (persistence_error + operator_profile) \<Rightarrow> (persistence_error + bootstrap_status)
     \<Rightarrow> directory \<Rightarrow> rstr \<Rightarrow> rstr \<Rightarrow> rstr \<Rightarrow> persistence_error + room_create_commit \<times> directory" where
  "create_room_handler U sha256 parse_uuid uid fresh now profile bootstrap dir request_id raw_room_id raw_label =
     rbind (map_err rejection (validate_room_id raw_room_id)) (\<lambda>rid.
     let label = clean_single_line raw_label 128;
         label = (if label = [] then rid else label) in
     create_room_for_local_operator U sha256 parse_uuid uid fresh now profile bootstrap dir request_id rid label)"

definition list_room_directory ::
  "unicode \<Rightarrow> rstr set \<Rightarrow> rstr set \<Rightarrow> bool \<Rightarrow> directory \<Rightarrow> persistence_error + stored_room_summary list" where
  "list_room_directory U cleanup deletion include_archived dir =
     rbind (traverse (\<lambda>row.
              let row_room_id = fst row; room = fst (snd row) in
              rbind (load_settings U (snd (snd row))) (\<lambda>settings.
              rbind (ensure (room_id room = row_room_id) invalid_room_state) (\<lambda>_.
              Ok (if include_archived \<or> room_state room \<noteq> Room_Archived
                  then [\<lparr>srs_room = room, srs_settings = settings,
                         srs_cleanup_pending = (row_room_id \<in> cleanup),
                         srs_deletion_pending = (row_room_id \<in> deletion)\<rparr>]
                  else [])))) (dir_rooms dir)) (\<lambda>rooms.
     Ok (sort_key (\<lambda>s. (- room_updated_at (srs_room s), room_id (srs_room s))) (concat rooms)))"

section \<open>Creation is idempotent for canonical labels\<close>

lemma canonical_line_defaults: "canonical_line 128 label \<Longrightarrow> settings_valid U (defaults label) \<and> rs_label (defaults label) = label"
  using defaults_valid_iff [of U label] by (simp add: canonical_line_def) (simp add: defaults_def ROOM_LABEL_LIMIT_def)

definition replayed_commit :: "room_create_commit \<Rightarrow> room_create_commit" where
  "replayed_commit c = c\<lparr>rcc_deduplicated := True, rcc_events := []\<rparr>"

lemma replay_Some:
  "replay_room_creation U dir q rid label h a = Ok (Some c) \<Longrightarrow>
     rcc_deduplicated c \<and> rcc_events c = [] \<and> replayed_commit c = c"
  by (auto simp: replay_room_creation_def replayed_commit_def split: option.splits)

text \<open>What a fresh creation leaves behind, and what its retry finds.\<close>

lemma create_fresh:
  assumes "create_room_in_transaction U uid fresh now profile dir q rid label h a = Ok (c, dir')"
    and "replay_room_creation U dir q rid label h a = Ok None"
  shows "dir_results dir' (LOCAL_OPERATOR_USER_ID, q) = Some (h, c) \<and> rcc_settings c = defaults label
    \<and> room_id (rcc_room c) = rid \<and> room_label (rcc_room c) = label \<and> \<not> rcc_deduplicated c \<and> rcc_server_id c = bs_server_id a
    \<and> rcc_authority_lineage_id c = bs_authority_lineage_id a
    \<and> om_get (dir_rooms dir) rid = None
    \<and> om_get (dir_rooms dir') rid = Some (rcc_room c, encode_settings (defaults label))"
proof -
  have "om_get (dir_rooms dir) rid = None"
    using assms by (cases "om_get (dir_rooms dir) rid")
      (auto simp: create_room_in_transaction_def split: if_splits prod.splits)
  with assms show ?thesis
    by (auto simp: create_room_in_transaction_def Let_def room_new_def)
qed

lemma retry_of_fresh:
  assumes "create_room_in_transaction U uid fresh now profile dir q rid label h a = Ok (c, dir')"
    and "replay_room_creation U dir q rid label h a = Ok None"
  shows "create_room_in_transaction U uid' fresh' now' profile' dir' q rid label h a =
    (if canonical_line 128 label then Ok (replayed_commit c, dir')
     else if settings_valid U (defaults label) then Err invalid_room_state else Err Json_Error)"
proof -
  note f = create_fresh [OF assms]
  have lab: "rs_label (defaults label) = clean_single_line label 128"
    by (simp add: defaults_def ROOM_LABEL_LIMIT_def)
  show ?thesis
    using f canonical_line_defaults [of label U] lab
    by (auto simp: create_room_in_transaction_def replay_room_creation_def load_commit_def
        replayed_commit_def canonical_line_def ensure_def)
qed

lemma create_room_replay:
  assumes "canonical_line 128 label"
    and "create_room_for_local_operator U sha256 parse_uuid uid fresh now profile bootstrap dir q rid label = Ok (c, dir')"
  shows "create_room_for_local_operator U sha256 parse_uuid uid' fresh' now' profile bootstrap dir' q rid label
    = Ok (replayed_commit c, dir')"
proof -
  let ?h = "canonical_payload_hash sha256 (json_object [(str ''room_id'', String rid), (str ''label'', String label)])"
  obtain a where a: "bootstrap = Ok a" "parse_uuid q \<noteq> None"
    and c: "create_room_in_transaction U uid fresh now profile dir q rid label ?h a = Ok (c, dir')"
    using assms(2) by (auto simp: create_room_for_local_operator_def Let_def)
  obtain r where r: "replay_room_creation U dir q rid label ?h a = Ok r"
    using c by (auto simp: create_room_in_transaction_def)
  have "create_room_in_transaction U uid' fresh' now' profile dir' q rid label ?h a = Ok (replayed_commit c, dir')"
  proof (cases r)
    case None
    then show ?thesis using retry_of_fresh [OF c] r assms(1) by simp
  next
    case (Some c')
    then have "c' = c" "dir' = dir" using c r by (auto simp: create_room_in_transaction_def)
    then show ?thesis using r Some replay_Some [of U dir q rid label ?h a c]
      by (simp add: create_room_in_transaction_def)
  qed
  then show ?thesis using a by (simp add: create_room_for_local_operator_def Let_def)
qed

interpretation room_creation: idempotent_request
  "\<lambda>(uid, fresh, now) (q, rid, label) dir.
     create_room_for_local_operator U sha256 parse_uuid uid fresh now profile bootstrap dir q rid label"
  replayed_commit "\<lambda>(q, rid, label). canonical_line 128 label"
  for U sha256 parse_uuid profile bootstrap
proof (unfold_locales, goal_cases)
  case (1 q n s r s' n')
  obtain rq rid label where q: "q = (rq, rid, label)" by (cases q)
  obtain uid fresh now where n: "n = (uid, fresh, now)" by (cases n)
  obtain uid' fresh' now' where n': "n' = (uid', fresh', now')" by (cases n')
  show ?case
    using create_room_replay [of label U sha256 parse_uuid uid fresh now profile bootstrap s rq rid r s' uid' fresh' now']
      1 unfolding q n n' prod.case by blast
next
  case (2 r)
  then show ?case by (simp add: replayed_commit_def)
qed

text \<open>C17: a room creation that committed under a canonical label can be retried
  with the same request any number of times, whatever identifiers and time the server draws:
  every retry returns the committed room marked as a replay, with no events to publish, and
  the store stays as it is.\<close>

theorem create_room_idempotent:
  assumes "canonical_line 128 label"
    and "create_room_for_local_operator U sha256 parse_uuid uid fresh now profile bootstrap dir q rid label = Ok (c, dir')"
  shows "foldl (\<lambda>m (uid, fresh, now). rbind m (\<lambda>y.
           create_room_for_local_operator U sha256 parse_uuid uid fresh now profile bootstrap (snd y) q rid label))
           (Ok (c, dir')) draws
     = Ok (if draws = [] then c else c\<lparr>rcc_deduplicated := True, rcc_events := []\<rparr>, dir')"
proof -
  have "room_creation.retries U sha256 parse_uuid profile bootstrap draws (q, rid, label) (c, dir')
    = Ok (if draws = [] then c else replayed_commit c, dir')"
    by (rule room_creation.retries_stable [where n = "(uid, fresh, now)"]) (use assms in auto)
  then show ?thesis
    unfolding room_creation.retries_def replayed_commit_def by (simp add: case_prod_unfold)
qed

theorem create_room_idempotent_witness:
  "\<exists>c dir'. create_room_for_local_operator ascii_unicode rev (\<lambda>_. Some 0) 3 (str ''e2'') 2
        (Ok \<lparr>op_display_name = str ''Host'', op_avatar_image_url = []\<rparr>)
        (Ok \<lparr>bs_server_id = [], bs_authority_lineage_id = []\<rparr>) dir' (str ''q1'') (str ''lobby'') (str ''Lobby'')
      = Ok (c\<lparr>rcc_deduplicated := True, rcc_events := []\<rparr>, dir') \<and> rcc_events c \<noteq> []"
proof -
  let ?run = "\<lambda>uid fresh now dir. create_room_for_local_operator ascii_unicode rev (\<lambda>_. Some 0) uid fresh now
      (Ok \<lparr>op_display_name = str ''Host'', op_avatar_image_url = []\<rparr>)
      (Ok \<lparr>bs_server_id = [], bs_authority_lineage_id = []\<rparr>) dir (str ''q1'') (str ''lobby'') (str ''Lobby'')"
  have can: "canonical_line 128 (str ''Lobby'')" by code_simp
  obtain c dir' where run: "?run 1 (str ''e1'') 1 empty_directory = Ok (c, dir')" "rcc_events c \<noteq> []"
    by (simp add: create_room_for_local_operator_def create_room_in_transaction_def replay_room_creation_def
        empty_directory_def insert_row_def Let_def)
  show ?thesis
    using create_room_idempotent [OF can run(1), of "[(3, str ''e2'', 2)]"] run(2)
    by (intro exI [of _ c] exI [of _ dir']) simp
qed

section \<open>What a retry finds under any label\<close>

text \<open>C32: when a creation has just committed for a new request, retrying it
  succeeds exactly when the label it was given is canonical; otherwise the retry fails, with
  invalid stored state when cleaning the label changed it, or because the stored settings no
  longer load when the cleaned label ends in a space. A different request for the same room
  is told that the room exists under the same condition only.\<close>

theorem create_room_retry_outcome:
  assumes "create_room_for_local_operator U sha256 parse_uuid uid fresh now profile bootstrap dir q rid label = Ok (c, dir')"
    and "dir_results dir (LOCAL_OPERATOR_USER_ID, q) = None"
    and "parse_uuid q' \<noteq> None" "q' \<noteq> q" "dir_results dir (LOCAL_OPERATOR_USER_ID, q') = None"
  shows "create_room_for_local_operator U sha256 parse_uuid uid' fresh' now' profile bootstrap dir' q rid label
      = (if canonical_line 128 label then Ok (replayed_commit c, dir')
         else if settings_valid U (defaults label) then Err invalid_room_state else Err Json_Error)
    \<and> create_room_for_local_operator U sha256 parse_uuid uid' fresh' now' profile bootstrap dir' q' rid label'
      = (if canonical_line 128 label
         then Err (rejected ''room_already_exists'' ''A different request already owns this room id.'')
         else if settings_valid U (defaults label) then Err invalid_room_state else Err Json_Error)"
proof -
  let ?h = "\<lambda>l. canonical_payload_hash sha256 (json_object [(str ''room_id'', String rid), (str ''label'', String l)])"
  obtain a where a: "bootstrap = Ok a" "parse_uuid q \<noteq> None"
    and c: "create_room_in_transaction U uid fresh now profile dir q rid label (?h label) a = Ok (c, dir')"
    using assms(1) by (auto simp: create_room_for_local_operator_def Let_def)
  have r: "replay_room_creation U dir q rid label (?h label) a = Ok None"
    using assms(2) by (simp add: replay_room_creation_def)
  note f = create_fresh [OF c r]
  have other: "dir_results dir' (LOCAL_OPERATOR_USER_ID, q') = None"
    using c r f assms(4,5) by (auto simp: create_room_in_transaction_def Let_def)
  have room: "room_label (rcc_room c) = label"
    using f by simp
  have lab: "rs_label (defaults label) = clean_single_line label 128"
    by (simp add: defaults_def ROOM_LABEL_LIMIT_def)
  have "create_room_in_transaction U uid' fresh' now' profile dir' q' rid label' (?h label') a
      = (if canonical_line 128 label
         then Err (rejected ''room_already_exists'' ''A different request already owns this room id.'')
         else if settings_valid U (defaults label) then Err invalid_room_state else Err Json_Error)"
    using other f room lab canonical_line_defaults [of label U]
    by (auto simp: create_room_in_transaction_def replay_room_creation_def canonical_line_def)
  then show ?thesis
    using retry_of_fresh [OF c r] a assms(3) by (simp add: create_room_for_local_operator_def Let_def)
qed

text \<open>The handler passes such a label for the room identifier \<open>a  b\<close> with no label.\<close>

theorem create_room_retry_outcome_witness:
  "\<exists>c dir'. create_room_handler ascii_unicode rev (\<lambda>_. Some 0) 1 (str ''e1'') 1
        (Ok \<lparr>op_display_name = str ''Host'', op_avatar_image_url = []\<rparr>)
        (Ok \<lparr>bs_server_id = [], bs_authority_lineage_id = []\<rparr>) empty_directory (str ''q1'') (str ''a  b'') []
      = Ok (c, dir')
    \<and> create_room_handler ascii_unicode rev (\<lambda>_. Some 0) 3 (str ''e2'') 2
        (Ok \<lparr>op_display_name = str ''Host'', op_avatar_image_url = []\<rparr>)
        (Ok \<lparr>bs_server_id = [], bs_authority_lineage_id = []\<rparr>) dir' (str ''q1'') (str ''a  b'') []
      = Err invalid_room_state"
proof -
  let ?run = "\<lambda>uid fresh now dir. create_room_for_local_operator ascii_unicode rev (\<lambda>_. Some 0) uid fresh now
      (Ok \<lparr>op_display_name = str ''Host'', op_avatar_image_url = []\<rparr>)
      (Ok \<lparr>bs_server_id = [], bs_authority_lineage_id = []\<rparr>) dir (str ''q1'') (str ''a  b'') (str ''a  b'')"
  have rid: "validate_room_id (str ''a  b'') = Ok (str ''a  b'')" by code_simp
  have can: "\<not> canonical_line 128 (str ''a  b'')" by code_simp
  have val: "settings_valid ascii_unicode (defaults (str ''a  b''))" by code_simp
  obtain c dir' where run: "?run 1 (str ''e1'') 1 empty_directory = Ok (c, dir')"
    by (simp add: create_room_for_local_operator_def create_room_in_transaction_def replay_room_creation_def
        empty_directory_def insert_row_def Let_def)
  have "?run 3 (str ''e2'') 2 dir' = Err invalid_room_state"
    using create_room_retry_outcome [OF run, of "str ''q2''" 3 "str ''e2''" 2 "[]"] can val
    by (simp add: empty_directory_def)
  then show ?thesis
    using run rid by (intro exI [of _ c] exI [of _ dir']) (simp add: create_room_handler_def Let_def)
qed

section \<open>Listing\<close>

text \<open>The listing contains each stored room that is not archived (or every one
  on request) exactly once, the most recently updated first and by identifier where the
  times agree, and fails rather than show a room whose row disagrees with its identifier.\<close>

theorem directory_listing:
  assumes "list_room_directory U cleanup deletion include_archived dir = Ok rooms"
  shows "mset (map srs_room rooms)
      = mset (filter (\<lambda>r. include_archived \<or> room_state r \<noteq> Room_Archived) (map (fst \<circ> snd) (dir_rooms dir)))
    \<and> sorted_wrt (\<lambda>a b. room_updated_at (srs_room b) < room_updated_at (srs_room a)
         \<or> room_updated_at (srs_room b) = room_updated_at (srs_room a)
           \<and> room_id (srs_room a) \<le> room_id (srs_room b)) rooms
    \<and> map (room_id \<circ> fst \<circ> snd) (dir_rooms dir) = om_keys (dir_rooms dir)"
proof -
  define part where "part = (\<lambda>row :: rstr \<times> room \<times> json.
      rbind (load_settings U (snd (snd row))) (\<lambda>settings.
      rbind (ensure (room_id (fst (snd row)) = fst row) invalid_room_state) (\<lambda>_.
      Ok (if include_archived \<or> room_state (fst (snd row)) \<noteq> Room_Archived
          then [\<lparr>srs_room = fst (snd row), srs_settings = settings,
                 srs_cleanup_pending = (fst row \<in> cleanup),
                 srs_deletion_pending = (fst row \<in> deletion)\<rparr>]
          else []))))"
  obtain parts where parts: "traverse part (dir_rooms dir) = Ok parts"
    and rooms: "rooms = sort_key (\<lambda>s. (- room_updated_at (srs_room s), room_id (srs_room s))) (concat parts)"
    using assms by (auto simp: list_room_directory_def Let_def part_def)
  have each: "room_id (fst (snd row)) = fst row \<and> map srs_room y =
      (if include_archived \<or> room_state (fst (snd row)) \<noteq> Room_Archived then [fst (snd row)] else [])"
    if "part row = Ok y" for row y
    using that by (auto simp: part_def split: if_splits)
  have all: "map srs_room (concat ps) = filter (\<lambda>r. include_archived \<or> room_state r \<noteq> Room_Archived) (map (fst \<circ> snd) rows)
      \<and> map (room_id \<circ> fst \<circ> snd) rows = om_keys rows"
    if "traverse part rows = Ok ps" for rows ps
    using that
  proof (induction rows arbitrary: ps)
    case (Cons row rows)
    then obtain y qs where y: "part row = Ok y" "traverse part rows = Ok qs" "ps = y # qs" by auto
    show ?case using each [OF y(1)] Cons.IH [OF y(2)] y(3) by (auto simp: om_keys_def)
  qed (simp add: om_keys_def)
  have "sorted (map (\<lambda>s. (- room_updated_at (srs_room s), room_id (srs_room s))) rooms)"
    unfolding rooms by simp
  then have "sorted_wrt (\<lambda>a b. room_updated_at (srs_room b) < room_updated_at (srs_room a)
         \<or> room_updated_at (srs_room b) = room_updated_at (srs_room a)
           \<and> room_id (srs_room a) \<le> room_id (srs_room b)) rooms"
    unfolding sorted_map by (rule sorted_wrt_mono_rel [rotated]) (auto simp: less_eq_prod_def)
  moreover have "mset (map srs_room rooms) = mset (map srs_room (concat parts))"
    unfolding rooms by simp
  ultimately show ?thesis using all [OF parts] by simp
qed

theorem directory_listing_witness:
  "\<exists>rooms. list_room_directory ascii_unicode {} {} False
      (empty_directory\<lparr>dir_rooms := [(str ''lobby'', room_new 1 (str ''lobby'') (str ''Lobby'') 5, encode_settings (defaults (str ''Lobby'')))]\<rparr>)
      = Ok rooms \<and> map srs_room rooms = [room_new 1 (str ''lobby'') (str ''Lobby'') 5]"
proof -
  let ?dir = "empty_directory\<lparr>dir_rooms := [(str ''lobby'', room_new 1 (str ''lobby'') (str ''Lobby'') 5, encode_settings (defaults (str ''Lobby'')))]\<rparr>"
  have "settings_valid ascii_unicode (defaults (str ''Lobby''))" by code_simp
  then obtain rooms where r: "list_room_directory ascii_unicode {} {} False ?dir = Ok rooms"
    by (simp add: list_room_directory_def room_new_def Let_def)
  have "mset (map srs_room rooms) = {#room_new 1 (str ''lobby'') (str ''Lobby'') 5#}"
    using directory_listing [OF r] by (simp add: room_new_def)
  then have "map srs_room rooms = [room_new 1 (str ''lobby'') (str ''Lobby'') 5]"
    unfolding mset_single_iff .
  with r show ?thesis by (intro exI [of _ rooms] conjI)
qed

end
