(* ===== verification/Turn_Authority.thy ===== *)
theory Turn_Authority
  imports Store_Base
begin

text \<open>
  The authority of a turn inside one agent session (persistence/turn\_queue.rs,
  turn\_authority.rs and the session updates of room\_turns.rs, room\_turn\_support.rs and
  room\_turn\_scheduler.rs): a session is either clear or owns exactly one active turn, its
  queue of room inputs is bounded and free of repetitions, and assigning, completing and
  failing a turn move inputs without losing one.
\<close>

section \<open>Queues\<close>

definition MAX_QUEUED_EVENT_IDS :: nat where "MAX_QUEUED_EVENT_IDS = 256"

text \<open>The loop with the identifiers seen and the inputs kept so far; \<open>None\<close> is the error.\<close>

fun merge_inputs_loop :: "rstr list \<Rightarrow> queued_room_input list \<Rightarrow> queued_room_input list \<Rightarrow> queued_room_input list option" where
  "merge_inputs_loop seen merged [] = Some merged"
| "merge_inputs_loop seen merged (v # vs) =
     (if length merged = MAX_QUEUED_EVENT_IDS \<or> qi_event_id v = [] \<or> qi_event_id v \<in> set seen then None
      else merge_inputs_loop (qi_event_id v # seen) (merged @ [v]) vs)"

definition merge_room_inputs :: "queued_room_input list \<Rightarrow> queued_room_input list option" where
  "merge_room_inputs vs = merge_inputs_loop [] [] vs"

definition room_input_queue_is_canonical :: "queued_room_input list \<Rightarrow> bool" where
  "room_input_queue_is_canonical vs \<longleftrightarrow> merge_room_inputs vs \<noteq> None"

definition canonical_queue :: "queued_room_input list \<Rightarrow> bool" where
  "canonical_queue vs \<longleftrightarrow>
     length vs \<le> 256 \<and> [] \<notin> qi_event_id ` set vs \<and> distinct (map qi_event_id vs)"

lemma merge_inputs_loop_Some:
  "length merged \<le> 256 \<Longrightarrow> merge_inputs_loop seen merged vs = Some r \<longleftrightarrow>
     r = merged @ vs \<and> length r \<le> 256 \<and> [] \<notin> qi_event_id ` set vs \<and>
     distinct (map qi_event_id vs) \<and> qi_event_id ` set vs \<inter> set seen = {}"
proof (induction vs arbitrary: seen merged)
  case (Cons v vs)
  show ?case
  proof (cases "length merged = 256")
    case True
    then show ?thesis by (auto simp: MAX_QUEUED_EVENT_IDS_def)
  next
    case False
    then have "length (merged @ [v]) \<le> 256" using Cons.prems by simp
    from Cons.IH [OF this, of "qi_event_id v # seen"] show ?thesis
      using False by (auto simp: MAX_QUEUED_EVENT_IDS_def)
  qed
qed auto

lemma merge_room_inputs_Some: "merge_room_inputs vs = Some r \<longleftrightarrow> r = vs \<and> canonical_queue vs"
  using merge_inputs_loop_Some [of "[]" "[]" vs r] by (auto simp: merge_room_inputs_def canonical_queue_def)

lemma canonical_iff [simp]: "room_input_queue_is_canonical vs \<longleftrightarrow> canonical_queue vs"
  using merge_room_inputs_Some [of vs] by (auto simp: room_input_queue_is_canonical_def)

section \<open>Turn authority\<close>

definition session_inputs :: "durable_agent_session \<Rightarrow> queued_room_input list" where
  "session_inputs s = das_inflight_inputs s @ das_pending_inputs s"

definition turn_is_active :: "durable_agent_session \<Rightarrow> bool" where
  "turn_is_active s \<longleftrightarrow>
     as_active_turn_id (das_public s) \<noteq> [] \<and>
     as_runtime_status (das_public s) \<in> {Runtime_Busy, Runtime_Stopping} \<and>
     as_turn_phase (das_public s) \<in> {Phase_Thinking, Phase_Streaming} \<and>
     das_inflight_inputs s \<noteq> [] \<and>
     qi_event_id (last (das_inflight_inputs s)) = das_active_source_event_id s \<and>
     das_active_source_event_id s = das_input_up_to_event_id s \<and>
     0 < das_input_up_to_seq s"

definition turn_is_clear :: "durable_agent_session \<Rightarrow> bool" where
  "turn_is_clear s \<longleftrightarrow>
     as_active_turn_id (das_public s) = [] \<and>
     as_runtime_status (das_public s) \<noteq> Runtime_Busy \<and>
     turn_phase_is_none (as_turn_phase (das_public s)) \<and>
     das_inflight_inputs s = [] \<and>
     das_active_source_event_id s = [] \<and>
     das_input_up_to_event_id s = [] \<and>
     das_input_up_to_seq s = 0"

text \<open>\<open>None\<close> stands for the invalid-authority error.\<close>

definition active_turn_authority :: "durable_agent_session \<Rightarrow> bool option" where
  "active_turn_authority s =
     (if \<not> room_input_queue_is_canonical (das_inflight_inputs s @ das_pending_inputs s) then None
      else case (turn_is_active s, turn_is_clear s) of
        (True, False) \<Rightarrow> Some True
      | (False, True) \<Rightarrow> Some False
      | _ \<Rightarrow> None)"

definition turn_authority_is_active :: "durable_agent_session \<Rightarrow> persistence_error + bool" where
  "turn_authority_is_active s =
     ok_or (active_turn_authority s)
       (rejected ''stored_turn_authority_invalid'' ''Stored Agent Session turn authority is inconsistent.'')"

lemma turn_active_not_clear: "turn_is_active s \<Longrightarrow> \<not> turn_is_clear s"
  by (simp add: turn_is_active_def turn_is_clear_def)

lemma active_turn_authority_iff:
  "active_turn_authority s = Some b \<longleftrightarrow>
     canonical_queue (session_inputs s) \<and> (if b then turn_is_active s else turn_is_clear s)"
  using turn_active_not_clear [of s]
  by (cases "turn_is_active s"; cases "turn_is_clear s"; cases b) (simp_all add: active_turn_authority_def session_inputs_def)

lemma turn_authority_is_active_Ok [simp]:
  "turn_authority_is_active s = Ok b \<longleftrightarrow> active_turn_authority s = Some b"
  by (simp add: turn_authority_is_active_def)

definition require_active_turn :: "durable_agent_session \<Rightarrow> rstr \<Rightarrow> persistence_error + unit" where
  "require_active_turn s turn_id =
     (let stale = rejected ''stale_provider_turn'' ''Provider turn completion does not match durable room authority.'' in
      if turn_id = [] \<or> turn_id \<noteq> as_active_turn_id (das_public s) then Err stale
      else rbind (turn_authority_is_active s) (\<lambda>active. ensure active stale))"

definition session_is_assignable :: "durable_agent_session \<Rightarrow> bool" where
  "session_is_assignable s \<longleftrightarrow>
     as_enabled (das_public s) \<and>
     as_status (das_public s) = Session_Attached \<and>
     as_runtime_status (das_public s) = Runtime_Idle \<and>
     as_provider_session_active (das_public s) \<and>
     as_active_turn_id (das_public s) = [] \<and>
     das_inflight_inputs s = [] \<and>
     lifecycle_action_is_none (das_lifecycle_intent_action s)"

section \<open>Session updates\<close>

definition clear_active_turn_fields :: "durable_agent_session \<Rightarrow> durable_agent_session" where
  "clear_active_turn_fields s =
     s\<lparr>das_active_source_event_id := [], das_input_up_to_event_id := [], das_input_up_to_seq := 0\<rparr>"

definition complete_session_state ::
  "timestamp \<Rightarrow> rstr \<Rightarrow> int \<Rightarrow> durable_agent_session \<Rightarrow> durable_agent_session" where
  "complete_session_state now input_event_id input_seq s =
     clear_active_turn_fields
       (s\<lparr>das_public := (das_public s)
            \<lparr>as_status := Session_Attached,
             as_runtime_status := Runtime_Idle,
             as_turn_phase := Phase_None,
             as_active_turn_id := [],
             as_last_seen_event_id := input_event_id,
             as_last_seen_seq := input_seq,
             as_last_provider_sync_event_id := input_event_id,
             as_last_provider_sync_seq := input_seq,
             as_turn_count := saturating_inc_u64 (as_turn_count (das_public s)),
             as_last_error := [],
             as_last_error_code := [],
             as_recovery_required := False,
             as_updated_at := now\<rparr>,
          das_inflight_inputs := []\<rparr>)"

definition apply_provider_session_transition ::
  "rstr option \<Rightarrow> durable_agent_session \<Rightarrow> persistence_error + durable_agent_session" where
  "apply_provider_session_transition provider_session_id s =
     (case provider_session_id of
        None \<Rightarrow> Ok s
      | Some next_id \<Rightarrow>
          rbind (ensure (next_id \<noteq> [] \<and> byte_len next_id \<le> 200 \<and> trim next_id = next_id \<and>
                         \<not> list_ex is_control next_id \<and> next_id = das_provider_session_id s)
                   (rejected ''provider_session_invalid'' ''The provider session transition is invalid.'')) (\<lambda>_.
          Ok (s\<lparr>das_provider_session_id := next_id,
                das_public := (das_public s)\<lparr>as_provider_session_active := True\<rparr>\<rparr>)))"

text \<open>The update of \<open>prepare_assignment\<close> once the observation is prepared: the generation counts up
  and the first inputs of the queue become the inflight ones.\<close>

definition assign_session_state ::
  "timestamp \<Rightarrow> rstr \<Rightarrow> queued_room_input list \<Rightarrow> rstr \<Rightarrow> int \<Rightarrow> durable_agent_session
     \<Rightarrow> persistence_error + durable_agent_session" where
  "assign_session_state now turn_id inflight source_event_id input_up_to_seq s =
     rbind (ok_or (checked_inc_u64 (das_turn_generation s))
              (rejected ''stored_turn_execution_invalid'' ''Agent Session turn generation is exhausted.'')) (\<lambda>generation.
     Ok (s\<lparr>das_turn_generation := generation,
           das_schedule_requested := False,
           das_public := (das_public s)
             \<lparr>as_runtime_status := Runtime_Busy,
              as_turn_phase := Phase_Thinking,
              as_active_turn_id := turn_id,
              as_updated_at := now\<rparr>,
           das_inflight_inputs := inflight,
           das_pending_inputs := drop (length inflight) (das_pending_inputs s),
           das_active_source_event_id := source_event_id,
           das_input_up_to_event_id := source_event_id,
           das_input_up_to_seq := input_up_to_seq\<rparr>))"

text \<open>The update of \<open>fail\<close> after the turn queue has been restored.\<close>

definition fail_session_state ::
  "timestamp \<Rightarrow> queued_room_input list \<Rightarrow> rstr \<Rightarrow> rstr \<Rightarrow> durable_agent_session \<Rightarrow> durable_agent_session" where
  "fail_session_state now restored message code s =
     clear_active_turn_fields
       (s\<lparr>das_pending_inputs := restored,
          das_inflight_inputs := [],
          das_public := (das_public s)
            \<lparr>as_status := Session_Error,
             as_runtime_status := Runtime_Error,
             as_turn_phase := Phase_None,
             as_active_turn_id := [],
             as_last_error := message,
             as_last_error_code := code,
             as_recovery_required := True,
             as_updated_at := now\<rparr>\<rparr>)"

text \<open>The release of the runtime that \<open>fail\<close> performs on a confirmed stop.\<close>

definition release_stopped_runtime ::
  "(rstr \<times> rstr \<times> rstr) option \<Rightarrow> durable_agent_session \<Rightarrow> persistence_error + durable_agent_session" where
  "release_stopped_runtime confirmed s =
     (case confirmed of
        None \<Rightarrow> Ok s
      | Some (handle_id, owner_id, lease_token) \<Rightarrow>
          rbind (ensure (handle_id \<noteq> [] \<and> owner_id \<noteq> [] \<and> lease_token \<noteq> [] \<and>
                         das_runtime_handle_id s = handle_id \<and> das_runtime_owner_id s = owner_id \<and>
                         das_runtime_lease_token s = lease_token)
                   (rejected ''stale_provider_turn'' ''Confirmed provider shutdown does not match durable turn authority.'')) (\<lambda>_.
          Ok (s\<lparr>das_runtime_handle_id := [], das_runtime_owner_id := [], das_runtime_lease_token := [],
                das_public := (das_public s)\<lparr>as_provider_session_active := False,
                                            as_provider_session_reused := False\<rparr>\<rparr>)))"

text \<open>A session of a concrete draft, attached and idle with three queued inputs.\<close>

definition sample_session :: durable_agent_session where
  "sample_session =
     (let s = initial_session (str ''main'') Custody_Server 7
         \<lparr>draft_agent_id = str ''agent-1'', draft_display_name = str ''Ada'', draft_provider_kind = str ''codex'',
          draft_runtime_kind = str ''cli'', draft_connection_kind = str ''local'', draft_executable = [],
          draft_executable_identity = [], draft_workspace = [], draft_workspace_identity = [],
          draft_provider_endpoint = [], draft_model = [], draft_reasoning_effort = [], draft_service_tier = [],
          draft_variant = [], draft_execution_harness = [], draft_permission_mode = [],
          draft_max_output_tokens = 0, draft_catalog_revision = [], draft_persona_card_id = [],
          draft_runtime_profile_key = [], draft_transport = []\<rparr>
      in s\<lparr>das_public := (das_public s)\<lparr>as_enabled := True, as_status := Session_Attached,
              as_runtime_status := Runtime_Idle, as_provider_session_active := True\<rparr>,
           das_pending_inputs :=
             [\<lparr>qi_event_id = str ''e1'', qi_delivery_kind = Ordered_Observation\<rparr>,
              \<lparr>qi_event_id = str ''e2'', qi_delivery_kind = Ordered_Observation\<rparr>,
              \<lparr>qi_event_id = str ''e3'', qi_delivery_kind = Ambient_Observation\<rparr>]\<rparr>)"

section \<open>The life of a turn\<close>

lemma canonical_queue_append: "canonical_queue (a @ b) \<Longrightarrow> canonical_queue a \<and> canonical_queue b"
  by (auto simp: canonical_queue_def)

text \<open>C33: assigning a nonempty prefix of the queue of an assignable session gives it
  exactly one active turn of the next generation, whose inputs followed by the remaining
  queue are the old queue, with nothing lost, repeated or reordered.\<close>

theorem assign_activates:
  assumes "session_is_assignable s" "active_turn_authority s = Some b"
    and "inflight \<noteq> []" "das_pending_inputs s = inflight @ rest"
    and "source = qi_event_id (last inflight)" "0 < up_to" "turn_id \<noteq> []"
    and "assign_session_state now turn_id inflight source up_to s = Ok t"
  shows "active_turn_authority t = Some True \<and> as_active_turn_id (das_public t) = turn_id
    \<and> session_inputs t = session_inputs s \<and> das_pending_inputs t = rest
    \<and> unat (das_turn_generation t) = unat (das_turn_generation s) + 1 \<and> \<not> b"
proof -
  obtain g where g: "checked_inc_u64 (das_turn_generation s) = Some g" "das_turn_generation t = g"
    using assms(8) by (auto simp: assign_session_state_def)
  have t: "session_inputs t = session_inputs s" "das_pending_inputs t = rest"
    using assms by (auto simp: assign_session_state_def session_inputs_def session_is_assignable_def)
  have "turn_is_active t" "as_active_turn_id (das_public t) = turn_id"
    using assms by (auto simp: assign_session_state_def turn_is_active_def)
  moreover have "\<not> b"
    using assms(1,2) by (cases b) (auto simp: active_turn_authority_iff turn_is_active_def session_is_assignable_def)
  ultimately show ?thesis
    using t g assms(2) checked_inc_u64_unat [OF g(1)] by (simp add: active_turn_authority_iff)
qed

theorem assign_activates_witness:
  "\<exists>t. assign_session_state 9 (str ''turn-1'') (take 2 (das_pending_inputs sample_session)) (str ''e2'') 5 sample_session = Ok t
     \<and> active_turn_authority t = Some True \<and> session_inputs t = session_inputs sample_session
     \<and> length (das_pending_inputs t) = 1"
proof -
  obtain t where t: "assign_session_state 9 (str ''turn-1'') (take 2 (das_pending_inputs sample_session)) (str ''e2'') 5 sample_session = Ok t"
    by (simp add: assign_session_state_def sample_session_def Let_def initial_session_def without_runtime_def checked_inc_u64_def)
  have h: "session_is_assignable sample_session" "active_turn_authority sample_session = Some False"
    "take 2 (das_pending_inputs sample_session) \<noteq> []"
    "str ''e2'' = qi_event_id (last (take 2 (das_pending_inputs sample_session)))" "str ''turn-1'' \<noteq> []"
    by code_simp+
  from assign_activates [OF h(1,2,3) _ h(4) _ h(5) t, of "drop 2 (das_pending_inputs sample_session)"]
  have "active_turn_authority t = Some True \<and> session_inputs t = session_inputs sample_session
     \<and> das_pending_inputs t = drop 2 (das_pending_inputs sample_session)" by simp
  moreover have "length (drop 2 (das_pending_inputs sample_session)) = 1" by code_simp
  ultimately show ?thesis using t by metis
qed

lemma complete_clears:
  "active_turn_authority s = Some True \<Longrightarrow>
     active_turn_authority (complete_session_state now i n s) = Some False \<and>
     das_pending_inputs (complete_session_state now i n s) = das_pending_inputs s"
  by (auto simp: active_turn_authority_iff turn_is_clear_def complete_session_state_def clear_active_turn_fields_def
      turn_phase_is_none_def session_inputs_def dest: canonical_queue_append)

lemma fail_clears:
  "canonical_queue restored \<Longrightarrow>
     active_turn_authority (fail_session_state now restored m c s) = Some False \<and>
     session_inputs (fail_session_state now restored m c s) = restored"
  by (simp add: active_turn_authority_iff turn_is_clear_def fail_session_state_def clear_active_turn_fields_def
      turn_phase_is_none_def session_inputs_def)

lemma complete_assignable:
  "session_is_assignable (complete_session_state now i n s) \<longleftrightarrow>
     as_enabled (das_public s) \<and> as_provider_session_active (das_public s)
     \<and> das_lifecycle_intent_action s = Action_None"
  by (cases "das_lifecycle_intent_action s")
    (simp_all add: session_is_assignable_def complete_session_state_def clear_active_turn_fields_def
      lifecycle_action_is_none_def)


definition sample_active_session :: durable_agent_session where
  "sample_active_session =
     sample_session\<lparr>das_public := (das_public sample_session)\<lparr>as_runtime_status := Runtime_Busy,
          as_turn_phase := Phase_Streaming, as_active_turn_id := str ''turn-1''\<rparr>,
        das_inflight_inputs := take 1 (das_pending_inputs sample_session),
        das_pending_inputs := drop 1 (das_pending_inputs sample_session),
        das_active_source_event_id := str ''e1'', das_input_up_to_event_id := str ''e1'', das_input_up_to_seq := 4\<rparr>"


end
