(* ===== verification/Turn_Routing.thy ===== *)
theory Turn_Routing
  imports Turn_Authority "HOL-Library.Product_Lexorder"
begin

text \<open>
  Whom a message addresses (persistence/room\_turn\_routing.rs): the aliases that belong to
  one agent only, the last mention of such an alias in the message, and the two candidates
  drawn when nobody is addressed. Positions count characters where the code counts bytes,
  which orders them the same way.
\<close>

definition mention_word :: "unicode \<Rightarrow> nat \<Rightarrow> bool" where
  "mention_word U c \<longleftrightarrow> alphanumeric U c \<or> c \<in> {95, 45}"

definition valid_alias :: "unicode \<Rightarrow> rstr \<Rightarrow> bool" where
  "valid_alias U alias \<longleftrightarrow>
     alias \<noteq> [] \<and>
     \<not> list_ex (\<lambda>c. c \<in> {64, 60, 62, 13, 10}) alias \<and>
     (list_ex is_whitespace alias \<or>
      list_all (\<lambda>c. alphanumeric U c \<or> c \<in> {95, 46, 45}) alias)"

definition is_alias_separator :: "nat \<Rightarrow> bool" where
  "is_alias_separator c \<longleftrightarrow> is_whitespace c \<or> c \<in> {47, 124, 183, 8212, 8211, 58, 40, 41}"

text \<open>The aliases one session contributes, in the order the loop visits them.\<close>

definition session_aliases :: "unicode \<Rightarrow> durable_agent_session \<Rightarrow> rstr list" where
  "session_aliases U s =
     filter (\<lambda>alias. valid_alias U alias \<and> alias \<noteq> str ''all'')
       (map (\<lambda>candidate. str_lowercase U (trim_matches (\<lambda>c. c \<in> set (str '' @,;!?[]{}'')) candidate))
         (as_session_id (das_public s) # as_display_name (das_public s) #
          split_on is_alias_separator (as_display_name (das_public s))))"

text \<open>An entry of the map: \<open>Some\<close> the only owner, \<open>None\<close> once two sessions share the alias.\<close>

definition claim_alias :: "rstr \<Rightarrow> rstr \<Rightarrow> (rstr, rstr option) omap \<Rightarrow> (rstr, rstr option) omap" where
  "claim_alias session_id alias m =
     om_insert alias
       (case om_get m alias of
          None \<Rightarrow> Some session_id
        | Some owner \<Rightarrow> if owner \<noteq> Some session_id then None else owner) m"

definition unique_aliases :: "unicode \<Rightarrow> durable_agent_session list \<Rightarrow> (rstr, rstr option) omap" where
  "unique_aliases U sessions =
     foldl (\<lambda>m s. foldl (\<lambda>m alias. claim_alias (as_session_id (das_public s)) alias m) m (session_aliases U s))
       [] sessions"

text \<open>\<open>str::match_indices\<close>: the matches from the left that do not overlap.\<close>

function match_indices_from :: "nat \<Rightarrow> rstr \<Rightarrow> rstr \<Rightarrow> nat list" where
  "match_indices_from i needle [] = []"
| "match_indices_from i needle (c # cs) =
     (if strip_prefix needle (c # cs) \<noteq> None
      then i # match_indices_from (i + max 1 (length needle)) needle (drop (max 1 (length needle)) (c # cs))
      else match_indices_from (i + 1) needle cs)"
  by pat_completeness auto
termination by (relation "measure (\<lambda>(i, needle, s). length s)") auto

definition match_indices :: "rstr \<Rightarrow> rstr \<Rightarrow> nat list" where
  "match_indices needle s = match_indices_from 0 needle s"

definition mention_boundaries :: "unicode \<Rightarrow> rstr \<Rightarrow> nat \<Rightarrow> nat \<Rightarrow> bool" where
  "mention_boundaries U content index len \<longleftrightarrow>
     (take index content = [] \<or> \<not> mention_word U (last (take index content))) \<and>
     (drop (index + len) content = [] \<or> \<not> mention_word U (hd (drop (index + len) content)))"

definition bracketed_alias_matches :: "rstr \<Rightarrow> nat \<Rightarrow> rstr \<Rightarrow> bool" where
  "bracketed_alias_matches content index alias =
     (case strip_prefix alias (trim_start_matches is_whitespace (drop (index + 2) content)) of
        None \<Rightarrow> False
      | Some rest \<Rightarrow> strip_prefix [62] (trim_start_matches is_whitespace rest) \<noteq> None)"

definition max_position :: "nat list \<Rightarrow> nat option" where
  "max_position ps = (if ps = [] then None else Some (Max (set ps)))"

text \<open>The greater of two optional positions, \<open>None\<close> the least.\<close>

fun option_max :: "nat option \<Rightarrow> nat option \<Rightarrow> nat option" where
  "option_max None b = b"
| "option_max (Some a) None = Some a"
| "option_max (Some a) (Some b) = Some (max a b)"

definition last_mention_position :: "unicode \<Rightarrow> rstr \<Rightarrow> rstr \<Rightarrow> nat option" where
  "last_mention_position U content alias =
     (let needle = 64 # alias;
          plain = max_position (filter (\<lambda>i. mention_boundaries U content i (length needle)) (match_indices needle content));
          bracketed = max_position (filter (\<lambda>i. bracketed_alias_matches content i alias) (match_indices [60, 64] content))
      in option_max plain bracketed)"

definition last_direct_target :: "unicode \<Rightarrow> rstr \<Rightarrow> durable_agent_session list \<Rightarrow> rstr option" where
  "last_direct_target U raw_content sessions =
     (let content = str_lowercase U raw_content;
          mentions = List.map_filter (\<lambda>(alias, owner).
            case owner of
              None \<Rightarrow> None
            | Some owner \<Rightarrow> map_option (\<lambda>position. (position, owner)) (last_mention_position U content alias))
            (unique_aliases U sessions)
      in if mentions = [] then None else Some (snd (Max (set mentions))))"

definition sampled_candidate_indexes :: "nat \<Rightarrow> nat \<Rightarrow> nat list" where
  "sampled_candidate_indexes seed len =
     (if len \<le> 2 then [0..<len]
      else let first = seed mod len;
               second = (seed div len) mod (len - 1);
               second = (if second \<ge> first then second + 1 else second)
           in [first, second])"

section \<open>The owner of an alias\<close>

definition owners :: "unicode \<Rightarrow> durable_agent_session list \<Rightarrow> rstr \<Rightarrow> rstr set" where
  "owners U sessions alias = {as_session_id (das_public s) | s. s \<in> set sessions \<and> alias \<in> set (session_aliases U s)}"

text \<open>What an entry says about the set of owners seen so far.\<close>

definition owner_entry :: "rstr set \<Rightarrow> rstr option option" where
  "owner_entry O' = (if O' = {} then None else Some (if \<exists>i. O' = {i} then Some (THE i. O' = {i}) else None))"

lemma owner_entry_insert:
  "owner_entry (insert i O') =
     Some (case owner_entry O' of None \<Rightarrow> Some i | Some owner \<Rightarrow> if owner \<noteq> Some i then None else owner)"
proof (cases "O' = {}")
  case False
  then obtain j where "j \<in> O'" by blast
  show ?thesis
  proof (cases "\<exists>k. O' = {k}")
    case True
    then show ?thesis by (auto simp: owner_entry_def)
  next
    case F: False
    then have "\<not> (\<exists>k. insert i O' = {k})" using False by auto
    with F False show ?thesis by (auto simp: owner_entry_def)
  qed
qed (simp add: owner_entry_def)

lemma owner_entry_single: "owner_entry O' = Some (Some i) \<longleftrightarrow> O' = {i}"
proof (cases "\<exists>k. O' = {k}")
  case True
  then obtain k where "O' = {k}" by blast
  then show ?thesis by (simp add: owner_entry_def)
next
  case False
  then have "owner_entry O' \<noteq> Some (Some i)" by (simp add: owner_entry_def)
  with False show ?thesis by blast
qed

lemma claim_alias_get:
  "om_get m a = owner_entry O' \<Longrightarrow>
     om_get (claim_alias i alias m) a = owner_entry (if a = alias then insert i O' else O')"
  by (auto simp: claim_alias_def owner_entry_insert split: option.splits)

lemma claim_aliases_get:
  "om_get m a = owner_entry O' \<Longrightarrow>
     om_get (foldl (\<lambda>m alias. claim_alias i alias m) m as) a = owner_entry (if a \<in> set as then insert i O' else O')"
proof (induction as arbitrary: m O')
  case (Cons x xs)
  from Cons.IH [OF claim_alias_get [OF Cons.prems, of i x]] show ?case by auto
qed simp

lemma unique_aliases_fold:
  "om_get m a = owner_entry O' \<Longrightarrow>
     om_get (foldl (\<lambda>m s. foldl (\<lambda>m alias. claim_alias (as_session_id (das_public s)) alias m) m (session_aliases U s)) m ss) a
       = owner_entry (O' \<union> owners U ss a)"
proof (induction ss arbitrary: m O')
  case Nil
  then show ?case by (simp add: owners_def)
next
  case (Cons s ss)
  let ?O = "if a \<in> set (session_aliases U s) then insert (as_session_id (das_public s)) O' else O'"
  have "?O \<union> owners U ss a = O' \<union> owners U (s # ss) a"
    by (auto simp: owners_def)
  with Cons.IH [OF claim_aliases_get [OF Cons.prems, of "as_session_id (das_public s)" "session_aliases U s"]]
  show ?case by simp
qed

lemma unique_aliases_get: "om_get (unique_aliases U ss) a = owner_entry (owners U ss a)"
  using unique_aliases_fold [of "[]" a "{}" U ss] by (simp add: unique_aliases_def owner_entry_def [of "{}"])

lemma unique_aliases_owner: "om_get (unique_aliases U ss) a = Some (Some i) \<longleftrightarrow> owners U ss a = {i}"
  by (simp add: unique_aliases_get owner_entry_single)

lemma claim_alias_wf: "om_wf m \<Longrightarrow> om_wf (claim_alias i alias m)"
  by (simp add: claim_alias_def om_wf_insert)

lemma foldl_wf: "om_wf m \<Longrightarrow> (\<And>m x. om_wf m \<Longrightarrow> om_wf (f m x)) \<Longrightarrow> om_wf (foldl f m xs)"
  by (induction xs arbitrary: m) auto

lemma unique_aliases_wf: "om_wf (unique_aliases U ss)"
  unfolding unique_aliases_def by (intro foldl_wf claim_alias_wf) (simp_all add: om_wf_def)

text \<open>The mentions of aliases with one owner, as a set.\<close>

definition owned_mentions :: "unicode \<Rightarrow> rstr \<Rightarrow> durable_agent_session list \<Rightarrow> (nat \<times> rstr) set" where
  "owned_mentions U raw_content sessions =
     {(p, i). \<exists>alias. owners U sessions alias = {i} \<and>
                     last_mention_position U (str_lowercase U raw_content) alias = Some p}"

lemma set_map_filter: "set (List.map_filter f xs) = {y. \<exists>x \<in> set xs. f x = Some y}"
  by (induction xs) (auto simp: List.map_filter_simps split: option.splits)

lemma set_mentions:
  "set (List.map_filter (\<lambda>(alias, owner).
            case owner of
              None \<Rightarrow> None
            | Some owner \<Rightarrow> map_option (\<lambda>position. (position, owner)) (last_mention_position U (str_lowercase U c) alias))
            (unique_aliases U ss)) = owned_mentions U c ss"
proof -
  have "((a, Some i) \<in> set (unique_aliases U ss)) = (owners U ss a = {i})" for a i
    by (simp add: om_wf_get_set [OF unique_aliases_wf] unique_aliases_owner)
  then show ?thesis
    unfolding set_map_filter owned_mentions_def by (fastforce split: option.splits)
qed

lemma last_direct_target_Max:
  "last_direct_target U c ss = (if owned_mentions U c ss = {} then None else Some (snd (Max (owned_mentions U c ss))))"
  using set_mentions [of U c ss] by (auto simp: last_direct_target_def Let_def)

lemma direct_target_member:
  assumes "last_direct_target U c ss = Some i"
  shows "\<exists>s \<in> set ss. as_session_id (das_public s) = i"
proof -
  have "finite (owned_mentions U c ss)" by (simp flip: set_mentions)
  with assms have "Max (owned_mentions U c ss) \<in> owned_mentions U c ss" "snd (Max (owned_mentions U c ss)) = i"
    by (auto simp: last_direct_target_Max intro: Max_in split: if_splits)
  then obtain al where "owners U ss al = {i}" by (cases "Max (owned_mentions U c ss)") (auto simp: owned_mentions_def)
  then have "i \<in> owners U ss al" by simp
  then show ?thesis unfolding owners_def by blast
qed

lemma lex_Max:
  fixes S :: "(nat \<times> rstr) set"
  assumes "finite S"
  shows "(x \<in> S \<and> S \<subseteq> {(q, j). q < fst x \<or> q = fst x \<and> j \<le> snd x}) \<longleftrightarrow> S \<noteq> {} \<and> x = Max S"
proof -
  have "y \<in> {(q, j). q < fst x \<or> q = fst x \<and> j \<le> snd x} \<longleftrightarrow> y \<le> x" for y
    by (cases x; cases y) (auto simp: less_eq_prod_def)
  then have "(S \<subseteq> {(q, j). q < fst x \<or> q = fst x \<and> j \<le> snd x}) = (\<forall>y \<in> S. y \<le> x)" by blast
  then show ?thesis using eq_Max_iff [OF assms, of x] by auto
qed

text \<open>The direct target of a message is the agent whose own alias, shared with no
  other session, is mentioned last; among mentions at one position the greatest session
  identifier wins, and there is no target exactly when no such alias is mentioned.\<close>

theorem direct_target:
  "(last_direct_target U c ss = None \<longleftrightarrow> owned_mentions U c ss = {}) \<and>
   (last_direct_target U c ss = Some i \<longleftrightarrow>
     (\<exists>p. (p, i) \<in> owned_mentions U c ss \<and>
       owned_mentions U c ss \<subseteq> {(q, j). q < p \<or> q = p \<and> j \<le> i}))"
proof -
  have fin: "finite (owned_mentions U c ss)" by (simp flip: set_mentions)
  note t = last_direct_target_Max [of U c ss]
  have m: "(x \<in> owned_mentions U c ss \<and> owned_mentions U c ss \<subseteq> {(q, j). q < fst x \<or> q = fst x \<and> j \<le> snd x}) \<longleftrightarrow>
      owned_mentions U c ss \<noteq> {} \<and> x = Max (owned_mentions U c ss)" for x
    by (rule lex_Max [OF fin])
  show ?thesis
  proof (cases "owned_mentions U c ss = {}")
    case False
    then have "last_direct_target U c ss = Some i \<longleftrightarrow> (\<exists>p. (p, i) = Max (owned_mentions U c ss))"
      by (cases "Max (owned_mentions U c ss)") (auto simp: t)
    also have "\<dots> \<longleftrightarrow> (\<exists>p. (p, i) \<in> owned_mentions U c ss \<and>
        owned_mentions U c ss \<subseteq> {(q, j). q < p \<or> q = p \<and> j \<le> i})"
      using m [of "(_, i)"] False by simp
    finally show ?thesis using False by (simp add: t)
  qed (simp add: t)
qed

text \<open>The two unit tests of the module, evaluated.\<close>

definition named_session :: "string \<Rightarrow> string \<Rightarrow> durable_agent_session" where
  "named_session i n =
     sample_session\<lparr>das_public := (das_public sample_session)\<lparr>as_session_id := str i, as_display_name := str n\<rparr>\<rparr>"

lemma final_unique_alias_owns_the_ordered_floor:
  "last_direct_target ascii_unicode (str ''@Terra recap that, then <@ antigravity-1 > answer'')
     [named_session ''codex-1'' ''Codex Terra'', named_session ''antigravity-1'' ''Antigravity Flash'']
   = Some (str ''antigravity-1'')"
  by code_simp

lemma ambiguous_split_alias_does_not_route:
  "last_direct_target ascii_unicode (str ''@Terra answer'')
     [named_session ''codex-1'' ''Codex Terra'', named_session ''codex-2'' ''Other Terra''] = None"
  by code_simp

section \<open>The draw of two candidates\<close>

text \<open>The second index skips the first one; \<open>unskip\<close> undoes it.\<close>

definition skip :: "nat \<Rightarrow> nat \<Rightarrow> nat" where "skip a b = (if b \<ge> a then b + 1 else b)"
definition unskip :: "nat \<Rightarrow> nat \<Rightarrow> nat" where "unskip a b = (if a < b then b - 1 else b)"

lemma skip_facts:
  "unskip a (skip a b) = b" "b \<noteq> a \<Longrightarrow> skip a (unskip a b) = b" "skip a b \<noteq> a"
  "a < n \<Longrightarrow> b < n - 1 \<Longrightarrow> skip a b < n" "a < n \<Longrightarrow> b < n \<Longrightarrow> b \<noteq> a \<Longrightarrow> unskip a b < n - 1"
  by (auto simp: skip_def unskip_def)

lemma sampled_skip:
  "2 < n \<Longrightarrow> sampled_candidate_indexes seed n = [seed mod n, skip (seed mod n) (seed div n mod (n - 1))]"
  by (simp add: sampled_candidate_indexes_def Let_def skip_def)

lemma seed_bound: "a < n \<Longrightarrow> b < (m :: nat) \<Longrightarrow> a + n * b < n * m"
  by (metis add_less_cancel_right less_le_trans mult_Suc_right mult_le_mono2 Suc_leI)

text \<open>With more than two candidates the draw yields two different valid indexes, and
  every ordered pair of different indexes is the result of exactly one of the first
  \<open>n (n - 1)\<close> seeds: the draw favours no candidate.\<close>

theorem sampled_pairs:
  assumes "2 < n"
  shows "bij_betw (\<lambda>seed. sampled_candidate_indexes seed n) {..<n * (n - 1)} {[a, b] | a b. a < n \<and> b < n \<and> a \<noteq> b}
    \<and> sampled_candidate_indexes seed n = sampled_candidate_indexes (seed mod (n * (n - 1))) n"
proof
  let ?f = "\<lambda>seed. sampled_candidate_indexes seed n"
  let ?g = "\<lambda>xs. hd xs + n * unskip (hd xs) (xs ! 1)"
  show "bij_betw ?f {..<n * (n - 1)} {[a, b] | a b. a < n \<and> b < n \<and> a \<noteq> b}"
  proof (rule bij_betw_byWitness [where f' = ?g])
    have "seed div n mod (n - 1) = seed div n" if "seed < n * (n - 1)" for seed
      using that by (simp add: less_mult_imp_div_less mult.commute)
    then show "\<forall>seed \<in> {..<n * (n - 1)}. ?g (?f seed) = seed"
      using assms by (simp add: sampled_skip skip_facts)
    show "\<forall>xs \<in> {[a, b] | a b. a < n \<and> b < n \<and> a \<noteq> b}. ?f (?g xs) = xs"
      using assms skip_facts(5) [of _ n] by (auto simp: sampled_skip skip_facts(2))
    show "?f ` {..<n * (n - 1)} \<subseteq> {[a, b] | a b. a < n \<and> b < n \<and> a \<noteq> b}"
      using assms skip_facts(4) [of _ n] by (auto simp: sampled_skip image_subset_iff skip_facts(3) [symmetric])
    show "?g ` {[a, b] | a b. a < n \<and> b < n \<and> a \<noteq> b} \<subseteq> {..<n * (n - 1)}"
      using skip_facts(5) [of _ n] by (auto intro!: seed_bound)
  qed
  have "seed mod (n * (n - 1)) div n mod (n - 1) = seed div n mod (n - 1)"
    using assms by (simp add: mod_mult2_eq)
  moreover have "seed mod (n * (n - 1)) mod n = seed mod n" by (simp add: mod_mult2_eq)
  ultimately show "?f seed = ?f (seed mod (n * (n - 1)))"
    using assms by (simp only: sampled_skip)
qed

theorem sampled_pairs_witness:
  "bij_betw (\<lambda>seed. sampled_candidate_indexes seed 3) {..<6} {[a, b] | a b. a < 3 \<and> b < 3 \<and> a \<noteq> b}"
  using sampled_pairs [of 3 0] by simp

end
