(* ===== verification/Votes.thy ===== *)
theory Votes
  imports Commands
begin

text \<open>
  Polls (vote.rs): the four vote commands with their parser and encoder, the resolution of a
  ballot, the deadline and the vote event. \<open>rfc3339\<close> prints a time stamp and is a parameter.
\<close>

section \<open>Commands\<close>

definition MIN_VOTE_DURATION_SECONDS :: "32 word" where "MIN_VOTE_DURATION_SECONDS = 30"
definition MAX_VOTE_DURATION_SECONDS :: "32 word" where "MAX_VOTE_DURATION_SECONDS = 86400"
definition VOTE_QUESTION_CHARACTER_LIMIT :: nat where "VOTE_QUESTION_CHARACTER_LIMIT = 300"
definition VOTE_OPTION_CHARACTER_LIMIT :: nat where "VOTE_OPTION_CHARACTER_LIMIT = 100"
definition MIN_VOTE_OPTIONS :: nat where "MIN_VOTE_OPTIONS = 2"
definition MAX_VOTE_OPTIONS :: nat where "MAX_VOTE_OPTIONS = 10"

record vote_create =
  vc_question :: rstr
  vc_options :: "rstr list"
  vc_duration_seconds :: "32 word"
  vc_attachment_ids :: "rstr list"

record vote_cast =
  cast_vote_id :: rstr
  cast_choice :: rstr

record vote_reference =
  ref_vote_id :: rstr

datatype vote_command =
  Vote_Create vote_create | Vote_Cast vote_cast | Vote_Withdraw vote_reference | Vote_Close vote_reference

definition require_exact_keys ::
  "jmap \<Rightarrow> string list \<Rightarrow> string list \<Rightarrow> string \<Rightarrow> command_rejection + unit" where
  "require_exact_keys obj required optional kind =
     ensure (list_all (\<lambda>k. om_contains obj (str k)) required \<and>
             list_all (\<lambda>k. k \<in> str ` set required \<or> k \<in> str ` set optional) (om_keys obj))
       (reject ''bad_request'' (''message.send '' @ kind @ '' payload has an invalid shape.''))"

definition validate_vote_id :: "rstr \<Rightarrow> command_rejection + rstr" where
  "validate_vote_id v =
     (let canonical = clean_identifier v 128 in
      rbind (ensure (canonical = v \<and> is_message_event_id canonical)
               (reject ''invalid_vote'' ''vote_id is invalid.'')) (\<lambda>_.
      Ok canonical))"

definition parse_vote_id :: "json option \<Rightarrow> command_rejection + rstr" where
  "parse_vote_id v =
     rbind (ok_or (Option.bind v as_str) (reject ''invalid_vote'' ''vote_id must be a string.'')) validate_vote_id"

definition invalid_vote_duration :: command_rejection where
  "invalid_vote_duration =
     reject ''invalid_vote_duration'' ''vote_duration_seconds must be 0 or between 30 and 86400.''"

text \<open>The loop over the options: blank and repeated ones are skipped, an eleventh is an error.\<close>

fun parse_vote_options ::
  "unicode \<Rightarrow> rstr list \<Rightarrow> rstr list \<Rightarrow> json list \<Rightarrow> command_rejection + rstr list" where
  "parse_vote_options U seen options [] = Ok options"
| "parse_vote_options U seen options (value # values) =
     rbind (ok_or (as_str value) (reject ''invalid_vote'' ''Every vote option must be text.'')) (\<lambda>value.
     let option = clean_message value VOTE_OPTION_CHARACTER_LIMIT in
     if \<not> has_visible_text U option \<or> case_fold U option \<in> set seen
     then parse_vote_options U seen options values
     else let options = options @ [option] in
       if length options > MAX_VOTE_OPTIONS
       then Err (reject ''invalid_vote'' ''A vote supports at most 10 options.'')
       else parse_vote_options U (case_fold U option # seen) options values)"

definition parse_vote_duration :: "json option \<Rightarrow> command_rejection + 32 word" where
  "parse_vote_duration v =
     (case v of
        None \<Rightarrow> Ok 0
      | Some (Number n) \<Rightarrow>
          ok_or (case number_as_u64 n of
                   None \<Rightarrow> None
                 | Some w \<Rightarrow>
                     if unat w < 2 ^ 32 then
                       (let d = (ucast w :: 32 word) in
                        if d = 0 \<or> MIN_VOTE_DURATION_SECONDS \<le> d \<and> d \<le> MAX_VOTE_DURATION_SECONDS
                        then Some d else None)
                     else None)
            invalid_vote_duration
      | Some _ \<Rightarrow> Err invalid_vote_duration)"

definition parse_create :: "unicode \<Rightarrow> jmap \<Rightarrow> command_rejection + vote_create" where
  "parse_create U obj =
     rbind (require_exact_keys obj [''kind'', ''vote_question'', ''vote_options'']
              [''vote_duration_seconds'', ''attachment_ids''] ''vote'') (\<lambda>_.
     rbind (ok_or (filter_opt (has_visible_text U)
                     (map_option (\<lambda>v. clean_message v VOTE_QUESTION_CHARACTER_LIMIT)
                        (Option.bind (om_get obj (str ''vote_question'')) as_str)))
              (reject ''invalid_vote'' ''vote_question is required.'')) (\<lambda>question.
     rbind (ok_or (Option.bind (om_get obj (str ''vote_options'')) as_array)
              (reject ''invalid_vote'' ''vote_options must be an array.'')) (\<lambda>values.
     rbind (parse_vote_options U [] [] values) (\<lambda>options.
     rbind (ensure (MIN_VOTE_OPTIONS \<le> length options)
              (reject ''invalid_vote'' ''A vote requires at least two distinct options.'')) (\<lambda>_.
     rbind (parse_vote_duration (om_get obj (str ''vote_duration_seconds''))) (\<lambda>duration.
     rbind (parse_attachment_ids (om_get obj (str ''attachment_ids''))) (\<lambda>attachment_ids.
     Ok \<lparr>vc_question = question, vc_options = options, vc_duration_seconds = duration,
         vc_attachment_ids = attachment_ids\<rparr>)))))))"

definition parse_cast :: "unicode \<Rightarrow> jmap \<Rightarrow> command_rejection + vote_cast" where
  "parse_cast U obj =
     rbind (require_exact_keys obj [''kind'', ''vote_id'', ''vote_choice''] [] ''vote_cast'') (\<lambda>_.
     rbind (parse_vote_id (om_get obj (str ''vote_id''))) (\<lambda>vote_id.
     rbind (ok_or (filter_opt (has_visible_text U)
                     (map_option (\<lambda>v. clean_message v 200)
                        (Option.bind (om_get obj (str ''vote_choice'')) as_str)))
              (reject ''invalid_vote_choice'' ''vote_choice is required.'')) (\<lambda>choice.
     Ok \<lparr>cast_vote_id = vote_id, cast_choice = choice\<rparr>)))"

definition parse_reference :: "jmap \<Rightarrow> string \<Rightarrow> command_rejection + vote_reference" where
  "parse_reference obj kind =
     rbind (require_exact_keys obj [''kind'', ''vote_id''] [] kind) (\<lambda>_.
     rbind (parse_vote_id (om_get obj (str ''vote_id''))) (\<lambda>vote_id.
     Ok \<lparr>ref_vote_id = vote_id\<rparr>))"

definition vote_from_payload :: "unicode \<Rightarrow> json \<Rightarrow> command_rejection + vote_command" where
  "vote_from_payload U payload =
     rbind (ok_or (as_object payload) (reject ''bad_request'' ''payload must be an object.'')) (\<lambda>obj.
     rbind (ok_or (Option.bind (om_get obj (str ''kind'')) as_str)
              (reject ''bad_request'' ''A canonical vote kind is required.'')) (\<lambda>kind.
     if kind = str ''vote'' then rbind (parse_create U obj) (\<lambda>c. Ok (Vote_Create c))
     else if kind = str ''vote_cast'' then rbind (parse_cast U obj) (\<lambda>c. Ok (Vote_Cast c))
     else if kind = str ''vote_withdraw'' then rbind (parse_reference obj ''vote_withdraw'') (\<lambda>r. Ok (Vote_Withdraw r))
     else if kind = str ''vote_close'' then rbind (parse_reference obj ''vote_close'') (\<lambda>r. Ok (Vote_Close r))
     else Err (reject ''invalid_message_kind'' ''Room message kind is unsupported.'')))"

fun message_kind :: "vote_command \<Rightarrow> rstr" where
  "message_kind (Vote_Create c) = str ''vote''"
| "message_kind (Vote_Cast c) = str ''vote_cast''"
| "message_kind (Vote_Withdraw r) = str ''vote_withdraw''"
| "message_kind (Vote_Close r) = str ''vote_close''"

fun vote_fields :: "vote_command \<Rightarrow> jmap" where
  "vote_fields (Vote_Create c) = om_from
     [(str ''vote_question'', String (vc_question c)),
      (str ''vote_options'', json_strs (vc_options c)),
      (str ''vote_duration_seconds'', json_u32 (vc_duration_seconds c)),
      (str ''attachment_ids'', json_strs (vc_attachment_ids c))]"
| "vote_fields (Vote_Cast c) = om_from
     [(str ''vote_id'', String (cast_vote_id c)), (str ''vote_choice'', String (cast_choice c))]"
| "vote_fields (Vote_Withdraw r) = om_from [(str ''vote_id'', String (ref_vote_id r))]"
| "vote_fields (Vote_Close r) = om_from [(str ''vote_id'', String (ref_vote_id r))]"

definition to_payload :: "vote_command \<Rightarrow> json" where
  "to_payload command = Object (om_insert (str ''kind'') (String (message_kind command)) (vote_fields command))"

definition vote_reference_from_summary_payload :: "json \<Rightarrow> command_rejection + vote_reference" where
  "vote_reference_from_summary_payload payload =
     rbind (ok_or (as_object payload) (reject ''bad_request'' ''payload must be an object.'')) (\<lambda>obj.
     rbind (ensure (length obj = 1 \<and> om_contains obj (str ''vote_id''))
              (reject ''bad_request'' ''room.vote.summary accepts exactly vote_id.'')) (\<lambda>_.
     rbind (parse_vote_id (om_get obj (str ''vote_id''))) (\<lambda>vote_id.
     Ok \<lparr>ref_vote_id = vote_id\<rparr>)))"

section \<open>Ballots, deadlines and events\<close>

definition USIZE_MAX :: nat where "USIZE_MAX = 18446744073709551615"

definition resolve_vote_choice :: "unicode \<Rightarrow> rstr \<Rightarrow> rstr list \<Rightarrow> rstr option" where
  "resolve_vote_choice U choice options =
     (let choice = clean_message choice 200 in
      if \<not> has_visible_text U choice then None
      else case find (\<lambda>option. case_fold U option = case_fold U choice) options of
        Some option \<Rightarrow> Some option
      | None \<Rightarrow>
          (case parse_unsigned USIZE_MAX choice of
             None \<Rightarrow> None
           | Some index \<Rightarrow>
               if index = 0 then None
               else if index - 1 < length options then Some (options ! (index - 1)) else None))"

definition seconds :: "int \<Rightarrow> int" where "seconds n = n * 1000000000"

definition vote_deadline_at :: "timestamp \<Rightarrow> 32 word \<Rightarrow> timestamp option" where
  "vote_deadline_at now duration = (if 0 < duration then Some (now + seconds (uint duration)) else None)"

definition require_vote_write_authority ::
  "authenticated_principal \<Rightarrow> participant \<Rightarrow> command_rejection + unit" where
  "require_vote_write_authority pr p =
     rbind (ensure (case pr_client_kind pr of
                      Browser \<Rightarrow> cap_message_send (pr_capabilities pr)
                    | Room_Connector \<Rightarrow> cap_message_send (pr_capabilities pr)
                    | Agent_Bridge \<Rightarrow> cap_bridge_publish (pr_capabilities pr))
              (reject ''permission_denied'' ''This room session cannot publish votes.'')) (\<lambda>_.
     require_active_write_participant pr p)"

fun vote_event_fields :: "(timestamp \<Rightarrow> rstr) \<Rightarrow> timestamp \<Rightarrow> vote_command \<Rightarrow> jmap" where
  "vote_event_fields rfc3339 now (Vote_Create c) = om_from
     [(str ''vote_question'', String (vc_question c)),
      (str ''vote_options'', json_strs (vc_options c)),
      (str ''vote_duration_seconds'', json_u32 (vc_duration_seconds c)),
      (str ''vote_deadline_at'',
         String (unwrap_or [] (map_option rfc3339 (vote_deadline_at now (vc_duration_seconds c)))))]"
| "vote_event_fields rfc3339 now (Vote_Cast c) = om_from
     [(str ''vote_id'', String (cast_vote_id c)), (str ''vote_choice'', String (cast_choice c))]"
| "vote_event_fields rfc3339 now (Vote_Withdraw r) = om_from [(str ''vote_id'', String (ref_vote_id r))]"
| "vote_event_fields rfc3339 now (Vote_Close r) = om_from [(str ''vote_id'', String (ref_vote_id r))]"

definition prepare_vote_event ::
  "(timestamp \<Rightarrow> rstr) \<Rightarrow> rstr \<Rightarrow> authenticated_principal \<Rightarrow> participant \<Rightarrow> vote_command \<Rightarrow> int \<Rightarrow> timestamp
     \<Rightarrow> command_rejection + room_event" where
  "prepare_vote_event rfc3339 fresh pr p command sequence now =
     rbind (require_vote_write_authority pr p) (\<lambda>_.
     prepare_authorized_participant_message_event fresh p sequence now [] (message_kind command)
       (vote_event_fields rfc3339 now command))"

section \<open>Accepted polls\<close>

lemma parse_vote_options_Ok:
  "parse_vote_options U seen options vs = Ok r \<Longrightarrow>
     \<exists>new. r = options @ new \<and> list_all (has_visible_text U) new
       \<and> (\<forall>w \<in> set new. \<exists>v. String v \<in> set vs \<and> w = clean_message v 100)
       \<and> distinct (map (case_fold U) new) \<and> case_fold U ` set new \<inter> set seen = {}
       \<and> (length options \<le> 10 \<longrightarrow> length r \<le> 10)"
proof (induction vs arbitrary: seen options)
  case (Cons j vs)
  then obtain v where v: "j = String v" by (auto split: if_splits)
  let ?w = "clean_message v VOTE_OPTION_CHARACTER_LIMIT"
  show ?case
  proof (cases "\<not> has_visible_text U ?w \<or> case_fold U ?w \<in> set seen")
    case True
    then have "parse_vote_options U seen options vs = Ok r"
      using Cons.prems v by (simp add: Let_def)
    from Cons.IH [OF this] show ?thesis by (metis list.set_intros(2))
  next
    case False
    then have len: "length options < 10"
      and rest: "parse_vote_options U (case_fold U ?w # seen) (options @ [?w]) vs = Ok r"
      using Cons.prems v by (simp_all add: Let_def MAX_VOTE_OPTIONS_def split: if_splits)
    from Cons.IH [OF rest] obtain new where
      "r = (options @ [?w]) @ new" "list_all (has_visible_text U) new"
      "\<forall>w \<in> set new. \<exists>v. String v \<in> set vs \<and> w = clean_message v 100"
      "distinct (map (case_fold U) new)" "case_fold U ` set new \<inter> set (case_fold U ?w # seen) = {}"
      "length r \<le> 10"
      using len by auto
    then show ?thesis
      using False v by (intro exI [of _ "?w # new"]) (auto simp: VOTE_OPTION_CHARACTER_LIMIT_def)
  qed
qed auto

lemma parse_vote_options_fixed:
  "list_all (\<lambda>w. has_visible_text U w \<and> clean_message w 100 = w) ws \<Longrightarrow>
   distinct (map (case_fold U) ws) \<Longrightarrow> case_fold U ` set ws \<inter> set seen = {} \<Longrightarrow>
   length options + length ws \<le> 10 \<Longrightarrow>
   parse_vote_options U seen options (map String ws) = Ok (options @ ws)"
proof (induction ws arbitrary: seen options)
  case (Cons w ws)
  then have "parse_vote_options U (case_fold U w # seen) (options @ [w]) (map String ws) = Ok ((options @ [w]) @ ws)"
    by (intro Cons.IH) auto
  then show ?case
    using Cons.prems by (simp add: Let_def VOTE_OPTION_CHARACTER_LIMIT_def MAX_VOTE_OPTIONS_def)
qed simp

lemma parse_vote_duration_Ok:
  "parse_vote_duration v = Ok d \<Longrightarrow> d = 0 \<or> 30 \<le> d \<and> d \<le> 86400"
  by (auto simp: parse_vote_duration_def MIN_VOTE_DURATION_SECONDS_def MAX_VOTE_DURATION_SECONDS_def Let_def
      split: option.splits json.splits if_splits)

lemma parse_vote_duration_json_u32:
  "d = 0 \<or> 30 \<le> d \<and> d \<le> 86400 \<Longrightarrow> parse_vote_duration (Some (json_u32 d)) = Ok d"
  using u32_width [of d]
  by (auto simp: parse_vote_duration_def json_u32_def Let_def
      MIN_VOTE_DURATION_SECONDS_def MAX_VOTE_DURATION_SECONDS_def)

text \<open>What the parser guarantees of each command.\<close>

definition vote_create_wf :: "unicode \<Rightarrow> vote_create \<Rightarrow> bool" where
  "vote_create_wf U c \<longleftrightarrow>
     has_visible_text U (vc_question c) \<and> length (vc_question c) \<le> 300 \<and>
     2 \<le> length (vc_options c) \<and> length (vc_options c) \<le> 10 \<and>
     list_all (\<lambda>w. has_visible_text U w \<and> length w \<le> 100) (vc_options c) \<and>
     distinct (map (case_fold U) (vc_options c)) \<and>
     (vc_duration_seconds c = 0 \<or> 30 \<le> vc_duration_seconds c \<and> vc_duration_seconds c \<le> 86400) \<and>
     length (vc_attachment_ids c) \<le> 8 \<and> list_all is_message_attachment_id (vc_attachment_ids c) \<and>
     distinct (vc_attachment_ids c)"

definition vote_id_canonical :: "rstr \<Rightarrow> bool" where
  "vote_id_canonical v \<longleftrightarrow> clean_identifier v 128 = v \<and> is_message_event_id v"

fun vote_command_wf :: "unicode \<Rightarrow> vote_command \<Rightarrow> bool" where
  "vote_command_wf U (Vote_Create c) = vote_create_wf U c"
| "vote_command_wf U (Vote_Cast c) =
     (vote_id_canonical (cast_vote_id c) \<and> has_visible_text U (cast_choice c) \<and> length (cast_choice c) \<le> 200)"
| "vote_command_wf U (Vote_Withdraw r) = vote_id_canonical (ref_vote_id r)"
| "vote_command_wf U (Vote_Close r) = vote_id_canonical (ref_vote_id r)"

text \<open>The texts of a command that the parser cleaned.\<close>

fun vote_texts :: "vote_command \<Rightarrow> (rstr \<times> nat) list" where
  "vote_texts (Vote_Create c) = (vc_question c, 300) # map (\<lambda>w. (w, 100)) (vc_options c)"
| "vote_texts (Vote_Cast c) = [(cast_choice c, 200)]"
| "vote_texts _ = []"

lemma validate_vote_id_Ok [simp]: "validate_vote_id v = Ok w \<longleftrightarrow> w = v \<and> vote_id_canonical v"
  by (auto simp: validate_vote_id_def vote_id_canonical_def Let_def)

lemma parse_vote_id_Ok [simp]: "parse_vote_id v = Ok w \<longleftrightarrow> v = Some (String w) \<and> vote_id_canonical w"
  by (auto simp: parse_vote_id_def bind_eq_Some_conv)

lemma parse_create_Ok:
  assumes "parse_create U obj = Ok c"
  shows "vote_create_wf U c \<and> (\<forall>t \<in> set (vote_texts (Vote_Create c)). \<exists>v. fst t = clean_message v (snd t))"
proof -
  obtain q vs where c: "has_visible_text U (vc_question c)" "vc_question c = clean_message q 300"
    "parse_vote_options U [] [] vs = Ok (vc_options c)" "2 \<le> length (vc_options c)"
    "parse_vote_duration (om_get obj (str ''vote_duration_seconds'')) = Ok (vc_duration_seconds c)"
    "parse_attachment_ids (om_get obj (str ''attachment_ids'')) = Ok (vc_attachment_ids c)"
    using assms
    by (auto simp: parse_create_def VOTE_QUESTION_CHARACTER_LIMIT_def MIN_VOTE_OPTIONS_def bind_eq_Some_conv)
  from parse_vote_options_Ok [OF c(3)] have
    "list_all (has_visible_text U) (vc_options c)" "length (vc_options c) \<le> 10"
    "\<forall>w \<in> set (vc_options c). \<exists>v. String v \<in> set vs \<and> w = clean_message v 100" "distinct (map (case_fold U) (vc_options c))"
    by auto
  moreover from this(3) have "\<forall>w \<in> set (vc_options c). length w \<le> 100"
    using clean_message_length by fastforce
  ultimately show ?thesis
    using c clean_message_length [of q 300] parse_vote_duration_Ok [OF c(5)]
    by (auto simp: vote_create_wf_def list_all_iff parse_attachment_ids_Ok)
qed

lemma vote_from_payload_Ok:
  assumes "vote_from_payload U payload = Ok command"
  shows "vote_command_wf U command
    \<and> (\<forall>t \<in> set (vote_texts command). \<exists>v. fst t = clean_message v (snd t))"
proof (cases command)
  case (Vote_Create c)
  then obtain obj where "parse_create U obj = Ok c"
    using assms by (auto simp: vote_from_payload_def split: if_splits)
  then show ?thesis using parse_create_Ok Vote_Create by simp
next
  case (Vote_Cast c)
  then obtain obj where "parse_cast U obj = Ok c"
    using assms by (auto simp: vote_from_payload_def split: if_splits)
  then obtain v where "cast_choice c = clean_message v 200" "has_visible_text U (cast_choice c)"
    "vote_id_canonical (cast_vote_id c)"
    by (auto simp: parse_cast_def bind_eq_Some_conv)
  then show ?thesis using Vote_Cast clean_message_length by auto
qed (use assms in \<open>auto simp: vote_from_payload_def parse_reference_def split: if_splits\<close>)

text \<open>C28: every vote command the parser accepts is well formed: a poll has a visible
  question of at most 300 characters, two to ten visible options of at most 100 characters
  whose case foldings differ pairwise, no duration or one between 30 seconds and a day, and
  at most eight distinct attachments; a ballot has a canonical poll identifier and a visible
  choice of at most 200 characters.\<close>

theorem vote_parse_bounds:
  "vote_from_payload U payload = Ok command \<Longrightarrow> vote_command_wf U command"
  using vote_from_payload_Ok by blast

theorem vote_parse_bounds_witness:
  "vote_command_wf ascii_unicode
     (Vote_Create \<lparr>vc_question = str ''Ship?'', vc_options = [str ''Yes'', str ''No''],
       vc_duration_seconds = 30, vc_attachment_ids = []\<rparr>)"
proof (rule vote_parse_bounds)
  show "vote_from_payload ascii_unicode (json_object
      [(str ''kind'', String (str ''vote'')), (str ''vote_question'', String (str '' Ship? '')),
       (str ''vote_options'', json_strs [str '' Yes '', str ''YES'', [], str ''No'']),
       (str ''vote_duration_seconds'', json_u32 30)])
    = Ok (Vote_Create \<lparr>vc_question = str ''Ship?'', vc_options = [str ''Yes'', str ''No''],
       vc_duration_seconds = 30, vc_attachment_ids = []\<rparr>)"
    by code_simp
qed

section \<open>Round trip\<close>

lemma has_visible_text_Nil [simp]: "\<not> has_visible_text U []"
  by (simp add: has_visible_text_def)

lemma visible_nonempty: "has_visible_text U w \<Longrightarrow> w \<noteq> []"
  by auto

definition vote_texts_fixed :: "vote_command \<Rightarrow> bool" where
  "vote_texts_fixed command \<longleftrightarrow> (\<forall>t \<in> set (vote_texts command). clean_message (fst t) (snd t) = fst t)"

lemma exact_keys_payload:
  "require_exact_keys m required optional kind = Ok u \<longleftrightarrow>
     str ` set required \<subseteq> set (om_keys m) \<and> set (om_keys m) \<subseteq> str ` (set required \<union> set optional)"
  by (auto simp: require_exact_keys_def list_all_iff om_contains_iff)

lemma to_payload_create:
  assumes "vote_create_wf U c" "vote_texts_fixed (Vote_Create c)"
  shows "vote_from_payload U (to_payload (Vote_Create c)) = Ok (Vote_Create c)"
proof -
  let ?m = "om_insert (str ''kind'') (String (str ''vote'')) (vote_fields (Vote_Create c))"
  have "parse_vote_options U [] [] (map String (vc_options c)) = Ok (vc_options c)"
    using assms parse_vote_options_fixed [of U "vc_options c" "[]" "[]"]
    by (auto simp: vote_create_wf_def vote_texts_fixed_def list_all_iff)
  moreover have "parse_attachment_ids (Some (json_strs (vc_attachment_ids c))) = Ok (vc_attachment_ids c)"
    using assms by (simp add: parse_attachment_ids_Ok vote_create_wf_def)
  moreover have "parse_vote_duration (Some (json_u32 (vc_duration_seconds c))) = Ok (vc_duration_seconds c)"
    using assms by (simp add: parse_vote_duration_json_u32 vote_create_wf_def)
  moreover have "clean_message (vc_question c) 300 = vc_question c"
    using assms by (simp add: vote_texts_fixed_def)
  ultimately have "parse_create U ?m = Ok c"
    using assms(1)
    by (simp add: parse_create_def exact_keys_payload om_get_from json_strs_def VOTE_QUESTION_CHARACTER_LIMIT_def
        MIN_VOTE_OPTIONS_def vote_create_wf_def)
  then show ?thesis by (simp add: vote_from_payload_def to_payload_def)
qed

lemma vote_payload_fixed:
  assumes "vote_command_wf U command" "vote_texts_fixed command"
  shows "vote_from_payload U (to_payload command) = Ok command"
proof (cases command)
  case (Vote_Create c)
  then show ?thesis using assms to_payload_create by simp
next
  case (Vote_Cast c)
  then show ?thesis
    using assms
    by (simp add: vote_from_payload_def to_payload_def parse_cast_def exact_keys_payload om_get_from vote_texts_fixed_def)
next
  case (Vote_Withdraw r)
  then show ?thesis
    using assms by (simp add: vote_from_payload_def to_payload_def parse_reference_def exact_keys_payload om_get_from)
next
  case (Vote_Close r)
  then show ?thesis
    using assms by (simp add: vote_from_payload_def to_payload_def parse_reference_def exact_keys_payload om_get_from)
qed

lemma vote_texts_visible:
  "vote_command_wf U command \<Longrightarrow> t \<in> set (vote_texts command) \<Longrightarrow>
     fst t \<noteq> [] \<and> length (fst t) \<le> snd t"
  by (cases command) (auto simp: vote_create_wf_def list_all_iff)

lemma clean_fixed_last: "clean_message w n = w \<Longrightarrow> w \<noteq> [] \<Longrightarrow> \<not> is_whitespace (last w)"
  using clean_message_idem_iff [of w n] by auto

text \<open>A command that its own encoding parses to has only trimmed texts.\<close>

lemma payload_texts_trimmed:
  assumes "vote_from_payload U (to_payload command) = Ok command" "vote_command_wf U command"
    and "t \<in> set (vote_texts command)"
  shows "\<not> is_whitespace (last (fst t))"
proof (cases command)
  case (Vote_Create c)
  then have parsed: "clean_message (vc_question c) 300 = vc_question c"
    "parse_vote_options U [] [] (map String (vc_options c)) = Ok (vc_options c)"
    using assms(1) by (cases c; auto simp: vote_from_payload_def to_payload_def parse_create_def om_get_from
        json_strs_def VOTE_QUESTION_CHARACTER_LIMIT_def)+
  show ?thesis
  proof (cases "t = (vc_question c, 300)")
    case True
    then show ?thesis using parsed(1) clean_fixed_last vote_texts_visible [OF assms(2,3)] by simp
  next
    case False
    then obtain w where w: "t = (w, 100)" "w \<in> set (vc_options c)"
      using assms(3) Vote_Create by auto
    then obtain v where v: "v \<in> set (vc_options c)" "w = clean_message v 100"
      using parse_vote_options_Ok [OF parsed(2)] by auto
    then have "trimmed is_whitespace w"
      using assms(2) Vote_Create clean_message_short_trimmed by (auto simp: vote_create_wf_def list_all_iff)
    then show ?thesis using w vote_texts_visible [OF assms(2,3)] by (simp add: trimmed_def)
  qed
next
  case (Vote_Cast c)
  then have "clean_message (cast_choice c) 200 = cast_choice c"
    using assms(1) by (cases c) (auto simp: vote_from_payload_def to_payload_def parse_cast_def om_get_from)
  then show ?thesis
    using assms(3) Vote_Cast clean_fixed_last vote_texts_visible [OF assms(2,3)] by simp
qed (use assms(3) in simp_all)



section \<open>Ballots\<close>

lemma parse_unsigned_usize: "n \<le> USIZE_MAX \<Longrightarrow> parse_unsigned USIZE_MAX (show_nat n) = Some n"
  by (rule parse_unsigned_show_nat)

text \<open>A ballot always resolves to one of the poll's options. The text of an
  option resolves to itself when the foldings of the options differ, and the decimal number
  of an option, counted from one, resolves to that option unless some option is spelled
  like the number.\<close>

theorem ballot_resolution:
  assumes "distinct (map (case_fold U) options)"
  shows "(resolve_vote_choice U choice options = Some option \<longrightarrow> option \<in> set options)
    \<and> (option \<in> set options \<and> clean_message option 200 = option \<and> has_visible_text U option \<longrightarrow>
         resolve_vote_choice U option options = Some option)
    \<and> (n < length options \<and> Suc n \<le> USIZE_MAX
         \<and> clean_message (show_nat (Suc n)) 200 = show_nat (Suc n) \<and> has_visible_text U (show_nat (Suc n))
         \<and> case_fold U (show_nat (Suc n)) \<notin> case_fold U ` set options \<longrightarrow>
         resolve_vote_choice U (show_nat (Suc n)) options = Some (options ! n))"
proof (intro conjI impI)
  assume "resolve_vote_choice U choice options = Some option"
  then show "option \<in> set options"
    by (auto simp: resolve_vote_choice_def Let_def find_Some_iff split: option.splits if_splits)
next
  assume o: "option \<in> set options \<and> clean_message option 200 = option \<and> has_visible_text U option"
  then obtain w where w: "find (\<lambda>x. case_fold U x = case_fold U option) options = Some w"
    by (cases "find (\<lambda>x. case_fold U x = case_fold U option) options") (auto simp: find_None_iff)
  then have "w \<in> set options" "case_fold U w = case_fold U option"
    by (auto simp: find_Some_iff)
  then have "w = option" using assms o by (auto simp: distinct_map dest: inj_onD)
  then show "resolve_vote_choice U option options = Some option"
    using o w by (simp add: resolve_vote_choice_def Let_def)
next
  assume n: "n < length options \<and> Suc n \<le> USIZE_MAX
    \<and> clean_message (show_nat (Suc n)) 200 = show_nat (Suc n) \<and> has_visible_text U (show_nat (Suc n))
    \<and> case_fold U (show_nat (Suc n)) \<notin> case_fold U ` set options"
  then have "find (\<lambda>x. case_fold U x = case_fold U (show_nat (Suc n))) options = None"
    unfolding find_None_iff by (metis image_eqI)
  then show "resolve_vote_choice U (show_nat (Suc n)) options = Some (options ! n)"
    using n by (simp add: resolve_vote_choice_def Let_def parse_unsigned_usize)
qed

theorem ballot_resolution_witness:
  "resolve_vote_choice ascii_unicode (str ''2'') [str ''Yes'', str ''No''] = Some (str ''No'')"
proof -
  have d: "distinct (map (case_fold ascii_unicode) [str ''Yes'', str ''No''])" by code_simp
  have s: "str ''2'' = show_nat (Suc 1)" by code_simp
  have c: "clean_message (show_nat (Suc 1)) 200 = show_nat (Suc 1)" by code_simp
  have v: "has_visible_text ascii_unicode (show_nat (Suc 1))" by code_simp
  have i: "case_fold ascii_unicode (show_nat (Suc 1)) \<notin> case_fold ascii_unicode ` set [str ''Yes'', str ''No'']"
    by code_simp
  have "Suc 1 \<le> USIZE_MAX" by (simp add: USIZE_MAX_def)
  then show ?thesis
    using ballot_resolution [OF d, of undefined undefined 1] c v i unfolding s by simp
qed

section \<open>Vote events\<close>

text \<open>A vote event is built exactly for a principal that may write as the
  participant with the capability of its client kind (an agent bridge needs the publish
  capability, the others the send capability) at a positive sequence number; it carries no
  content and the fields of its command, with a deadline exactly when the poll has a
  duration.\<close>

theorem vote_event_authority:
  "prepare_vote_event rfc3339 fresh pr p command n now = Ok e \<longleftrightarrow>
     (if pr_client_kind pr = Agent_Bridge then cap_bridge_publish (pr_capabilities pr)
      else cap_message_send (pr_capabilities pr))
     \<and> may_write_as pr p \<and> 0 < n
     \<and> e = \<lparr>ev_v = 1, ev_id = fresh, ev_seq = n, ev_created_at = now, ev_room_id = part_room_id p,
          ev_type = str ''message_final'', ev_actor = \<lparr>actor_participant_id = part_id p, actor_participant_type = part_type p\<rparr>,
          ev_participant_id = Some (part_id p), ev_participant_type = Some (part_type p),
          ev_actor_id = Some (part_id p), ev_actor_type = Some (part_type p),
          ev_display_name = Some (part_display_name p), ev_content = Some [],
          ev_message_kind = Some (message_kind command), ev_extra = vote_event_fields rfc3339 now command\<rparr>"
  by (auto simp: prepare_vote_event_def require_vote_write_authority_def
      prepare_authorized_participant_message_event_def split: client_kind.splits)

end
