(* ===== verification/Message_Payload.thy ===== *)
theory Message_Payload
  imports Store_Base Votes
begin

text \<open>
  What a stored message shows (persistence/message\_attachments.rs): its attachment metadata
  with the validation on reading, its visible text, and the attachment identifiers of a
  sequence of events.
\<close>

record message_attachment_metadata =
  mam_id :: rstr
  mam_filename :: rstr
  mam_content_type :: rstr
  mam_size :: nat
  mam_is_image :: bool
  mam_url :: rstr
  mam_download_url :: rstr

definition MAX_ATTACHMENT_BYTES :: nat where "MAX_ATTACHMENT_BYTES = 10 * 1024 * 1024"
definition MAX_MESSAGE_ATTACHMENT_CONTENT_TYPE_BYTES :: nat where
  "MAX_MESSAGE_ATTACHMENT_CONTENT_TYPE_BYTES = 127"

definition invalid_attachment_state :: persistence_error where
  "invalid_attachment_state = rejected ''invalid_state'' ''Stored message attachment metadata is invalid.''"

definition invalid_message_state :: persistence_error where
  "invalid_message_state = rejected ''invalid_state'' ''Stored room message visible content is invalid.''"

text \<open>\<open>split_once\<close> at the first slash.\<close>

fun split_once :: "nat \<Rightarrow> rstr \<Rightarrow> (rstr \<times> rstr) option" where
  "split_once d [] = None"
| "split_once d (c # cs) =
     (if c = d then Some ([], cs) else map_option (\<lambda>p. (c # fst p, snd p)) (split_once d cs))"

definition valid_content_type :: "rstr \<Rightarrow> bool" where
  "valid_content_type v =
     (case split_once 47 v of
        None \<Rightarrow> False
      | Some (kind, subtype) \<Rightarrow>
          kind \<noteq> [] \<and> subtype \<noteq> [] \<and>
          list_all (\<lambda>c. 97 \<le> c \<and> c \<le> 122 \<or> is_ascii_digit c \<or> c \<in> {46, 43, 45}) (kind @ subtype))"

definition is_safe_raster_content_type :: "rstr \<Rightarrow> bool" where
  "is_safe_raster_content_type v \<longleftrightarrow>
     map ascii_lower (trim (hd (split_on (\<lambda>c. c = 59) v)))
       \<in> {str ''image/png'', str ''image/jpeg'', str ''image/gif'', str ''image/webp''}"

definition canonical_metadata :: "message_attachment_metadata \<Rightarrow> bool" where
  "canonical_metadata a \<longleftrightarrow>
     is_message_attachment_id (mam_id a) \<and>
     canonical_message_attachment_filename (mam_filename a) = mam_filename a \<and>
     byte_len (mam_content_type a) \<le> MAX_MESSAGE_ATTACHMENT_CONTENT_TYPE_BYTES \<and>
     valid_content_type (mam_content_type a) \<and>
     1 \<le> mam_size a \<and> mam_size a \<le> MAX_ATTACHMENT_BYTES \<and>
     mam_is_image a = is_safe_raster_content_type (mam_content_type a) \<and>
     mam_url a = str ''/api/attachments/'' @ mam_id a @ str ''?view=1'' \<and>
     mam_download_url a = str ''/api/attachments/'' @ mam_id a @ str ''?download=1''"

definition as_usize :: "json \<Rightarrow> nat option" where
  "as_usize v = (case v of Number (PosInt w) \<Rightarrow> Some (unat w) | _ \<Rightarrow> None)"

definition decode_attachment :: "json \<Rightarrow> message_attachment_metadata option" where
  "decode_attachment v =
     (let build = (\<lambda>i f c s g u d.
        (case (Option.bind i as_str, Option.bind f as_str, Option.bind c as_str, Option.bind s as_usize,
               Option.bind g as_bool, Option.bind u as_str, Option.bind d as_str) of
           (Some i, Some f, Some c, Some s, Some g, Some u, Some d) \<Rightarrow>
             Some \<lparr>mam_id = i, mam_filename = f, mam_content_type = c, mam_size = s,
                   mam_is_image = g, mam_url = u, mam_download_url = d\<rparr>
         | _ \<Rightarrow> None))
      in case v of
        Object m \<Rightarrow>
          if list_all (\<lambda>k. k \<in> {str ''id'', str ''filename'', str ''content_type'', str ''size'',
               str ''is_image'', str ''url'', str ''download_url''}) (om_keys m)
          then build (om_get m (str ''id'')) (om_get m (str ''filename'')) (om_get m (str ''content_type''))
                 (om_get m (str ''size'')) (om_get m (str ''is_image'')) (om_get m (str ''url''))
                 (om_get m (str ''download_url''))
          else None
      | Array [i, f, c, s, g, u, d] \<Rightarrow> build (Some i) (Some f) (Some c) (Some s) (Some g) (Some u) (Some d)
      | _ \<Rightarrow> None)"

definition message_attachments_from_event :: "room_event \<Rightarrow> persistence_error + message_attachment_metadata list" where
  "message_attachments_from_event e =
     (case om_get (ev_extra e) (str ''attachments'') of
        None \<Rightarrow> Ok []
      | Some value \<Rightarrow>
          rbind (ok_or (decode_list decode_attachment value) invalid_attachment_state) (\<lambda>attachments.
          rbind (ensure (length attachments \<le> MAX_MESSAGE_ATTACHMENTS_PER_EVENT) invalid_attachment_state) (\<lambda>_.
          rbind (ensure (distinct (map mam_id attachments) \<and> list_all canonical_metadata attachments)
                   invalid_attachment_state) (\<lambda>_.
          Ok attachments))))"

definition message_visible_text :: "unicode \<Rightarrow> room_event \<Rightarrow> persistence_error + rstr" where
  "message_visible_text U e =
     (let content = clean_message (unwrap_or [] (ev_content e)) MAX_MESSAGE_CHARACTERS in
      if has_visible_text U content then Ok content
      else if ev_message_kind e \<noteq> Some (str ''vote'') then Ok []
      else
        rbind (ok_or (Option.bind (om_get (ev_extra e) (str ''vote_question'')) as_str) invalid_message_state) (\<lambda>question.
        let canonical = clean_message question VOTE_QUESTION_CHARACTER_LIMIT in
        rbind (ensure (canonical = question \<and> has_visible_text U canonical) invalid_message_state) (\<lambda>_.
        Ok canonical)))"

definition message_has_visible_payload :: "unicode \<Rightarrow> room_event \<Rightarrow> persistence_error + bool" where
  "message_has_visible_payload U e =
     rbind (message_attachments_from_event e) (\<lambda>attachments.
     rbind (message_visible_text U e) (\<lambda>visible.
     Ok (has_visible_text U visible \<or> attachments \<noteq> [])))"

text \<open>The identifiers in order of first appearance.\<close>

fun keep_first :: "rstr list \<Rightarrow> rstr list \<Rightarrow> rstr list" where
  "keep_first seen [] = []"
| "keep_first seen (x # xs) = (if x \<in> set seen then keep_first seen xs else x # keep_first (x # seen) xs)"

definition message_attachment_ids_from_events :: "room_event list \<Rightarrow> persistence_error + rstr list" where
  "message_attachment_ids_from_events events =
     rbind (traverse message_attachments_from_event events) (\<lambda>attachments.
     Ok (keep_first [] (map mam_id (concat attachments))))"

section \<open>A poll with a cut question cannot be shown\<close>

lemma clean_message_Nil [simp]: "clean_message [] n = []"
  by (simp add: clean_message_def trim_def)

text \<open>A poll accepted by the parser and turned into its stored event has
  visible text, its question, exactly when the question does not end in whitespace; for a
  question that the limit of 300 characters cut just after whitespace the stored event is
  invalid, so routing the new poll to the room fails.\<close>

theorem poll_question_visibility:
  assumes "vote_from_payload U payload = Ok (Vote_Create c)"
    and "prepare_vote_event rfc3339 fresh pr p (Vote_Create c) n now = Ok e"
  shows "message_has_visible_payload U e =
    (if is_whitespace (last (vc_question c)) then Err invalid_message_state else Ok True)"
proof -
  note wf = vote_from_payload_Ok [OF assms(1)]
  obtain v where q: "vc_question c = clean_message v 300" "has_visible_text U (vc_question c)"
    using wf by (auto simp: vote_create_wf_def)
  have e: "ev_content e = Some []" "ev_message_kind e = Some (str ''vote'')"
    "ev_extra e = vote_event_fields rfc3339 now (Vote_Create c)"
    using assms(2)
    by (auto simp: prepare_vote_event_def prepare_authorized_participant_message_event_def)
  have "message_attachments_from_event e = Ok []"
    by (simp add: message_attachments_from_event_def e om_get_from)
  moreover have "message_visible_text U e =
      (if clean_message (vc_question c) 300 = vc_question c then Ok (vc_question c) else Err invalid_message_state)"
    using q(2) by (auto simp: message_visible_text_def e om_get_from VOTE_QUESTION_CHARACTER_LIMIT_def Let_def ensure_def)
  moreover have "clean_message (vc_question c) 300 = vc_question c \<longleftrightarrow> \<not> is_whitespace (last (vc_question c))"
    using clean_message_idem_iff [of v 300] q visible_nonempty by auto
  ultimately show ?thesis using q(2) by (simp add: message_has_visible_payload_def)
qed

text \<open>A question of 299 letters, a space and a further letter is accepted and then cannot be routed.\<close>

theorem poll_question_visibility_witness:
  "\<exists>c e. vote_from_payload ascii_unicode (json_object
        [(str ''kind'', String (str ''vote'')), (str ''vote_question'', String (replicate 299 97 @ [32, 98])),
         (str ''vote_options'', json_strs [str ''Yes'', str ''No''])]) = Ok (Vote_Create c)
      \<and> message_has_visible_payload ascii_unicode e = Err invalid_message_state"
proof -
  let ?c = "\<lparr>vc_question = replicate 299 97 @ [32], vc_options = [str ''Yes'', str ''No''],
    vc_duration_seconds = 0, vc_attachment_ids = []\<rparr>"
  let ?payload = "json_object
        [(str ''kind'', String (str ''vote'')), (str ''vote_question'', String (replicate 299 97 @ [32, 98])),
         (str ''vote_options'', json_strs [str ''Yes'', str ''No''])]"
  let ?pr = "\<lparr>pr_principal_id = str ''u1'', pr_participant_id = str ''ann'', pr_display_name = str ''Ann'',
    pr_room_id = str ''lobby'', pr_client_kind = Browser, pr_invite_scope = Read_Write,
    pr_is_operator = False, pr_capabilities = for_principal Browser Read_Write False\<rparr>"
  let ?p = "\<lparr>part_room_id = str ''lobby'', part_id = str ''ann'', part_display_name = str ''Ann'',
    part_avatar_image_url = [], part_type = str ''human'', part_status = Joined, part_role = Human,
    part_owner_id = [], part_muted = False, part_created_at = 0, part_updated_at = 0\<rparr>"
  have h: "vote_from_payload ascii_unicode ?payload = Ok (Vote_Create ?c)" by code_simp
  obtain e where e: "prepare_vote_event (\<lambda>_. []) (str ''e1'') ?pr ?p (Vote_Create ?c) 1 0 = Ok e"
    by (simp add: prepare_vote_event_def require_vote_write_authority_def may_write_as_def for_principal_def
        prepare_authorized_participant_message_event_def)
  have "message_has_visible_payload ascii_unicode e = Err invalid_message_state"
    using poll_question_visibility [OF h e] by simp
  with h show ?thesis by (intro exI [of _ ?c] exI [of _ e] conjI)
qed

end
