(* ===== verification/Mutations.thy ===== *)
theory Mutations
  imports Votes
begin

text \<open>
  Editing and deleting a message (message\_mutations.rs): the payloads, the authorization
  against the stored target, the rewritten target and the event that announces the change.
  \<open>json_time\<close> is the serialisation of a time stamp by the chrono crate, a parameter.
\<close>

record message_edit =
  me_event_id :: rstr
  me_content :: rstr

record message_delete =
  md_event_id :: rstr

datatype mutable_message_kind = Mutable_Message | Mutable_Vote

definition exact_object :: "json \<Rightarrow> string list \<Rightarrow> string \<Rightarrow> command_rejection + jmap" where
  "exact_object payload expected_keys action =
     rbind (ok_or (as_object payload) (reject ''bad_request'' ''payload must be an object.'')) (\<lambda>obj.
     rbind (ensure (length obj = length expected_keys \<and> list_all (\<lambda>k. om_contains obj (str k)) expected_keys)
              (reject ''bad_request'' (action @ '' payload has an invalid shape.''))) (\<lambda>_.
     Ok obj))"

definition exact_event_id :: "json option \<Rightarrow> command_rejection + rstr" where
  "exact_event_id v =
     rbind (ok_or (Option.bind v as_str)
              (reject ''bad_request'' ''event_id must be a valid message identifier.'')) (\<lambda>event_id.
     rbind (ensure (is_message_event_id event_id)
              (reject ''bad_request'' ''event_id must be a valid message identifier.'')) (\<lambda>_.
     Ok event_id))"

definition message_edit_from_payload :: "json \<Rightarrow> command_rejection + message_edit" where
  "message_edit_from_payload payload =
     rbind (exact_object payload [''content'', ''event_id''] ''message.edit'') (\<lambda>obj.
     rbind (exact_event_id (om_get obj (str ''event_id''))) (\<lambda>event_id.
     rbind (ok_or (Option.bind (om_get obj (str ''content'')) as_str)
              (reject ''bad_request'' ''message.edit content must be a string.'')) (\<lambda>content.
     Ok \<lparr>me_event_id = event_id, me_content = clean_message content MAX_MESSAGE_CHARACTERS\<rparr>)))"

definition message_delete_from_payload :: "json \<Rightarrow> command_rejection + message_delete" where
  "message_delete_from_payload payload =
     rbind (exact_object payload [''event_id''] ''message.delete'') (\<lambda>obj.
     rbind (exact_event_id (om_get obj (str ''event_id''))) (\<lambda>event_id.
     Ok \<lparr>md_event_id = event_id\<rparr>))"

definition require_canonical_actor :: "room_event \<Rightarrow> command_rejection + unit" where
  "require_canonical_actor e =
     (let a = ev_actor e in
      ensure (actor_participant_id a \<noteq> [] \<and>
              actor_participant_type a \<in> {str ''human'', str ''agent''} \<and>
              ev_participant_id e = Some (actor_participant_id a) \<and>
              ev_participant_type e = Some (actor_participant_type a) \<and>
              ev_actor_id e = Some (actor_participant_id a) \<and>
              ev_actor_type e = Some (actor_participant_type a))
        (reject ''invalid_state'' ''Stored message actor authority is inconsistent.''))"

definition require_mutable_message :: "room_event \<Rightarrow> command_rejection + mutable_message_kind" where
  "require_mutable_message e =
     rbind (ensure (ev_type e = str ''message_final'')
              (reject ''message_not_found'' ''Message was not found.'')) (\<lambda>_.
     rbind (ensure (om_get (ev_extra e) (str ''message_deleted'') \<noteq> Some (Bool True))
              (reject ''message_deleted'' ''Message was already deleted.'')) (\<lambda>_.
     rbind (if ev_message_kind e = Some (str ''message'') then Ok Mutable_Message
            else if ev_message_kind e = Some (str ''vote'') then Ok Mutable_Vote
            else Err (reject ''unsupported_message_type'' ''This message type cannot be changed here.'')) (\<lambda>kind.
     rbind (require_canonical_actor e) (\<lambda>_.
     Ok kind))))"

definition require_modify_capability :: "authenticated_principal \<Rightarrow> command_rejection + unit" where
  "require_modify_capability pr =
     ensure (pr_client_kind pr \<noteq> Agent_Bridge \<and> cap_message_modify (pr_capabilities pr))
       (reject ''permission_denied'' ''This room session cannot modify messages.'')"

definition authorize_message_edit :: "authenticated_principal \<Rightarrow> room_event \<Rightarrow> command_rejection + unit" where
  "authorize_message_edit pr e =
     rbind (require_modify_capability pr) (\<lambda>_.
     rbind (require_mutable_message e) (\<lambda>kind.
     ensure (kind = Mutable_Message \<and>
             actor_participant_type (ev_actor e) = str ''human'' \<and>
             actor_participant_id (ev_actor e) = pr_participant_id pr)
       (reject ''permission_denied'' ''Only the author can edit this message.'')))"

definition authorize_message_delete ::
  "authenticated_principal \<Rightarrow> room_event \<Rightarrow> participant \<Rightarrow> command_rejection + mutable_message_kind" where
  "authorize_message_delete pr e author =
     rbind (require_modify_capability pr) (\<lambda>_.
     rbind (require_mutable_message e) (\<lambda>kind.
     rbind (ensure (part_room_id author = ev_room_id e \<and>
                    part_id author = actor_participant_id (ev_actor e) \<and>
                    part_type author = actor_participant_type (ev_actor e))
              (reject ''invalid_state'' ''Stored message author authority is inconsistent.'')) (\<lambda>_.
     let own_human = (part_type author = str ''human'' \<and> part_id author = pr_participant_id pr);
         owned_agent = (part_type author = str ''agent'' \<and> part_owner_id author = pr_participant_id pr) in
     rbind (ensure (pr_is_operator pr \<or> own_human \<or> owned_agent)
              (reject ''permission_denied'' ''You cannot delete this message.'')) (\<lambda>_.
     Ok kind))))"

definition prepare_updated_message :: "(timestamp \<Rightarrow> rstr) \<Rightarrow> room_event \<Rightarrow> rstr \<Rightarrow> timestamp \<Rightarrow> room_event" where
  "prepare_updated_message json_time target content edited_at =
     target\<lparr>ev_content := Some content,
            ev_extra := om_insert (str ''edited_at'') (String (json_time edited_at)) (ev_extra target)\<rparr>"

definition prepare_deleted_message ::
  "(timestamp \<Rightarrow> rstr) \<Rightarrow> room_event \<Rightarrow> mutable_message_kind \<Rightarrow> timestamp \<Rightarrow> room_event" where
  "prepare_deleted_message json_time target kind deleted_at =
     (let extra = om_remove (str ''target_agent_id'') (ev_extra target);
          extra = om_insert (str ''attachments'') (Array []) extra;
          extra = om_insert (str ''message_deleted'') (Bool True) extra;
          extra = om_insert (str ''deleted_at'') (String (json_time deleted_at)) extra;
          extra = (if kind = Mutable_Vote then
                     (let extra = om_insert (str ''vote_question'') (String []) extra;
                          extra = om_insert (str ''vote_options'') (Array []) extra;
                          extra = om_insert (str ''vote_duration_seconds'') Null extra
                      in om_insert (str ''vote_deadline_at'') (String []) extra)
                   else extra)
      in target\<lparr>ev_content := Some [], ev_extra := extra\<rparr>)"

definition mutation_event ::
  "(timestamp \<Rightarrow> rstr) \<Rightarrow> rstr \<Rightarrow> authenticated_principal \<Rightarrow> room_event \<Rightarrow> rstr \<Rightarrow> int \<Rightarrow> timestamp
     \<Rightarrow> rstr option \<Rightarrow> rstr \<Rightarrow> room_event" where
  "mutation_event json_time fresh pr target event_type sequence created_at content timestamp_key =
     \<lparr>ev_v = 1,
      ev_id = fresh,
      ev_seq = sequence,
      ev_created_at = created_at,
      ev_room_id = ev_room_id target,
      ev_type = event_type,
      ev_actor = \<lparr>actor_participant_id = pr_participant_id pr, actor_participant_type = str ''human''\<rparr>,
      ev_participant_id = Some (pr_participant_id pr),
      ev_participant_type = Some (str ''human''),
      ev_actor_id = Some (pr_participant_id pr),
      ev_actor_type = Some (str ''human''),
      ev_display_name = Some (pr_display_name pr),
      ev_content = content,
      ev_message_kind = None,
      ev_extra = om_from
        [(str ''target_event_id'', String (ev_id target)),
         (str ''target_seq'', json_i64 (ev_seq target)),
         (timestamp_key, String (json_time created_at))]\<rparr>"

definition prepare_message_updated_event ::
  "(timestamp \<Rightarrow> rstr) \<Rightarrow> rstr \<Rightarrow> authenticated_principal \<Rightarrow> room_event \<Rightarrow> rstr \<Rightarrow> int \<Rightarrow> timestamp \<Rightarrow> room_event" where
  "prepare_message_updated_event json_time fresh pr target content sequence edited_at =
     mutation_event json_time fresh pr target (str ''message_updated'') sequence edited_at
       (Some content) (str ''edited_at'')"

definition prepare_message_deleted_event ::
  "(timestamp \<Rightarrow> rstr) \<Rightarrow> rstr \<Rightarrow> authenticated_principal \<Rightarrow> room_event \<Rightarrow> int \<Rightarrow> timestamp \<Rightarrow> room_event" where
  "prepare_message_deleted_event json_time fresh pr target sequence deleted_at =
     mutation_event json_time fresh pr target (str ''message_deleted'') sequence deleted_at
       None (str ''deleted_at'')"

section \<open>Authorization\<close>

lemma require_canonical_actor_Ok [simp]:
  "require_canonical_actor e = Ok u \<longleftrightarrow>
     actor_participant_id (ev_actor e) \<noteq> [] \<and>
     actor_participant_type (ev_actor e) \<in> {str ''human'', str ''agent''} \<and> actor_canonical e"
  by (auto simp: require_canonical_actor_def actor_canonical_def Let_def)

lemma require_mutable_message_Ok:
  "require_mutable_message e = Ok kind \<longleftrightarrow>
     is_current_lobby_message e \<and>
     ev_message_kind e = Some (case kind of Mutable_Message \<Rightarrow> str ''message'' | Mutable_Vote \<Rightarrow> str ''vote'') \<and>
     actor_participant_id (ev_actor e) \<noteq> [] \<and>
     actor_participant_type (ev_actor e) \<in> {str ''human'', str ''agent''} \<and> actor_canonical e"
  by (cases kind) (auto simp: require_mutable_message_def is_current_lobby_message_def)

definition may_modify :: "authenticated_principal \<Rightarrow> bool" where
  "may_modify pr \<longleftrightarrow> pr_client_kind pr \<noteq> Agent_Bridge \<and> cap_message_modify (pr_capabilities pr)"

lemma require_modify_capability_Ok [simp]: "require_modify_capability pr = Ok u \<longleftrightarrow> may_modify pr"
  by (auto simp: require_modify_capability_def may_modify_def)


text \<open>After a deletion the stored message is a tombstone: its text is empty,
  its attachments and the agent it addressed are gone, a poll's question, options, duration
  and deadline are blanked, every other field of the record is untouched, and no later edit
  or deletion of it can be authorized by anyone.\<close>

theorem tombstone_is_final:
  "let d = prepare_deleted_message json_time target kind t in
     ev_content d = Some []
    \<and> om_get (ev_extra d) (str ''attachments'') = Some (Array [])
    \<and> om_get (ev_extra d) (str ''target_agent_id'') = None
    \<and> om_get (ev_extra d) (str ''vote_question'') =
        (if kind = Mutable_Vote then Some (String []) else om_get (ev_extra target) (str ''vote_question''))
    \<and> om_get (ev_extra d) (str ''vote_options'') =
        (if kind = Mutable_Vote then Some (Array []) else om_get (ev_extra target) (str ''vote_options''))
    \<and> om_get (ev_extra d) (str ''vote_duration_seconds'') =
        (if kind = Mutable_Vote then Some Null else om_get (ev_extra target) (str ''vote_duration_seconds''))
    \<and> om_get (ev_extra d) (str ''vote_deadline_at'') =
        (if kind = Mutable_Vote then Some (String []) else om_get (ev_extra target) (str ''vote_deadline_at''))
    \<and> d\<lparr>ev_content := ev_content target, ev_extra := ev_extra target\<rparr> = target
    \<and> (\<nexists>pr. authorize_message_edit pr d = Ok ())
    \<and> (\<nexists>pr author k. authorize_message_delete pr d author = Ok k)"
proof -
  define d where "d = prepare_deleted_message json_time target kind t"
  have dead: "om_get (ev_extra d) (str ''message_deleted'') = Some (Bool True)"
    by (simp add: d_def prepare_deleted_message_def Let_def)
  then have "require_mutable_message d \<noteq> Ok k" for k
    by (simp add: require_mutable_message_Ok is_current_lobby_message_def)
  then have "\<nexists>pr. authorize_message_edit pr d = Ok ()" "\<nexists>pr author k. authorize_message_delete pr d author = Ok k"
    by (auto simp: authorize_message_edit_def authorize_message_delete_def)
  then show ?thesis
    unfolding d_def Let_def by (simp add: prepare_deleted_message_def Let_def)
qed

section \<open>Authors and their messages\<close>

text \<open>The human participant whose message was accepted can edit it,
  whatever happened to the room since, with any session of that participant that may modify
  messages; nobody else can, and the edit keeps it editable.\<close>

theorem author_can_edit_own_message:
  assumes "prepare_message_event fresh pr p command n now = Ok e"
    and "part_type p = str ''human''" "part_id p \<noteq> []"
  shows "(authorize_message_edit editor e = Ok () \<longleftrightarrow> may_modify editor \<and> pr_participant_id editor = part_id p)
    \<and> authorize_message_edit editor (prepare_updated_message json_time e content t)
      = authorize_message_edit editor e"
proof -
  have e: "is_current_lobby_message e" "ev_message_kind e = Some (str ''message'')" "actor_canonical e"
    "actor_participant_id (ev_actor e) = part_id p" "actor_participant_type (ev_actor e) = str ''human''"
    using assms prepare_authorized_Ok
    by (auto simp: prepare_message_event_def prepare_participant_message_event_def is_current_lobby_message_def)
  have first: "authorize_message_edit ed x = Ok () \<longleftrightarrow> may_modify ed \<and> pr_participant_id ed = part_id p"
    if "is_current_lobby_message x" "ev_message_kind x = Some (str ''message'')" "actor_canonical x"
      "ev_actor x = ev_actor e" for x ed
  proof -
    have "require_mutable_message x = Ok Mutable_Message"
      using that e assms(3) by (simp add: require_mutable_message_Ok)
    then show ?thesis using that(4) e by (auto simp: authorize_message_edit_def)
  qed
  let ?u = "prepare_updated_message json_time e content t"
  have u: "require_mutable_message ?u = require_mutable_message e"
    by (simp add: require_mutable_message_def require_canonical_actor_def prepare_updated_message_def)
  then have "authorize_message_edit editor ?u = authorize_message_edit editor e"
    by (simp add: authorize_message_edit_def prepare_updated_message_def)
  then show ?thesis using first [of e editor] e by simp
qed

theorem author_can_edit_own_message_witness:
  "\<exists>editor e. authorize_message_edit editor e = Ok () \<and> pr_participant_id editor = str ''ann''"
proof -
  let ?pr = "\<lparr>pr_principal_id = str ''u1'', pr_participant_id = str ''ann'', pr_display_name = str ''Ann'',
    pr_room_id = str ''lobby'', pr_client_kind = Browser, pr_invite_scope = Read_Write,
    pr_is_operator = False, pr_capabilities = for_principal Browser Read_Write False\<rparr>"
  let ?p = "\<lparr>part_room_id = str ''lobby'', part_id = str ''ann'', part_display_name = str ''Ann'',
    part_avatar_image_url = [], part_type = str ''human'', part_status = Joined, part_role = Human,
    part_owner_id = [], part_muted = False, part_created_at = 0, part_updated_at = 0\<rparr>"
  let ?c = "\<lparr>ms_content = str ''hello'', ms_attachment_ids = []\<rparr>"
  obtain e where e: "prepare_message_event (str ''e1'') ?pr ?p ?c 1 0 = Ok e"
    by (simp add: prepare_message_event_def prepare_participant_message_event_def may_write_as_def
        for_principal_def prepare_authorized_participant_message_event_def)
  have m: "may_modify ?pr" by (simp add: may_modify_def for_principal_def)
  have "authorize_message_edit ?pr e = Ok ()"
    using author_can_edit_own_message [OF e, of ?pr] m by simp
  then show ?thesis by (intro exI [of _ ?pr] exI [of _ e]) simp
qed

end
