(* ===== verification/Projection.thy ===== *)
theory Projection
  imports Mutations
begin

text \<open>
  The projection of stored events and command results for a viewer (projection.rs): private
  keys are removed at every depth, an owner-only event is reduced to its cursor for everybody
  but its owner, and a ballot keeps only the poll it belongs to. The serde decoder and
  encoder of a room event are written out; the chrono crate's parser and printer of a time
  stamp are the parameters \<open>parse_time\<close> and \<open>json_time\<close>.
\<close>

section \<open>Private keys\<close>

definition PRIVATE_PUBLIC_KEYS :: "string list" where
  "PRIVATE_PUBLIC_KEYS =
  [''absolute_path'', ''active_source_event_id'', ''argv'', ''bridge_handle_id'',
   ''bridge_pid'', ''command_configured'', ''config_path'', ''credentials'', ''env'',
   ''executable'', ''executable_identity'', ''file_path'', ''inflight_event_ids'',
   ''inflight_inputs'', ''lifecycle_intent_action'', ''lifecycle_intent_id'',
   ''lifecycle_intent_status'', ''path'', ''pending_event_ids'',
   ''pending_event_observation_kinds'', ''pending_inputs'', ''pid'', ''provider_endpoint'',
   ''provider_observation_kind'', ''provider_session_id'', ''provider_turn_id'',
   ''reactivation_operation_id'', ''reported_provider_pid'', ''resolved_executable'',
   ''room_publication_digest'', ''room_publication_proof'', ''room_publication_turn_id'',
   ''runtime_handle_id'', ''runtime_lease_token'', ''runtime_owner_id'',
   ''runtime_profile_key'', ''runtime_profile_version'', ''stderr_path'', ''stderr_tail'',
   ''stdout_path'', ''terminal_tail'', ''ticket'', ''token'', ''workspace'',
   ''workspace_identity'', ''write_budget_stream_bytes'', ''write_budget_stream_commands'',
   ''write_budget_turn_id'']"

definition is_private_key :: "rstr \<Rightarrow> bool" where
  "is_private_key key \<longleftrightarrow> key \<in> set (map str PRIVATE_PUBLIC_KEYS)"

function project_value :: "json \<Rightarrow> json" where
  "project_value (Array vs) = Array (map project_value vs)"
| "project_value (Object m) = Object (om_map_values project_value (om_retain (\<lambda>k. \<not> is_private_key k) m))"
| "project_value Null = Null"
| "project_value (Bool b) = Bool b"
| "project_value (Number n) = Number n"
| "project_value (String s) = String s"
  by pat_completeness auto
termination
  by (relation "measure size") (auto simp: termination_simp)

section \<open>Events\<close>

definition room_event_is_owner_only :: "room_event \<Rightarrow> bool" where
  "room_event_is_owner_only e \<longleftrightarrow>
     list_ex (\<lambda>key. Option.bind (om_get (ev_extra e) (str key)) as_str = Some (str ''owner''))
       [''visibility'', ''audience'']"

definition event_is_visible_to :: "room_event \<Rightarrow> authenticated_principal \<Rightarrow> bool" where
  "event_is_visible_to e pr \<longleftrightarrow>
     (let part = unwrap_or [] (ev_participant_id e);
          owner = unwrap_or [] (Option.bind (om_get (ev_extra e) (str ''owner_id'')) as_str)
      in list_ex (\<lambda>candidate. candidate \<noteq> [] \<and>
            (candidate = pr_principal_id pr \<or> candidate = pr_participant_id pr)) [part, owner])"

definition is_private_vote :: "room_event \<Rightarrow> bool" where
  "is_private_vote e \<longleftrightarrow>
     (case ev_message_kind e of
        None \<Rightarrow> False
      | Some kind \<Rightarrow> kind \<in> {str ''vote_cast'', str ''vote_withdraw'', str ''vote_close''})"

definition privacy_minimized_vote_transition :: "room_event \<Rightarrow> room_event" where
  "privacy_minimized_vote_transition e =
     (if \<not> is_private_vote e then e
      else e\<lparr>ev_actor := \<lparr>actor_participant_id = [], actor_participant_type = []\<rparr>,
             ev_participant_id := None, ev_participant_type := None,
             ev_actor_id := None, ev_actor_type := None, ev_display_name := None,
             ev_content := Some [],
             ev_extra := om_retain (\<lambda>k. k = str ''vote_id'') (ev_extra e)\<rparr>)"

definition public_event_for_principal :: "room_event \<Rightarrow> authenticated_principal \<Rightarrow> room_event" where
  "public_event_for_principal e pr =
     (let projected = e\<lparr>ev_extra := om_map_values project_value
                                     (om_retain (\<lambda>k. \<not> is_private_key k) (ev_extra e))\<rparr>;
          projected = privacy_minimized_vote_transition projected
      in if \<not> room_event_is_owner_only projected \<or> event_is_visible_to projected pr then
           (if room_event_is_owner_only projected then
              projected\<lparr>ev_extra := om_insert (str ''visibility'') (String (str ''owner''))
                                     (om_remove (str ''audience'') (ev_extra projected))\<rparr>
            else projected)
         else
           \<lparr>ev_v = ev_v projected,
            ev_id = ev_id projected,
            ev_seq = ev_seq projected,
            ev_created_at = ev_created_at projected,
            ev_room_id = ev_room_id projected,
            ev_type = str ''event_hidden'',
            ev_actor = \<lparr>actor_participant_id = [], actor_participant_type = []\<rparr>,
            ev_participant_id = None,
            ev_participant_type = None,
            ev_actor_id = None,
            ev_actor_type = None,
            ev_display_name = None,
            ev_content = None,
            ev_message_kind = None,
            ev_extra = om_from [(str ''visibility'', String (str ''owner''))]\<rparr>)"

section \<open>The JSON form of an event (the serde derive of model.rs)\<close>

definition decode_actor :: "json \<Rightarrow> actor option" where
  "decode_actor v =
     (case v of
        Object m \<Rightarrow>
          (case (Option.bind (om_get m (str ''participant_id'')) as_str,
                 Option.bind (om_get m (str ''participant_type'')) as_str) of
             (Some i, Some t) \<Rightarrow> Some \<lparr>actor_participant_id = i, actor_participant_type = t\<rparr>
           | _ \<Rightarrow> None)
      | Array [String i, String t] \<Rightarrow> Some \<lparr>actor_participant_id = i, actor_participant_type = t\<rparr>
      | _ \<Rightarrow> None)"

text \<open>An optional text field: absent and null both give no text, another kind is an error.\<close>

definition optional_text :: "jmap \<Rightarrow> string \<Rightarrow> rstr option option" where
  "optional_text m key =
     (case om_get m (str key) of
        None \<Rightarrow> Some None
      | Some Null \<Rightarrow> Some None
      | Some (String s) \<Rightarrow> Some (Some s)
      | Some _ \<Rightarrow> None)"

definition EVENT_FIELDS :: "string list" where
  "EVENT_FIELDS = [''v'', ''id'', ''seq'', ''created_at'', ''room_id'', ''type'', ''actor'',
     ''participant_id'', ''participant_type'', ''actor_id'', ''actor_type'', ''display_name'',
     ''content'', ''message_kind'']"

definition decode_event :: "(rstr \<Rightarrow> timestamp option) \<Rightarrow> json \<Rightarrow> room_event option" where
  "decode_event parse_time v =
     (case v of
        Object m \<Rightarrow>
          Option.bind (Option.bind (om_get m (str ''v'')) as_u32) (\<lambda>version.
          Option.bind (Option.bind (om_get m (str ''id'')) as_str) (\<lambda>i.
          Option.bind (Option.bind (om_get m (str ''seq'')) as_i64) (\<lambda>seq.
          Option.bind (Option.bind (Option.bind (om_get m (str ''created_at'')) as_str) parse_time) (\<lambda>created_at.
          Option.bind (Option.bind (om_get m (str ''room_id'')) as_str) (\<lambda>rid.
          Option.bind (Option.bind (om_get m (str ''type'')) as_str) (\<lambda>event_type.
          Option.bind (Option.bind (om_get m (str ''actor'')) decode_actor) (\<lambda>actor.
          Option.bind (optional_text m ''participant_id'') (\<lambda>participant_id.
          Option.bind (optional_text m ''participant_type'') (\<lambda>participant_type.
          Option.bind (optional_text m ''actor_id'') (\<lambda>actor_id.
          Option.bind (optional_text m ''actor_type'') (\<lambda>actor_type.
          Option.bind (optional_text m ''display_name'') (\<lambda>display_name.
          Option.bind (optional_text m ''content'') (\<lambda>content.
          Option.bind (optional_text m ''message_kind'') (\<lambda>message_kind.
          Some \<lparr>ev_v = version, ev_id = i, ev_seq = seq, ev_created_at = created_at, ev_room_id = rid,
                ev_type = event_type, ev_actor = actor, ev_participant_id = participant_id,
                ev_participant_type = participant_type, ev_actor_id = actor_id, ev_actor_type = actor_type,
                ev_display_name = display_name, ev_content = content, ev_message_kind = message_kind,
                ev_extra = om_retain (\<lambda>k. k \<notin> set (map str EVENT_FIELDS)) m\<rparr>))))))))))))))
      | _ \<Rightarrow> None)"

definition present :: "string \<Rightarrow> rstr option \<Rightarrow> (rstr \<times> json) list" where
  "present key v = (case v of None \<Rightarrow> [] | Some s \<Rightarrow> [(str key, String s)])"

definition encode_actor :: "actor \<Rightarrow> json" where
  "encode_actor a = json_object
     [(str ''participant_id'', String (actor_participant_id a)),
      (str ''participant_type'', String (actor_participant_type a))]"

definition encode_event :: "(timestamp \<Rightarrow> rstr) \<Rightarrow> room_event \<Rightarrow> json" where
  "encode_event json_time e = json_object
     ([(str ''v'', json_u32 (ev_v e)),
       (str ''id'', String (ev_id e)),
       (str ''seq'', json_i64 (ev_seq e)),
       (str ''created_at'', String (json_time (ev_created_at e))),
       (str ''room_id'', String (ev_room_id e)),
       (str ''type'', String (ev_type e)),
       (str ''actor'', encode_actor (ev_actor e))]
      @ present ''participant_id'' (ev_participant_id e)
      @ present ''participant_type'' (ev_participant_type e)
      @ present ''actor_id'' (ev_actor_id e)
      @ present ''actor_type'' (ev_actor_type e)
      @ present ''display_name'' (ev_display_name e)
      @ present ''content'' (ev_content e)
      @ present ''message_kind'' (ev_message_kind e)
      @ ev_extra e)"

text \<open>
  Encoding an event cannot fail, since every key is a text; the error of the source's result
  type does not arise and the model returns the value itself.
\<close>

function public_value_for_principal ::
  "(rstr \<Rightarrow> timestamp option) \<Rightarrow> (timestamp \<Rightarrow> rstr) \<Rightarrow> authenticated_principal \<Rightarrow> json \<Rightarrow> json" where
  "public_value_for_principal parse_time json_time pr v =
     (case decode_event parse_time v of
        Some e \<Rightarrow> encode_event json_time (public_event_for_principal e pr)
      | None \<Rightarrow>
          (case v of
             Array vs \<Rightarrow> Array (map (public_value_for_principal parse_time json_time pr) vs)
           | Object m \<Rightarrow> Object (om_map_values (public_value_for_principal parse_time json_time pr)
                                  (om_retain (\<lambda>k. \<not> is_private_key k) m))
           | _ \<Rightarrow> v))"
  by pat_completeness auto
termination
  by (relation "measure (\<lambda>(_, _, _, v). size v)") (auto simp: termination_simp)

declare public_value_for_principal.simps [simp del]

section \<open>No private key survives\<close>

function no_private :: "json \<Rightarrow> bool" where
  "no_private (Array vs) = (\<forall>v \<in> set vs. no_private v)"
| "no_private (Object m) = (\<forall>e \<in> set m. \<not> is_private_key (fst e) \<and> no_private (snd e))"
| "no_private Null = True"
| "no_private (Bool b) = True"
| "no_private (Number n) = True"
| "no_private (String s) = True"
  by pat_completeness auto
termination
  by (relation "measure size") (auto simp: termination_simp)

lemma project_value_no_private: "no_private (project_value v)"
  by (induction v rule: project_value.induct) (auto simp: set_om_map_values)

lemma project_value_idem [simp]: "project_value (project_value v) = project_value v"
proof (induction v rule: project_value.induct)
  case (2 m)
  then show ?case by (simp add: om_retain_map_values) (rule om_map_values_idem, simp)
qed simp_all

lemma project_value_String [simp]:
  "project_value v = String s \<longleftrightarrow> v = String s"
  "as_str (project_value v) = as_str v"
  by (cases v; simp)+

text \<open>The stripped form of an event and what the later steps see of it.\<close>

definition stripped :: "room_event \<Rightarrow> room_event" where
  "stripped e = e\<lparr>ev_extra := om_map_values project_value
                    (om_retain (\<lambda>k. \<not> is_private_key k) (ev_extra e))\<rparr>"

definition strip_extra :: "jmap \<Rightarrow> jmap" where
  "strip_extra m = om_map_values project_value (om_retain (\<lambda>k. \<not> is_private_key k) m)"

lemma ev_extra_stripped [simp]: "ev_extra (stripped e) = strip_extra (ev_extra e)"
  by (simp add: stripped_def strip_extra_def)

lemma strip_extra_text [simp]:
  "\<not> is_private_key k \<Longrightarrow> Option.bind (om_get (strip_extra m) k) as_str = Option.bind (om_get m k) as_str"
  by (cases "om_get m k") (simp_all add: strip_extra_def)

lemma om_wf_strip_extra: "om_wf m \<Longrightarrow> om_wf (strip_extra m)"
  by (simp add: strip_extra_def om_wf_retain)

lemma public_keys:
  "\<not> is_private_key (str ''visibility'')" "\<not> is_private_key (str ''audience'')"
  "\<not> is_private_key (str ''owner_id'')" "\<not> is_private_key (str ''vote_id'')"
  by (simp_all add: is_private_key_def PRIVATE_PUBLIC_KEYS_def)

lemma stripped_owner_only [simp]: "room_event_is_owner_only (stripped e) = room_event_is_owner_only e"
  by (simp add: room_event_is_owner_only_def public_keys)

lemma stripped_visible [simp]: "event_is_visible_to (stripped e) pr = event_is_visible_to e pr"
  by (simp add: event_is_visible_to_def public_keys) (simp add: stripped_def)

lemma stripped_private_vote [simp]: "is_private_vote (stripped e) = is_private_vote e"
  by (simp add: is_private_vote_def stripped_def)

definition hidden_event :: "room_event \<Rightarrow> room_event" where
  "hidden_event e =
     \<lparr>ev_v = ev_v e, ev_id = ev_id e, ev_seq = ev_seq e, ev_created_at = ev_created_at e,
      ev_room_id = ev_room_id e, ev_type = str ''event_hidden'',
      ev_actor = \<lparr>actor_participant_id = [], actor_participant_type = []\<rparr>,
      ev_participant_id = None, ev_participant_type = None, ev_actor_id = None, ev_actor_type = None,
      ev_display_name = None, ev_content = None, ev_message_kind = None,
      ev_extra = [(str ''visibility'', String (str ''owner''))]\<rparr>"

definition owner_event :: "room_event \<Rightarrow> room_event" where
  "owner_event e = e\<lparr>ev_extra := om_insert (str ''visibility'') (String (str ''owner''))
                                   (om_remove (str ''audience'') (ev_extra e))\<rparr>"

lemma ballot_not_owner_only:
  "is_private_vote e \<Longrightarrow> \<not> room_event_is_owner_only (privacy_minimized_vote_transition e)"
  by (simp add: room_event_is_owner_only_def privacy_minimized_vote_transition_def)

lemma public_event_cases:
  "public_event_for_principal e pr =
     (if is_private_vote e then privacy_minimized_vote_transition (stripped e)
      else if \<not> room_event_is_owner_only e then stripped e
      else if event_is_visible_to e pr then owner_event (stripped e)
      else hidden_event e)"
proof -
  have "privacy_minimized_vote_transition (stripped e) = stripped e" if "\<not> is_private_vote e"
    using that by (simp add: privacy_minimized_vote_transition_def)
  then show ?thesis
    using ballot_not_owner_only [of "stripped e"]
    by (auto simp: public_event_for_principal_def stripped_def [symmetric] owner_event_def om_from_def
        Let_def) (simp_all add: hidden_event_def stripped_def)
qed

lemma no_private_strip_extra: "no_private (Object (strip_extra m))"
  by (auto simp: strip_extra_def set_om_map_values project_value_no_private)

lemma public_event_no_private: "no_private (Object (ev_extra (public_event_for_principal e pr)))"
proof -
  have "no_private (Object (ev_extra (owner_event (stripped e))))"
    using no_private_strip_extra [of "ev_extra e"] public_keys
    by (auto simp: owner_event_def om_remove_def dest!: set_om_insert)
  moreover have "no_private (Object (ev_extra (privacy_minimized_vote_transition (stripped e))))"
    using no_private_strip_extra [of "ev_extra e"]
    by (auto simp: privacy_minimized_vote_transition_def)
  ultimately show ?thesis
    using no_private_strip_extra [of "ev_extra e"] public_keys(1)
    by (simp add: public_event_cases hidden_event_def)
qed

definition public_entry :: "rstr \<times> json \<Rightarrow> bool" where
  "public_entry d \<longleftrightarrow> \<not> is_private_key (fst d) \<and> no_private (snd d)"

lemma json_object_no_private: "list_all public_entry es \<Longrightarrow> no_private (json_object es)"
  using set_om_from [of es] by (auto simp: json_object_def list_all_iff public_entry_def)

lemma event_field_public: "k \<in> set EVENT_FIELDS \<Longrightarrow> \<not> is_private_key (str k)"
  by (auto simp: EVENT_FIELDS_def is_private_key_def PRIVATE_PUBLIC_KEYS_def)

lemma public_entry_simps [simp]:
  "k \<in> set EVENT_FIELDS \<Longrightarrow> public_entry (str k, v) \<longleftrightarrow> no_private v"
  "k \<in> set EVENT_FIELDS \<Longrightarrow> list_all public_entry (present k t)"
  by (auto simp: public_entry_def event_field_public present_def split: option.splits)

lemma encode_actor_no_private: "no_private (encode_actor a)"
  unfolding encode_actor_def by (rule json_object_no_private) (simp add: EVENT_FIELDS_def)

lemma encode_event_no_private:
  assumes "no_private (Object (ev_extra e))"
  shows "no_private (encode_event json_time e)"
proof -
  have "list_all public_entry (ev_extra e)"
    using assms by (auto simp: list_all_iff public_entry_def)
  then show ?thesis
    unfolding encode_event_def
    by (intro json_object_no_private)
      (simp add: EVENT_FIELDS_def json_u32_def json_i64_def encode_actor_no_private)
qed

lemma public_value_no_private: "no_private (public_value_for_principal parse_time json_time pr v)"
proof (induction parse_time json_time pr v rule: public_value_for_principal.induct)
  case (1 parse_time json_time pr v)
  show ?case
  proof (cases "decode_event parse_time v")
    case None
    then show ?thesis
      using 1 by (subst public_value_for_principal.simps) (cases v; auto simp: set_om_map_values)
  next
    case (Some e)
    then show ?thesis
      using encode_event_no_private [OF public_event_no_private]
      by (simp add: public_value_for_principal.simps [of _ _ _ v])
  qed
qed

text \<open>C23: whatever is stored, neither the additional fields of an event
  projected for a viewer nor a projected command result contain a private key, at any depth
  and inside embedded events too.\<close>

theorem projection_strips_private:
  "no_private (Object (ev_extra (public_event_for_principal e pr)))
   \<and> no_private (public_value_for_principal parse_time json_time pr v)"
  by (simp add: public_event_no_private public_value_no_private del: no_private.simps)

section \<open>What a viewer cannot learn\<close>

definition same_cursor :: "room_event \<Rightarrow> room_event \<Rightarrow> bool" where
  "same_cursor a b \<longleftrightarrow> ev_v a = ev_v b \<and> ev_id a = ev_id b \<and> ev_seq a = ev_seq b \<and>
     ev_created_at a = ev_created_at b \<and> ev_room_id a = ev_room_id b"

definition hidden_from :: "authenticated_principal \<Rightarrow> room_event \<Rightarrow> bool" where
  "hidden_from pr e \<longleftrightarrow>
     \<not> is_private_vote e \<and> room_event_is_owner_only e \<and> \<not> event_is_visible_to e pr"

definition ballots_of_same_poll :: "room_event \<Rightarrow> room_event \<Rightarrow> bool" where
  "ballots_of_same_poll a b \<longleftrightarrow>
     is_private_vote a \<and> is_private_vote b \<and> ev_type a = ev_type b \<and> ev_message_kind a = ev_message_kind b \<and>
     om_wf (ev_extra a) \<and> om_wf (ev_extra b) \<and>
     om_get (ev_extra a) (str ''vote_id'') = om_get (ev_extra b) (str ''vote_id'')"

text \<open>C22: two owner-only events at the same cursor look the same to everyone
  but their owners, and two ballots of the same kind on the same poll at the same cursor look
  the same to everyone, so a viewer learns nothing of the content of the former nor of the
  voter and the choice of the latter.\<close>

theorem projection_noninterference:
  assumes "same_cursor a b"
    and "hidden_from pr a \<and> hidden_from pr b \<or> ballots_of_same_poll a b"
  shows "public_event_for_principal a pr = public_event_for_principal b pr"
proof (cases "ballots_of_same_poll a b")
  case True
  let ?x = "\<lambda>e. om_retain (\<lambda>k. k = str ''vote_id'') (strip_extra (ev_extra e))"
  have "?x a = ?x b"
  proof (rule om_ext)
    show "om_wf (?x a)" "om_wf (?x b)"
      using True by (simp_all add: ballots_of_same_poll_def om_wf_retain om_wf_strip_extra)
    show "om_get (?x a) k = om_get (?x b) k" for k
      using True by (simp add: ballots_of_same_poll_def strip_extra_def)
  qed
  with True assms(1) show ?thesis
    by (cases a; cases b)
      (simp add: public_event_cases ballots_of_same_poll_def privacy_minimized_vote_transition_def
        is_private_vote_def stripped_def strip_extra_def same_cursor_def)
next
  case False
  with assms have "hidden_from pr a" "hidden_from pr b" by auto
  with assms(1) show ?thesis
    by (simp add: public_event_cases hidden_from_def hidden_event_def same_cursor_def)
qed

lemma project_value_fixed: "no_private v \<Longrightarrow> project_value v = v"
proof (induction v rule: no_private.induct)
  case (1 vs)
  then show ?case by (simp add: map_fixed)
next
  case (2 m)
  then have "om_retain (\<lambda>k. \<not> is_private_key k) m = m" by (intro om_retain_all) simp
  moreover have "om_map_values project_value m = m"
    using 2 by (intro om_map_values_fixed) simp
  ultimately show ?case by simp
qed simp_all

lemma stripped_fixed: "no_private (Object (ev_extra e)) \<Longrightarrow> stripped e = e"
  using project_value_fixed [of "Object (ev_extra e)"] by (simp add: stripped_def)

lemma stripped_public [simp]: "stripped (public_event_for_principal e pr) = public_event_for_principal e pr"
  by (rule stripped_fixed) (rule public_event_no_private)

lemma owner_event_owner_only: "room_event_is_owner_only (owner_event e)"
  by (simp add: room_event_is_owner_only_def owner_event_def)

lemma owner_event_visible [simp]: "event_is_visible_to (owner_event e) pr = event_is_visible_to e pr"
  by (simp add: event_is_visible_to_def owner_event_def)

lemma owner_event_private_vote [simp]: "is_private_vote (owner_event e) = is_private_vote e"
  by (simp add: is_private_vote_def owner_event_def)

lemma owner_event_idem: "om_wf (ev_extra e) \<Longrightarrow> owner_event (owner_event e) = owner_event e"
proof -
  assume wf: "om_wf (ev_extra e)"
  let ?v = "om_insert (str ''visibility'') (String (str ''owner''))"
  let ?r = "om_remove (str ''audience'')"
  have "?v (?r (?v (?r (ev_extra e)))) = ?v (?r (ev_extra e))"
    using wf by (intro om_ext) (auto simp: om_wf_insert om_wf_remove)
  then show ?thesis by (simp add: owner_event_def)
qed

lemma minimized_idem:
  "privacy_minimized_vote_transition (privacy_minimized_vote_transition e) = privacy_minimized_vote_transition e"
  by (simp add: privacy_minimized_vote_transition_def is_private_vote_def)

lemma minimized_private_vote [simp]:
  "is_private_vote (privacy_minimized_vote_transition e) = is_private_vote e"
  by (simp add: privacy_minimized_vote_transition_def is_private_vote_def)

lemma hidden_event_facts [simp]:
  "\<not> is_private_vote (hidden_event e)" "room_event_is_owner_only (hidden_event e)"
  "\<not> event_is_visible_to (hidden_event e) pr" "hidden_event (hidden_event e) = hidden_event e"
  by (simp_all add: hidden_event_def is_private_vote_def room_event_is_owner_only_def
      event_is_visible_to_def om_get_def)

text \<open>Projecting an already projected event again for the same viewer
  changes nothing, so results that pass the boundary twice are stable.\<close>

theorem projection_idempotent:
  assumes "om_wf (ev_extra e)"
  shows "public_event_for_principal (public_event_for_principal e pr) pr = public_event_for_principal e pr"
proof -
  let ?p = "public_event_for_principal e pr"
  have again: "public_event_for_principal ?p pr =
     (if is_private_vote ?p then privacy_minimized_vote_transition ?p
      else if \<not> room_event_is_owner_only ?p then ?p
      else if event_is_visible_to ?p pr then owner_event ?p
      else hidden_event ?p)"
    by (subst public_event_cases) simp
  consider "is_private_vote e" | "\<not> is_private_vote e" "\<not> room_event_is_owner_only e"
    | "\<not> is_private_vote e" "room_event_is_owner_only e" "event_is_visible_to e pr"
    | "\<not> is_private_vote e" "room_event_is_owner_only e" "\<not> event_is_visible_to e pr"
    by blast
  then show ?thesis
  proof cases
    case 1
    then show ?thesis using again by (simp add: public_event_cases minimized_idem)
  next
    case 2
    then show ?thesis using again by (simp add: public_event_cases)
  next
    case 3
    then show ?thesis
      using again assms by (simp add: public_event_cases owner_event_owner_only owner_event_idem om_wf_strip_extra)
  next
    case 4
    then show ?thesis using again by (simp add: public_event_cases)
  qed
qed

theorem projection_idempotent_witness:
  "\<exists>e pr. ev_extra (public_event_for_principal (public_event_for_principal e pr) pr)
     = [(str ''visibility'', String (str ''owner''))] \<and> om_get (ev_extra e) (str ''secret'') \<noteq> None"
proof -
  let ?m = "[(str ''secret'', Bool True), (str ''visibility'', String (str ''owner''))]"
  let ?e = "\<lparr>ev_v = 1, ev_id = str ''e1'', ev_seq = 1, ev_created_at = 0, ev_room_id = str ''lobby'',
    ev_type = str ''note'', ev_actor = \<lparr>actor_participant_id = str ''ann'', actor_participant_type = str ''human''\<rparr>,
    ev_participant_id = Some (str ''ann''), ev_participant_type = None, ev_actor_id = None, ev_actor_type = None,
    ev_display_name = None, ev_content = None, ev_message_kind = None, ev_extra = ?m\<rparr>"
  let ?pr = "\<lparr>pr_principal_id = str ''u2'', pr_participant_id = str ''bob'', pr_display_name = [],
    pr_room_id = str ''lobby'', pr_client_kind = Browser, pr_invite_scope = Read_Write,
    pr_is_operator = False, pr_capabilities = for_principal Browser Read_Write False\<rparr>"
  have wf: "om_wf (ev_extra ?e)" by code_simp
  have "public_event_for_principal ?e ?pr = hidden_event ?e"
    by (simp add: public_event_cases is_private_vote_def room_event_is_owner_only_def event_is_visible_to_def om_get_def)
  then have "ev_extra (public_event_for_principal (public_event_for_principal ?e ?pr) ?pr)
     = [(str ''visibility'', String (str ''owner''))]"
    using projection_idempotent [OF wf, of ?pr] by (simp add: hidden_event_def)
  then show ?thesis by (intro exI [of _ ?e] exI [of _ ?pr]) (simp add: om_get_def)
qed

theorem projection_noninterference_witness:
  "\<exists>a b pr. ev_content a \<noteq> ev_content b \<and> ev_actor a \<noteq> ev_actor b
     \<and> public_event_for_principal a pr = public_event_for_principal b pr"
proof -
  let ?e = "\<lambda>who choice. \<lparr>ev_v = 1, ev_id = str ''e1'', ev_seq = 1, ev_created_at = 0, ev_room_id = str ''lobby'',
    ev_type = str ''message_final'', ev_actor = \<lparr>actor_participant_id = who, actor_participant_type = str ''human''\<rparr>,
    ev_participant_id = Some who, ev_participant_type = None, ev_actor_id = None, ev_actor_type = None,
    ev_display_name = None, ev_content = Some choice, ev_message_kind = Some (str ''vote_cast''),
    ev_extra = [(str ''vote_choice'', String choice), (str ''vote_id'', String (str ''p1''))]\<rparr>"
  have "public_event_for_principal (?e (str ''ann'') (str ''Yes'')) pr
      = public_event_for_principal (?e (str ''bob'') (str ''No'')) pr" for pr
  proof (rule projection_noninterference)
    show "same_cursor (?e (str ''ann'') (str ''Yes'')) (?e (str ''bob'') (str ''No''))"
      by (simp add: same_cursor_def)
    have "om_wf [(str ''vote_choice'', String c), (str ''vote_id'', String (str ''p1''))]" for c
      by (simp add: om_wf_def str_def)
    then show "hidden_from pr (?e (str ''ann'') (str ''Yes'')) \<and> hidden_from pr (?e (str ''bob'') (str ''No''))
      \<or> ballots_of_same_poll (?e (str ''ann'') (str ''Yes'')) (?e (str ''bob'') (str ''No''))"
      by (simp add: ballots_of_same_poll_def is_private_vote_def om_get_def)
  qed
  then show ?thesis
    by (intro exI [of _ "?e (str ''ann'') (str ''Yes'')"] exI [of _ "?e (str ''bob'') (str ''No'')"]) simp
qed

end
