(* ===== verification/Message_Index.thy ===== *)
theory Message_Index
  imports Message_Payload Projection "HOL-Library.Product_Lexorder"
begin

text \<open>
  The search records of room messages (persistence/message\_search\_index.rs): which events are
  searchable, under which text, and the table of records with the constraints of its
  declaration (schema\_message\_search.rs).
\<close>

definition MAX_MESSAGE_SEARCH_AUTHOR_CHARACTERS :: nat where "MAX_MESSAGE_SEARCH_AUTHOR_CHARACTERS = 128"
definition MAX_MESSAGE_SEARCH_CONTENT_CHARACTERS :: nat where
  "MAX_MESSAGE_SEARCH_CONTENT_CHARACTERS = MAX_MESSAGE_CHARACTERS"
definition MAX_MESSAGE_ATTACHMENT_FILENAME_CHARACTERS :: nat where
  "MAX_MESSAGE_ATTACHMENT_FILENAME_CHARACTERS = 120"

definition invalid_search_event :: persistence_error where
  "invalid_search_event = rejected ''invalid_state'' ''The canonical message cannot be indexed.''"

record searchable_message =
  srm_channel_id :: rstr
  srm_author :: rstr
  srm_content :: rstr
  srm_attachment_filenames :: "rstr list"
  srm_search_text :: rstr
  srm_compact_text :: rstr

definition or_else :: "'a option \<Rightarrow> 'a option \<Rightarrow> 'a option" where
  "or_else a b = (case a of None \<Rightarrow> b | Some x \<Rightarrow> Some x)"

definition search_author :: "room_event \<Rightarrow> rstr" where
  "search_author e =
     (let cleaned = (\<lambda>v. clean_message_search_value v MAX_MESSAGE_SEARCH_AUTHOR_CHARACTERS) in
      unwrap_or (str ''Room'')
        (or_else (filter_opt (\<lambda>v. v \<noteq> []) (map_option cleaned (ev_display_name e)))
        (or_else (filter_opt (\<lambda>v. v \<noteq> [])
                   (map_option cleaned (Option.bind (om_get (ev_extra e) (str ''name'')) as_str)))
          (filter_opt (\<lambda>v. v \<noteq> []) (Some (cleaned (actor_participant_id (ev_actor e))))))))"

text \<open>The channel a searchable event belongs to, \<open>None\<close> for an event that is not a current message.\<close>

definition search_channel :: "room_event \<Rightarrow> persistence_error + rstr option" where
  "search_channel e =
     (if is_current_lobby_message e then Ok (Some (str ''lobby''))
      else if ev_type e = CHANNEL_MESSAGE_EVENT_TYPE \<and>
              om_get (ev_extra e) (str ''message_deleted'') \<noteq> Some (Bool True)
      then rbind (ok_or (filter_opt is_custom_channel_id
                          (Option.bind (om_get (ev_extra e) (str ''channel_id'')) as_str)) invalid_search_event)
             (\<lambda>channel. Ok (Some channel))
      else Ok None)"

definition searchable_room_message ::
  "unicode \<Rightarrow> room_event \<Rightarrow> persistence_error + searchable_message option" where
  "searchable_room_message U e =
     (if room_event_is_owner_only e then Ok None
      else rbind (search_channel e) (\<lambda>channel.
      case channel of
        None \<Rightarrow> Ok None
      | Some channel_id \<Rightarrow>
        rbind (message_visible_text U e) (\<lambda>visible.
        rbind (message_attachments_from_event e) (\<lambda>attachments.
        let author = search_author e;
            content = clean_message_search_value visible MAX_MESSAGE_SEARCH_CONTENT_CHARACTERS;
            filenames = map (\<lambda>a. clean_message_search_value (mam_filename a)
                                    MAX_MESSAGE_ATTACHMENT_FILENAME_CHARACTERS) attachments in
        if content = [] \<and> filenames = [] then Ok None
        else
          let search_text = casefold_message_search_text U
                (join [10] ([author] @ (if content \<noteq> [] then [content] else []) @ filenames)) in
          Ok (Some \<lparr>srm_channel_id = channel_id, srm_author = author, srm_content = content,
                    srm_attachment_filenames = filenames, srm_search_text = search_text,
                    srm_compact_text = compact_casefolded_message_search_text search_text\<rparr>)))))"

definition canonical_created_at_nanos :: "room_event \<Rightarrow> persistence_error + int" where
  "canonical_created_at_nanos e =
     (if ev_created_at e \<le> i64_max \<and> 0 < ev_created_at e then Ok (ev_created_at e) else Err invalid_search_event)"

section \<open>The table\<close>

record search_row =
  sr_event_id :: rstr
  sr_created_at_nanos :: int
  sr_search_text :: rstr
  sr_compact_text :: rstr

type_synonym search_table = "(rstr \<times> int, search_row) omap"

text \<open>The column checks of the declaration; SQLite's \<open>length\<close> stops at a zero character.\<close>

definition search_row_admitted :: "rstr \<Rightarrow> int \<Rightarrow> search_row \<Rightarrow> bool" where
  "search_row_admitted rid seq r \<longleftrightarrow>
     0 < seq \<and> 1 \<le> byte_len (sr_event_id r) \<and> byte_len (sr_event_id r) \<le> 128 \<and> 0 \<notin> set (sr_event_id r) \<and>
     0 < sr_created_at_nanos r \<and>
     takeWhile (\<lambda>c. c \<noteq> 0) (sr_search_text r) \<noteq> [] \<and> takeWhile (\<lambda>c. c \<noteq> 0) (sr_compact_text r) \<noteq> []"

definition index_room_message ::
  "unicode \<Rightarrow> room_event \<Rightarrow> search_table \<Rightarrow> persistence_error + search_table" where
  "index_room_message U e t =
     rbind (searchable_room_message U e) (\<lambda>found.
     case found of
       None \<Rightarrow> Ok t
     | Some message \<Rightarrow>
         rbind (canonical_created_at_nanos e) (\<lambda>nanos.
         let row = \<lparr>sr_event_id = ev_id e, sr_created_at_nanos = nanos,
                    sr_search_text = srm_search_text message, sr_compact_text = srm_compact_text message\<rparr> in
         rbind (ensure (search_row_admitted (ev_room_id e) (ev_seq e) row \<and>
                        om_get t (ev_room_id e, ev_seq e) = None \<and>
                        \<not> list_ex (\<lambda>((r, s), old). r = ev_room_id e \<and> sr_event_id old = ev_id e) t)
                  Database_Error) (\<lambda>_.
         Ok (om_insert (ev_room_id e, ev_seq e) row t))))"

definition remove_room_message_index :: "room_event \<Rightarrow> search_table \<Rightarrow> persistence_error + search_table" where
  "remove_room_message_index e t =
     (case om_get t (ev_room_id e, ev_seq e) of
        Some row \<Rightarrow> if sr_event_id row = ev_id e then Ok (om_remove (ev_room_id e, ev_seq e) t)
                    else Err invalid_search_event
      | None \<Rightarrow> Err invalid_search_event)"

definition replace_room_message_index ::
  "unicode \<Rightarrow> room_event \<Rightarrow> search_table \<Rightarrow> persistence_error + search_table" where
  "replace_room_message_index U e t =
     rbind (remove_room_message_index e t) (\<lambda>t. index_room_message U e t)"

section \<open>What the table holds\<close>

text \<open>Every record belongs to one event: the identifiers of a room are not repeated.\<close>

definition search_table_ok :: "search_table \<Rightarrow> bool" where
  "search_table_ok t \<longleftrightarrow>
     om_wf t \<and> distinct (map (\<lambda>((r, s), row). (r, sr_event_id row)) t) \<and>
     list_all (\<lambda>((r, s), row). search_row_admitted r s row) t"

definition search_records :: "search_table \<Rightarrow> rstr \<Rightarrow> rstr set" where
  "search_records t rid = {sr_event_id row | s row. om_get t (rid, s) = Some row}"

lemma search_recordsI: "om_get t (q, s) = Some row \<Longrightarrow> i = sr_event_id row \<Longrightarrow> i \<in> search_records t q"
  by (auto simp: search_records_def)

lemma search_recordsE:
  assumes "i \<in> search_records t q"
  obtains s row where "om_get t (q, s) = Some row" "i = sr_event_id row"
  using assms by (auto simp: search_records_def)

lemma om_insert_fresh: "om_get m k = None \<Longrightarrow> \<exists>a b. m = a @ b \<and> om_insert k v m = a @ (k, v) # b"
proof (induction m)
  case (Cons e m)
  obtain j w where e: "e = (j, w)" by (cases e)
  show ?case
  proof (cases "k < j")
    case True
    then have "e # m = [] @ e # m \<and> om_insert k v (e # m) = [] @ (k, v) # e # m" using e by simp
    then show ?thesis by blast
  next
    case False
    with Cons.prems e have j: "j < k" "om_get m k = None" by (auto simp: om_get_def split: if_splits)
    then obtain a b where "m = a @ b" "om_insert k v m = a @ (k, v) # b" using Cons.IH by auto
    then have "e # m = (e # a) @ b \<and> om_insert k v (e # m) = (e # a) @ (k, v) # b" using e j(1) by auto
    then show ?thesis by blast
  qed
qed simp

lemma search_insert_ok:
  assumes "search_table_ok t" "search_row_admitted r s row" "om_get t (r, s) = None"
    and "\<not> list_ex (\<lambda>((r', s'), old). r' = r \<and> sr_event_id old = sr_event_id row) t"
  shows "search_table_ok (om_insert (r, s) row t)"
proof -
  obtain a b where ab: "t = a @ b" "om_insert (r, s) row t = a @ ((r, s), row) # b"
    using om_insert_fresh [OF assms(3)] by blast
  have "(r, sr_event_id row) \<notin> set (map (\<lambda>((r, s), row). (r, sr_event_id row)) t)"
    using assms(4) by (auto simp: list_ex_iff split_beta)
  then have "distinct (map (\<lambda>((r, s), row). (r, sr_event_id row)) (om_insert (r, s) row t))"
    using assms(1) ab by (auto simp: search_table_ok_def)
  then show ?thesis
    using assms(1,2) ab om_wf_insert [of t "(r, s)" row] by (auto simp: search_table_ok_def)
qed

lemma search_table_remove_ok: "search_table_ok t \<Longrightarrow> search_table_ok (om_remove k t)"
proof -
  assume ok: "search_table_ok t"
  have "om_remove k t = filter (\<lambda>e. fst e \<noteq> k) t" by (simp add: om_remove_def om_retain_def)
  with ok om_wf_remove [of t k] show ?thesis
    by (auto simp: search_table_ok_def list_all_iff distinct_map_filter)
qed

lemma search_records_remove:
  assumes "search_table_ok t" "om_get t (r, s) = Some row"
  shows "search_records (om_remove (r, s) t) q = search_records t q - (if q = r then {sr_event_id row} else {})"
proof -
  have inj: "s' = s" if "om_get t (r, s') = Some row'" "sr_event_id row' = sr_event_id row" for s' row'
  proof -
    have "((r, s'), row') \<in> set t" "((r, s), row) \<in> set t"
      using that(1) assms(2) by (auto dest: om_get_in_set)
    moreover have "inj_on (\<lambda>((r, s), row). (r, sr_event_id row)) (set t)"
      using assms(1) by (simp add: search_table_ok_def distinct_map)
    ultimately have "((r, s'), row') = ((r, s), row)" using that(2) unfolding inj_on_def by fastforce
    then show ?thesis by simp
  qed
  show ?thesis
  proof (intro set_eqI iffI)
    fix i assume "i \<in> search_records (om_remove (r, s) t) q"
    then obtain s' old where old: "om_get t (q, s') = Some old" "i = sr_event_id old" "(q, s') \<noteq> (r, s)"
      by (auto elim!: search_recordsE split: if_splits)
    then show "i \<in> search_records t q - (if q = r then {sr_event_id row} else {})"
      using inj [of s' old] by (auto intro: search_recordsI)
  next
    fix i assume i: "i \<in> search_records t q - (if q = r then {sr_event_id row} else {})"
    then obtain s' old where old: "om_get t (q, s') = Some old" "i = sr_event_id old"
      by (auto elim!: search_recordsE)
    with i assms(2) have "(q, s') \<noteq> (r, s)" by auto
    with old show "i \<in> search_records (om_remove (r, s) t) q"
      by (intro search_recordsI [where s = s' and row = old]) auto
  qed
qed

lemma search_records_insert:
  assumes "om_get t (r, s) = None"
  shows "search_records (om_insert (r, s) row t) q = search_records t q \<union> (if q = r then {sr_event_id row} else {})"
proof (intro set_eqI iffI)
  fix i assume "i \<in> search_records t q \<union> (if q = r then {sr_event_id row} else {})"
  then show "i \<in> search_records (om_insert (r, s) row t) q"
  proof
    assume "i \<in> search_records t q"
    then obtain s' old where "om_get t (q, s') = Some old" "i = sr_event_id old" by (auto simp: search_records_def)
    moreover from this(1) assms have "(q, s') \<noteq> (r, s)" by auto
    ultimately show ?thesis by (intro search_recordsI [where s = s' and row = old]) auto
  next
    assume "i \<in> (if q = r then {sr_event_id row} else {})"
    then show ?thesis by (intro search_recordsI [where s = s and row = row]) (auto split: if_splits)
  qed
qed (auto elim!: search_recordsE intro: search_recordsI split: if_splits)

lemma index_room_message_Ok:
  assumes "index_room_message U e t = Ok t'"
  shows "searchable_room_message U e = Ok None \<and> t' = t \<or>
    (\<exists>m row. searchable_room_message U e = Ok (Some m) \<and> sr_event_id row = ev_id e \<and>
       om_get t (ev_room_id e, ev_seq e) = None \<and> search_row_admitted (ev_room_id e) (ev_seq e) row \<and>
       \<not> list_ex (\<lambda>((r', s'), old). r' = ev_room_id e \<and> sr_event_id old = sr_event_id row) t \<and>
       t' = om_insert (ev_room_id e, ev_seq e) row t)"
proof (cases "searchable_room_message U e")
  case (Inr found)
  show ?thesis
  proof (cases found)
    case (Some m)
    with assms Inr obtain nanos where n: "canonical_created_at_nanos e = Ok nanos"
      by (auto simp: index_room_message_def)
    let ?row = "\<lparr>sr_event_id = ev_id e, sr_created_at_nanos = nanos,
                    sr_search_text = srm_search_text m, sr_compact_text = srm_compact_text m\<rparr>"
    have "om_get t (ev_room_id e, ev_seq e) = None \<and> search_row_admitted (ev_room_id e) (ev_seq e) ?row \<and>
       \<not> list_ex (\<lambda>((r', s'), old). r' = ev_room_id e \<and> sr_event_id old = sr_event_id ?row) t \<and>
       t' = om_insert (ev_room_id e, ev_seq e) ?row t"
      using assms Inr Some n by (auto simp: index_room_message_def Let_def)
    moreover have "sr_event_id ?row = ev_id e" by simp
    ultimately show ?thesis using Inr Some by blast
  qed (use assms Inr in \<open>simp add: index_room_message_def\<close>)
qed (use assms in \<open>simp add: index_room_message_def\<close>)


text \<open>A message of the local operator.\<close>

definition sample_message :: "string \<Rightarrow> int \<Rightarrow> string \<Rightarrow> room_event" where
  "sample_message event_id seq content =
     \<lparr>ev_v = 1, ev_id = str event_id, ev_seq = seq, ev_created_at = 7, ev_room_id = str ''main'',
      ev_type = str ''message_final'',
      ev_actor = \<lparr>actor_participant_id = LOCAL_OPERATOR_PARTICIPANT_ID, actor_participant_type = str ''human''\<rparr>,
      ev_participant_id = None, ev_participant_type = None, ev_actor_id = None, ev_actor_type = None,
      ev_display_name = Some (str ''Operator''), ev_content = Some (str content),
      ev_message_kind = Some (str ''message''), ev_extra = []\<rparr>"


end
