(* ===== verification/Turn_Store.thy ===== *)
theory Turn_Store
  imports Turn_Routing Message_Index
begin

text \<open>
  The tables the turn operations read and write, as one record, and the row operations of
  room\_turn\_support.rs, room\_event\_sequence.rs, agent\_session\_rows.rs, participant\_rows.rs and
  agent\_lifecycle.rs on it. A transaction is a function on the record: an error abandons it.
  A row is kept decoded; decoding a session row validates its persona selection.

  Tables that other modules own are the component \<open>db_rest\<close>, and what the turn operations ask
  of those modules are the functions of \<open>turn_env\<close>, together with the clock, the source of
  random identifiers and the derived serialisation of a session.
\<close>

section \<open>Transactions\<close>

type_synonym ('s, 'a) tx = "'s \<Rightarrow> persistence_error + 'a \<times> 's"

definition tx_return :: "'a \<Rightarrow> ('s, 'a) tx" where
  "tx_return x = (\<lambda>s. Ok (x, s))"

definition tx_bind :: "('s, 'a) tx \<Rightarrow> ('a \<Rightarrow> ('s, 'b) tx) \<Rightarrow> ('s, 'b) tx" where
  "tx_bind m f = (\<lambda>s. rbind (m s) (\<lambda>r. f (fst r) (snd r)))"

text \<open>A fallible query, and a check.\<close>

definition tx_read :: "('s \<Rightarrow> persistence_error + 'a) \<Rightarrow> ('s, 'a) tx" where
  "tx_read q = (\<lambda>s. rbind (q s) (\<lambda>x. Ok (x, s)))"

definition tx_try :: "persistence_error + 'a \<Rightarrow> ('s, 'a) tx" where
  "tx_try r = tx_read (\<lambda>_. r)"

fun tx_each :: "('a \<Rightarrow> ('s, unit) tx) \<Rightarrow> 'a list \<Rightarrow> ('s, unit) tx" where
  "tx_each f [] = tx_return ()"
| "tx_each f (x # xs) = tx_bind (f x) (\<lambda>_. tx_each f xs)"

fun tx_map :: "('a \<Rightarrow> ('s, 'b) tx) \<Rightarrow> 'a list \<Rightarrow> ('s, 'b list) tx" where
  "tx_map f [] = tx_return []"
| "tx_map f (x # xs) = tx_bind (f x) (\<lambda>y. tx_bind (tx_map f xs) (\<lambda>ys. tx_return (y # ys)))"

lemma tx_simps [simp]:
  "tx_return x s = Inr r \<longleftrightarrow> r = (x, s)"
  "tx_bind m f s = Inr r \<longleftrightarrow> (\<exists>y t. m s = Inr (y, t) \<and> f y t = Inr r)"
  "tx_read q s = Inr r \<longleftrightarrow> (\<exists>y. q s = Inr y \<and> r = (y, s))"
  "tx_try c s = Inr r \<longleftrightarrow> (\<exists>y. c = Inr y \<and> r = (y, s))"
  by (auto simp: tx_return_def tx_bind_def tx_read_def tx_try_def)

text \<open>What a transaction keeps: a function of the tables that it leaves as it was.\<close>

definition keeps :: "('s \<Rightarrow> 'v) \<Rightarrow> ('s, 'a) tx \<Rightarrow> bool" where
  "keeps v m \<longleftrightarrow> (\<forall>s r. m s = Inr r \<longrightarrow> v (snd r) = v s)"

named_theorems keeps_intros \<open>transactions that leave a part of the tables as it was\<close>

lemma keepsD: "keeps v m \<Longrightarrow> m s = Inr (y, t) \<Longrightarrow> v t = v s"
  by (auto simp: keeps_def)

lemma keeps_return [keeps_intros]: "keeps v (tx_return x)"
  by (auto simp: keeps_def)

lemma keeps_bind [keeps_intros]: "keeps v m \<Longrightarrow> (\<And>y. keeps v (f y)) \<Longrightarrow> keeps v (tx_bind m f)"
  by (fastforce simp: keeps_def)

lemma keeps_read [keeps_intros]: "keeps v (tx_read q)"
  by (auto simp: keeps_def)

lemma keeps_try [keeps_intros]: "keeps v (tx_try c)"
  by (simp add: tx_try_def keeps_read)

lemma keeps_each [keeps_intros]: "(\<And>x. keeps v (f x)) \<Longrightarrow> keeps v (tx_each f xs)"
  by (induction xs) (auto intro!: keeps_intros)

lemma keeps_map [keeps_intros]: "(\<And>x. keeps v (f x)) \<Longrightarrow> keeps v (tx_map f xs)"
  by (induction xs) (auto intro!: keeps_intros)

lemma keeps_if [keeps_intros]: "keeps v m \<Longrightarrow> keeps v n \<Longrightarrow> keeps v (if c then m else n)"
  by simp

text \<open>A predicate on the tables that a transaction maintains.\<close>

definition preserves :: "('s \<Rightarrow> bool) \<Rightarrow> ('s, 'a) tx \<Rightarrow> bool" where
  "preserves P m \<longleftrightarrow> (\<forall>s r. m s = Inr r \<longrightarrow> P s \<longrightarrow> P (snd r))"

named_theorems ok_intros \<open>transactions that maintain a predicate on the tables\<close>

lemma preservesD: "preserves P m \<Longrightarrow> m s = Inr (y, t) \<Longrightarrow> P s \<Longrightarrow> P t"
  by (auto simp: preserves_def)

lemma preserves_basic [ok_intros]: "preserves P (tx_return x)" "preserves P (tx_read q)" "preserves P (tx_try c)"
  by (auto simp: preserves_def)

lemma preserves_bind [ok_intros]: "preserves P m \<Longrightarrow> (\<And>y. preserves P (f y)) \<Longrightarrow> preserves P (tx_bind m f)"
  by (fastforce simp: preserves_def)

lemma preserves_if [ok_intros]: "preserves P m \<Longrightarrow> preserves P n \<Longrightarrow> preserves P (if c then m else n)"
  by simp

lemma preserves_each [ok_intros]: "(\<And>x. preserves P (f x)) \<Longrightarrow> preserves P (tx_each f xs)"
  by (induction xs) (auto intro!: ok_intros)

lemma preserves_map [ok_intros]: "(\<And>x. preserves P (f x)) \<Longrightarrow> preserves P (tx_map f xs)"
  by (induction xs) (auto intro!: ok_intros)

lemma keeps_preserves: "keeps v m \<Longrightarrow> preserves (\<lambda>s. Q (v s)) m"
  by (auto simp: keeps_def preserves_def)

section \<open>Provider turn executions\<close>

datatype provider_turn_execution_phase =
  Assigned | Start_Dispatching | Running | Interrupt_Pending | Quiescing | Start_Ambiguous |
  Interrupt_Ambiguous | Recovery_Required | Completed | Declined | Failed | Interrupted

definition is_blocking :: "provider_turn_execution_phase \<Rightarrow> bool" where
  "is_blocking p \<longleftrightarrow>
     p \<in> {Assigned, Start_Dispatching, Running, Interrupt_Pending, Quiescing, Start_Ambiguous,
          Interrupt_Ambiguous, Recovery_Required}"

record provider_turn_assignment_envelope =
  env_delivery_kind :: room_input_delivery_kind
  env_provider_input :: rstr
  env_room_view :: rstr
  env_attachment_ids :: "rstr list"
  env_room_agent_ids :: "rstr list"
  env_tabletop_tools :: bool

text \<open>A row of the table, with its assignment; the key is the room, the session and the generation.\<close>

record provider_turn_execution =
  pte_execution_id :: rstr
  pte_participant_id :: rstr
  pte_turn_id :: rstr
  pte_assignment :: provider_turn_assignment_envelope
  pte_phase :: provider_turn_execution_phase
  pte_runtime_handle_id :: rstr
  pte_runtime_owner_id :: rstr
  pte_runtime_lease_token :: rstr
  pte_start_dispatch_nonce :: rstr
  pte_provider_turn_id :: rstr
  pte_requeue_finalized :: bool

datatype provider_turn_effect_phase =
  Effect_Prepared | Effect_Claimed | Effect_Dispatching | Effect_Issued_Waiting_Quiescence |
  Effect_Interrupt_Ambiguous | Effect_Recovery_Required | Effect_Finalized

datatype provider_turn_interrupt_cause = Participant_Muted | Agent_Interrupt

text \<open>A row of the interrupts, with the same key as the execution it interrupts.\<close>

record provider_turn_effect =
  pe_effect_id :: rstr
  pe_cause :: provider_turn_interrupt_cause
  pe_phase :: provider_turn_effect_phase
  pe_claim_owner :: rstr
  pe_claim_expires_at :: "int option"
  pe_dispatch_nonce :: rstr

datatype runtime_restart_phase =
  Restart_Quiescing | Restart_Draining | Restart_Recovering | Restart_Completed | Restart_Failed | Restart_Aborted

definition blocks_admission :: "runtime_restart_phase \<Rightarrow> bool" where
  "blocks_admission p \<longleftrightarrow> p \<in> {Restart_Quiescing, Restart_Draining, Restart_Recovering}"

section \<open>The tables\<close>

record 'x turn_db =
  db_rooms :: "rstr \<rightharpoonup> room \<times> json"
  db_participants :: "rstr \<times> rstr \<rightharpoonup> participant"
  db_sessions :: "(rstr \<times> rstr, durable_agent_session) omap"
  db_events :: "(rstr \<times> int, room_event) omap"
  db_search :: search_table
  db_executions :: "(rstr \<times> rstr \<times> int, provider_turn_execution) omap"
  db_effects :: "(rstr \<times> rstr \<times> int, provider_turn_effect) omap"
  db_restart :: "runtime_restart_phase option"
  db_draws :: nat
  db_rest :: 'x

text \<open>The clock and the random identifiers by the number of draws before, and the other modules:
  the closing of the provider requests of a session, whether its attendee can interrupt a
  retained turn or is ready, and the selected persona card, given as the
  rendering of its context for the recent messages.\<close>

record 'x turn_env =
  te_unicode :: unicode
  te_now :: "nat \<Rightarrow> timestamp"
  te_uuid :: "nat \<Rightarrow> uuid"
  te_session_json :: "agent_session \<Rightarrow> json"
  te_reconcile :: "agent_session \<Rightarrow> timestamp \<Rightarrow> ('x turn_db, unit) tx"
  te_retained_interrupt :: "rstr \<Rightarrow> rstr \<Rightarrow> 'x \<Rightarrow> bool"
  te_attendee_ready :: "durable_agent_session \<Rightarrow> timestamp \<Rightarrow> 'x turn_db \<Rightarrow> persistence_error + bool"
  te_persona_card :: "rstr \<Rightarrow> 'x \<Rightarrow> persistence_error + (rstr \<Rightarrow> rstr)"

definition draw_now :: "'x turn_env \<Rightarrow> ('x turn_db, timestamp) tx" where
  "draw_now E = (\<lambda>db. Ok (te_now E (db_draws db), db\<lparr>db_draws := db_draws db + 1\<rparr>))"

definition draw_uuid :: "'x turn_env \<Rightarrow> ('x turn_db, uuid) tx" where
  "draw_uuid E = (\<lambda>db. Ok (te_uuid E (db_draws db), db\<lparr>db_draws := db_draws db + 1\<rparr>))"

text \<open>\<open>Uuid::simple\<close> and \<open>Uuid::to_string\<close>.\<close>

fun hex_digits :: "nat \<Rightarrow> rstr" where
  "hex_digits n = (if n = 0 then [] else hex_digits (n div 16) @ [if n mod 16 < 10 then 48 + n mod 16 else 87 + n mod 16])"

declare hex_digits.simps [simp del]

definition uuid_simple :: "uuid \<Rightarrow> rstr" where
  "uuid_simple u = (let digits = hex_digits (unat u) in replicate (32 - length digits) 48 @ digits)"

definition hyphenate :: "nat \<times> nat \<Rightarrow> rstr" where
  "hyphenate d = (if fst d \<in> {8, 12, 16, 20} then [45, snd d] else [snd d])"

definition uuid_string :: "uuid \<Rightarrow> rstr" where
  "uuid_string u = concat (map hyphenate (enumerate 0 (uuid_simple u)))"

section \<open>Rows\<close>

definition restart_quiescing :: "'x turn_db \<Rightarrow> bool" where
  "restart_quiescing db = (case db_restart db of None \<Rightarrow> False | Some p \<Rightarrow> blocks_admission p)"

definition decode_session :: "durable_agent_session \<Rightarrow> persistence_error + durable_agent_session" where
  "decode_session s = (if persona_is_valid (das_public s) then Ok s else Err Json_Error)"

definition load_session :: "rstr \<Rightarrow> rstr \<Rightarrow> 'x turn_db \<Rightarrow> persistence_error + durable_agent_session" where
  "load_session rid session_id db =
     rbind (case om_get (db_sessions db) (rid, session_id) of
              None \<Rightarrow> Err (Command_Rejected ''not_found''
                        (str ''Agent session '' @ session_id @ str '' was not found.''))
            | Some row \<Rightarrow> decode_session row) (\<lambda>s.
     rbind (ensure (as_room_id (das_public s) = rid \<and> as_session_id (das_public s) = session_id \<and>
                    as_participant_id (das_public s) = session_id)
              (rejected ''stored_agent_identity_invalid'' ''Stored Agent Session identity differs from its row.'')) (\<lambda>_.
     Ok s))"

definition save_session :: "durable_agent_session \<Rightarrow> ('x turn_db, unit) tx" where
  "save_session s = (\<lambda>db.
     let key = (as_room_id (das_public s), as_session_id (das_public s)) in
     if om_get (db_sessions db) key = None then Err (rejected ''not_found'' ''Agent session was not found.'')
     else Ok ((), db\<lparr>db_sessions := om_insert key s (db_sessions db)\<rparr>))"

definition load_room_sessions :: "rstr \<Rightarrow> 'x turn_db \<Rightarrow> persistence_error + durable_agent_session list" where
  "load_room_sessions rid db =
     (let rows = take 65 (filter (\<lambda>row. fst (fst row) = rid) (db_sessions db)) in
      rbind (ensure (length rows \<le> 64)
               (rejected ''agent_session_capacity'' ''This room exceeds its Agent Session capacity.'')) (\<lambda>_.
      traverse (\<lambda>row. decode_session (snd row)) rows))"

definition load_participant :: "rstr \<Rightarrow> rstr \<Rightarrow> 'x turn_db \<Rightarrow> persistence_error + participant" where
  "load_participant rid participant_id db = ok_or (db_participants db (rid, participant_id)) Participant_Missing"

definition load_room_with_settings :: "'x turn_env \<Rightarrow> rstr \<Rightarrow> 'x turn_db \<Rightarrow> persistence_error + room \<times> room_settings" where
  "load_room_with_settings E rid db =
     rbind (ok_or (db_rooms db rid) Room_Missing) (\<lambda>row.
     rbind (ensure (room_id (fst row) = rid)
              (rejected ''invalid_state'' ''Stored room identity differs from its row.'')) (\<lambda>_.
     rbind (load_settings (te_unicode E) (snd row)) (\<lambda>settings.
     Ok (fst row, settings))))"

definition load_active_room :: "'x turn_env \<Rightarrow> rstr \<Rightarrow> 'x turn_db \<Rightarrow> persistence_error + room \<times> room_settings" where
  "load_active_room E rid db =
     rbind (load_room_with_settings E rid db) (\<lambda>found.
     rbind (ensure (room_state (fst found) = Room_Active)
              (rejected ''room_inactive'' ''Closed or archived rooms do not accept commands.'')) (\<lambda>_.
     Ok found))"

definition load_event :: "rstr \<Rightarrow> rstr \<Rightarrow> 'x turn_db \<Rightarrow> persistence_error + room_event option" where
  "load_event rid event_id db =
     (case take 2 (filter (\<lambda>row. fst (fst row) = rid \<and> ev_id (snd row) = event_id) (db_events db)) of
        [] \<Rightarrow> Ok None
      | [row] \<Rightarrow>
          rbind (ensure (ev_room_id (snd row) = rid \<and> ev_id (snd row) = event_id \<and> ev_seq (snd row) = snd (fst row))
                   (rejected ''invalid_state'' ''Stored room event identity is inconsistent.'')) (\<lambda>_.
          Ok (Some (snd row)))
      | _ \<Rightarrow> Err (rejected ''invalid_state'' ''Stored room event identity is not unique.''))"

definition next_sequence :: "rstr \<Rightarrow> 'x turn_db \<Rightarrow> persistence_error + int" where
  "next_sequence rid db =
     (let greatest = foldr (\<lambda>row. max (snd (fst row))) (filter (\<lambda>row. fst (fst row) = rid) (db_events db)) 0 in
      if greatest < i64_max then Ok (greatest + 1) else Err Database_Error)"

text \<open>The primary key, the check on the sequence and the foreign key of the table, then the index.\<close>

definition insert_event :: "'x turn_env \<Rightarrow> room_event \<Rightarrow> ('x turn_db, unit) tx" where
  "insert_event E e = (\<lambda>db.
     rbind (ensure (0 < ev_seq e \<and> om_get (db_events db) (ev_room_id e, ev_seq e) = None \<and>
                    db_rooms db (ev_room_id e) \<noteq> None) Database_Error) (\<lambda>_.
     rbind (index_room_message (te_unicode E) e (db_search db)) (\<lambda>search.
     Ok ((), db\<lparr>db_events := om_insert (ev_room_id e, ev_seq e) e (db_events db), db_search := search\<rparr>))))"

definition replace_event :: "room_event \<Rightarrow> ('x turn_db, unit) tx" where
  "replace_event e = (\<lambda>db.
     if om_get (db_events db) (ev_room_id e, ev_seq e) = None
     then Err (rejected ''invalid_state'' ''Stored room event disappeared during its mutation.'')
     else Ok ((), db\<lparr>db_events := om_insert (ev_room_id e, ev_seq e) e (db_events db)\<rparr>))"

section \<open>Cursors and checks\<close>

definition provider_cursor_is_valid :: "durable_agent_session \<Rightarrow> 'x turn_db \<Rightarrow> persistence_error + bool" where
  "provider_cursor_is_valid s db =
     (if as_last_provider_sync_seq (das_public s) = 0
      then Ok (as_last_provider_sync_event_id (das_public s) = [])
      else rbind (load_event (as_room_id (das_public s)) (as_last_provider_sync_event_id (das_public s)) db) (\<lambda>event.
           Ok (case event of None \<Rightarrow> False | Some e \<Rightarrow> ev_seq e = as_last_provider_sync_seq (das_public s))))"

definition validate_provider_cursor :: "durable_agent_session \<Rightarrow> 'x turn_db \<Rightarrow> persistence_error + unit" where
  "validate_provider_cursor s db =
     rbind (provider_cursor_is_valid s db) (\<lambda>valid.
     ensure valid (rejected ''provider_sync_cursor_mismatch''
       ''The provider sync cursor is outside canonical room history.''))"

definition validate_input_cursor :: "durable_agent_session \<Rightarrow> 'x turn_db \<Rightarrow> persistence_error + unit" where
  "validate_input_cursor s db =
     rbind (load_event (as_room_id (das_public s)) (das_input_up_to_event_id s) db) (\<lambda>event.
     ensure (\<not> (das_input_up_to_seq s \<le> 0 \<or>
                (case event of None \<Rightarrow> True | Some e \<Rightarrow> ev_seq e \<noteq> das_input_up_to_seq s)))
       (rejected ''provider_sync_cursor_mismatch''
         ''The active provider input cursor is outside canonical room history.''))"

definition validate_identifier :: "rstr \<Rightarrow> string \<Rightarrow> persistence_error + unit" where
  "validate_identifier v code = ensure (is_provider_turn_id v) (rejected code ''Provider turn identity is invalid.'')"

definition public_error_code :: "rstr \<Rightarrow> rstr" where
  "public_error_code v =
     (if v \<in> set (map str [''provider_turn_cancelled'', ''provider_turn_timeout'', ''provider_model_mismatch'',
          ''provider_runtime_exited'', ''provider_runtime_restart_required'', ''room_observation_unconfirmed'',
          ''room_portal_publication_missing'']) then v
      else if v \<in> {str ''provider_protocol_invalid'', str ''provider_protocol_mismatch''}
      then str ''provider_protocol_invalid''
      else str ''provider_turn_failed'')"

definition provider_room_principal ::
  "durable_agent_session \<Rightarrow> participant \<Rightarrow> invite_scope \<Rightarrow> persistence_error + authenticated_principal" where
  "provider_room_principal s p scope =
     (if part_status p \<noteq> Joined \<or> part_muted p \<or> part_type p \<noteq> str ''agent'' \<or>
         part_room_id p \<noteq> as_room_id (das_public s) \<or> part_id p \<noteq> as_participant_id (das_public s)
      then Err (rejected ''stale_provider_turn'' ''Room tool authority no longer matches an active Agent Session participant.'')
      else Ok \<lparr>pr_principal_id = as_session_id (das_public s),
               pr_participant_id = part_id p,
               pr_display_name = part_display_name p,
               pr_room_id = as_room_id (das_public s),
               pr_client_kind = Agent_Bridge,
               pr_invite_scope = scope,
               pr_is_operator = False,
               pr_capabilities = for_principal Agent_Bridge scope False\<rparr>)"

definition lifecycle_intent_is_empty :: "durable_agent_session \<Rightarrow> bool" where
  "lifecycle_intent_is_empty s \<longleftrightarrow>
     lifecycle_action_is_none (das_lifecycle_intent_action s) \<and> das_lifecycle_intent_id s = [] \<and>
     intent_status_is_none (das_lifecycle_intent_status s)"

definition invalid_turn_queue :: persistence_error where
  "invalid_turn_queue = rejected ''stored_turn_authority_invalid''
     ''Stored Agent Session turn authority is inconsistent or oversized.''"

definition merged_turn_queue :: "durable_agent_session \<Rightarrow> 'x turn_db \<Rightarrow> persistence_error + queued_room_input list" where
  "merged_turn_queue s db =
     rbind (ok_or (merge_room_inputs (das_inflight_inputs s @ das_pending_inputs s)) invalid_turn_queue) (\<lambda>merged.
     rbind (traverse (\<lambda>i.
              rbind (load_event (as_room_id (das_public s)) (qi_event_id i) db) (\<lambda>event.
              rbind (ok_or event invalid_turn_queue) (\<lambda>event.
              Ok (if om_get (ev_extra event) (str ''message_deleted'') \<noteq> Some (Bool True) then [i] else [])))) merged) (\<lambda>kept.
     Ok (concat kept)))"

section \<open>Events of a session\<close>

fun turn_phase_str :: "agent_turn_phase \<Rightarrow> rstr" where
  "turn_phase_str Phase_None = []"
| "turn_phase_str Phase_Thinking = str ''thinking''"
| "turn_phase_str Phase_Streaming = str ''streaming''"

fun runtime_status_str :: "agent_runtime_status \<Rightarrow> rstr" where
  "runtime_status_str Runtime_Stopped = str ''stopped''"
| "runtime_status_str Runtime_Starting = str ''starting''"
| "runtime_status_str Runtime_Idle = str ''idle''"
| "runtime_status_str Runtime_Busy = str ''busy''"
| "runtime_status_str Runtime_Paused = str ''paused''"
| "runtime_status_str Runtime_Stopping = str ''stopping''"
| "runtime_status_str Runtime_Disconnected = str ''disconnected''"
| "runtime_status_str Runtime_Recovering = str ''recovering''"
| "runtime_status_str Runtime_Error = str ''error''"

definition internal_event ::
  "'x turn_env \<Rightarrow> durable_agent_session \<Rightarrow> string \<Rightarrow> bool \<Rightarrow> rstr option \<Rightarrow> jmap \<Rightarrow> ('x turn_db, room_event) tx" where
  "internal_event E s event_type actor_is_agent content extra =
     (let participant_id = (if actor_is_agent then as_participant_id (das_public s) else str ''room-system'');
          participant_type = (if actor_is_agent then str ''agent'' else str ''system'') in
      tx_bind (draw_uuid E) (\<lambda>uid.
      tx_bind (tx_read (next_sequence (as_room_id (das_public s)))) (\<lambda>seq.
      tx_bind (draw_now E) (\<lambda>now.
      let event = \<lparr>ev_v = 1, ev_id = uuid_string uid, ev_seq = seq, ev_created_at = now,
            ev_room_id = as_room_id (das_public s), ev_type = str event_type,
            ev_actor = \<lparr>actor_participant_id = participant_id, actor_participant_type = participant_type\<rparr>,
            ev_participant_id = Some (as_participant_id (das_public s)),
            ev_participant_type = Some (str ''agent''),
            ev_actor_id = Some participant_id,
            ev_actor_type = Some participant_type,
            ev_display_name = Some (as_display_name (das_public s)),
            ev_content = content,
            ev_message_kind = (if event_type = ''message_final'' then Some (str ''message'') else None),
            ev_extra = extra\<rparr> in
      tx_bind (insert_event E event) (\<lambda>_. tx_return event)))))"

definition turn_started_event :: "'x turn_env \<Rightarrow> durable_agent_session \<Rightarrow> ('x turn_db, room_event) tx" where
  "turn_started_event E s =
     internal_event E s ''turn_started'' False None (om_from
       [(str ''session_id'', String (as_session_id (das_public s))),
        (str ''turn_id'', String (as_active_turn_id (das_public s))),
        (str ''source_event_id'', String (das_active_source_event_id s)),
        (str ''provider_context_up_to_seq'', json_i64 (das_input_up_to_seq s))])"

definition turn_state_event :: "'x turn_env \<Rightarrow> durable_agent_session \<Rightarrow> ('x turn_db, room_event) tx" where
  "turn_state_event E s =
     internal_event E s ''turn_state'' False None (om_from
       [(str ''session_id'', String (as_session_id (das_public s))),
        (str ''turn_id'', String (as_active_turn_id (das_public s))),
        (str ''phase'', String (turn_phase_str (as_turn_phase (das_public s))))])"

definition project_session_in :: "'x turn_env \<Rightarrow> agent_session \<Rightarrow> 'x turn_db \<Rightarrow> agent_session" where
  "project_session_in E s db =
     s\<lparr>as_external_retained_interrupt :=
         (if as_external_owned s \<and> as_process_ownership s = str ''external''
          then Some (te_retained_interrupt E (as_room_id s) (as_participant_id s) (db_rest db)) else None)\<rparr>"

definition session_state_event :: "'x turn_env \<Rightarrow> durable_agent_session \<Rightarrow> ('x turn_db, room_event) tx" where
  "session_state_event E s =
     tx_bind (draw_now E) (\<lambda>now.
     tx_bind (te_reconcile E (das_public s) now) (\<lambda>_.
     tx_bind (tx_read (\<lambda>db. Ok (project_session_in E (das_public s) db))) (\<lambda>projection.
     internal_event E s ''agent_session_state'' False None (om_from
       [(str ''session_id'', String (as_session_id (das_public s))),
        (str ''runtime_status'', String (runtime_status_str (as_runtime_status (das_public s)))),
        (str ''agent_session'', te_session_json E projection)]))))"

definition agent_final_event ::
  "'x turn_env \<Rightarrow> durable_agent_session \<Rightarrow> rstr \<Rightarrow> rstr \<Rightarrow> rstr \<Rightarrow> rstr \<Rightarrow> rstr \<Rightarrow> ('x turn_db, room_event) tx" where
  "agent_final_event E s turn_id provider_turn_id source_event_id content target_agent_id =
     tx_bind (tx_try (ensure (das_inflight_inputs s \<noteq> [])
        (rejected ''stored_turn_authority_invalid'' ''Active provider turn has no canonical input provenance.''))) (\<lambda>_.
     tx_bind (draw_uuid E) (\<lambda>uid.
     tx_bind (tx_read (next_sequence (as_room_id (das_public s)))) (\<lambda>seq.
     tx_bind (draw_now E) (\<lambda>now.
     let event = \<lparr>ev_v = 1, ev_id = uuid_string uid, ev_seq = seq, ev_created_at = now,
           ev_room_id = as_room_id (das_public s), ev_type = str ''message_final'',
           ev_actor = \<lparr>actor_participant_id = as_participant_id (das_public s), actor_participant_type = str ''agent''\<rparr>,
           ev_participant_id = Some (as_participant_id (das_public s)),
           ev_participant_type = Some (str ''agent''),
           ev_actor_id = Some (as_participant_id (das_public s)),
           ev_actor_type = Some (str ''agent''),
           ev_display_name = Some (as_display_name (das_public s)),
           ev_content = Some content,
           ev_message_kind = Some (str ''message''),
           ev_extra = om_from
             [(str ''session_id'', String (as_session_id (das_public s))),
              (str ''turn_id'', String turn_id),
              (str ''provider_turn_id'', String provider_turn_id),
              (str ''source_event_id'', String source_event_id),
              (str ''target_agent_id'', String target_agent_id),
              (str ''message_source'', String (str ''room_portal''))]\<rparr> in
     tx_bind (insert_event E event) (\<lambda>_. tx_return event)))))"

definition turn_finished_event ::
  "'x turn_env \<Rightarrow> durable_agent_session \<Rightarrow> rstr \<Rightarrow> string \<Rightarrow> rstr option \<Rightarrow> rstr option \<Rightarrow> ('x turn_db, room_event) tx" where
  "turn_finished_event E s turn_id status provider_turn_id reason_code =
     internal_event E s ''turn_finished'' False None (om_from
       ([(str ''session_id'', String (as_session_id (das_public s))),
         (str ''turn_id'', String turn_id),
         (str ''status'', String (str status))]
        @ present ''provider_turn_id'' provider_turn_id
        @ present ''reason_code'' reason_code))"

definition error_event ::
  "'x turn_env \<Rightarrow> durable_agent_session \<Rightarrow> rstr \<Rightarrow> rstr \<Rightarrow> rstr \<Rightarrow> ('x turn_db, room_event) tx" where
  "error_event E s turn_id error_code message =
     internal_event E s ''error'' False (Some message) (om_from
       [(str ''session_id'', String (as_session_id (das_public s))),
        (str ''turn_id'', String turn_id),
        (str ''error_code'', String error_code)])"

section \<open>Executions\<close>

definition invalid_execution :: persistence_error where
  "invalid_execution = rejected ''stored_turn_execution_invalid'' ''Stored provider turn execution authority is invalid.''"

definition stale_execution :: persistence_error where
  "stale_execution = rejected ''stale_provider_turn'' ''Provider turn execution authority changed before this operation.''"

definition generation_i64 :: "64 word \<Rightarrow> persistence_error + int" where
  "generation_i64 g = (if uint g \<le> i64_max then Ok (uint g) else Err invalid_execution)"

text \<open>The insertion checks the keys, the uniqueness constraints, the two unique indexes on blocking
  executions (one per session, one per runtime) and the two foreign keys.\<close>

definition insert_assigned_execution ::
  "'x turn_env \<Rightarrow> durable_agent_session \<Rightarrow> rstr \<Rightarrow> provider_turn_assignment_envelope
     \<Rightarrow> ('x turn_db, provider_turn_execution) tx" where
  "insert_assigned_execution E s turn_id assignment =
     (if das_turn_generation s = 0 \<or> as_active_turn_id (das_public s) \<noteq> turn_id \<or>
         das_runtime_handle_id s = [] \<or> das_runtime_owner_id s = [] \<or> das_runtime_lease_token s = []
      then tx_try (Err invalid_execution)
      else
        tx_bind (draw_uuid E) (\<lambda>uid.
        tx_bind (tx_try (generation_i64 (das_turn_generation s))) (\<lambda>generation.
        let rid = as_room_id (das_public s); sid = as_session_id (das_public s);
            row = \<lparr>pte_execution_id = uuid_string uid,
                   pte_participant_id = as_participant_id (das_public s),
                   pte_turn_id = turn_id,
                   pte_assignment = assignment,
                   pte_phase = Assigned,
                   pte_runtime_handle_id = das_runtime_handle_id s,
                   pte_runtime_owner_id = das_runtime_owner_id s,
                   pte_runtime_lease_token = das_runtime_lease_token s,
                   pte_start_dispatch_nonce = [],
                   pte_provider_turn_id = [],
                   pte_requeue_finalized = False\<rparr> in
        (\<lambda>db. rbind (ensure (om_get (db_executions db) (rid, sid, generation) = None \<and>
                 \<not> list_ex (\<lambda>((r, s', g), old). r = rid \<and> (pte_execution_id old = pte_execution_id row \<or>
                             s' = sid \<and> pte_turn_id old = turn_id)) (db_executions db) \<and>
                 \<not> list_ex (\<lambda>((r, s', g), old). is_blocking (pte_phase old) \<and>
                             (r = rid \<and> s' = sid \<or> pte_runtime_handle_id old = pte_runtime_handle_id row)) (db_executions db) \<and>
                 om_get (db_sessions db) (rid, sid) \<noteq> None \<and>
                 db_participants db (rid, pte_participant_id row) \<noteq> None) Database_Error) (\<lambda>_.
              Ok (row, db\<lparr>db_executions := om_insert (rid, sid, generation) row (db_executions db)\<rparr>))))))"

record provider_turn_authority =
  pta_room_id :: rstr
  pta_session_id :: rstr
  pta_turn_id :: rstr
  pta_turn_generation :: "64 word"
  pta_execution_id :: rstr
  pta_start_dispatch_nonce :: rstr
  pta_runtime_handle_id :: rstr
  pta_runtime_owner_id :: rstr
  pta_runtime_lease_token :: rstr
  pta_provider_turn_id :: rstr
  pta_provider_session_id :: "rstr option"

text \<open>Whether an interrupt that is not finalized exists for an execution.\<close>

definition effect_unsettled :: "'x turn_db \<Rightarrow> rstr \<times> rstr \<times> int \<Rightarrow> bool" where
  "effect_unsettled db key =
     (case om_get (db_effects db) key of None \<Rightarrow> False | Some e \<Rightarrow> pe_phase e \<noteq> Effect_Finalized)"

text \<open>The update names one execution by its key and every column of its authority.\<close>

definition ordinary_execution_matches ::
  "provider_turn_authority \<Rightarrow> provider_turn_execution \<Rightarrow> bool \<Rightarrow> bool" where
  "ordinary_execution_matches a row unsettled \<longleftrightarrow>
     pte_execution_id row = pta_execution_id a \<and> pte_turn_id row = pta_turn_id a \<and>
     pte_phase row \<in> {Start_Dispatching, Running} \<and>
     pte_start_dispatch_nonce row = pta_start_dispatch_nonce a \<and>
     pte_runtime_handle_id row = pta_runtime_handle_id a \<and>
     pte_runtime_owner_id row = pta_runtime_owner_id a \<and>
     pte_runtime_lease_token row = pta_runtime_lease_token a \<and>
     \<not> unsettled"

definition terminalize_ordinary_execution ::
  "durable_agent_session \<Rightarrow> provider_turn_authority \<Rightarrow> provider_turn_execution_phase \<Rightarrow> ('x turn_db, unit) tx" where
  "terminalize_ordinary_execution s a terminal_phase = (\<lambda>db.
     rbind (ensure (terminal_phase \<in> {Completed, Declined, Failed} \<and>
                    as_room_id (das_public s) = pta_room_id a \<and> as_session_id (das_public s) = pta_session_id a \<and>
                    as_active_turn_id (das_public s) = pta_turn_id a \<and>
                    das_turn_generation s = pta_turn_generation a \<and>
                    as_status (das_public s) = Session_Attached \<and> as_enabled (das_public s) \<and>
                    as_runtime_status (das_public s) = Runtime_Busy \<and>
                    as_provider_session_active (das_public s) \<and> lifecycle_intent_is_empty s \<and>
                    das_runtime_handle_id s = pta_runtime_handle_id a \<and>
                    das_runtime_owner_id s = pta_runtime_owner_id a \<and>
                    das_runtime_lease_token s = pta_runtime_lease_token a) stale_execution) (\<lambda>_.
     rbind (load_participant (pta_room_id a) (as_participant_id (das_public s)) db) (\<lambda>p.
     rbind (ensure (part_room_id p = pta_room_id a \<and> part_id p = as_participant_id (das_public s) \<and>
                    part_status p = Joined \<and> part_type p = str ''agent'' \<and> \<not> part_muted p) stale_execution) (\<lambda>_.
     rbind (generation_i64 (pta_turn_generation a)) (\<lambda>generation.
     let key = (pta_room_id a, pta_session_id a, generation) in
     case om_get (db_executions db) key of
       None \<Rightarrow> Err stale_execution
     | Some row \<Rightarrow>
         if ordinary_execution_matches a row (effect_unsettled db key)
         then Ok ((), db\<lparr>db_executions := om_insert key
                (row\<lparr>pte_phase := terminal_phase, pte_provider_turn_id := pta_provider_turn_id a\<rparr>)
                (db_executions db)\<rparr>)
         else Err stale_execution)))))"

end
