(* ===== verification/Turn_Context.thy ===== *)
theory Turn_Context
  imports Turn_Store
begin

text \<open>
  The observation an assignment carries (persistence/room\_turn\_context.rs): the prefix of the
  queue that fits it, the recent messages around it, and the texts rendered for the provider.
\<close>

definition MAX_CONTEXT_MESSAGES :: nat where "MAX_CONTEXT_MESSAGES = 50"
definition MAX_ROOM_OBSERVATION_AGENT_IDS :: nat where "MAX_ROOM_OBSERVATION_AGENT_IDS = 64"
definition MAX_ROOM_VIEW_CHARACTERS :: nat where "MAX_ROOM_VIEW_CHARACTERS = 20000"

record pending_room_event =
  pre_input :: queued_room_input
  pre_event :: room_event

record prepared_room_input =
  pri_provider_input :: rstr
  pri_room_view :: rstr
  pri_attachment_ids :: "rstr list"
  pri_inflight_inputs :: "queued_room_input list"
  pri_source_event_id :: rstr
  pri_input_up_to_seq :: int
  pri_room_agent_ids :: "rstr list"

section \<open>Rendering\<close>

definition context_floor :: "agent_session \<Rightarrow> int" where
  "context_floor s = (if as_runtime_kind s = str ''api'' then as_bootstrap_cutoff_seq s else as_last_provider_sync_seq s)"

definition speaker :: "room_event \<Rightarrow> rstr" where
  "speaker e = unwrap_or (actor_participant_id (ev_actor e)) (ev_display_name e)"

definition attachment_line :: "message_attachment_metadata \<Rightarrow> rstr" where
  "attachment_line a =
     str ''  - Attachment `'' @ mam_id a @ str ''`: '' @ mam_filename a @ str '' ('' @ mam_content_type a @ str ''; '' @
     show_nat (mam_size a) @ str '' bytes)''"

definition event_lines :: "unicode \<Rightarrow> room_event \<Rightarrow> persistence_error + rstr list" where
  "event_lines U e =
     rbind (message_visible_text U e) (\<lambda>event_text.
     rbind (message_attachments_from_event e) (\<lambda>attachments.
     Ok (if \<not> has_visible_text U event_text \<and> attachments = [] then []
         else (str ''#'' @ show_int (ev_seq e) @ str '' '' @ speaker e @ str '': '' @
               (if has_visible_text U event_text then event_text else str ''(attachments only)''))
              # map attachment_line attachments)))"

definition render_room_view ::
  "unicode \<Rightarrow> room \<Rightarrow> durable_agent_session \<Rightarrow> rstr list \<Rightarrow> room_event list \<Rightarrow> persistence_error + rstr" where
  "render_room_view U room s room_agent_ids context =
     (let head = [str ''Room: '' @ room_label room,
                  str ''You are: '' @ as_display_name (das_public s),
                  str ''Agent handles: '' @ (if room_agent_ids = [] then str ''none'' else join (str '', '') room_agent_ids)];
          earlier = (case context of
                       [] \<Rightarrow> []
                     | e # _ \<Rightarrow> if ev_seq e > saturating_add_i64 (context_floor (das_public s)) 1
                                then [str ''[Earlier room updates are outside this bounded observation.]''] else []) in
      rbind (traverse (event_lines U) context) (\<lambda>lines.
      Ok (join [10] (head @ earlier @ concat lines))))"

definition render_recent_messages :: "unicode \<Rightarrow> room_event list \<Rightarrow> persistence_error + rstr" where
  "render_recent_messages U context =
     rbind (traverse (\<lambda>e.
              rbind (message_visible_text U e) (\<lambda>message_text.
              Ok (if has_visible_text U message_text
                  then [str ''- '' @ speaker e @ str '': '' @ message_text] else []))) context) (\<lambda>messages.
     Ok (join [10] (concat messages)))"

definition render_observation_input ::
  "room \<Rightarrow> durable_agent_session \<Rightarrow> string \<Rightarrow> bool \<Rightarrow> rstr \<Rightarrow> rstr" where
  "render_observation_input room s mode tabletop_tools persona_context =
     join [10, 10]
       ([str ''['' @ str mode @ str '' shared-room observation]'',
         str ''Your room identity is '' @ as_display_name (das_public s) @ str '' in '' @ room_label room @ str ''.'',
         str ''Call `read_discussion` before deciding. Then finish with exactly one terminal action exposed by the room transport, choosing the action that fulfills the current room request. Ordinary assistant final text is not a room publication.'']
        @ (if tabletop_tools then [str ''For official game randomness, use the `roll_dice` or `choose_random` room tool; do not invent a result yourself.''] else [])
        @ (if persona_context \<noteq> [] then [str ''[Applied bot card or Risu module]'' @ [10] @ persona_context] else []))"

section \<open>Selection\<close>

definition load_room_agent_ids :: "room \<Rightarrow> durable_agent_session \<Rightarrow> 'x turn_db \<Rightarrow> persistence_error + rstr list" where
  "load_room_agent_ids room s db =
     (let joined = List.map_filter (\<lambda>row.
            if fst (fst row) = room_id room \<and> snd (fst row) \<noteq> as_session_id (das_public s)
            then map_option (\<lambda>p. (snd (fst row), p))
                   (db_participants db (fst (fst row), as_participant_id (das_public (snd row))))
            else None) (db_sessions db);
          rows = take (MAX_ROOM_OBSERVATION_AGENT_IDS + 1) joined in
      rbind (ensure (length rows \<le> MAX_ROOM_OBSERVATION_AGENT_IDS)
               (rejected ''agent_session_capacity'' ''This room exceeds its Agent Session capacity.'')) (\<lambda>_.
      Ok (map fst (filter (\<lambda>(_, p). part_status p \<noteq> Kicked \<and> \<not> part_muted p) rows))))"

text \<open>The loop over the queue with the greatest sequence so far; the two callers differ in the
  message of the error only.\<close>

fun load_pending_loop ::
  "unicode \<Rightarrow> string \<Rightarrow> durable_agent_session \<Rightarrow> 'x turn_db \<Rightarrow> int \<Rightarrow> queued_room_input list
     \<Rightarrow> persistence_error + pending_room_event list" where
  "load_pending_loop U complaint s db previous [] = Ok []"
| "load_pending_loop U complaint s db previous (i # is) =
     rbind (load_event (as_room_id (das_public s)) (qi_event_id i) db) (\<lambda>found.
     rbind (ok_or found (rejected ''room_event_missing'' ''Queued room input is missing.'')) (\<lambda>e.
     rbind (if ev_type e \<noteq> str ''message_final'' \<or> actor_participant_id (ev_actor e) = as_participant_id (das_public s) \<or>
               ev_seq e \<le> previous
            then Ok False else message_has_visible_payload U e) (\<lambda>acceptable.
     rbind (ensure acceptable (rejected ''queued_room_event_invalid'' complaint)) (\<lambda>_.
     rbind (load_pending_loop U complaint s db (ev_seq e) is) (\<lambda>rest.
     Ok (\<lparr>pre_input = i, pre_event = e\<rparr> # rest))))))"

definition load_pending_events ::
  "unicode \<Rightarrow> durable_agent_session \<Rightarrow> queued_room_input list \<Rightarrow> 'x turn_db \<Rightarrow> persistence_error + pending_room_event list" where
  "load_pending_events U s pending db =
     load_pending_loop U ''Queued room input does not match ordered-floor authority.'' s db
       (as_last_provider_sync_seq (das_public s)) pending"

fun bounded_prefix_loop ::
  "unicode \<Rightarrow> room \<Rightarrow> durable_agent_session \<Rightarrow> rstr list \<Rightarrow> room_input_delivery_kind \<Rightarrow> pending_room_event list
     \<Rightarrow> pending_room_event list \<Rightarrow> persistence_error + pending_room_event list" where
  "bounded_prefix_loop U room s ids kind selected [] = Ok selected"
| "bounded_prefix_loop U room s ids kind selected (p # ps) =
     (if qi_delivery_kind (pre_input p) \<noteq> kind then Ok selected
      else
        let longer = selected @ [p] in
        rbind (message_attachment_ids_from_events (map pre_event longer)) (\<lambda>attachment_ids.
        if length attachment_ids > MAX_MESSAGE_ATTACHMENTS_PER_EVENT then Ok selected
        else rbind (render_room_view U room s ids (map pre_event longer)) (\<lambda>view.
        if length view > MAX_ROOM_VIEW_CHARACTERS then Ok selected
        else bounded_prefix_loop U room s ids kind longer ps)))"

definition bounded_pending_prefix ::
  "unicode \<Rightarrow> room \<Rightarrow> durable_agent_session \<Rightarrow> rstr list \<Rightarrow> pending_room_event list
     \<Rightarrow> persistence_error + pending_room_event list" where
  "bounded_pending_prefix U room s ids pending =
     (case pending of
        [] \<Rightarrow> Err (rejected ''queued_room_event_invalid'' ''The room assignment has no provider-visible source message.'')
      | first # _ \<Rightarrow>
          rbind (bounded_prefix_loop U room s ids (qi_delivery_kind (pre_input first)) []
                   (take MAX_CONTEXT_MESSAGES pending)) (\<lambda>selected.
          rbind (ensure (selected \<noteq> [])
                   (rejected ''provider_turn_input_invalid''
                     ''The oldest queued room message cannot fit the canonical observation bound.'')) (\<lambda>_.
          Ok selected)))"

fun context_loop ::
  "unicode \<Rightarrow> room \<Rightarrow> durable_agent_session \<Rightarrow> rstr list \<Rightarrow> (int, room_event) omap \<Rightarrow> room_event list
     \<Rightarrow> persistence_error + (int, room_event) omap" where
  "context_loop U room s ids selected [] = Ok selected"
| "context_loop U room s ids selected (e # es) =
     (if length selected \<ge> MAX_CONTEXT_MESSAGES then Ok selected
      else
        rbind (if as_runtime_kind (das_public s) \<noteq> str ''api'' \<and>
                  actor_participant_id (ev_actor e) = as_participant_id (das_public s)
               then Ok False else message_has_visible_payload U e) (\<lambda>wanted.
        if \<not> wanted then context_loop U room s ids selected es
        else
          let longer = om_insert (ev_seq e) e selected in
          rbind (render_room_view U room s ids (map snd longer)) (\<lambda>view.
          context_loop U room s ids
            (if length view > MAX_ROOM_VIEW_CHARACTERS
             then (case om_get selected (ev_seq e) of
                     Some previous \<Rightarrow> om_insert (ev_seq e) previous longer
                   | None \<Rightarrow> om_remove (ev_seq e) longer)
             else longer) es)))"

definition load_context ::
  "unicode \<Rightarrow> room \<Rightarrow> durable_agent_session \<Rightarrow> int \<Rightarrow> pending_room_event list \<Rightarrow> rstr list \<Rightarrow> 'x turn_db
     \<Rightarrow> persistence_error + room_event list" where
  "load_context U room s up_to_seq mandatory ids db =
     (let rows = take MAX_CONTEXT_MESSAGES (map snd (rev (filter
            (\<lambda>row. fst (fst row) = room_id room \<and> context_floor (das_public s) < snd (fst row) \<and>
                   snd (fst row) \<le> up_to_seq \<and> ev_type (snd row) = str ''message_final'') (db_events db))));
          selected = foldl (\<lambda>m p. om_insert (ev_seq (pre_event p)) (pre_event p) m) [] mandatory in
      rbind (context_loop U room s ids selected rows) (\<lambda>selected.
      rbind (ensure (list_all (\<lambda>p. list_ex (\<lambda>row. ev_id (snd row) = ev_id (pre_event p)) selected) mandatory)
               (rejected ''provider_turn_input_invalid'' ''A queued room message was omitted from the canonical observation.'')) (\<lambda>_.
      Ok (map snd selected))))"

definition prepare_room_input ::
  "'x turn_env \<Rightarrow> room \<Rightarrow> durable_agent_session \<Rightarrow> queued_room_input list \<Rightarrow> bool \<Rightarrow> 'x turn_db
     \<Rightarrow> persistence_error + prepared_room_input" where
  "prepare_room_input E room s pending_inputs tabletop_tools db =
     (let U = te_unicode E in
      rbind (validate_provider_cursor s db) (\<lambda>_.
      rbind (load_room_agent_ids room s db) (\<lambda>room_agent_ids.
      rbind (load_pending_events U s pending_inputs db) (\<lambda>pending.
      rbind (bounded_pending_prefix U room s room_agent_ids pending) (\<lambda>inflight.
      rbind (ensure (inflight \<noteq> [])
               (rejected ''queued_room_event_invalid'' ''The ordered-floor assignment has no provider-visible source message.'')) (\<lambda>_.
      let source = last inflight in
      rbind (load_context U room s (ev_seq (pre_event source)) inflight room_agent_ids db) (\<lambda>context.
      let delivery_kind = qi_delivery_kind (pre_input (hd inflight)) in
      rbind (message_attachment_ids_from_events (map pre_event inflight)) (\<lambda>attachment_ids.
      rbind (render_room_view U room s room_agent_ids context) (\<lambda>room_view.
      rbind (if as_persona_card_id (das_public s) = [] then Ok []
             else rbind (te_persona_card E (as_persona_card_id (das_public s)) (db_rest db)) (\<lambda>render.
                  rbind (render_recent_messages U context) (\<lambda>recent. Ok (render recent)))) (\<lambda>persona_context.
      let provider_input = render_observation_input room s
            (case delivery_kind of Ordered_Observation \<Rightarrow> ''Ordered'' | Ambient_Observation \<Rightarrow> ''Ambient'')
            tabletop_tools persona_context in
      rbind (ensure (is_room_observation_view U room_view \<and> is_provider_input U provider_input)
               (rejected ''provider_turn_input_invalid''
                 ''The canonical room observation exceeds its provider-visible bound.'')) (\<lambda>_.
      Ok \<lparr>pri_provider_input = provider_input,
          pri_room_view = room_view,
          pri_attachment_ids = attachment_ids,
          pri_inflight_inputs = map pre_input inflight,
          pri_source_event_id = ev_id (pre_event source),
          pri_input_up_to_seq = ev_seq (pre_event source),
          pri_room_agent_ids = room_agent_ids\<rparr>)))))))))))"

section \<open>The prefix that fits\<close>

lemma load_event_Some:
  assumes "load_event rid i db = Ok (Some e)"
  shows "ev_id e = i" "ev_room_id e = rid" "((rid, ev_seq e), e) \<in> set (db_events db)"
proof -
  let ?rows = "take 2 (filter (\<lambda>row. fst (fst row) = rid \<and> ev_id (snd row) = i) (db_events db))"
  obtain row where row: "?rows = [row]"
  proof (cases ?rows)
    case (Cons row rest)
    then show ?thesis using assms that by (cases rest) (simp_all add: load_event_def)
  qed (use assms in \<open>simp add: load_event_def\<close>)
  then have e: "ev_room_id (snd row) = rid \<and> ev_id (snd row) = i \<and> ev_seq (snd row) = snd (fst row)" "e = snd row"
    using assms by (auto simp: load_event_def)
  have "row \<in> set (filter (\<lambda>row. fst (fst row) = rid \<and> ev_id (snd row) = i) (db_events db))"
    by (rule in_set_takeD [of _ 2]) (simp add: row)
  then have "row \<in> set (db_events db)" "fst (fst row) = rid" by auto
  moreover have "row = ((fst (fst row), snd (fst row)), snd row)" by simp
  ultimately show "ev_id e = i" "ev_room_id e = rid" "((rid, ev_seq e), e) \<in> set (db_events db)"
    using e by auto
qed

lemma load_pending_loop_facts:
  "load_pending_loop U c s db previous is = Ok ps \<Longrightarrow>
     map pre_input ps = is \<and> sorted_wrt (\<lambda>p q. ev_seq (pre_event p) < ev_seq (pre_event q)) ps \<and>
     (\<forall>p \<in> set ps. load_event (as_room_id (das_public s)) (qi_event_id (pre_input p)) db = Ok (Some (pre_event p)) \<and>
        previous < ev_seq (pre_event p) \<and> ev_type (pre_event p) = str ''message_final'')"
proof (induction "is" arbitrary: previous ps)
  case (Cons i "is")
  then obtain e rest where e: "load_event (as_room_id (das_public s)) (qi_event_id i) db = Ok (Some e)"
    "ev_type e = str ''message_final''" "previous < ev_seq e"
    "load_pending_loop U c s db (ev_seq e) is = Ok rest" "ps = \<lparr>pre_input = i, pre_event = e\<rparr> # rest"
    by (auto split: if_splits)
  from Cons.IH [OF e(4)] e show ?case by fastforce
qed simp

lemma bounded_prefix_loop_facts:
  "bounded_prefix_loop U room s ids kind selected ps = Ok r \<Longrightarrow>
     \<exists>n. r = selected @ take n ps \<and> (\<forall>p \<in> set (take n ps). qi_delivery_kind (pre_input p) = kind) \<and>
       (take n ps \<noteq> [] \<longrightarrow>
         (\<exists>as view. message_attachment_ids_from_events (map pre_event r) = Ok as \<and> length as \<le> 8 \<and>
            render_room_view U room s ids (map pre_event r) = Ok view \<and> length view \<le> 20000))"
proof (induction ps arbitrary: selected)
  case (Cons p ps)
  show ?case
  proof (cases "r = selected")
    case True
    then show ?thesis by (intro exI [of _ 0]) simp
  next
    case False
    with Cons.prems obtain as view where step: "qi_delivery_kind (pre_input p) = kind"
      "message_attachment_ids_from_events (map pre_event (selected @ [p])) = Ok as" "length as \<le> 8"
      "render_room_view U room s ids (map pre_event (selected @ [p])) = Ok view" "length view \<le> 20000"
      "bounded_prefix_loop U room s ids kind (selected @ [p]) ps = Ok r"
      by (auto simp: Let_def MAX_ROOM_VIEW_CHARACTERS_def MAX_MESSAGE_ATTACHMENTS_PER_EVENT_def split: if_splits)
    from Cons.IH [OF step(6)] obtain n where n: "r = (selected @ [p]) @ take n ps"
      "\<forall>p \<in> set (take n ps). qi_delivery_kind (pre_input p) = kind"
      "take n ps \<noteq> [] \<longrightarrow> (\<exists>as view. message_attachment_ids_from_events (map pre_event r) = Ok as \<and> length as \<le> 8 \<and>
            render_room_view U room s ids (map pre_event r) = Ok view \<and> length view \<le> 20000)" by blast
    show ?thesis
    proof (intro exI [of _ "Suc n"] conjI impI)
      show "\<exists>as view. message_attachment_ids_from_events (map pre_event r) = Ok as \<and> length as \<le> 8 \<and>
            render_room_view U room s ids (map pre_event r) = Ok view \<and> length view \<le> 20000"
        using n(1,3) step(2-5) by (cases "take n ps = []") auto
    qed (use n step(1) in auto)
  qed
qed (intro exI [of _ 0], simp)

lemma bounded_pending_prefix_facts:
  assumes "bounded_pending_prefix U room s ids pending = Ok r"
  shows "r \<noteq> [] \<and> length r \<le> 50 \<and> (\<exists>n. r = take n pending) \<and>
    (\<forall>p \<in> set r. qi_delivery_kind (pre_input p) = qi_delivery_kind (pre_input (hd pending))) \<and>
    (\<exists>as. message_attachment_ids_from_events (map pre_event r) = Ok as \<and> length as \<le> 8)"
proof (cases pending)
  case (Cons first ps)
  with assms have r: "bounded_prefix_loop U room s ids (qi_delivery_kind (pre_input first)) []
      (take MAX_CONTEXT_MESSAGES pending) = Ok r" "r \<noteq> []"
    by (auto simp: bounded_pending_prefix_def)
  from bounded_prefix_loop_facts [OF r(1)] obtain n where
    n': "r = [] @ take n (take MAX_CONTEXT_MESSAGES pending)"
      "\<forall>p \<in> set (take n (take MAX_CONTEXT_MESSAGES pending)). qi_delivery_kind (pre_input p) = qi_delivery_kind (pre_input first)"
      "take n (take MAX_CONTEXT_MESSAGES pending) \<noteq> [] \<longrightarrow>
         (\<exists>as view. message_attachment_ids_from_events (map pre_event r) = Ok as \<and> length as \<le> 8 \<and>
            render_room_view U room s ids (map pre_event r) = Ok view \<and> length view \<le> 20000)"
    by (elim exE conjE)
  then have n: "r = take n (take MAX_CONTEXT_MESSAGES pending)"
      "\<forall>p \<in> set r. qi_delivery_kind (pre_input p) = qi_delivery_kind (pre_input first)" by (simp_all only: append_Nil)
  from n'(3) n(1) r(2) have n3: "\<exists>as. message_attachment_ids_from_events (map pre_event r) = Ok as \<and> length as \<le> 8" by metis
  from n(1) have "r = take (min n 50) pending" by (simp only: take_take MAX_CONTEXT_MESSAGES_def)
  then have "\<exists>n. r = take n pending" ..
  moreover from n(1) have "length r \<le> 50" by (simp add: MAX_CONTEXT_MESSAGES_def)
  moreover have "hd pending = first" using Cons by simp
  ultimately show ?thesis using n(2) n3 r(2) by simp
qed (use assms in \<open>simp add: bounded_pending_prefix_def\<close>)

lemma prepare_room_input_facts:
  assumes "prepare_room_input E room s pending tabletop db = Ok p"
  shows "pri_inflight_inputs p \<noteq> [] \<and> length (pri_inflight_inputs p) \<le> 50
    \<and> (\<exists>rest. pending = pri_inflight_inputs p @ rest)
    \<and> (\<forall>i \<in> set (pri_inflight_inputs p). qi_delivery_kind i = qi_delivery_kind (hd pending))
    \<and> length (pri_attachment_ids p) \<le> 8
    \<and> is_room_observation_view (te_unicode E) (pri_room_view p) \<and> is_provider_input (te_unicode E) (pri_provider_input p)
    \<and> pri_source_event_id p = qi_event_id (last (pri_inflight_inputs p))
    \<and> (\<exists>e. load_event (as_room_id (das_public s)) (pri_source_event_id p) db = Ok (Some e)
          \<and> ev_seq e = pri_input_up_to_seq p \<and> as_last_provider_sync_seq (das_public s) < ev_seq e)
    \<and> validate_provider_cursor s db = Ok ()"
proof -
  obtain ids ps inflight as where
    c: "validate_provider_cursor s db = Ok ()" and
    ps: "load_pending_events (te_unicode E) s pending db = Ok ps" and
    inf: "bounded_pending_prefix (te_unicode E) room s ids ps = Ok inflight" and
    as: "message_attachment_ids_from_events (map pre_event inflight) = Ok as" and
    p: "pri_inflight_inputs p = map pre_input inflight" "pri_attachment_ids p = as"
      "pri_source_event_id p = ev_id (pre_event (last inflight))"
      "pri_input_up_to_seq p = ev_seq (pre_event (last inflight))"
      "is_room_observation_view (te_unicode E) (pri_room_view p)" "is_provider_input (te_unicode E) (pri_provider_input p)"
    using assms by (auto simp: prepare_room_input_def Let_def)
  have loop: "map pre_input ps = pending"
    "\<And>q. q \<in> set ps \<Longrightarrow> load_event (as_room_id (das_public s)) (qi_event_id (pre_input q)) db = Ok (Some (pre_event q))"
    "\<And>q. q \<in> set ps \<Longrightarrow> as_last_provider_sync_seq (das_public s) < ev_seq (pre_event q)"
    using load_pending_loop_facts [OF ps [unfolded load_pending_events_def]] by auto
  have facts: "inflight \<noteq> []" "length inflight \<le> 50"
    "\<forall>q \<in> set inflight. qi_delivery_kind (pre_input q) = qi_delivery_kind (pre_input (hd ps))" "length as \<le> 8"
    using bounded_pending_prefix_facts [OF inf] as by auto
  obtain n where n: "inflight = take n ps" using bounded_pending_prefix_facts [OF inf] by auto
  have src: "last inflight \<in> set ps" using facts(1) n by (metis in_set_takeD last_in_set)
  have id: "ev_id (pre_event (last inflight)) = qi_event_id (pre_input (last inflight))"
    using load_event_Some(1) [OF loop(2) [OF src]] .
  have "pending = map pre_input inflight @ map pre_input (drop n ps)"
    using loop(1) n by (metis append_take_drop_id map_append)
  moreover have "hd pending = pre_input (hd ps)" using loop(1) facts(1) n by (cases ps) auto
  moreover have "qi_event_id (last (map pre_input inflight)) = ev_id (pre_event (last inflight))"
    using facts(1) id by (simp add: last_map)
  ultimately show ?thesis
    using facts loop(2,3) [OF src] p c id by auto
qed

text \<open>The observation prepared for an assignment takes a nonempty prefix of the
  queue, at most fifty messages of one delivery kind with at most eight attachments; its
  texts respect the provider's bounds and its cursor is the last of these messages, later in
  the room than anything the provider has seen.\<close>

theorem observation_bounded:
  assumes "prepare_room_input E room s pending tabletop db = Ok p"
  shows "pri_inflight_inputs p \<noteq> [] \<and> length (pri_inflight_inputs p) \<le> 50
    \<and> (\<exists>rest. pending = pri_inflight_inputs p @ rest)
    \<and> (\<forall>i \<in> set (pri_inflight_inputs p). qi_delivery_kind i = qi_delivery_kind (hd pending))
    \<and> length (pri_attachment_ids p) \<le> 8
    \<and> is_room_observation_view (te_unicode E) (pri_room_view p) \<and> is_provider_input (te_unicode E) (pri_provider_input p)
    \<and> pri_source_event_id p = qi_event_id (last (pri_inflight_inputs p))
    \<and> (\<exists>e. load_event (as_room_id (das_public s)) (pri_source_event_id p) db = Ok (Some e)
          \<and> ev_seq e = pri_input_up_to_seq p \<and> as_last_provider_sync_seq (das_public s) < ev_seq e)"
  using prepare_room_input_facts [OF assms] by blast

section \<open>A concrete room\<close>

text \<open>Other modules that do nothing: no provider request is open and no persona is selected.\<close>

definition sample_env :: "unit turn_env" where
  "sample_env =
     \<lparr>te_unicode = ascii_unicode, te_now = (\<lambda>n. 1000 + int n), te_uuid = (\<lambda>n. of_nat (n + 1)),
      te_session_json = (\<lambda>_. Null), te_reconcile = (\<lambda>_ _. tx_return ()),
      te_retained_interrupt = (\<lambda>_ _ _. False), te_attendee_ready = (\<lambda>_ _ _. Ok True),
      te_persona_card = (\<lambda>_ _. Err Persona_Asset_Missing)\<rparr>"

definition sample_room :: room where
  "sample_room = room_new 5 (str ''main'') (str ''Main'') 3"

definition sample_participant :: "string \<Rightarrow> participant" where
  "sample_participant i =
     \<lparr>part_room_id = str ''main'', part_id = str i, part_display_name = str i, part_avatar_image_url = [],
      part_type = str ''agent'', part_status = Joined, part_role = Agent, part_owner_id = [],
      part_muted = False, part_created_at = 3, part_updated_at = 3\<rparr>"

definition sample_agent :: "string \<Rightarrow> string list \<Rightarrow> durable_agent_session" where
  "sample_agent i queue =
     sample_session\<lparr>das_public := (das_public sample_session)\<lparr>as_session_id := str i, as_participant_id := str i, as_display_name := str i\<rparr>,
       das_pending_inputs := map (\<lambda>e. \<lparr>qi_event_id = str e, qi_delivery_kind = Ordered_Observation\<rparr>) queue,
       das_runtime_handle_id := str ''h'', das_runtime_owner_id := str ''o'', das_runtime_lease_token := str ''l''\<rparr>"

definition sample_db :: "unit turn_db" where
  "sample_db =
     \<lparr>db_rooms = [str ''main'' \<mapsto> (sample_room, encode_settings (defaults (str ''Main'')))],
      db_participants = [(str ''main'', str ''agent-1'') \<mapsto> sample_participant ''agent-1'',
                         (str ''main'', str ''agent-2'') \<mapsto> sample_participant ''agent-2''],
      db_sessions = [((str ''main'', str ''agent-1''), sample_agent ''agent-1'' [''e1'', ''e2'']),
                     ((str ''main'', str ''agent-2''), sample_agent ''agent-2'' [''e2''])],
      db_events = [((str ''main'', 1), sample_message ''e1'' 1 ''Hello''),
                   ((str ''main'', 2), sample_message ''e2'' 2 ''and again'')],
      db_search = [], db_executions = [], db_effects = [], db_restart = None, db_draws = 0, db_rest = ()\<rparr>"

theorem observation_bounded_witness:
  "\<exists>p. prepare_room_input sample_env sample_room (sample_agent ''agent-1'' [''e1'', ''e2''])
          (das_pending_inputs (sample_agent ''agent-1'' [''e1'', ''e2''])) False sample_db = Ok p
     \<and> pri_inflight_inputs p \<noteq> [] \<and> length (pri_attachment_ids p) \<le> 8"
proof -
  let ?r = "prepare_room_input sample_env sample_room (sample_agent ''agent-1'' [''e1'', ''e2''])
          (das_pending_inputs (sample_agent ''agent-1'' [''e1'', ''e2''])) False sample_db"
  have "\<not> isl ?r" by code_simp
  then obtain p where "?r = Ok p" by (cases ?r) auto
  from observation_bounded [OF this] this show ?thesis by blast
qed

end
