(* ===== verification/Turn_Scheduler.thy ===== *)
theory Turn_Scheduler
  imports Turn_Context
begin

text \<open>
  The scheduler of a room (persistence/room\_turn\_scheduler.rs): a message is routed into the
  queues of the sessions it is for, and available sessions are assigned the observations
  their queues hold, one at a time where the room keeps an ordered floor.
\<close>

record agent_turn_assignment =
  ata_session :: durable_agent_session
  ata_turn_id :: rstr
  ata_turn_generation :: "64 word"
  ata_execution_id :: rstr
  ata_delivery_kind :: room_input_delivery_kind
  ata_provider_input :: rstr
  ata_room_view :: rstr
  ata_attachment_ids :: "rstr list"
  ata_room_agent_ids :: "rstr list"
  ata_tabletop_tools :: bool

record prepared_assignment =
  pa_assignment :: agent_turn_assignment
  pa_events :: "room_event list"

section \<open>Routing a message\<close>

definition is_routable_message :: "unicode \<Rightarrow> room_event \<Rightarrow> persistence_error + bool" where
  "is_routable_message U e =
     (if ev_type e = str ''message_final'' \<and>
         Option.bind (om_get (ev_extra e) (str ''message_source'')) as_str \<noteq> Some (str ''room_tool_result'') \<and>
         ev_message_kind e \<notin> {Some (str ''vote_cast''), Some (str ''vote_withdraw''), Some (str ''vote_close'')}
      then message_has_visible_payload U e else Ok False)"

definition is_actor :: "durable_agent_session \<Rightarrow> room_event \<Rightarrow> bool" where
  "is_actor s e \<longleftrightarrow>
     as_participant_id (das_public s) = actor_participant_id (ev_actor e) \<or>
     as_session_id (das_public s) = actor_participant_id (ev_actor e)"

definition route_session_is_eligible :: "durable_agent_session \<Rightarrow> participant \<Rightarrow> bool" where
  "route_session_is_eligible s p \<longleftrightarrow>
     part_status p = Joined \<and> \<not> part_muted p \<and> as_enabled (das_public s) \<and>
     as_status (das_public s) = Session_Attached \<and>
     as_runtime_status (das_public s) \<in> {Runtime_Idle, Runtime_Busy} \<and>
     as_provider_session_active (das_public s) \<and>
     lifecycle_action_is_none (das_lifecycle_intent_action s)"

text \<open>The speakers of the last hundred events, latest first: how often each spoke, and the latest.\<close>

definition recent_agent_speaking_state :: "rstr \<Rightarrow> int \<Rightarrow> 'x turn_db \<Rightarrow> (rstr \<Rightarrow> nat) \<times> rstr" where
  "recent_agent_speaking_state rid before_seq db =
     (let rows = take 100 (map snd (rev (filter (\<lambda>row. fst (fst row) = rid \<and> snd (fst row) < before_seq) (db_events db))));
          speakers = map (\<lambda>e. actor_participant_id (ev_actor e))
            (filter (\<lambda>e. ev_type e = str ''message_final'' \<and> actor_participant_type (ev_actor e) = str ''agent'') rows)
      in (count_list speakers, case filter (\<lambda>i. i \<noteq> []) speakers of [] \<Rightarrow> [] | i # _ \<Rightarrow> i))"

text \<open>\<open>Iterator::min_by_key\<close>: the first of the least elements.\<close>

fun min_by_key :: "('a \<Rightarrow> nat) \<Rightarrow> 'a list \<Rightarrow> 'a option" where
  "min_by_key key [] = None"
| "min_by_key key (x # xs) =
     (case min_by_key key xs of None \<Rightarrow> Some x | Some y \<Rightarrow> Some (if key x \<le> key y then x else y))"

definition structured_target ::
  "room_event \<Rightarrow> (durable_agent_session \<times> participant) list \<Rightarrow> rstr option" where
  "structured_target e sessions =
     filter_opt (\<lambda>target. list_ex (\<lambda>(s, _). as_session_id (das_public s) = target \<and> \<not> is_actor s e) sessions)
       (Option.bind (om_get (ev_extra e) (str ''target_agent_id'')) as_str)"

definition floor_candidates ::
  "room_event \<Rightarrow> (durable_agent_session \<times> participant) list \<Rightarrow> 'x turn_db
     \<Rightarrow> persistence_error + (durable_agent_session \<times> participant) list" where
  "floor_candidates e sessions db =
     (let candidates = filter (\<lambda>(s, p). \<not> is_actor s e \<and> route_session_is_eligible s p) sessions in
      if actor_participant_type (ev_actor e) = str ''agent''
      then rbind (load_participant (ev_room_id e) (actor_participant_id (ev_actor e)) db) (\<lambda>actor.
           let directors = filter (\<lambda>(_, p). part_role p = Director) candidates in
           Ok (if part_role actor \<noteq> Director \<and> directors \<noteq> [] then directors else candidates))
      else Ok candidates)"

text \<open>The draw among the candidates: two at random, of them the one who spoke less.\<close>

definition floor_pick :: "'x turn_env \<Rightarrow> room_settings \<Rightarrow> room_event \<Rightarrow> (durable_agent_session \<times> participant) list
    \<Rightarrow> ('x turn_db, (rstr \<times> room_input_delivery_kind) list) tx" where
  "floor_pick E settings e candidates =
     tx_bind (tx_read (\<lambda>db. Ok (recent_agent_speaking_state (ev_room_id e) (ev_seq e) db))) (\<lambda>(counts, previous).
            let candidates = (if rs_ordered_exclude_previous_speaker settings \<and> length candidates > 1
                              then filter (\<lambda>(s, _). as_session_id (das_public s) \<noteq> previous) candidates else candidates);
                candidates = sort_key (\<lambda>(s, _). as_session_id (das_public s)) candidates in
            tx_bind (if length candidates \<le> 2 then tx_return 0 else tx_bind (draw_uuid E) (\<lambda>u. tx_return (unat u))) (\<lambda>seed.
            let picked = map (\<lambda>i. fst (candidates ! i)) (sampled_candidate_indexes seed (length candidates)) in
            tx_bind (tx_try (ok_or (min_by_key (\<lambda>s. counts (as_session_id (das_public s))) picked)
                       (rejected ''ordered_floor_empty'' ''No ordered floor target remained.''))) (\<lambda>s.
            tx_return [(as_session_id (das_public s), Ordered_Observation)])))"

definition ordered_targets ::
  "'x turn_env \<Rightarrow> room_settings \<Rightarrow> room_event \<Rightarrow> (durable_agent_session \<times> participant) list
     \<Rightarrow> ('x turn_db, (rstr \<times> room_input_delivery_kind) list) tx" where
  "ordered_targets E settings e sessions =
     (let content = unwrap_or [] (ev_content e);
          direct = or_else (last_direct_target (te_unicode E) content
                              (map fst (filter (\<lambda>(s, _). \<not> is_actor s e) sessions)))
                     (structured_target e sessions) in
      case direct of
        Some direct \<Rightarrow>
          tx_bind (tx_try (ok_or (List.find (\<lambda>(s, _). as_session_id (das_public s) = direct) sessions)
                     (rejected ''ordered_floor_empty'' ''The direct floor target is missing.''))) (\<lambda>found.
          let p = snd found in
          tx_return (if part_status p = Kicked \<or> part_muted p then [] else [(direct, Ordered_Observation)]))
      | None \<Rightarrow>
          tx_bind (tx_read (floor_candidates e sessions)) (\<lambda>candidates.
          if candidates = [] then tx_return []
          else floor_pick E settings e candidates))"

definition ambient_targets ::
  "room_event \<Rightarrow> (durable_agent_session \<times> participant) list \<Rightarrow> (rstr \<times> room_input_delivery_kind) list" where
  "ambient_targets e sessions =
     map (\<lambda>(s, _). (as_session_id (das_public s), Ambient_Observation))
       (filter (\<lambda>(s, p). \<not> is_actor s e \<and> route_session_is_eligible s p) sessions)"

definition queue_input ::
  "'x turn_env \<Rightarrow> room_event \<Rightarrow> rstr \<times> room_input_delivery_kind \<Rightarrow> ('x turn_db, unit) tx" where
  "queue_input E e target =
     tx_bind (tx_read (load_session (ev_room_id e) (fst target))) (\<lambda>s.
     if list_ex (\<lambda>i. qi_event_id i = ev_id e) (das_pending_inputs s @ das_inflight_inputs s) then tx_return ()
     else if length (das_pending_inputs s) + length (das_inflight_inputs s) \<ge> MAX_QUEUED_EVENT_IDS
     then tx_try (Err (if snd target = Ordered_Observation
            then rejected ''ordered_floor_queue_full'' ''The selected Agent Session ordered-floor queue is full.''
            else rejected ''room_turn_queue_full'' ''The selected Agent Session room-input queue is full.''))
     else tx_bind (draw_now E) (\<lambda>now.
       save_session (s\<lparr>das_pending_inputs := das_pending_inputs s @ [\<lparr>qi_event_id = ev_id e, qi_delivery_kind = snd target\<rparr>],
                       das_public := (das_public s)\<lparr>as_updated_at := now\<rparr>\<rparr>)))"

definition route_sessions ::
  "room_event \<Rightarrow> 'x turn_db \<Rightarrow> persistence_error + (durable_agent_session \<times> participant) list" where
  "route_sessions e db =
     rbind (load_room_sessions (ev_room_id e) db) (\<lambda>sessions.
     traverse (\<lambda>s.
       rbind (turn_authority_is_active s) (\<lambda>_.
       rbind (validate_provider_cursor s db) (\<lambda>_.
       rbind (load_participant (ev_room_id e) (as_participant_id (das_public s)) db) (\<lambda>p.
       Ok (s, p))))) sessions)"

definition route_message :: "'x turn_env \<Rightarrow> room_settings \<Rightarrow> room_event \<Rightarrow> ('x turn_db, unit) tx" where
  "route_message E settings e =
     tx_bind (tx_try (is_routable_message (te_unicode E) e)) (\<lambda>routable.
     if \<not> routable then tx_return ()
     else
       tx_bind (tx_read (route_sessions e)) (\<lambda>sessions.
       tx_bind (if rs_conversation_mode settings = str ''ordered'' then ordered_targets E settings e sessions
                else if rs_conversation_mode settings = str ''ambient'' then tx_return (ambient_targets e sessions)
                else tx_try (Err (rejected ''stored_room_settings_invalid'' ''Stored room conversation mode is invalid.''))) (\<lambda>targets.
       tx_each (queue_input E e) targets)))"

definition remove_pending_input_reference :: "rstr \<Rightarrow> rstr \<Rightarrow> ('x turn_db, unit) tx" where
  "remove_pending_input_reference rid event_id =
     tx_bind (tx_read (load_room_sessions rid)) (\<lambda>sessions.
     tx_each (\<lambda>s.
       let kept = filter (\<lambda>i. qi_event_id i \<noteq> event_id) (das_pending_inputs s) in
       if length kept = length (das_pending_inputs s) then tx_return ()
       else save_session (s\<lparr>das_pending_inputs := kept\<rparr>)) sessions)"

section \<open>Assigning turns\<close>

definition is_available :: "'x turn_env \<Rightarrow> durable_agent_session \<Rightarrow> ('x turn_db, bool) tx" where
  "is_available E s =
     (if \<not> as_external_owned (das_public s) then tx_return True
      else tx_bind (draw_now E) (\<lambda>now. tx_read (te_attendee_ready E s now)))"

fun valid_pending_loop ::
  "unicode \<Rightarrow> durable_agent_session \<Rightarrow> 'x turn_db \<Rightarrow> rstr list \<Rightarrow> int \<Rightarrow> queued_room_input list
     \<Rightarrow> persistence_error + queued_room_input list" where
  "valid_pending_loop U s db seen previous [] = Ok []"
| "valid_pending_loop U s db seen previous (i # is) =
     rbind (ensure (\<not> (qi_event_id i = [] \<or> qi_event_id i \<in> set seen))
              (rejected ''stored_turn_authority_invalid'' ''Stored Agent Session turn queue authority is inconsistent.'')) (\<lambda>_.
     rbind (load_event (as_room_id (das_public s)) (qi_event_id i) db) (\<lambda>found.
     rbind (ok_or found (rejected ''room_event_missing'' ''Queued room input is missing.'')) (\<lambda>e.
     rbind (if ev_type e \<noteq> str ''message_final'' \<or> actor_participant_id (ev_actor e) = as_participant_id (das_public s) \<or>
               ev_seq e \<le> previous
            then Ok False else message_has_visible_payload U e) (\<lambda>acceptable.
     rbind (ensure acceptable (rejected ''queued_room_event_invalid''
              ''Queued room input does not match canonical room turn authority.'')) (\<lambda>_.
     rbind (valid_pending_loop U s db (qi_event_id i # seen) (ev_seq e) is) (\<lambda>rest.
     Ok (i # rest)))))))"

definition valid_pending_inputs ::
  "unicode \<Rightarrow> durable_agent_session \<Rightarrow> 'x turn_db \<Rightarrow> persistence_error + queued_room_input list" where
  "valid_pending_inputs U s db =
     valid_pending_loop U s db [] (as_last_provider_sync_seq (das_public s)) (das_pending_inputs s)"

definition event_sequence :: "rstr \<Rightarrow> rstr \<Rightarrow> 'x turn_db \<Rightarrow> persistence_error + int" where
  "event_sequence rid event_id db =
     rbind (load_event rid event_id db) (\<lambda>found.
     rbind (ok_or found (rejected ''room_event_missing'' ''Queued room input is missing.'')) (\<lambda>e.
     Ok (ev_seq e)))"

definition prepare_assignment ::
  "'x turn_env \<Rightarrow> room \<Rightarrow> room_settings \<Rightarrow> durable_agent_session \<Rightarrow> ('x turn_db, prepared_assignment) tx" where
  "prepare_assignment E room settings s =
     (let tabletop = rs_tool_mode settings = str ''tabletop'' in
      tx_bind (tx_read (prepare_room_input E room s (das_pending_inputs s) tabletop)) (\<lambda>p.
      let delivery_kind = qi_delivery_kind (hd (pri_inflight_inputs p)) in
      tx_bind (draw_uuid E) (\<lambda>uid.
      let turn_id = str ''turn-'' @ take 12 (uuid_simple uid) in
      tx_bind (draw_now E) (\<lambda>now.
      tx_bind (tx_try (assign_session_state now turn_id (pri_inflight_inputs p) (pri_source_event_id p)
                         (pri_input_up_to_seq p) s)) (\<lambda>s.
      tx_bind (save_session s) (\<lambda>_.
      let envelope = \<lparr>env_delivery_kind = delivery_kind, env_provider_input = pri_provider_input p,
            env_room_view = pri_room_view p, env_attachment_ids = pri_attachment_ids p,
            env_room_agent_ids = pri_room_agent_ids p, env_tabletop_tools = tabletop\<rparr> in
      tx_bind (insert_assigned_execution E s turn_id envelope) (\<lambda>execution.
      tx_bind (turn_started_event E s) (\<lambda>started.
      tx_bind (turn_state_event E s) (\<lambda>state.
      tx_bind (session_state_event E s) (\<lambda>session_event.
      tx_return
        \<lparr>pa_assignment =
           \<lparr>ata_session = s, ata_turn_id = turn_id, ata_turn_generation = das_turn_generation s,
            ata_execution_id = pte_execution_id execution, ata_delivery_kind = delivery_kind,
            ata_provider_input = pri_provider_input p, ata_room_view = pri_room_view p,
            ata_attachment_ids = pri_attachment_ids p, ata_room_agent_ids = pri_room_agent_ids p,
            ata_tabletop_tools = tabletop\<rparr>,
         pa_events = [started, state, session_event]\<rparr>))))))))))"

text \<open>What the survey of one session finds: whether its turn is active, and what it waits for.\<close>

datatype survey = Not_Assignable | Empty_Schedule_Request durable_agent_session | Candidate int durable_agent_session

definition survey_session ::
  "'x turn_env \<Rightarrow> room \<Rightarrow> durable_agent_session \<Rightarrow> ('x turn_db, bool \<times> survey) tx" where
  "survey_session E room s =
     tx_bind (tx_try (turn_authority_is_active s)) (\<lambda>active.
     tx_bind (if session_is_assignable s then is_available E s else tx_return False) (\<lambda>available.
     if \<not> available then tx_return (active, Not_Assignable)
     else
       tx_bind (tx_read (load_participant (room_id room) (as_participant_id (das_public s)))) (\<lambda>p.
       if part_status p \<noteq> Joined \<or> part_muted p then tx_return (active, Not_Assignable)
       else
         tx_bind (tx_read (valid_pending_inputs (te_unicode E) s)) (\<lambda>valid.
         case valid of
           [] \<Rightarrow> tx_return (active, if das_schedule_requested s then Empty_Schedule_Request s else Not_Assignable)
         | first # _ \<Rightarrow>
             tx_bind (tx_read (event_sequence (room_id room) (qi_event_id first))) (\<lambda>sequence.
             tx_return (active, Candidate sequence s))))))"

definition candidates_of :: "(bool \<times> survey) list \<Rightarrow> (int \<times> durable_agent_session) list" where
  "candidates_of found = List.map_filter (\<lambda>(_, v). case v of Candidate n s \<Rightarrow> Some (n, s) | _ \<Rightarrow> None) found"

definition empty_requests_of :: "(bool \<times> survey) list \<Rightarrow> durable_agent_session list" where
  "empty_requests_of found = List.map_filter (\<lambda>(_, v). case v of Empty_Schedule_Request s \<Rightarrow> Some s | _ \<Rightarrow> None) found"

definition clear_schedule_request :: "'x turn_env \<Rightarrow> durable_agent_session \<Rightarrow> ('x turn_db, unit) tx" where
  "clear_schedule_request E s =
     tx_bind (draw_now E) (\<lambda>now.
     save_session (s\<lparr>das_schedule_requested := False, das_public := (das_public s)\<lparr>as_updated_at := now\<rparr>\<rparr>))"

definition assign_available_pending ::
  "'x turn_env \<Rightarrow> room \<Rightarrow> room_settings \<Rightarrow> ('x turn_db, prepared_assignment list) tx" where
  "assign_available_pending E room settings =
     tx_bind (tx_read (\<lambda>db. Ok (restart_quiescing db))) (\<lambda>quiescing.
     if quiescing then tx_return []
     else
       tx_bind (tx_read (load_room_sessions (room_id room))) (\<lambda>sessions.
       tx_bind (tx_map (survey_session E room) sessions) (\<lambda>found.
       let ordered = rs_conversation_mode settings = str ''ordered'' in
       if ordered \<and> list_ex fst found then tx_return []
       else
         tx_bind (tx_each (clear_schedule_request E) (empty_requests_of found)) (\<lambda>_.
         let candidates = sort_key (\<lambda>(n, s). (n, as_session_id (das_public s))) (candidates_of found);
             candidates = (if ordered then take 1 candidates else candidates) in
         tx_map (\<lambda>(_, s). prepare_assignment E room settings s) candidates))))"

section \<open>What the tables keep\<close>

definition key_of :: "durable_agent_session \<Rightarrow> rstr \<times> rstr" where
  "key_of s = (as_room_id (das_public s), as_session_id (das_public s))"

text \<open>Every session row stands under its own key, and sequences are positive.\<close>

definition turn_db_ok :: "'x turn_db \<Rightarrow> bool" where
  "turn_db_ok db \<longleftrightarrow>
     om_wf (db_sessions db) \<and> (\<forall>row \<in> set (db_sessions db). fst row = key_of (snd row)) \<and>
     (\<forall>row \<in> set (db_events db). 0 < snd (fst row))"

text \<open>Closing provider requests appends events and leaves the rooms, the sessions and the executions alone.\<close>

definition reconcile_frame :: "'x turn_env \<Rightarrow> bool" where
  "reconcile_frame E \<longleftrightarrow>
     (\<forall>s now db r. te_reconcile E s now db = Ok r \<longrightarrow>
        db_sessions (snd r) = db_sessions db \<and> db_rooms (snd r) = db_rooms db \<and>
        db_executions (snd r) = db_executions db \<and> db_effects (snd r) = db_effects db \<and> (turn_db_ok db \<longrightarrow> turn_db_ok (snd r)))"

definition inputs_of :: "'x turn_db \<Rightarrow> rstr \<times> rstr \<Rightarrow> queued_room_input list option" where
  "inputs_of db k = map_option session_inputs (om_get (db_sessions db) k)"

definition active_sessions :: "'x turn_db \<Rightarrow> (rstr \<times> rstr) set" where
  "active_sessions db = {k. \<exists>s. om_get (db_sessions db) k = Some s \<and> active_turn_authority s = Some True}"

lemma save_session_Ok:
  "save_session s db = Ok r \<longleftrightarrow>
     om_get (db_sessions db) (key_of s) \<noteq> None \<and> r = ((), db\<lparr>db_sessions := om_insert (key_of s) s (db_sessions db)\<rparr>)"
  by (auto simp: save_session_def key_of_def Let_def)

lemma keeps_draws [keeps_intros]: "keeps db_sessions (draw_now E)" "keeps db_sessions (draw_uuid E)"
  by (auto simp: keeps_def draw_now_def draw_uuid_def)

lemma keeps_insert_event [keeps_intros]: "keeps db_sessions (insert_event E e)"
  by (auto simp: keeps_def insert_event_def)

lemma keeps_internal_event [keeps_intros]: "keeps db_sessions (internal_event E s ty a c x)"
  unfolding internal_event_def Let_def by (intro keeps_intros)

lemma keeps_session_state_event [keeps_intros]:
  assumes "reconcile_frame E"
  shows "keeps db_sessions (session_state_event E s)"
proof -
  have "keeps db_sessions (te_reconcile E (das_public s) now)" for now
    using assms by (auto simp: reconcile_frame_def keeps_def)
  then show ?thesis unfolding session_state_event_def by (intro keeps_intros)
qed

lemma keeps_turn_events [keeps_intros]:
  "keeps db_sessions (turn_started_event E s)" "keeps db_sessions (turn_state_event E s)"
  unfolding turn_started_event_def turn_state_event_def by (intro keeps_intros)+

lemma keeps_insert_execution [keeps_intros]: "keeps db_sessions (insert_assigned_execution E s turn_id a)"
proof -
  have "keeps db_sessions (\<lambda>db. rbind (ensure (c db) Database_Error) (\<lambda>_. Ok (row, db\<lparr>db_executions := f db\<rparr>)))" for c row f
    by (auto simp: keeps_def)
  then show ?thesis unfolding insert_assigned_execution_def Let_def by (intro keeps_intros)
qed

text \<open>The same for the consistency of the tables.\<close>

abbreviation tx_ok :: "('x turn_db, 'a) tx \<Rightarrow> bool" where
  "tx_ok \<equiv> preserves turn_db_ok"

lemmas tx_okD = preservesD [of turn_db_ok]
lemmas tx_ok_each = preserves_each [of turn_db_ok]
lemmas tx_ok_map = preserves_map [of turn_db_ok]

lemma tx_ok_draws [ok_intros]: "tx_ok (draw_now E)" "tx_ok (draw_uuid E)"
  by (auto simp: preserves_def draw_now_def draw_uuid_def turn_db_ok_def)

lemma tx_ok_save [ok_intros]: "tx_ok (save_session s)"
  by (auto simp: preserves_def save_session_Ok turn_db_ok_def om_wf_insert dest!: set_om_insert)

lemma tx_ok_insert_event [ok_intros]: "tx_ok (insert_event E e)"
  by (auto simp: preserves_def insert_event_def turn_db_ok_def dest!: set_om_insert)

lemma tx_ok_internal_event [ok_intros]: "tx_ok (internal_event E s ty a c x)"
  unfolding internal_event_def Let_def by (intro ok_intros)

lemma tx_ok_reconcile [ok_intros]: "reconcile_frame E \<Longrightarrow> tx_ok (te_reconcile E s now)"
  by (auto simp: reconcile_frame_def preserves_def)

lemma tx_ok_events [ok_intros]:
  "tx_ok (turn_started_event E s)" "tx_ok (turn_state_event E s)" "reconcile_frame E \<Longrightarrow> tx_ok (session_state_event E s)"
  unfolding turn_started_event_def turn_state_event_def session_state_event_def by (intro ok_intros | assumption)+

lemma tx_ok_insert_execution [ok_intros]: "tx_ok (insert_assigned_execution E s turn_id a)"
proof -
  have "tx_ok (\<lambda>db. rbind (ensure (c db) Database_Error) (\<lambda>_. Ok (row, db\<lparr>db_executions := f db\<rparr>)))" for c row f
    by (auto simp: preserves_def turn_db_ok_def)
  then show ?thesis unfolding insert_assigned_execution_def Let_def by (intro ok_intros)
qed

lemma tx_ok_prepare [ok_intros]: "reconcile_frame E \<Longrightarrow> tx_ok (prepare_assignment E room settings s)"
  unfolding prepare_assignment_def Let_def by (intro ok_intros | assumption)+

lemma tx_ok_clear [ok_intros]: "tx_ok (clear_schedule_request E s)"
  unfolding clear_schedule_request_def by (intro ok_intros)

section \<open>Assigning keeps every input\<close>

lemma assign_facts:
  assumes "session_is_assignable s" "active_turn_authority s = Some b"
    and "inflight \<noteq> []" "das_pending_inputs s = inflight @ rest"
    and "source = qi_event_id (last inflight)" "0 < up_to" "turn_id \<noteq> []"
    and "assign_session_state now turn_id inflight source up_to s = Ok t"
  shows "active_turn_authority t = Some True" "session_inputs t = session_inputs s" "key_of t = key_of s" "\<not> b"
proof -
  have t: "session_inputs t = session_inputs s"
    using assms by (auto simp: assign_session_state_def session_inputs_def session_is_assignable_def)
  moreover have "turn_is_active t" using assms by (auto simp: assign_session_state_def turn_is_active_def)
  ultimately show "active_turn_authority t = Some True" "session_inputs t = session_inputs s"
    using assms(2) by (simp_all add: active_turn_authority_iff)
  show "key_of t = key_of s" using assms(8) by (auto simp: assign_session_state_def key_of_def)
  show "\<not> b"
    using assms(1,2) by (cases b) (auto simp: active_turn_authority_iff turn_is_active_def session_is_assignable_def)
qed

lemma cursor_nonnegative:
  assumes "turn_db_ok db" "validate_provider_cursor s db = Ok ()"
  shows "0 \<le> as_last_provider_sync_seq (das_public s)"
proof (cases "as_last_provider_sync_seq (das_public s) = 0")
  case False
  with assms(2) obtain e where "load_event (as_room_id (das_public s)) (as_last_provider_sync_event_id (das_public s)) db = Ok (Some e)"
    "ev_seq e = as_last_provider_sync_seq (das_public s)"
    by (auto simp: validate_provider_cursor_def provider_cursor_is_valid_def split: option.splits)
  with load_event_Some(3) [OF this(1)] assms(1) show ?thesis by (fastforce simp: turn_db_ok_def)
qed simp

text \<open>The rows a preparation changes: the candidate's own.\<close>

lemma prepare_assignment_sessions:
  assumes "reconcile_frame E" "turn_db_ok db" "prepare_assignment E room settings s db = Ok (pa, db')"
    and "session_is_assignable s" "active_turn_authority s = Some b"
  obtains s' where "db_sessions db' = om_insert (key_of s) s' (db_sessions db)"
    "ata_session (pa_assignment pa) = s'" "active_turn_authority s' = Some True"
    "session_inputs s' = session_inputs s" "key_of s' = key_of s" "\<not> b"
proof -
  let ?tid = "\<lambda>uid. str ''turn-'' @ take 12 (uuid_simple uid)"
  obtain p uid now s' db1 db2 db3 env x db4 e1 db5 e2 db6 e3 where
    p: "prepare_room_input E room s (das_pending_inputs s) (rs_tool_mode settings = str ''tabletop'') db = Ok p" and
    d: "draw_uuid E db = Ok (uid, db1)" "draw_now E db1 = Ok (now, db2)" and
    s': "assign_session_state now (?tid uid) (pri_inflight_inputs p) (pri_source_event_id p) (pri_input_up_to_seq p) s = Ok s'" and
    sv: "save_session s' db2 = Ok ((), db3)" and
    tail: "insert_assigned_execution E s' (?tid uid) env db3 = Ok (x, db4)"
      "turn_started_event E s' db4 = Ok (e1, db5)" "turn_state_event E s' db5 = Ok (e2, db6)"
      "session_state_event E s' db6 = Ok (e3, db')" and
    pa: "ata_session (pa_assignment pa) = s'"
    using assms(3) by (auto simp: prepare_assignment_def Let_def)
  have tl: "db_sessions db' = db_sessions db3"
    using keepsD [OF keeps_insert_execution tail(1)] keepsD [OF keeps_turn_events(1) tail(2)]
      keepsD [OF keeps_turn_events(2) tail(3)] keepsD [OF keeps_session_state_event [OF assms(1)] tail(4)] by simp
  have f: "pri_inflight_inputs p \<noteq> []" "pri_source_event_id p = qi_event_id (last (pri_inflight_inputs p))"
    "validate_provider_cursor s db = Ok ()" "as_last_provider_sync_seq (das_public s) < pri_input_up_to_seq p"
    using prepare_room_input_facts [OF p] by auto
  obtain rest where rest: "das_pending_inputs s = pri_inflight_inputs p @ rest"
    using prepare_room_input_facts [OF p] by blast
  have "0 < pri_input_up_to_seq p" using cursor_nonnegative [OF assms(2) f(3)] f(4) by simp
  note a = assign_facts [OF assms(4,5) f(1) rest f(2) this _ s']
  have ne: "str ''turn-'' @ take 12 (uuid_simple uid) \<noteq> []" by (simp add: str_def)
  have "db_sessions db2 = db_sessions db"
    using keepsD [OF keeps_draws(2) d(1)] keepsD [OF keeps_draws(1) d(2)] by simp
  with sv have "db_sessions db3 = om_insert (key_of s) s' (db_sessions db)"
    using a(3) [OF ne] by (auto simp: save_session_Ok)
  with that a ne pa tl show thesis by simp
qed

lemma inputs_of_insert:
  "inputs_of db (key_of s) = Some (session_inputs s') \<Longrightarrow> db_sessions db' = om_insert (key_of s) s' (db_sessions db) \<Longrightarrow>
     inputs_of db' = inputs_of db"
  by (auto simp: inputs_of_def fun_eq_iff)

lemma active_sessions_insert:
  "db_sessions db' = om_insert k s (db_sessions db) \<Longrightarrow>
     active_sessions db' = (if active_turn_authority s = Some True then insert k (active_sessions db) else active_sessions db - {k})"
  by (auto simp: active_sessions_def split: if_splits)

lemma prepare_candidates:
  assumes "reconcile_frame E"
  shows "tx_map (\<lambda>(_, s). prepare_assignment E room settings s) cs db = Ok (ps, db') \<Longrightarrow> turn_db_ok db \<Longrightarrow>
     (\<And>n s. (n, s) \<in> set cs \<Longrightarrow> session_is_assignable s \<and> active_turn_authority s \<noteq> None \<and>
        inputs_of db (key_of s) = Some (session_inputs s)) \<Longrightarrow>
     inputs_of db' = inputs_of db \<and>
     active_sessions db' = active_sessions db \<union> key_of ` snd ` set cs \<and>
     map (\<lambda>p. key_of (ata_session (pa_assignment p))) ps = map (key_of \<circ> snd) cs"
proof (induction cs arbitrary: db ps)
  case Nil
  then show ?case by simp
next
  case (Cons c cs)
  obtain n s where c: "c = (n, s)" by (cases c)
  from Cons.prems(1) c obtain pa db1 ps' where
    step: "prepare_assignment E room settings s db = Ok (pa, db1)" and
    rest: "tx_map (\<lambda>(_, s). prepare_assignment E room settings s) cs db1 = Ok (ps', db')" and ps: "ps = pa # ps'"
    by auto
  from Cons.prems(3) c obtain b where s: "session_is_assignable s" "active_turn_authority s = Some b"
    "inputs_of db (key_of s) = Some (session_inputs s)" by fastforce
  from prepare_assignment_sessions [OF assms Cons.prems(2) step s(1,2)] obtain s' where
    s': "db_sessions db1 = om_insert (key_of s) s' (db_sessions db)" "ata_session (pa_assignment pa) = s'"
    "active_turn_authority s' = Some True" "session_inputs s' = session_inputs s" "key_of s' = key_of s" by metis
  have in1: "inputs_of db1 = inputs_of db" using inputs_of_insert [OF _ s'(1)] s(3) s'(4) by simp
  have ac1: "active_sessions db1 = insert (key_of s) (active_sessions db)" using active_sessions_insert [OF s'(1)] s'(3) by simp
  have ok1: "turn_db_ok db1" using tx_okD [OF tx_ok_prepare [OF assms] step Cons.prems(2)] .
  have "inputs_of db' = inputs_of db1 \<and> active_sessions db' = active_sessions db1 \<union> key_of ` snd ` set cs \<and>
     map (\<lambda>p. key_of (ata_session (pa_assignment p))) ps' = map (key_of \<circ> snd) cs"
    by (rule Cons.IH [OF rest ok1]) (use Cons.prems(3) in1 in auto)
  then show ?case using in1 ac1 ps c s'(2,5) by auto
qed

lemma load_room_sessions_rows:
  assumes "turn_db_ok db" "load_room_sessions rid db = Ok ss"
  shows "s \<in> set ss \<longleftrightarrow> om_get (db_sessions db) (key_of s) = Some s \<and> as_room_id (das_public s) = rid"
proof -
  let ?rows = "filter (\<lambda>row. fst (fst row) = rid) (db_sessions db)"
  have n: "length (take 65 ?rows) \<le> 64" and tr: "traverse (\<lambda>row. decode_session (snd row)) (take 65 ?rows) = Ok ss"
    using assms(2) by (auto simp: load_room_sessions_def Let_def)
  then have "take 65 ?rows = ?rows" by simp
  with tr have "list_all2 (\<lambda>row s. decode_session (snd row) = Ok s) ?rows ss" by (simp add: traverse_Ok_iff)
  then have "map snd ?rows = ss"
    by (rule list_all2_induct) (auto simp: decode_session_def split: if_splits)
  then have "s \<in> set ss \<longleftrightarrow> (\<exists>i. ((rid, i), s) \<in> set (db_sessions db))" by force
  also have "\<dots> \<longleftrightarrow> (\<exists>i. om_get (db_sessions db) (rid, i) = Some s)"
    using assms(1) by (simp add: turn_db_ok_def om_wf_get_set)
  also have "\<dots> \<longleftrightarrow> om_get (db_sessions db) (key_of s) = Some s \<and> as_room_id (das_public s) = rid"
    using assms(1) om_get_in_set [of "db_sessions db"] by (fastforce simp: turn_db_ok_def key_of_def)
  finally show ?thesis .
qed

lemma is_available_keeps [keeps_intros]: "keeps db_sessions (is_available E s)"
  unfolding is_available_def by (intro keeps_intros)

lemma is_available_ok [ok_intros]: "tx_ok (is_available E s)"
  unfolding is_available_def by (intro ok_intros)

lemma survey_session_keeps [keeps_intros]: "keeps db_sessions (survey_session E room s)"
  unfolding survey_session_def
  by (intro keeps_intros) (auto split: list.splits intro!: keeps_intros)

lemma survey_session_ok [ok_intros]: "tx_ok (survey_session E room s)"
  unfolding survey_session_def
  by (intro ok_intros) (auto split: list.splits intro!: ok_intros)

lemma tx_case_list:
  "(case xs of [] \<Rightarrow> m | x # r \<Rightarrow> f x r) db = Inr q \<longleftrightarrow>
     xs = [] \<and> m db = Inr q \<or> (\<exists>x r. xs = x # r \<and> f x r db = Inr q)"
  by (cases xs) auto

lemma survey_session_facts:
  assumes "survey_session E room s db = Ok ((a, v), db')"
  shows "active_turn_authority s = Some a \<and>
    (case v of Candidate n s' \<Rightarrow> s' = s \<and> session_is_assignable s | Empty_Schedule_Request s' \<Rightarrow> s' = s | Not_Assignable \<Rightarrow> True)"
  using assms by (auto simp: survey_session_def tx_case_list split: if_splits)

lemma survey_facts:
  "tx_map (survey_session E room) ss db = Ok (found, db') \<Longrightarrow>
     list_all2 (\<lambda>s r. active_turn_authority s = Some (fst r) \<and>
       (case snd r of Candidate n s' \<Rightarrow> s' = s \<and> session_is_assignable s
        | Empty_Schedule_Request s' \<Rightarrow> s' = s | Not_Assignable \<Rightarrow> True)) ss found"
proof (induction ss arbitrary: db found)
  case (Cons s ss)
  then obtain a v db1 found' where s: "survey_session E room s db = Ok ((a, v), db1)"
    and "tx_map (survey_session E room) ss db1 = Ok (found', db')" "found = (a, v) # found'" by auto
  with Cons.IH survey_session_facts [OF s] show ?case by auto
qed simp

lemma list_all2_right: "list_all2 P xs ys \<Longrightarrow> y \<in> set ys \<Longrightarrow> \<exists>x \<in> set xs. P x y"
  by (induction rule: list_all2_induct) auto

lemma list_all2_left: "list_all2 P xs ys \<Longrightarrow> x \<in> set xs \<Longrightarrow> \<exists>y \<in> set ys. P x y"
  by (induction rule: list_all2_induct) auto

lemma clear_request_effect:
  assumes "clear_schedule_request E s db = Ok ((), db')"
    and "inputs_of db (key_of s) = Some (session_inputs s)" "key_of s \<in> active_sessions db \<longleftrightarrow> active_turn_authority s = Some True"
  shows "inputs_of db' = inputs_of db \<and> active_sessions db' = active_sessions db"
proof -
  obtain now db1 where d: "draw_now E db = Ok (now, db1)"
    and sv: "save_session (s\<lparr>das_schedule_requested := False, das_public := (das_public s)\<lparr>as_updated_at := now\<rparr>\<rparr>) db1 = Ok ((), db')"
    using assms(1) by (auto simp: clear_schedule_request_def)
  let ?s = "s\<lparr>das_schedule_requested := False, das_public := (das_public s)\<lparr>as_updated_at := now\<rparr>\<rparr>"
  have same: "session_inputs ?s = session_inputs s" "key_of ?s = key_of s" "active_turn_authority ?s = active_turn_authority s"
    by (simp_all add: session_inputs_def key_of_def active_turn_authority_def turn_is_active_def turn_is_clear_def)
  have "db_sessions db1 = db_sessions db" using keepsD [OF keeps_draws(1) d] .
  with sv same(2) have up: "db_sessions db' = om_insert (key_of s) ?s (db_sessions db)" by (auto simp: save_session_Ok)
  show ?thesis
    using inputs_of_insert [OF _ up] active_sessions_insert [OF up] assms(2,3) same by auto
qed

lemma clear_requests_effect:
  "tx_each (clear_schedule_request E) ss db = Ok ((), db') \<Longrightarrow>
     (\<And>s. s \<in> set ss \<Longrightarrow> inputs_of db (key_of s) = Some (session_inputs s) \<and>
        (key_of s \<in> active_sessions db \<longleftrightarrow> active_turn_authority s = Some True)) \<Longrightarrow>
     inputs_of db' = inputs_of db \<and> active_sessions db' = active_sessions db"
proof (induction ss arbitrary: db)
  case (Cons s ss)
  then obtain db1 where s: "clear_schedule_request E s db = Ok ((), db1)"
    and r: "tx_each (clear_schedule_request E) ss db1 = Ok ((), db')" by auto
  have e: "inputs_of db1 = inputs_of db \<and> active_sessions db1 = active_sessions db"
    using clear_request_effect [OF s] Cons.prems(2) by simp
  with Cons.IH [OF r] Cons.prems(2) show ?case by simp
qed simp

lemma empty_requests_in: "s \<in> set (empty_requests_of found) \<Longrightarrow> \<exists>a. (a, Empty_Schedule_Request s) \<in> set found"
  by (auto simp: empty_requests_of_def set_map_filter split: survey.splits)

lemma candidates_in: "(n, s) \<in> set (candidates_of found) \<Longrightarrow> \<exists>a. (a, Candidate n s) \<in> set found"
  by (auto simp: candidates_of_def set_map_filter split: survey.splits)

lemma assignable_not_active: "session_is_assignable s \<Longrightarrow> active_turn_authority s \<noteq> Some True"
  by (auto simp: active_turn_authority_iff turn_is_active_def session_is_assignable_def)

text \<open>The sessions of a room whose turn is active.\<close>

definition active_in :: "rstr \<Rightarrow> 'x turn_db \<Rightarrow> (rstr \<times> rstr) set" where
  "active_in rid db = {k \<in> active_sessions db. fst k = rid}"

definition assigned_keys :: "prepared_assignment list \<Rightarrow> (rstr \<times> rstr) set" where
  "assigned_keys ps = (\<lambda>p. key_of (ata_session (pa_assignment p))) ` set ps"

lemma assign_available_ok [ok_intros]: "reconcile_frame E \<Longrightarrow> tx_ok (assign_available_pending E room settings)"
  unfolding assign_available_pending_def Let_def by (intro ok_intros; (assumption)?; simp add: tx_ok_prepare split: prod.splits)

lemma assign_effect:
  assumes frame: "reconcile_frame E" and ok: "turn_db_ok db"
    and run: "assign_available_pending E room settings db = Ok (ps, db')"
  shows "inputs_of db' = inputs_of db \<and> active_sessions db' = active_sessions db \<union> assigned_keys ps
    \<and> assigned_keys ps \<inter> active_sessions db = {} \<and> fst ` assigned_keys ps \<subseteq> {room_id room}
    \<and> (rs_conversation_mode settings = str ''ordered'' \<longrightarrow> length ps \<le> 1 \<and> (ps \<noteq> [] \<longrightarrow> active_in (room_id room) db = {}))"
proof (cases "ps = [] \<and> db_sessions db' = db_sessions db")
  case True
  then show ?thesis by (simp add: inputs_of_def fun_eq_iff active_sessions_def assigned_keys_def)
next
  case False
  let ?ordered = "rs_conversation_mode settings = str ''ordered''"
  obtain ss found db1 where ss: "load_room_sessions (room_id room) db = Ok ss"
    and sv: "tx_map (survey_session E room) ss db = Ok (found, db1)"
    using run False by (auto simp: assign_available_pending_def split: if_splits)
  have same: "db_sessions db1 = db_sessions db" and ok1: "turn_db_ok db1"
    using keepsD [OF keeps_map [OF survey_session_keeps] sv] tx_okD [OF tx_ok_map [OF survey_session_ok] sv ok]
    by simp_all
  let ?cs = "sort_key (\<lambda>(n, s). (n, as_session_id (das_public s))) (candidates_of found)"
  let ?cs' = "if ?ordered then take 1 ?cs else ?cs"
  obtain db2 where quiet: "\<not> (?ordered \<and> list_ex fst found)"
    and em: "tx_each (clear_schedule_request E) (empty_requests_of found) db1 = Ok ((), db2)"
    and pr: "tx_map (\<lambda>(_, s). prepare_assignment E room settings s) ?cs' db2 = Ok (ps, db')"
    using run False ss sv same by (auto simp: assign_available_pending_def Let_def split: if_splits)
  note all2 = survey_facts [OF sv]
  have row: "om_get (db_sessions db1) (key_of s) = Some s \<and> as_room_id (das_public s) = room_id room" if "s \<in> set ss" for s
    using load_room_sessions_rows [OF ok ss, of s] that same by simp
  have "inputs_of db2 = inputs_of db1 \<and> active_sessions db2 = active_sessions db1"
  proof (rule clear_requests_effect [OF em])
    fix s assume "s \<in> set (empty_requests_of found)"
    then obtain a where "(a, Empty_Schedule_Request s) \<in> set found" by (blast dest: empty_requests_in)
    with list_all2_right [OF all2] have "s \<in> set ss" by fastforce
    with row show "inputs_of db1 (key_of s) = Some (session_inputs s) \<and>
        (key_of s \<in> active_sessions db1 \<longleftrightarrow> active_turn_authority s = Some True)"
      by (simp add: inputs_of_def active_sessions_def)
  qed
  moreover have "inputs_of db1 = inputs_of db" "active_sessions db1 = active_sessions db"
    using same by (auto simp: inputs_of_def active_sessions_def)
  ultimately have eq2: "inputs_of db2 = inputs_of db" "active_sessions db2 = active_sessions db" by simp_all
  have ok2: "turn_db_ok db2" using tx_okD [OF tx_ok_each [OF tx_ok_clear] em ok1] .
  have cand: "s \<in> set ss \<and> session_is_assignable s \<and> active_turn_authority s \<noteq> None" if "(n, s) \<in> set ?cs'" for n s
  proof -
    have "(n, s) \<in> set (candidates_of found)" using that by (auto split: if_splits dest: in_set_takeD)
    then obtain a where "(a, Candidate n s) \<in> set found" by (blast dest: candidates_in)
    with list_all2_right [OF all2] show ?thesis by fastforce
  qed
  have eff: "inputs_of db' = inputs_of db2 \<and> active_sessions db' = active_sessions db2 \<union> key_of ` snd ` set ?cs' \<and>
     map (\<lambda>p. key_of (ata_session (pa_assignment p))) ps = map (key_of \<circ> snd) ?cs'"
  proof (rule prepare_candidates [OF frame pr ok2])
    fix n s assume "(n, s) \<in> set ?cs'"
    with cand [of n s] row [of s] same eq2 show "session_is_assignable s \<and> active_turn_authority s \<noteq> None \<and>
        inputs_of db2 (key_of s) = Some (session_inputs s)" by (auto simp: inputs_of_def)
  qed
  then have keys: "assigned_keys ps = key_of ` snd ` set ?cs'" and len: "length ps = length ?cs'"
    unfolding assigned_keys_def by (metis (no_types, lifting) image_image image_set list.map_comp, metis length_map)
  have "key_of s \<notin> active_sessions db \<and> fst (key_of s) = room_id room" if "(n, s) \<in> set ?cs'" for n s
    using cand [OF that] row [of s] same assignable_not_active [of s] by (auto simp: active_sessions_def key_of_def)
  then have disj: "assigned_keys ps \<inter> active_sessions db = {}" "fst ` assigned_keys ps \<subseteq> {room_id room}"
    unfolding keys by (auto simp: image_iff)
  have "active_in (room_id room) db = {}" if "\<not> list_ex fst found"
  proof (rule ccontr)
    assume "active_in (room_id room) db \<noteq> {}"
    then obtain i s where s: "om_get (db_sessions db) (room_id room, i) = Some s" "active_turn_authority s = Some True"
      by (auto simp: active_in_def active_sessions_def)
    then have "key_of s = (room_id room, i)" using ok om_get_in_set [OF s(1)] by (fastforce simp: turn_db_ok_def)
    then have "s \<in> set ss" using load_room_sessions_rows [OF ok ss, of s] s(1) by (simp add: key_of_def)
    with list_all2_left [OF all2] s(2) that show False by (fastforce simp: list_ex_iff)
  qed
  with quiet len have "?ordered \<longrightarrow> length ps \<le> 1 \<and> (ps \<noteq> [] \<longrightarrow> active_in (room_id room) db = {})" by simp
  with eff eq2 keys disj show ?thesis by simp
qed

text \<open>C8: assigning the available sessions of a room loses, repeats and reorders
  no queued input of any session, gives an active turn exactly to the sessions it reports, all
  of this room and idle before, and keeps the tables consistent.\<close>

theorem assignments_keep_inputs:
  assumes "reconcile_frame E" "turn_db_ok db" "assign_available_pending E room settings db = Ok (ps, db')"
  shows "inputs_of db' = inputs_of db \<and> active_sessions db' = active_sessions db \<union> assigned_keys ps
    \<and> assigned_keys ps \<inter> active_sessions db = {} \<and> fst ` assigned_keys ps \<subseteq> {room_id room} \<and> turn_db_ok db'"
  using assign_effect [OF assms] tx_okD [OF assign_available_ok [OF assms(1)] assms(3,2)] by simp

text \<open>C1: in an ordered room the floor is given to one session at a time: an assignment
  happens only when no turn of the room is active, and then to one session.\<close>

theorem ordered_floor:
  assumes "reconcile_frame E" "turn_db_ok db" "assign_available_pending E room settings db = Ok (ps, db')"
    and "rs_conversation_mode settings = str ''ordered''"
  shows "active_in (room_id room) db' = active_in (room_id room) db \<and> ps = []
    \<or> active_in (room_id room) db = {} \<and> (\<exists>k p. active_in (room_id room) db' = {k} \<and> ps = [p]
        \<and> key_of (ata_session (pa_assignment p)) = k)"
proof (cases ps)
  case Nil
  with assign_effect [OF assms(1-3)] show ?thesis by (simp add: active_in_def assigned_keys_def)
next
  case (Cons p qs)
  with assign_effect [OF assms(1-3)] assms(4) have "ps = [p]" "active_in (room_id room) db = {}"
    "active_sessions db' = active_sessions db \<union> assigned_keys ps" "fst ` assigned_keys ps \<subseteq> {room_id room}" by auto
  then have "active_in (room_id room) db' = {key_of (ata_session (pa_assignment p))}"
    by (auto simp: active_in_def assigned_keys_def)
  with \<open>ps = [p]\<close> \<open>active_in (room_id room) db = {}\<close> show ?thesis by blast
qed

section \<open>Routing a message adds it to the queues it is for\<close>

definition has_input :: "'x turn_db \<Rightarrow> rstr \<times> rstr \<Rightarrow> rstr \<Rightarrow> bool" where
  "has_input db k i \<longleftrightarrow> (\<exists>is. inputs_of db k = Some is \<and> i \<in> qi_event_id ` set is)"

text \<open>The queues after a message has been added for a set of sessions that do not hold it yet.\<close>

definition with_input ::
  "'x turn_db \<Rightarrow> rstr \<Rightarrow> room_input_delivery_kind \<Rightarrow> (rstr \<times> rstr) set \<Rightarrow> rstr \<times> rstr \<Rightarrow> queued_room_input list option" where
  "with_input db i kind K k =
     (if k \<in> K \<and> \<not> has_input db k i
      then map_option (\<lambda>is. is @ [\<lparr>qi_event_id = i, qi_delivery_kind = kind\<rparr>]) (inputs_of db k)
      else inputs_of db k)"

definition other_tables :: "'x turn_db \<Rightarrow> 'x turn_db" where
  "other_tables db = db\<lparr>db_sessions := [], db_draws := 0\<rparr>"

lemma append_authority:
  assumes "length (session_inputs s) < 256" "i \<noteq> []" "i \<notin> qi_event_id ` set (session_inputs s)"
    and "t = s\<lparr>das_pending_inputs := das_pending_inputs s @ [\<lparr>qi_event_id = i, qi_delivery_kind = k\<rparr>],
                 das_public := (das_public s)\<lparr>as_updated_at := now\<rparr>\<rparr>"
  shows "active_turn_authority t = active_turn_authority s" "key_of t = key_of s"
    "session_inputs t = session_inputs s @ [\<lparr>qi_event_id = i, qi_delivery_kind = k\<rparr>]"
proof -
  show si: "session_inputs t = session_inputs s @ [\<lparr>qi_event_id = i, qi_delivery_kind = k\<rparr>]"
    using assms(4) by (simp add: session_inputs_def)
  then have "canonical_queue (session_inputs t) = canonical_queue (session_inputs s)"
    using assms(1-3) by (auto simp: canonical_queue_def)
  moreover have "turn_is_active t = turn_is_active s" "turn_is_clear t = turn_is_clear s"
    using assms(4) by (simp_all add: turn_is_active_def turn_is_clear_def)
  ultimately show "active_turn_authority t = active_turn_authority s"
    by (simp add: active_turn_authority_def flip: session_inputs_def)
  show "key_of t = key_of s" using assms(4) by (simp add: key_of_def)
qed

lemma load_session_row: "load_session rid sid db = Ok s \<Longrightarrow> om_get (db_sessions db) (rid, sid) = Some s \<and> key_of s = (rid, sid)"
  by (auto simp: load_session_def decode_session_def key_of_def split: option.splits if_splits)

lemma queue_input_effect:
  assumes "queue_input E e (sid, kind) db = Ok ((), db')" "ev_id e \<noteq> []"
  shows "inputs_of db' = with_input db (ev_id e) kind {(ev_room_id e, sid)}
    \<and> active_sessions db' = active_sessions db \<and> other_tables db' = other_tables db"
proof -
  let ?k = "(ev_room_id e, sid)"
  from assms(1) obtain s where s: "load_session (ev_room_id e) sid db = Ok s" by (auto simp: queue_input_def)
  note row = load_session_row [OF s]
  show ?thesis
  proof (cases "ev_id e \<in> qi_event_id ` set (session_inputs s)")
    case True
    then have "list_ex (\<lambda>i. qi_event_id i = ev_id e) (das_pending_inputs s @ das_inflight_inputs s)"
      by (auto simp: session_inputs_def list_ex_iff)
    with assms(1) s have "db' = db" by (simp add: queue_input_def)
    moreover have "has_input db ?k (ev_id e)" using True row by (simp add: has_input_def inputs_of_def)
    ultimately show ?thesis by (auto simp: with_input_def)
  next
    case False
    then have nex: "\<not> list_ex (\<lambda>i. qi_event_id i = ev_id e) (das_pending_inputs s @ das_inflight_inputs s)"
      by (force simp: session_inputs_def list_ex_iff)
    let ?t = "\<lambda>now. s\<lparr>das_pending_inputs := das_pending_inputs s @ [\<lparr>qi_event_id = ev_id e, qi_delivery_kind = kind\<rparr>],
                 das_public := (das_public s)\<lparr>as_updated_at := now\<rparr>\<rparr>"
    from assms(1) s nex obtain now where len: "length (session_inputs s) < 256"
      and sv: "save_session (?t now) (db\<lparr>db_draws := db_draws db + 1\<rparr>) = Ok ((), db')"
      by (auto simp: queue_input_def draw_now_def MAX_QUEUED_EVENT_IDS_def session_inputs_def split: if_splits)
    note t = append_authority [OF len assms(2) False refl, where k = kind and now = now]
    have up: "db' = db\<lparr>db_draws := db_draws db + 1, db_sessions := om_insert ?k (?t now) (db_sessions db)\<rparr>"
      using sv t(2) row by (simp add: save_session_Ok)
    then have sess: "db_sessions db' = om_insert ?k (?t now) (db_sessions db)" by simp
    have "\<not> has_input db ?k (ev_id e)" using False row by (simp add: has_input_def inputs_of_def)
    then have "inputs_of db' = with_input db (ev_id e) kind {?k}"
      using row t(3) sess by (auto simp: inputs_of_def with_input_def fun_eq_iff)
    moreover have "active_sessions db' = active_sessions db"
      using active_sessions_insert [OF sess] t(1) row by (auto simp: active_sessions_def)
    moreover have "other_tables db' = other_tables db" using up by (simp add: other_tables_def)
    ultimately show ?thesis by blast
  qed
qed

lemma has_input_with:
  "inputs_of db' = with_input db i kind K \<Longrightarrow>
     has_input db' k i \<longleftrightarrow> has_input db k i \<or> k \<in> K \<and> inputs_of db k \<noteq> None"
  by (auto simp: has_input_def with_input_def split: if_splits)

lemma queue_inputs_effect:
  "tx_each (queue_input E e) targets db = Ok ((), db') \<Longrightarrow> ev_id e \<noteq> [] \<Longrightarrow> snd ` set targets \<subseteq> {kind} \<Longrightarrow>
     inputs_of db' = with_input db (ev_id e) kind ((\<lambda>t. (ev_room_id e, fst t)) ` set targets)
     \<and> active_sessions db' = active_sessions db \<and> other_tables db' = other_tables db"
proof (induction targets arbitrary: db)
  case Nil
  then show ?case by (auto simp: with_input_def)
next
  case (Cons t ts)
  obtain sid where t: "t = (sid, kind)" using Cons.prems(3) by (cases t) auto
  from Cons.prems(1) t obtain db1 where
    step: "queue_input E e (sid, kind) db = Ok ((), db1)" and rest: "tx_each (queue_input E e) ts db1 = Ok ((), db')" by auto
  note eff = queue_input_effect [OF step Cons.prems(2)]
  have ih: "inputs_of db' = with_input db1 (ev_id e) kind ((\<lambda>t. (ev_room_id e, fst t)) ` set ts)
     \<and> active_sessions db' = active_sessions db1 \<and> other_tables db' = other_tables db1"
    using Cons.IH [OF rest Cons.prems(2)] Cons.prems(3) by simp
  have "inputs_of db' k = with_input db (ev_id e) kind ((\<lambda>t. (ev_room_id e, fst t)) ` set (t # ts)) k" for k
    using ih eff has_input_with [of db1 db "ev_id e" kind "{(ev_room_id e, sid)}" k] t
    by (cases "inputs_of db k") (auto simp: with_input_def)
  with ih eff show ?case by (simp add: fun_eq_iff)
qed

lemma route_sessions_rows:
  assumes "turn_db_ok db" "route_sessions e db = Ok sessions"
  shows "(s, p) \<in> set sessions \<longleftrightarrow> om_get (db_sessions db) (key_of s) = Some s \<and> as_room_id (das_public s) = ev_room_id e
    \<and> db_participants db (ev_room_id e, as_participant_id (das_public s)) = Some p"
proof -
  obtain ss where ss: "load_room_sessions (ev_room_id e) db = Ok ss"
    and all2: "list_all2 (\<lambda>s r. fst r = s \<and> db_participants db (ev_room_id e, as_participant_id (das_public s)) = Some (snd r)) ss sessions"
  proof -
    obtain ss where "load_room_sessions (ev_room_id e) db = Ok ss"
      and "list_all2 (\<lambda>s r. rbind (turn_authority_is_active s) (\<lambda>_. rbind (validate_provider_cursor s db) (\<lambda>_.
         rbind (load_participant (ev_room_id e) (as_participant_id (das_public s)) db) (\<lambda>p. Ok (s, p)))) = Ok r) ss sessions"
      using assms(2) by (auto simp: route_sessions_def traverse_Ok_iff)
    then show ?thesis by (intro that) (assumption, erule list_all2_mono, auto simp: load_participant_def)
  qed
  have "(s, p) \<in> set sessions \<longleftrightarrow> s \<in> set ss \<and> db_participants db (ev_room_id e, as_participant_id (das_public s)) = Some p"
    using list_all2_right [OF all2, of "(s, p)"] list_all2_left [OF all2, of s] by fastforce
  then show ?thesis using load_room_sessions_rows [OF assms(1) ss, of s] by auto
qed

lemma min_by_key_in: "min_by_key f xs = Some y \<Longrightarrow> y \<in> set xs"
  by (induction xs arbitrary: y) (auto split: option.splits if_splits)

lemma sampled_in_range: "i \<in> set (sampled_candidate_indexes seed n) \<Longrightarrow> i < n"
  using skip_facts(4) [of "seed mod n" n "seed div n mod (n - 1)"]
  by (cases "2 < n") (auto simp: sampled_skip, auto simp: sampled_candidate_indexes_def)

lemma floor_candidates_sub: "floor_candidates e sessions db = Ok cs \<Longrightarrow> set cs \<subseteq> {(s, p) \<in> set sessions. \<not> is_actor s e}"
  by (auto simp: floor_candidates_def Let_def split: if_splits)

lemma draw_other_tables [simp]:
  "draw_uuid E db = Ok (u, db') \<Longrightarrow> other_tables db' = other_tables db \<and> db_sessions db' = db_sessions db"
  by (auto simp: draw_uuid_def other_tables_def)

lemma floor_pick_facts:
  assumes "floor_pick E settings e cs db = Ok (ts, db')"
  shows "\<exists>s p. (s, p) \<in> set cs \<and> ts = [(as_session_id (das_public s), Ordered_Observation)]"
    and "other_tables db' = other_tables db \<and> db_sessions db' = db_sessions db"
proof -
  obtain counts previous where cp: "recent_agent_speaking_state (ev_room_id e) (ev_seq e) db = (counts, previous)"
    by (cases "recent_agent_speaking_state (ev_room_id e) (ev_seq e) db")
  let ?cs = "sort_key (\<lambda>(s, _). as_session_id (das_public s))
     (if rs_ordered_exclude_previous_speaker settings \<and> length cs > 1
      then filter (\<lambda>(s, _). as_session_id (das_public s) \<noteq> previous) cs else cs)"
  obtain seed db1 s where seed: "(if length ?cs \<le> 2 then tx_return 0 else tx_bind (draw_uuid E) (\<lambda>u. tx_return (unat u))) db = Ok (seed, db1)"
    and s: "min_by_key (\<lambda>s. counts (as_session_id (das_public s)))
              (map (\<lambda>i. fst (?cs ! i)) (sampled_candidate_indexes seed (length ?cs))) = Some s"
    and r: "ts = [(as_session_id (das_public s), Ordered_Observation)]" "db' = db1"
    using assms cp by (auto simp: floor_pick_def Let_def)
  from min_by_key_in [OF s] obtain i where "i < length ?cs" "s = fst (?cs ! i)" by (auto dest: sampled_in_range)
  then have "(s, snd (?cs ! i)) \<in> set ?cs" by (metis nth_mem prod.collapse)
  then have "(s, snd (?cs ! i)) \<in> set cs" by (auto split: if_splits)
  with r(1) show "\<exists>s p. (s, p) \<in> set cs \<and> ts = [(as_session_id (das_public s), Ordered_Observation)]" by blast
  show "other_tables db' = other_tables db \<and> db_sessions db' = db_sessions db"
    using seed r(2) by (auto split: if_splits)
qed

lemma ordered_targets_facts:
  assumes "ordered_targets E settings e sessions db = Ok (ts, db')"
  shows "(ts = [] \<or> (\<exists>i. ts = [(i, Ordered_Observation)] \<and> (\<exists>(s, p) \<in> set sessions. as_session_id (das_public s) = i \<and> \<not> is_actor s e)))
    \<and> other_tables db' = other_tables db \<and> db_sessions db' = db_sessions db"
proof (cases "or_else (last_direct_target (te_unicode E) (unwrap_or [] (ev_content e))
                              (map fst (filter (\<lambda>(s, _). \<not> is_actor s e) sessions))) (structured_target e sessions)")
  case None
  with assms obtain cs where cs: "floor_candidates e sessions db = Ok cs"
    "cs = [] \<and> ts = [] \<and> db' = db \<or> cs \<noteq> [] \<and> floor_pick E settings e cs db = Ok (ts, db')"
    by (auto simp: ordered_targets_def floor_pick_def Let_def split: if_splits)
  from cs(2) show ?thesis
  proof
    assume "cs \<noteq> [] \<and> floor_pick E settings e cs db = Ok (ts, db')"
    with floor_pick_facts [of E settings e cs db ts db'] floor_candidates_sub [OF cs(1)] show ?thesis by fastforce
  qed simp
next
  case (Some i)
  have "\<exists>(s, p) \<in> set sessions. as_session_id (das_public s) = i \<and> \<not> is_actor s e"
  proof (cases "last_direct_target (te_unicode E) (unwrap_or [] (ev_content e)) (map fst (filter (\<lambda>(s, _). \<not> is_actor s e) sessions))")
    case None
    with Some show ?thesis by (auto simp: or_else_def structured_target_def list_ex_iff)
  next
    case (Some j)
    with \<open>or_else _ _ = Some i\<close> have "j = i" by (simp add: or_else_def)
    with direct_target_member [OF Some] show ?thesis by fastforce
  qed
  with Some assms show ?thesis by (auto simp: ordered_targets_def Let_def split: if_splits)
qed

text \<open>The sessions an ambient message is for.\<close>

definition ambient_audience :: "room_event \<Rightarrow> 'x turn_db \<Rightarrow> (rstr \<times> rstr) set" where
  "ambient_audience e db =
     {k. \<exists>s p. om_get (db_sessions db) k = Some s \<and> fst k = ev_room_id e \<and>
        db_participants db (ev_room_id e, as_participant_id (das_public s)) = Some p \<and>
        \<not> is_actor s e \<and> route_session_is_eligible s p}"

lemma row_key: "turn_db_ok db \<Longrightarrow> om_get (db_sessions db) k = Some s \<Longrightarrow> key_of s = k"
  using om_get_in_set [of "db_sessions db" k s] by (fastforce simp: turn_db_ok_def)

lemma ambient_targets_keys:
  assumes "turn_db_ok db" "route_sessions e db = Ok sessions"
  shows "(\<lambda>t. (ev_room_id e, fst t)) ` set (ambient_targets e sessions) = ambient_audience e db"
proof (intro set_eqI iffI)
  fix k assume "k \<in> (\<lambda>t. (ev_room_id e, fst t)) ` set (ambient_targets e sessions)"
  then obtain s p where sp: "(s, p) \<in> set sessions" "\<not> is_actor s e" "route_session_is_eligible s p"
    "k = (ev_room_id e, as_session_id (das_public s))" by (auto simp: ambient_targets_def)
  with route_sessions_rows [OF assms, of s p] show "k \<in> ambient_audience e db"
    unfolding ambient_audience_def by (auto simp: key_of_def)
next
  fix k assume "k \<in> ambient_audience e db"
  then obtain s p where sp: "om_get (db_sessions db) k = Some s" "fst k = ev_room_id e"
    "db_participants db (ev_room_id e, as_participant_id (das_public s)) = Some p"
    "\<not> is_actor s e" "route_session_is_eligible s p" by (auto simp: ambient_audience_def)
  with row_key [OF assms(1) sp(1)] route_sessions_rows [OF assms, of s p]
  have "(s, p) \<in> set sessions" by (auto simp: key_of_def)
  then have "(as_session_id (das_public s), Ambient_Observation) \<in> set (ambient_targets e sessions)"
    using sp(4,5) by (force simp: ambient_targets_def)
  moreover have "k = (ev_room_id e, as_session_id (das_public s))"
    using row_key [OF assms(1) sp(1)] sp(2) by (auto simp: key_of_def)
  ultimately show "k \<in> (\<lambda>t. (ev_room_id e, fst t)) ` set (ambient_targets e sessions)" by force
qed

lemma route_effect:
  assumes "turn_db_ok db" "ev_id e \<noteq> []" "route_message E settings e db = Ok ((), db')"
  shows "\<exists>K kind. inputs_of db' = with_input db (ev_id e) kind K
    \<and> active_sessions db' = active_sessions db \<and> other_tables db' = other_tables db
    \<and> (is_routable_message (te_unicode E) e = Ok False \<longrightarrow> K = {})
    \<and> (\<forall>k \<in> K. \<exists>s. om_get (db_sessions db) k = Some s \<and> fst k = ev_room_id e \<and> \<not> is_actor s e)
    \<and> (rs_conversation_mode settings = str ''ordered'' \<longrightarrow> kind = Ordered_Observation \<and> (\<exists>k. K \<subseteq> {k}))
    \<and> (rs_conversation_mode settings = str ''ambient'' \<longrightarrow> kind = Ambient_Observation
        \<and> (is_routable_message (te_unicode E) e = Ok True \<longrightarrow> K = ambient_audience e db))"
proof -
  let ?kind = "if rs_conversation_mode settings = str ''ordered'' then Ordered_Observation else Ambient_Observation"
  obtain routable where r: "is_routable_message (te_unicode E) e = Ok routable"
    using assms(3) by (auto simp: route_message_def)
  show ?thesis
  proof (cases routable)
    case False
    with r assms(3) have "db' = db" by (auto simp: route_message_def)
    then show ?thesis using r False by (intro exI [of _ "{}"] exI [of _ ?kind]) (auto simp: with_input_def)
  next
    case True
    then obtain sessions targets db1 where ss: "route_sessions e db = Ok sessions"
      and tg: "(if rs_conversation_mode settings = str ''ordered'' then ordered_targets E settings e sessions
                else if rs_conversation_mode settings = str ''ambient'' then tx_return (ambient_targets e sessions)
                else tx_try (Err (rejected ''stored_room_settings_invalid'' ''Stored room conversation mode is invalid.''))) db = Ok (targets, db1)"
      and q: "tx_each (queue_input E e) targets db1 = Ok ((), db')"
      using r assms(3) by (auto simp: route_message_def)
    let ?K = "(\<lambda>t. (ev_room_id e, fst t)) ` set targets"
    have d1: "other_tables db1 = other_tables db \<and> db_sessions db1 = db_sessions db"
      using tg ordered_targets_facts [of E settings e sessions db targets db1] by (auto split: if_splits)
    have kind: "snd ` set targets \<subseteq> {?kind}"
      using tg ordered_targets_facts [of E settings e sessions db targets db1]
      by (auto simp: ambient_targets_def split: if_splits)
    have one: "rs_conversation_mode settings = str ''ordered'' \<longrightarrow> (\<exists>k. ?K \<subseteq> {k})"
      using tg ordered_targets_facts [of E settings e sessions db targets db1] by auto
    have all: "rs_conversation_mode settings = str ''ambient'' \<longrightarrow> ?K = ambient_audience e db"
      using tg ambient_targets_keys [OF assms(1) ss] by (simp split: if_splits)
    have member: "\<exists>s p. (s, p) \<in> set sessions \<and> as_session_id (das_public s) = fst t \<and> \<not> is_actor s e" if "t \<in> set targets" for t
      using tg ordered_targets_facts [of E settings e sessions db targets db1] that
      by (force simp: ambient_targets_def split: if_splits)
    have row: "\<exists>s. om_get (db_sessions db) k = Some s \<and> fst k = ev_room_id e \<and> \<not> is_actor s e" if k: "k \<in> ?K" for k
    proof -
      obtain t where t: "t \<in> set targets" "k = (ev_room_id e, fst t)" using k by blast
      from member [OF t(1)] obtain s p where sp: "(s, p) \<in> set sessions" "as_session_id (das_public s) = fst t" "\<not> is_actor s e" by blast
      with route_sessions_rows [OF assms(1) ss, of s p] t(2) show ?thesis by (auto simp: key_of_def)
    qed
    have same: "inputs_of db1 = inputs_of db" "active_sessions db1 = active_sessions db"
      using d1 by (auto simp: inputs_of_def active_sessions_def)
    then have w: "with_input db1 = with_input db" by (auto simp: with_input_def has_input_def fun_eq_iff)
    have "inputs_of db' = with_input db (ev_id e) ?kind ?K \<and> active_sessions db' = active_sessions db \<and> other_tables db' = other_tables db"
      using queue_inputs_effect [OF q assms(2) kind] same w d1 by simp
    with one all row True r show ?thesis by (intro exI [of _ ?K] exI [of _ ?kind]) auto
  qed
qed


section \<open>Witnesses\<close>

lemma sample_reconcile: "reconcile_frame sample_env"
  by (simp add: reconcile_frame_def sample_env_def)

lemma sample_turn_db: "turn_db_ok sample_db"
  unfolding turn_db_ok_def by code_simp

definition sample_settings :: room_settings where
  "sample_settings = defaults (str ''Main'')"

text \<open>The first session holds the floor and a third one asks to be scheduled with nothing to do.\<close>

definition sample_busy_db :: "unit turn_db" where
  "sample_busy_db = sample_db
     \<lparr>db_participants := (db_participants sample_db)((str ''main'', str ''agent-3'') \<mapsto> sample_participant ''agent-3''),
      db_sessions := [((str ''main'', str ''agent-1''),
           (sample_agent ''agent-1'' [''e2''])\<lparr>das_inflight_inputs := [\<lparr>qi_event_id = str ''e1'', qi_delivery_kind = Ordered_Observation\<rparr>],
              das_active_source_event_id := str ''e1'', das_input_up_to_event_id := str ''e1'', das_input_up_to_seq := 1,
              das_public := (das_public (sample_agent ''agent-1'' []))\<lparr>as_runtime_status := Runtime_Busy,
                as_turn_phase := Phase_Thinking, as_active_turn_id := str ''turn-1''\<rparr>\<rparr>),
         ((str ''main'', str ''agent-2''), sample_agent ''agent-2'' [''e2'']),
         ((str ''main'', str ''agent-3''), (sample_agent ''agent-3'' [])\<lparr>das_schedule_requested := True\<rparr>)]\<rparr>"

lemma sample_busy_turn_db: "turn_db_ok sample_busy_db"
  unfolding turn_db_ok_def by code_simp

lemma run_Ok: "\<not> isl r \<Longrightarrow> r = Ok (fst (projr r), snd (projr r))"
  by (cases r) auto

theorem ordered_floor_witness:
  "\<exists>ps db'. assign_available_pending sample_env sample_room sample_settings sample_busy_db = Ok (ps, db')
     \<and> (active_in (str ''main'') db' = active_in (str ''main'') sample_busy_db \<and> ps = []
        \<or> active_in (str ''main'') sample_busy_db = {} \<and> (\<exists>k. active_in (str ''main'') db' = {k}))"
proof -
  have "\<not> isl (assign_available_pending sample_env sample_room sample_settings sample_busy_db)" by code_simp
  note run = run_Ok [OF this]
  have h: "rs_conversation_mode sample_settings = str ''ordered''" "room_id sample_room = str ''main''" by code_simp+
  from ordered_floor [OF sample_reconcile sample_busy_turn_db run h(1)] h(2) run show ?thesis by metis
qed

text \<open>In an ambient room without queued messages the request of the third session is withdrawn.\<close>

definition sample_idle_db :: "unit turn_db" where
  "sample_idle_db = sample_busy_db\<lparr>db_sessions := [((str ''main'', str ''agent-3''), (sample_agent ''agent-3'' [])\<lparr>das_schedule_requested := True\<rparr>)]\<rparr>"

theorem assignments_keep_inputs_witness:
  "\<exists>ps db'. assign_available_pending sample_env sample_room sample_settings sample_idle_db = Ok (ps, db')
     \<and> inputs_of db' = inputs_of sample_idle_db \<and> turn_db_ok db'
     \<and> active_sessions db' = active_sessions sample_idle_db \<union> assigned_keys ps"
proof -
  have "\<not> isl (assign_available_pending sample_env sample_room sample_settings sample_idle_db)" by code_simp
  note run = run_Ok [OF this]
  have "turn_db_ok sample_idle_db" unfolding turn_db_ok_def by code_simp
  from assignments_keep_inputs [OF sample_reconcile this run] run show ?thesis by metis
qed


end
