(* ===== verification/Turn_Completion.thy ===== *)
theory Turn_Completion
  imports Turn_Scheduler
begin

text \<open>
  How a provider turn ends (persistence/room\_turns.rs, room\_turn\_completion.rs and
  room\_turn\_finalization.rs): it publishes a final message, declines, or fails; each end
  terminates the execution, clears the session and hands the floor on in one transaction.
\<close>

record agent_turn_commit =
  atc_events :: "room_event list"
  atc_next_assignments :: "agent_turn_assignment list"

definition commit_of :: "room_event list \<Rightarrow> prepared_assignment list \<Rightarrow> agent_turn_commit" where
  "commit_of events prepared =
     \<lparr>atc_events = events @ concat (map pa_events prepared), atc_next_assignments = map pa_assignment prepared\<rparr>"

definition assign_pending_in ::
  "'x turn_env \<Rightarrow> room \<Rightarrow> room_settings \<Rightarrow> ('x turn_db, agent_turn_commit) tx" where
  "assign_pending_in E room settings =
     tx_bind (assign_available_pending E room settings) (\<lambda>prepared. tx_return (commit_of [] prepared))"

definition assign_pending_turn :: "'x turn_env \<Rightarrow> rstr \<Rightarrow> ('x turn_db, agent_turn_commit option) tx" where
  "assign_pending_turn E rid =
     tx_bind (tx_read (load_active_room E rid)) (\<lambda>(room, settings).
     tx_bind (assign_pending_in E room settings) (\<lambda>commit.
     tx_return (if atc_next_assignments commit = [] then None else Some commit)))"

definition public_assignment_error_code :: "rstr \<Rightarrow> rstr" where
  "public_assignment_error_code v =
     (if v \<in> set (map str [''agent_session_capacity'', ''provider_sync_cursor_mismatch'', ''queued_room_event_invalid'',
          ''room_event_missing'', ''provider_turn_input_invalid'', ''stored_turn_authority_invalid'']) then v
      else str ''internal_assignment_error'')"

definition record_floor_progression_failure ::
  "'x turn_env \<Rightarrow> rstr \<Rightarrow> rstr \<Rightarrow> ('x turn_db, room_event list) tx" where
  "record_floor_progression_failure E rid assignment_error_code =
     tx_bind (tx_read (load_active_room E rid)) (\<lambda>_.
     tx_bind (draw_uuid E) (\<lambda>uid.
     tx_bind (tx_read (next_sequence rid)) (\<lambda>seq.
     tx_bind (draw_now E) (\<lambda>now.
     let event = \<lparr>ev_v = 1, ev_id = uuid_string uid, ev_seq = seq, ev_created_at = now,
           ev_room_id = rid, ev_type = str ''error'',
           ev_actor = \<lparr>actor_participant_id = str ''room-system'', actor_participant_type = str ''system''\<rparr>,
           ev_participant_id = None,
           ev_participant_type = Some (str ''system''),
           ev_actor_id = Some (str ''room-system''),
           ev_actor_type = Some (str ''system''),
           ev_display_name = Some (str ''Room System''),
           ev_content = Some (str ''Queued Agent Session work could not be advanced.''),
           ev_message_kind = None,
           ev_extra = om_from
             [(str ''error_code'', String (str ''floor_progression_failed'')),
              (str ''diagnostics'', json_object [(str ''assignment_error_code'',
                 String (public_assignment_error_code assignment_error_code))])]\<rparr> in
     tx_bind (insert_event E event) (\<lambda>_. tx_return [event])))))"

definition validate_publication_target ::
  "durable_agent_session \<Rightarrow> rstr \<Rightarrow> 'x turn_db \<Rightarrow> persistence_error + unit" where
  "validate_publication_target s target_agent_id db =
     (if target_agent_id = [] then Ok ()
      else if target_agent_id = as_session_id (das_public s) \<or> byte_len target_agent_id > 128 \<or>
              trim target_agent_id \<noteq> target_agent_id \<or> list_ex is_control target_agent_id
      then Err (rejected ''room_portal_publication_invalid'' ''The RoomPortal handoff target is invalid.'')
      else
        rbind (map_err (\<lambda>e. case e of
                   Command_Rejected code _ \<Rightarrow>
                     if code = ''not_found''
                     then rejected ''room_portal_publication_invalid'' ''The RoomPortal handoff target does not exist.'' else e
                 | _ \<Rightarrow> e)
                 (load_session (as_room_id (das_public s)) target_agent_id db)) (\<lambda>target.
        rbind (load_participant (as_room_id (das_public s)) (as_participant_id (das_public target)) db) (\<lambda>p.
        ensure (\<not> (part_status p = Kicked \<or> part_muted p))
          (rejected ''room_portal_publication_invalid'' ''The RoomPortal handoff target cannot receive the ordered floor.''))))"

section \<open>Finalization\<close>

datatype provider_turn_disposition =
  Disposition_Completed bool
| Disposition_Declined rstr
| Disposition_Rejected rstr rstr

record provider_turn_finalization =
  ptf_room :: room
  ptf_settings :: room_settings
  ptf_turn_id :: rstr
  ptf_provider_turn_id :: rstr
  ptf_disposition :: provider_turn_disposition

text \<open>The status, the reason and the routing a disposition stands for, with the events so far.\<close>

definition apply_disposition ::
  "'x turn_env \<Rightarrow> rstr \<Rightarrow> provider_turn_disposition \<Rightarrow> durable_agent_session \<Rightarrow> room_event list
     \<Rightarrow> ('x turn_db, string \<times> rstr option \<times> bool \<times> room_event list) tx" where
  "apply_disposition E turn_id disposition s events =
     (case disposition of
        Disposition_Completed route_first \<Rightarrow> tx_return (''completed'', None, route_first, events)
      | Disposition_Declined reason \<Rightarrow> tx_return (''declined'', Some reason, False, events)
      | Disposition_Rejected code msg \<Rightarrow>
          tx_bind (error_event E s turn_id code msg) (\<lambda>e. tx_return (''error'', Some code, False, events @ [e])))"

text \<open>The routing step of a finalization.\<close>

definition route_first :: "'x turn_env \<Rightarrow> room_settings \<Rightarrow> bool \<Rightarrow> room_event list \<Rightarrow> ('x turn_db, unit) tx" where
  "route_first E settings route events =
     (if route
      then case events of
             [] \<Rightarrow> tx_try (Err (rejected ''stored_turn_authority_invalid''
                     ''A routed provider completion has no canonical room event.''))
           | event # _ \<Rightarrow> route_message E settings event
      else tx_return ())"

definition apply_finalization ::
  "'x turn_env \<Rightarrow> provider_turn_finalization \<Rightarrow> durable_agent_session \<Rightarrow> room_event list
     \<Rightarrow> ('x turn_db, agent_turn_commit) tx" where
  "apply_finalization E F s events =
     tx_bind (apply_disposition E (ptf_turn_id F) (ptf_disposition F) s events) (\<lambda>(status, reason, route, events).
     tx_bind (turn_finished_event E s (ptf_turn_id F) status (Some (ptf_provider_turn_id F)) reason) (\<lambda>finished.
     tx_bind (draw_now E) (\<lambda>now.
     let s = complete_session_state now (das_input_up_to_event_id s) (das_input_up_to_seq s) s in
     tx_bind (save_session s) (\<lambda>_.
     tx_bind (session_state_event E s) (\<lambda>state.
     tx_bind (route_first E (ptf_settings F) route events) (\<lambda>_.
     tx_bind (assign_available_pending E (ptf_room F) (ptf_settings F)) (\<lambda>prepared.
     tx_return (commit_of (events @ [finished, state]) prepared))))))))"

section \<open>The ends of a turn\<close>

definition complete_message ::
  "'x turn_env \<Rightarrow> rstr \<Rightarrow> rstr \<Rightarrow> provider_turn_authority \<Rightarrow> rstr \<Rightarrow> rstr \<Rightarrow> ('x turn_db, agent_turn_commit) tx" where
  "complete_message E rid session_id authority content target_agent_id =
     tx_bind (tx_try (validate_identifier (pta_provider_turn_id authority) ''provider_turn_invalid'')) (\<lambda>_.
     let content = clean_message content MAX_MESSAGE_CHARACTERS in
     tx_bind (tx_try (ensure (has_visible_text (te_unicode E) content)
        (rejected ''provider_turn_output_missing'' ''The provider turn completed without a room-visible final message.''))) (\<lambda>_.
     tx_bind (tx_read (load_active_room E rid)) (\<lambda>(room, settings).
     tx_bind (tx_read (load_session rid session_id)) (\<lambda>s.
     tx_bind (tx_try (require_active_turn s (pta_turn_id authority))) (\<lambda>_.
     tx_bind (terminalize_ordinary_execution s authority Completed) (\<lambda>_.
     tx_bind (tx_read (validate_input_cursor s)) (\<lambda>_.
     tx_bind (tx_read (validate_publication_target s target_agent_id)) (\<lambda>_.
     tx_bind (tx_try (apply_provider_session_transition (pta_provider_session_id authority) s)) (\<lambda>s.
     tx_bind (agent_final_event E s (pta_turn_id authority) (pta_provider_turn_id authority)
                (das_active_source_event_id s) content target_agent_id) (\<lambda>final_event.
     apply_finalization E
       \<lparr>ptf_room = room, ptf_settings = settings, ptf_turn_id = pta_turn_id authority,
        ptf_provider_turn_id = pta_provider_turn_id authority, ptf_disposition = Disposition_Completed True\<rparr>
       s [final_event]))))))))))"

definition decline ::
  "'x turn_env \<Rightarrow> rstr \<Rightarrow> rstr \<Rightarrow> provider_turn_authority \<Rightarrow> rstr \<Rightarrow> ('x turn_db, agent_turn_commit) tx" where
  "decline E rid session_id authority reason =
     tx_bind (tx_try (validate_identifier (pta_provider_turn_id authority) ''provider_turn_invalid'')) (\<lambda>_.
     tx_bind (tx_try (ensure (reason \<in> {str ''nothing_useful_to_add'', str ''not_addressed'', str ''duplicate''})
        (rejected ''invalid_decline_reason'' ''The provider decline reason is unsupported.''))) (\<lambda>_.
     tx_bind (tx_read (load_active_room E rid)) (\<lambda>(room, settings).
     tx_bind (tx_read (load_session rid session_id)) (\<lambda>s.
     tx_bind (tx_try (require_active_turn s (pta_turn_id authority))) (\<lambda>_.
     tx_bind (terminalize_ordinary_execution s authority Declined) (\<lambda>_.
     tx_bind (tx_read (validate_input_cursor s)) (\<lambda>_.
     tx_bind (tx_try (apply_provider_session_transition (pta_provider_session_id authority) s)) (\<lambda>s.
     apply_finalization E
       \<lparr>ptf_room = room, ptf_settings = settings, ptf_turn_id = pta_turn_id authority,
        ptf_provider_turn_id = pta_provider_turn_id authority, ptf_disposition = Disposition_Declined reason\<rparr>
       s []))))))))"

text \<open>The redaction of diagnostics, a chain of regular expressions, is an argument.\<close>

definition fail_message :: "unicode \<Rightarrow> (rstr \<Rightarrow> nat \<Rightarrow> rstr) \<Rightarrow> rstr \<Rightarrow> rstr" where
  "fail_message U redact m =
     (let m = clean_message (redact m 512) 512 in if has_visible_text U m then m else str ''Provider turn failed.'')"

definition fail ::
  "'x turn_env \<Rightarrow> (rstr \<Rightarrow> nat \<Rightarrow> rstr) \<Rightarrow> rstr \<Rightarrow> rstr \<Rightarrow> provider_turn_authority \<Rightarrow> rstr \<Rightarrow> rstr
     \<Rightarrow> (rstr \<times> rstr \<times> rstr) option \<Rightarrow> ('x turn_db, agent_turn_commit) tx" where
  "fail E redact rid session_id authority code m confirmed_runtime_stop =
     tx_bind (tx_read (load_active_room E rid)) (\<lambda>(room, settings).
     tx_bind (tx_read (load_session rid session_id)) (\<lambda>s.
     tx_bind (tx_try (require_active_turn s (pta_turn_id authority))) (\<lambda>_.
     tx_bind (terminalize_ordinary_execution s authority Failed) (\<lambda>_.
     tx_bind (tx_try (release_stopped_runtime confirmed_runtime_stop s)) (\<lambda>s.
     let code = public_error_code code; m = fail_message (te_unicode E) redact m in
     tx_bind (error_event E s (pta_turn_id authority) code m) (\<lambda>error.
     tx_bind (turn_finished_event E s (pta_turn_id authority) ''error'' None None) (\<lambda>finished.
     tx_bind (tx_read (merged_turn_queue s)) (\<lambda>restored.
     tx_bind (draw_now E) (\<lambda>now.
     let s = fail_session_state now restored m code s in
     tx_bind (save_session s) (\<lambda>_.
     tx_bind (session_state_event E s) (\<lambda>state.
     tx_bind (assign_available_pending E room settings) (\<lambda>prepared.
     tx_return (commit_of [error, finished, state] prepared)))))))))))))"

section \<open>What the ends of a turn keep\<close>

lemma preserves_prod [ok_intros]: "(\<And>a b. preserves P (f a b)) \<Longrightarrow> preserves P (case p of (a, b) \<Rightarrow> f a b)"
  by (cases p) simp

lemma keeps_prod [keeps_intros]: "(\<And>a b. keeps v (f a b)) \<Longrightarrow> keeps v (case p of (a, b) \<Rightarrow> f a b)"
  by (cases p) simp

text \<open>The rooms and the executions, which the events and the queues do not touch.\<close>

definition rooms_executions ::
  "'x turn_db \<Rightarrow> (rstr \<rightharpoonup> room \<times> json) \<times> (rstr \<times> rstr \<times> int, provider_turn_execution) omap" where
  "rooms_executions db = (db_rooms db, db_executions db)"

lemma keeps_re_draws [keeps_intros]: "keeps rooms_executions (draw_now E)" "keeps rooms_executions (draw_uuid E)"
  by (auto simp: keeps_def draw_now_def draw_uuid_def rooms_executions_def)

lemma keeps_re_save [keeps_intros]: "keeps rooms_executions (save_session s)"
  unfolding keeps_def save_session_Ok by (simp add: rooms_executions_def)

lemma keeps_re_insert_event [keeps_intros]: "keeps rooms_executions (insert_event E e)"
  unfolding keeps_def insert_event_def by (auto simp: rooms_executions_def)

lemma keeps_re_events [keeps_intros]:
  "keeps rooms_executions (internal_event E s ty a c x)"
  "keeps rooms_executions (agent_final_event E s ti pj si ct tg)"
  unfolding internal_event_def agent_final_event_def Let_def by (intro keeps_intros)+

lemma keeps_re_turn_events [keeps_intros]:
  "keeps rooms_executions (turn_started_event E s)" "keeps rooms_executions (turn_state_event E s)"
  "keeps rooms_executions (turn_finished_event E s ti st pi rc)" "keeps rooms_executions (error_event E s ti ec m)"
  unfolding turn_started_event_def turn_state_event_def turn_finished_event_def error_event_def by (intro keeps_intros)+

lemma keeps_re_session_state [keeps_intros]:
  assumes "reconcile_frame E"
  shows "keeps rooms_executions (session_state_event E s)"
proof -
  have "keeps rooms_executions (te_reconcile E (das_public s) now)" for now
    using assms by (auto simp: reconcile_frame_def keeps_def rooms_executions_def)
  then show ?thesis unfolding session_state_event_def by (intro keeps_intros)
qed

lemma keeps_re_floor_pick [keeps_intros]: "keeps rooms_executions (floor_pick E settings e cs)"
  unfolding floor_pick_def Let_def by (intro keeps_intros)

lemma keeps_re_ordered [keeps_intros]: "keeps rooms_executions (ordered_targets E settings e ss)"
  unfolding ordered_targets_def Let_def by (auto split: option.splits intro!: keeps_intros)

lemma keeps_re_queue [keeps_intros]: "keeps rooms_executions (queue_input E e target)"
  unfolding queue_input_def by (intro keeps_intros)

lemma keeps_re_route [keeps_intros]: "keeps rooms_executions (route_message E settings e)"
  unfolding route_message_def by (intro keeps_intros)

lemma keeps_re_survey [keeps_intros]:
  "keeps rooms_executions (survey_session E room s)" "keeps rooms_executions (clear_schedule_request E s)"
  unfolding survey_session_def clear_schedule_request_def is_available_def
  by (intro keeps_intros; auto split: list.splits intro!: keeps_intros)+

text \<open>An execution that can no longer be ended by the provider.\<close>

definition execution_over :: "rstr \<times> rstr \<times> int \<Rightarrow> 'x turn_db \<Rightarrow> bool" where
  "execution_over k db \<longleftrightarrow> (\<exists>row. om_get (db_executions db) k = Some row \<and> pte_phase row \<notin> {Start_Dispatching, Running})"

lemma over_of_keeps: "keeps rooms_executions m \<Longrightarrow> preserves (execution_over k) m"
  using keeps_preserves [of rooms_executions m
      "\<lambda>v. \<exists>row. om_get (snd v) k = Some row \<and> pte_phase row \<notin> {Start_Dispatching, Running}"]
  by (simp add: execution_over_def [abs_def] rooms_executions_def)

lemmas over_kept [ok_intros] =
  keeps_re_draws [THEN over_of_keeps] keeps_re_save [THEN over_of_keeps] keeps_re_insert_event [THEN over_of_keeps]
  keeps_re_events [THEN over_of_keeps] keeps_re_turn_events [THEN over_of_keeps]
  keeps_re_session_state [THEN over_of_keeps] keeps_re_route [THEN over_of_keeps] keeps_re_survey [THEN over_of_keeps]

lemma over_insert_execution [ok_intros]: "preserves (execution_over k) (insert_assigned_execution E s ti a)"
proof -
  have "preserves (execution_over k) (\<lambda>db. rbind (ensure (om_get (db_executions db) q = None \<and> c db) Database_Error) (\<lambda>_.
      Ok (row, db\<lparr>db_executions := om_insert q row (db_executions db)\<rparr>)))" for q c row
    by (auto simp: preserves_def execution_over_def)
  then show ?thesis unfolding insert_assigned_execution_def Let_def by (intro ok_intros)
qed

lemma over_prepare [ok_intros]: "reconcile_frame E \<Longrightarrow> preserves (execution_over k) (prepare_assignment E room settings s)"
  unfolding prepare_assignment_def Let_def
  by (intro ok_intros)

lemma over_assign [ok_intros]: "reconcile_frame E \<Longrightarrow> preserves (execution_over k) (assign_available_pending E room settings)"
  unfolding assign_available_pending_def Let_def
  by (intro ok_intros)


text \<open>What a transaction brings about, and what it needs.\<close>

definition establishes :: "('s \<Rightarrow> bool) \<Rightarrow> ('s, 'a) tx \<Rightarrow> bool" where
  "establishes P m \<longleftrightarrow> (\<forall>s r. m s = Inr r \<longrightarrow> P (snd r))"

definition requires :: "('s \<Rightarrow> bool) \<Rightarrow> ('s, 'a) tx \<Rightarrow> bool" where
  "requires P m \<longleftrightarrow> (\<forall>s r. m s = Inr r \<longrightarrow> P s)"

lemma establishes_later: "(\<And>y. establishes P (f y)) \<Longrightarrow> establishes P (tx_bind m f)"
  by (fastforce simp: establishes_def)

lemma establishes_now: "establishes P m \<Longrightarrow> (\<And>y. preserves P (f y)) \<Longrightarrow> establishes P (tx_bind m f)"
  by (fastforce simp: establishes_def preserves_def)

lemma establishes_prod: "(\<And>a b. establishes P (f a b)) \<Longrightarrow> establishes P (case p of (a, b) \<Rightarrow> f a b)"
  by (cases p) simp

lemma requires_later:
  "(\<And>y. requires P (f y)) \<Longrightarrow> requires P (tx_bind (tx_read q) f)" "(\<And>y. requires P (f y)) \<Longrightarrow> requires P (tx_bind (tx_try c) f)"
  by (auto simp: requires_def)

lemma requires_now: "requires P m \<Longrightarrow> requires P (tx_bind m f)"
  by (fastforce simp: requires_def)

lemma requires_prod: "(\<And>a b. requires P (f a b)) \<Longrightarrow> requires P (case p of (a, b) \<Rightarrow> f a b)"
  by (cases p) simp

definition execution_key :: "provider_turn_authority \<Rightarrow> rstr \<times> rstr \<times> int" where
  "execution_key a = (pta_room_id a, pta_session_id a, uint (pta_turn_generation a))"

lemma terminalize_over: "ph \<in> {Completed, Declined, Failed} \<Longrightarrow> establishes (execution_over (execution_key a)) (terminalize_ordinary_execution s a ph)"
  unfolding establishes_def terminalize_ordinary_execution_def Let_def
  by (auto simp: execution_over_def execution_key_def generation_i64_def split: option.splits if_splits)

lemma terminalize_needs: "requires (\<lambda>db. \<not> execution_over (execution_key a) db) (terminalize_ordinary_execution s a ph)"
  unfolding requires_def terminalize_ordinary_execution_def Let_def
  by (auto simp: execution_over_def execution_key_def generation_i64_def ordinary_execution_matches_def split: option.splits if_splits)

lemma over_finalization [ok_intros]: "reconcile_frame E \<Longrightarrow> preserves (execution_over k) (apply_finalization E F s es)"
proof -
  assume frame: "reconcile_frame E"
  have "preserves (execution_over k) (apply_disposition E ti d s es)" for ti d
    unfolding apply_disposition_def by (cases d) (auto intro!: ok_intros)
  moreover have "preserves (execution_over k) (route_first E settings route es)" for settings route es
    unfolding route_first_def by (cases es) (auto intro!: ok_intros)
  ultimately show ?thesis
    unfolding apply_finalization_def Let_def
    by (intro ok_intros frame)
qed

text \<open>A provider ends its turn in one of three ways.\<close>

datatype turn_end =
  Publish rstr rstr
| Refuse rstr
| Give_Up rstr rstr "(rstr \<times> rstr \<times> rstr) option"

fun end_turn ::
  "'x turn_env \<Rightarrow> (rstr \<Rightarrow> nat \<Rightarrow> rstr) \<Rightarrow> rstr \<Rightarrow> rstr \<Rightarrow> provider_turn_authority \<Rightarrow> turn_end \<Rightarrow> ('x turn_db, agent_turn_commit) tx" where
  "end_turn E redact rid sid a (Publish content target) = complete_message E rid sid a content target"
| "end_turn E redact rid sid a (Refuse reason) = decline E rid sid a reason"
| "end_turn E redact rid sid a (Give_Up code m stop) = fail E redact rid sid a code m stop"

lemma end_turn_over:
  assumes frame: "reconcile_frame E"
  shows "establishes (execution_over (execution_key a)) (end_turn E redact rid sid a how)"
  by (cases how; simp add: complete_message_def decline_def fail_def Let_def)
    (intro establishes_now [OF terminalize_over] establishes_later establishes_prod ok_intros frame; simp)+


lemma end_turn_needs: "requires (\<lambda>db. \<not> execution_over (execution_key a) db) (end_turn E redact rid sid a how)"
  by (cases how; simp add: complete_message_def decline_def fail_def Let_def)
    (intro requires_now [OF terminalize_needs] requires_later requires_prod)+

section \<open>What the ends of a turn do to the queues\<close>

text \<open>Adding a message for a set of sessions, as a function of the queues.\<close>

definition add_input ::
  "rstr \<Rightarrow> room_input_delivery_kind \<Rightarrow> (rstr \<times> rstr) set \<Rightarrow> (rstr \<times> rstr \<Rightarrow> queued_room_input list option)
     \<Rightarrow> rstr \<times> rstr \<Rightarrow> queued_room_input list option" where
  "add_input i kind K q k =
     (if k \<in> K then map_option (\<lambda>is. if i \<in> qi_event_id ` set is then is else is @ [\<lparr>qi_event_id = i, qi_delivery_kind = kind\<rparr>]) (q k)
      else q k)"

lemma with_input_add: "with_input db i kind K = add_input i kind K (inputs_of db)"
proof
  show "with_input db i kind K k = add_input i kind K (inputs_of db) k" for k
    by (cases "inputs_of db k") (auto simp: with_input_def add_input_def has_input_def)
qed

lemma add_input_none [simp]: "add_input i kind {} q = q"
  by (auto simp: fun_eq_iff add_input_def)

lemma save_cleared:
  assumes "save_session t db = Ok ((), db')" "active_turn_authority t = Some False"
  shows "inputs_of db' = (inputs_of db)(key_of t \<mapsto> session_inputs t)" "active_sessions db' = active_sessions db - {key_of t}"
    "om_get (db_sessions db') (key_of t) = Some t"
proof -
  have up: "db_sessions db' = om_insert (key_of t) t (db_sessions db)" using assms(1) by (auto simp: save_session_Ok)
  then show "inputs_of db' = (inputs_of db)(key_of t \<mapsto> session_inputs t)" by (auto simp: inputs_of_def)
  show "active_sessions db' = active_sessions db - {key_of t}" using active_sessions_insert [OF up] assms(2) by simp
  show "om_get (db_sessions db') (key_of t) = Some t" using up by simp
qed

lemma same_sessions: "db_sessions db' = db_sessions db \<Longrightarrow> inputs_of db' = inputs_of db \<and> active_sessions db' = active_sessions db"
  by (auto simp: inputs_of_def active_sessions_def)

lemma keeps_end_events [keeps_intros]:
  "keeps db_sessions (turn_finished_event E s ti st pi rc)" "keeps db_sessions (error_event E s ti ec m)"
  "keeps db_sessions (agent_final_event E s ti pj si ct tg)"
  unfolding turn_finished_event_def error_event_def agent_final_event_def Let_def by (intro keeps_intros)+

lemma tx_ok_end_events [ok_intros]:
  "tx_ok (turn_finished_event E s ti st pi rc)" "tx_ok (error_event E s ti ec m)"
  "tx_ok (agent_final_event E s ti pj si ct tg)"
  unfolding turn_finished_event_def error_event_def agent_final_event_def Let_def by (intro ok_intros)+

definition next_keys :: "agent_turn_commit \<Rightarrow> (rstr \<times> rstr) set" where
  "next_keys c = (key_of \<circ> ata_session) ` set (atc_next_assignments c)"

lemma next_keys_commit [simp]: "next_keys (commit_of es ps) = assigned_keys ps"
  by (force simp: next_keys_def commit_of_def assigned_keys_def)

text \<open>The floor of an ordered room, before and after the turn of one session has ended.\<close>

definition floor_passed :: "rstr \<Rightarrow> rstr \<times> rstr \<Rightarrow> 'x turn_db \<Rightarrow> 'x turn_db \<Rightarrow> bool" where
  "floor_passed rid k db db' \<longleftrightarrow>
     active_in rid db' = active_in rid db - {k} \<or> active_in rid db \<subseteq> {k} \<and> (\<exists>k'. active_in rid db' = {k'})"

lemma assign_after_clear:
  assumes "reconcile_frame E" "turn_db_ok db1" "assign_available_pending E room settings db1 = Ok (ps, db')"
    and "inputs_of db1 = q" "active_sessions db1 = active_sessions db - {k}"
  shows "inputs_of db' = q" "active_sessions db' = (active_sessions db - {k}) \<union> assigned_keys ps" "turn_db_ok db'"
    "fst ` assigned_keys ps \<subseteq> {room_id room}"
    "rs_conversation_mode settings = str ''ordered'' \<Longrightarrow> floor_passed (room_id room) k db db'"
proof -
  note eff = assign_effect [OF assms(1-3)]
  show "inputs_of db' = q" "active_sessions db' = (active_sessions db - {k}) \<union> assigned_keys ps"
    "fst ` assigned_keys ps \<subseteq> {room_id room}" using eff assms(4,5) by auto
  show "turn_db_ok db'" using tx_okD [OF assign_available_ok [OF assms(1)] assms(3,2)] .
  assume ordered: "rs_conversation_mode settings = str ''ordered''"
  show "floor_passed (room_id room) k db db'"
  proof (cases ps)
    case Nil
    then show ?thesis using eff assms(5) by (auto simp: floor_passed_def active_in_def assigned_keys_def)
  next
    case (Cons p qs)
    then have "ps = [p]" "active_in (room_id room) db1 = {}" using eff ordered by auto
    moreover have "active_in (room_id room) db' = active_in (room_id room) db1 \<union> assigned_keys ps"
      using eff by (auto simp: active_in_def)
    moreover have "active_in (room_id room) db1 = active_in (room_id room) db - {k}"
      using assms(5) by (auto simp: active_in_def)
    ultimately have "active_in (room_id room) db \<subseteq> {k}" "active_in (room_id room) db' = {key_of (ata_session (pa_assignment p))}"
      by (auto simp: assigned_keys_def)
    then show ?thesis by (auto simp: floor_passed_def)
  qed
qed


lemma complete_session_facts:
  assumes "active_turn_authority s = Some True" "t = complete_session_state now i n s"
  shows "active_turn_authority t = Some False" "session_inputs t = das_pending_inputs s" "key_of t = key_of s"
    "as_participant_id (das_public t) = as_participant_id (das_public s)"
  using complete_clears [OF assms(1)] assms(2)
  by (simp_all add: session_inputs_def key_of_def complete_session_state_def clear_active_turn_fields_def)

lemma tx_ok_route [ok_intros]: "tx_ok (route_message E settings e)"
proof -
  have "tx_ok (floor_pick E settings e cs)" for cs
    unfolding floor_pick_def Let_def by (intro ok_intros)
  then have "tx_ok (ordered_targets E settings e ss)" for ss
    unfolding ordered_targets_def Let_def by (auto split: option.splits intro!: ok_intros)
  moreover have "tx_ok (queue_input E e target)" for target
    unfolding queue_input_def by (intro ok_intros)
  ultimately show ?thesis unfolding route_message_def by (intro ok_intros)
qed

lemma route_after_clear:
  assumes "turn_db_ok db" "om_get (db_sessions db) (key_of t) = Some t" "ev_id e \<noteq> []"
    and "actor_participant_id (ev_actor e) = as_participant_id (das_public t)"
    and "route_message E settings e db = Ok ((), db')"
  shows "\<exists>K kind. inputs_of db' = add_input (ev_id e) kind K (inputs_of db) \<and> active_sessions db' = active_sessions db
      \<and> key_of t \<notin> K \<and> (rs_conversation_mode settings = str ''ordered'' \<longrightarrow> (\<exists>k. K \<subseteq> {k})) \<and> turn_db_ok db'"
proof -
  obtain K kind where K: "inputs_of db' = with_input db (ev_id e) kind K" "active_sessions db' = active_sessions db"
    "\<forall>k \<in> K. \<exists>s. om_get (db_sessions db) k = Some s \<and> \<not> is_actor s e"
    "rs_conversation_mode settings = str ''ordered'' \<longrightarrow> (\<exists>k. K \<subseteq> {k})"
    using route_effect [OF assms(1,3,5)] by blast
  have "key_of t \<notin> K" using K(3) assms(2,4) by (force simp: is_actor_def)
  with K tx_okD [OF tx_ok_route assms(5,1)] show ?thesis by (auto simp: with_input_add)
qed

lemma finalization_effect:
  assumes frame: "reconcile_frame E" and ok: "turn_db_ok db" and act: "active_turn_authority s = Some True"
    and run: "apply_finalization E F s es db = Ok (c, db')"
    and route: "ptf_disposition F = Disposition_Completed True \<longrightarrow>
      (\<exists>e es'. es = e # es' \<and> ev_id e \<noteq> [] \<and> actor_participant_id (ev_actor e) = as_participant_id (das_public s))"
  shows "\<exists>K kind. inputs_of db' = add_input (ev_id (hd es)) kind K ((inputs_of db)(key_of s \<mapsto> das_pending_inputs s))
      \<and> key_of s \<notin> K \<and> (ptf_disposition F \<noteq> Disposition_Completed True \<longrightarrow> K = {})
      \<and> (rs_conversation_mode (ptf_settings F) = str ''ordered'' \<longrightarrow> (\<exists>k. K \<subseteq> {k}))"
    and "active_sessions db' = (active_sessions db - {key_of s}) \<union> next_keys c"
    and "turn_db_ok db'" "fst ` next_keys c \<subseteq> {room_id (ptf_room F)}"
    and "rs_conversation_mode (ptf_settings F) = str ''ordered'' \<longrightarrow> floor_passed (room_id (ptf_room F)) (key_of s) db db'"
proof -
  obtain st rc rt es1 db1 fin db2 now db3 where d: "apply_disposition E (ptf_turn_id F) (ptf_disposition F) s es db = Ok ((st, rc, rt, es1), db1)"
    and f: "turn_finished_event E s (ptf_turn_id F) st (Some (ptf_provider_turn_id F)) rc db1 = Ok (fin, db2)"
    and n: "draw_now E db2 = Ok (now, db3)"
    using run by (auto simp: apply_finalization_def Let_def)
  define t where "t = complete_session_state now (das_input_up_to_event_id s) (das_input_up_to_seq s) s"
  note tf = complete_session_facts [OF act t_def]
  obtain db4 ev db5 db6 ps where sv: "save_session t db3 = Ok ((), db4)" and se: "session_state_event E t db4 = Ok (ev, db5)"
    and r: "route_first E (ptf_settings F) rt es1 db5 = Ok ((), db6)"
    and a: "assign_available_pending E (ptf_room F) (ptf_settings F) db6 = Ok (ps, db')"
    and c: "c = commit_of (es1 @ [fin, ev]) ps"
    using run d f n unfolding t_def by (auto simp: apply_finalization_def Let_def)
  have kd: "keeps db_sessions (apply_disposition E ti dp s es)" "tx_ok (apply_disposition E ti dp s es)" for ti dp
    unfolding apply_disposition_def by (cases dp; auto intro!: keeps_intros ok_intros)+
  have "db_sessions db3 = db_sessions db"
    using keepsD [OF kd(1) d] keepsD [OF keeps_end_events(1) f] keepsD [OF keeps_draws(1) n] by simp
  note s3 = same_sessions [OF this]
  have ok3: "turn_db_ok db3"
    using tx_okD [OF kd(2) d ok] tx_okD [OF tx_ok_end_events(1) f] tx_okD [OF tx_ok_draws(1) n] by simp
  note s4 = save_cleared [OF sv tf(1)]
  have e5: "db_sessions db5 = db_sessions db4" using keepsD [OF keeps_session_state_event [OF frame] se] .
  note s5 = same_sessions [OF this]
  have ok5: "turn_db_ok db5"
    using tx_okD [OF tx_ok_events(3) [OF frame] se] tx_okD [OF tx_ok_save sv ok3] by simp
  have q5: "inputs_of db5 = (inputs_of db)(key_of s \<mapsto> das_pending_inputs s)" "active_sessions db5 = active_sessions db - {key_of s}"
    using s3 s4 s5 tf by auto
  let ?i = "ev_id (hd es)"
  have "\<exists>K kind. inputs_of db6 = add_input ?i kind K (inputs_of db5) \<and> active_sessions db6 = active_sessions db5
      \<and> key_of s \<notin> K \<and> (ptf_disposition F \<noteq> Disposition_Completed True \<longrightarrow> K = {})
      \<and> (rs_conversation_mode (ptf_settings F) = str ''ordered'' \<longrightarrow> (\<exists>k. K \<subseteq> {k})) \<and> turn_db_ok db6"
  proof (cases rt)
    case False
    with r have "db6 = db5" by (simp add: route_first_def)
    moreover have "ptf_disposition F \<noteq> Disposition_Completed True" using d False by (auto simp: apply_disposition_def)
    ultimately show ?thesis using ok5 by (intro exI [of _ "{}"]) simp
  next
    case True
    with d have "ptf_disposition F = Disposition_Completed True" "es1 = es"
      by (auto simp: apply_disposition_def split: provider_turn_disposition.splits)
    with route r True obtain e where "?i = ev_id e" "ev_id e \<noteq> []" "route_message E (ptf_settings F) e db5 = Ok ((), db6)"
      "actor_participant_id (ev_actor e) = as_participant_id (das_public t)" using tf(4) by (auto simp: route_first_def)
    with route_after_clear [OF ok5, of t e E "ptf_settings F" db6] s4(3) e5 tf(3) \<open>ptf_disposition F = _\<close> show ?thesis by simp
  qed
  then obtain K kind where K: "inputs_of db6 = add_input ?i kind K (inputs_of db5)" "active_sessions db6 = active_sessions db5"
    "key_of s \<notin> K" "ptf_disposition F \<noteq> Disposition_Completed True \<longrightarrow> K = {}"
    "rs_conversation_mode (ptf_settings F) = str ''ordered'' \<longrightarrow> (\<exists>k. K \<subseteq> {k})" "turn_db_ok db6" by blast
  note as = assign_after_clear [OF frame K(6) a refl, of db "key_of s"]
  show "\<exists>K kind. inputs_of db' = add_input ?i kind K ((inputs_of db)(key_of s \<mapsto> das_pending_inputs s))
      \<and> key_of s \<notin> K \<and> (ptf_disposition F \<noteq> Disposition_Completed True \<longrightarrow> K = {})
      \<and> (rs_conversation_mode (ptf_settings F) = str ''ordered'' \<longrightarrow> (\<exists>k. K \<subseteq> {k}))"
    using as(1) K q5 by (intro exI [of _ K] exI [of _ kind]) simp
  show "active_sessions db' = (active_sessions db - {key_of s}) \<union> next_keys c" "turn_db_ok db'"
    "fst ` next_keys c \<subseteq> {room_id (ptf_room F)}"
    "rs_conversation_mode (ptf_settings F) = str ''ordered'' \<longrightarrow> floor_passed (room_id (ptf_room F)) (key_of s) db db'"
    using as(2-5) K(2) q5(2) c by auto
qed


lemma terminalize_tables:
  assumes "terminalize_ordinary_execution s a ph db = Ok (u, db')"
  shows "\<exists>x. db' = db\<lparr>db_executions := x\<rparr>"
  using assms by (auto simp: terminalize_ordinary_execution_def Let_def split: option.splits if_splits)

lemma terminalize_frame:
  "keeps db_sessions (terminalize_ordinary_execution s a ph)" "tx_ok (terminalize_ordinary_execution s a ph)"
  unfolding keeps_def preserves_def using terminalize_tables [of s a ph] by (fastforce simp: turn_db_ok_def)+

lemma uuid_string_nonempty: "uuid_string u \<noteq> []"
proof -
  have "length (uuid_simple u) \<ge> 32" by (simp add: uuid_simple_def Let_def)
  then obtain c cs where "uuid_simple u = c # cs" by (cases "uuid_simple u") auto
  then show ?thesis by (simp add: uuid_string_def hyphenate_def)
qed

lemma agent_final_event_facts:
  "agent_final_event E s ti pj si ct tg db = Ok (e, db') \<Longrightarrow>
     ev_id e \<noteq> [] \<and> actor_participant_id (ev_actor e) = as_participant_id (das_public s) \<and> ev_content e = Some ct"
  by (auto simp: agent_final_event_def Let_def uuid_string_nonempty)

text \<open>The authority of a turn depends on these fields only.\<close>

lemma authority_cong:
  assumes "as_active_turn_id (das_public t) = as_active_turn_id (das_public s)"
    "as_runtime_status (das_public t) = as_runtime_status (das_public s)"
    "as_turn_phase (das_public t) = as_turn_phase (das_public s)"
    "das_inflight_inputs t = das_inflight_inputs s" "das_pending_inputs t = das_pending_inputs s"
    "das_active_source_event_id t = das_active_source_event_id s"
    "das_input_up_to_event_id t = das_input_up_to_event_id s" "das_input_up_to_seq t = das_input_up_to_seq s"
  shows "active_turn_authority t = active_turn_authority s"
  by (simp add: assms active_turn_authority_def turn_is_active_def turn_is_clear_def)

lemma transition_facts:
  "apply_provider_session_transition psid s = Ok t \<Longrightarrow>
     active_turn_authority t = active_turn_authority s \<and> key_of t = key_of s \<and> das_pending_inputs t = das_pending_inputs s"
  by (cases psid) (auto simp: apply_provider_session_transition_def key_of_def intro: authority_cong)

lemma require_active_Ok:
  "require_active_turn s ti = Ok () \<Longrightarrow> active_turn_authority s = Some True \<and> as_active_turn_id (das_public s) = ti"
  by (auto simp: require_active_turn_def Let_def split: if_splits)

lemma load_active_room_id: "load_active_room E rid db = Ok (room, settings) \<Longrightarrow> room_id room = rid"
  by (auto simp: load_active_room_def load_room_with_settings_def)

text \<open>The state after the turn of a session has ended: the session keeps a queue, other
  sessions may have received one more message, the next turns are those the commit reports,
  and an ordered room passes its floor.\<close>

definition turn_ended ::
  "rstr \<times> rstr \<Rightarrow> queued_room_input list \<Rightarrow> rstr \<Rightarrow> (rstr \<times> rstr) set \<Rightarrow> room_settings \<Rightarrow> agent_turn_commit
     \<Rightarrow> 'x turn_db \<Rightarrow> 'x turn_db \<Rightarrow> bool" where
  "turn_ended k queue i K settings c db db' \<longleftrightarrow>
     (\<exists>kind. inputs_of db' = add_input i kind K ((inputs_of db)(k \<mapsto> queue))) \<and> k \<notin> K
     \<and> active_sessions db' = (active_sessions db - {k}) \<union> next_keys c
     \<and> fst ` next_keys c \<subseteq> {fst k} \<and> turn_db_ok db'
     \<and> (rs_conversation_mode settings = str ''ordered'' \<longrightarrow> floor_passed (fst k) k db db' \<and> (\<exists>k'. K \<subseteq> {k'}))"

lemma ended_by_finalization:
  assumes frame: "reconcile_frame E" and ok: "turn_db_ok db2" and same: "db_sessions db2 = db_sessions db"
    and row: "om_get (db_sessions db) (rid, sid) = Some s" "key_of s = (rid, sid)" and act: "active_turn_authority s = Some True"
    and t: "apply_provider_session_transition psid s = Ok t" and fin: "apply_finalization E F t es db2 = Ok (c, db')"
    and room: "room_id (ptf_room F) = rid"
    and route: "ptf_disposition F = Disposition_Completed True \<longrightarrow>
      (\<exists>e es'. es = e # es' \<and> ev_id e \<noteq> [] \<and> actor_participant_id (ev_actor e) = as_participant_id (das_public t))"
  shows "\<exists>K. turn_ended (rid, sid) (das_pending_inputs s) (ev_id (hd es)) K (ptf_settings F) c db db'
    \<and> (ptf_disposition F \<noteq> Disposition_Completed True \<longrightarrow> K = {})"
proof -
  note tt = transition_facts [OF t]
  have aT: "active_turn_authority t = Some True" using tt act by simp
  note eff = finalization_effect [OF frame ok aT fin route]
  have fl: "floor_passed r k db2 db' = floor_passed r k db db'" for r k
    using same_sessions [OF same] by (simp add: floor_passed_def active_in_def)
  obtain K kind where K: "inputs_of db' = add_input (ev_id (hd es)) kind K ((inputs_of db2)(key_of t \<mapsto> das_pending_inputs t))"
    "key_of t \<notin> K" "ptf_disposition F \<noteq> Disposition_Completed True \<longrightarrow> K = {}"
    "rs_conversation_mode (ptf_settings F) = str ''ordered'' \<longrightarrow> (\<exists>k. K \<subseteq> {k})" using eff(1) by blast
  have "turn_ended (rid, sid) (das_pending_inputs s) (ev_id (hd es)) K (ptf_settings F) c db db'"
    unfolding turn_ended_def using K eff(2-5) same_sessions [OF same] fl row tt room by auto
  with K(3) show ?thesis by blast
qed

lemma complete_message_effect:
  assumes frame: "reconcile_frame E" and ok: "turn_db_ok db"
    and run: "complete_message E rid sid a content target db = Ok (c, db')"
  shows "\<exists>room settings s e K. load_active_room E rid db = Ok (room, settings) \<and> om_get (db_sessions db) (rid, sid) = Some s
    \<and> active_turn_authority s = Some True \<and> as_active_turn_id (das_public s) = pta_turn_id a
    \<and> hd (atc_events c) = e \<and> ev_content e = Some (clean_message content MAX_MESSAGE_CHARACTERS)
    \<and> turn_ended (rid, sid) (das_pending_inputs s) (ev_id e) K settings c db db'"
proof -
  obtain room settings s t db1 e db2 where room: "load_active_room E rid db = Ok (room, settings)"
    and s: "load_session rid sid db = Ok s" and req: "require_active_turn s (pta_turn_id a) = Ok ()"
    and tm: "terminalize_ordinary_execution s a Completed db = Ok ((), db1)"
    and t: "apply_provider_session_transition (pta_provider_session_id a) s = Ok t"
    and e: "agent_final_event E t (pta_turn_id a) (pta_provider_turn_id a) (das_active_source_event_id t)
              (clean_message content MAX_MESSAGE_CHARACTERS) target db1 = Ok (e, db2)"
    and fin: "apply_finalization E \<lparr>ptf_room = room, ptf_settings = settings, ptf_turn_id = pta_turn_id a,
        ptf_provider_turn_id = pta_provider_turn_id a, ptf_disposition = Disposition_Completed True\<rparr> t [e] db2 = Ok (c, db')"
    using run by (auto simp: complete_message_def Let_def)
  note row = load_session_row [OF s] and act = require_active_Ok [OF req] and ef = agent_final_event_facts [OF e]
  have same: "db_sessions db2 = db_sessions db"
    using keepsD [OF terminalize_frame(1) tm] keepsD [OF keeps_end_events(3) e] by simp
  have ok2: "turn_db_ok db2" using tx_okD [OF tx_ok_end_events(3) e] tx_okD [OF terminalize_frame(2) tm ok] by simp
  have "hd (atc_events c) = e"
    using fin by (auto simp: apply_finalization_def apply_disposition_def commit_of_def Let_def)
  moreover obtain K where "turn_ended (rid, sid) (das_pending_inputs s) (ev_id e) K settings c db db'"
    using ended_by_finalization [OF frame ok2 same _ _ _ t fin] row act load_active_room_id [OF room] ef by auto
  ultimately show ?thesis using room row act ef by blast
qed

lemma decline_effect:
  assumes frame: "reconcile_frame E" and ok: "turn_db_ok db" and run: "decline E rid sid a reason db = Ok (c, db')"
  shows "\<exists>room settings s. load_active_room E rid db = Ok (room, settings) \<and> om_get (db_sessions db) (rid, sid) = Some s
    \<and> active_turn_authority s = Some True \<and> as_active_turn_id (das_public s) = pta_turn_id a
    \<and> turn_ended (rid, sid) (das_pending_inputs s) [] {} settings c db db'"
proof -
  obtain room settings s t db1 where room: "load_active_room E rid db = Ok (room, settings)"
    and s: "load_session rid sid db = Ok s" and req: "require_active_turn s (pta_turn_id a) = Ok ()"
    and tm: "terminalize_ordinary_execution s a Declined db = Ok ((), db1)"
    and t: "apply_provider_session_transition (pta_provider_session_id a) s = Ok t"
    and fin: "apply_finalization E \<lparr>ptf_room = room, ptf_settings = settings, ptf_turn_id = pta_turn_id a,
        ptf_provider_turn_id = pta_provider_turn_id a, ptf_disposition = Disposition_Declined reason\<rparr> t [] db1 = Ok (c, db')"
    using run by (auto simp: decline_def Let_def)
  note row = load_session_row [OF s] and act = require_active_Ok [OF req]
  have "turn_ended (rid, sid) (das_pending_inputs s) (ev_id (hd ([] :: room_event list))) {} settings c db db'"
    using ended_by_finalization [OF frame tx_okD [OF terminalize_frame(2) tm ok] keepsD [OF terminalize_frame(1) tm] _ _ _ t fin,
        of rid sid] row act load_active_room_id [OF room] by auto
  then have "turn_ended (rid, sid) (das_pending_inputs s) [] {} settings c db db'" by (simp add: turn_ended_def)
  with room row act show ?thesis by blast
qed

lemma release_facts:
  "release_stopped_runtime stop s = Ok t \<Longrightarrow>
     active_turn_authority t = active_turn_authority s \<and> key_of t = key_of s \<and> session_inputs t = session_inputs s"
  by (cases stop) (auto simp: release_stopped_runtime_def key_of_def session_inputs_def intro: authority_cong split: prod.splits)

text \<open>The messages that have been deleted.\<close>

definition is_deleted :: "room_event \<Rightarrow> bool" where
  "is_deleted e \<longleftrightarrow> om_get (ev_extra e) (str ''message_deleted'') = Some (Bool True)"

definition deleted_messages :: "'x turn_db \<Rightarrow> (rstr \<times> rstr) set" where
  "deleted_messages db = (\<lambda>row. (fst (fst row), ev_id (snd row))) ` {row \<in> set (db_events db). is_deleted (snd row)}"

lemma set_om_insert_new: "om_get m k = None \<Longrightarrow> set (om_insert k v m) = insert (k, v) (set m)"
  by (induction m) (auto simp: om_get_def split: if_splits)

lemma keeps_deleted_insert [keeps_intros]: "\<not> is_deleted e \<Longrightarrow> keeps deleted_messages (insert_event E e)"
  unfolding keeps_def insert_event_def by (auto simp: deleted_messages_def set_om_insert_new image_iff)

lemma keeps_deleted_draws [keeps_intros]: "keeps deleted_messages (draw_now E)" "keeps deleted_messages (draw_uuid E)"
  by (auto simp: keeps_def draw_now_def draw_uuid_def deleted_messages_def)

lemma keeps_deleted_internal:
  "om_get x (str ''message_deleted'') = None \<Longrightarrow> keeps deleted_messages (internal_event E s ty a c x)"
  unfolding internal_event_def Let_def by (intro keeps_intros) (simp add: is_deleted_def)

lemma keeps_deleted_end_events [keeps_intros]:
  "keeps deleted_messages (turn_finished_event E s ti st None None)" "keeps deleted_messages (error_event E s ti ec m)"
  unfolding turn_finished_event_def error_event_def by (intro keeps_deleted_internal; simp add: om_get_from present_def)+

lemma load_event_deleted:
  assumes "load_event rid i db = Ok (Some e)"
  shows "(rid, i) \<in> deleted_messages db \<longleftrightarrow> is_deleted e"
proof -
  let ?rows = "filter (\<lambda>row. fst (fst row) = rid \<and> ev_id (snd row) = i) (db_events db)"
  have "?rows = [((rid, ev_seq e), e)]"
  proof (cases ?rows)
    case (Cons row rest)
    moreover have "rest = []" using assms Cons by (cases rest) (simp_all add: load_event_def)
    moreover have "row \<in> set ?rows" using Cons by simp
    then have "fst (fst row) = rid" by simp
    ultimately show ?thesis using assms by (cases row) (auto simp: load_event_def)
  qed (use assms in \<open>simp add: load_event_def\<close>)
  then have "set ?rows = {((rid, ev_seq e), e)}" by simp
  then show ?thesis by (force simp: deleted_messages_def)
qed

lemma merged_queue_facts:
  assumes "merged_turn_queue s db = Ok r"
  shows "r = filter (\<lambda>i. (as_room_id (das_public s), qi_event_id i) \<notin> deleted_messages db) (session_inputs s)" "canonical_queue r"
proof -
  let ?rid = "as_room_id (das_public s)"
  obtain kept where c: "canonical_queue (session_inputs s)" and r: "r = concat kept"
    and all: "list_all2 (\<lambda>i ks. \<exists>found. load_event ?rid (qi_event_id i) db = Ok found \<and> (\<exists>e. found = Some e \<and>
        (if om_get (ev_extra e) (str ''message_deleted'') \<noteq> Some (Bool True) then [i] else []) = ks)) (session_inputs s) kept"
    using assms by (auto simp: merged_turn_queue_def traverse_Ok_iff merge_room_inputs_Some session_inputs_def)
  from all have "concat kept = filter (\<lambda>i. (?rid, qi_event_id i) \<notin> deleted_messages db) (session_inputs s)"
    by (induction rule: list_all2_induct) (auto simp: load_event_deleted is_deleted_def)
  with r show "r = filter (\<lambda>i. (?rid, qi_event_id i) \<notin> deleted_messages db) (session_inputs s)" by simp
  then show "canonical_queue r" using c le_trans [OF length_filter_le, of "session_inputs s" 256]
    by (auto simp: canonical_queue_def distinct_map inj_on_def)
qed

lemma fail_effect:
  assumes frame: "reconcile_frame E" and ok: "turn_db_ok db" and run: "fail E redact rid sid a code m stop db = Ok (c, db')"
  shows "\<exists>room settings s. load_active_room E rid db = Ok (room, settings) \<and> om_get (db_sessions db) (rid, sid) = Some s
    \<and> active_turn_authority s = Some True \<and> as_active_turn_id (das_public s) = pta_turn_id a
    \<and> turn_ended (rid, sid) (filter (\<lambda>i. (rid, qi_event_id i) \<notin> deleted_messages db) (session_inputs s)) [] {} settings c db db'"
proof -
  obtain room settings s t db1 e1 db2 e2 db3 restored now db4 where room: "load_active_room E rid db = Ok (room, settings)"
    and s: "load_session rid sid db = Ok s" and req: "require_active_turn s (pta_turn_id a) = Ok ()"
    and tm: "terminalize_ordinary_execution s a Failed db = Ok ((), db1)"
    and t: "release_stopped_runtime stop s = Ok t"
    and e1: "error_event E t (pta_turn_id a) (public_error_code code) (fail_message (te_unicode E) redact m) db1 = Ok (e1, db2)"
    and e2: "turn_finished_event E t (pta_turn_id a) ''error'' None None db2 = Ok (e2, db3)"
    and mq: "merged_turn_queue t db3 = Ok restored" and n: "draw_now E db3 = Ok (now, db4)"
    using run by (auto simp: fail_def Let_def)
  define u where "u = fail_session_state now restored (fail_message (te_unicode E) redact m) (public_error_code code) t"
  obtain db5 ev db6 ps where sv: "save_session u db4 = Ok ((), db5)" and se: "session_state_event E u db5 = Ok (ev, db6)"
    and as: "assign_available_pending E room settings db6 = Ok (ps, db')" and c: "c = commit_of [e1, e2, ev] ps"
    using run room s req tm t e1 e2 mq n unfolding u_def by (auto simp: fail_def Let_def)
  note row = load_session_row [OF s] and act = require_active_Ok [OF req] and tt = release_facts [OF t] and mf = merged_queue_facts [OF mq]
  have u: "active_turn_authority u = Some False" "session_inputs u = restored" "key_of u = (rid, sid)"
    using fail_clears [OF mf(2)] tt row by (simp_all add: u_def key_of_def fail_session_state_def clear_active_turn_fields_def)
  have same: "db_sessions db4 = db_sessions db" "db_sessions db6 = db_sessions db5"
    using keepsD [OF terminalize_frame(1) tm] keepsD [OF keeps_end_events(2) e1] keepsD [OF keeps_end_events(1) e2]
      keepsD [OF keeps_draws(1) n] keepsD [OF keeps_session_state_event [OF frame] se] by simp_all
  have ok4: "turn_db_ok db4"
    using tx_okD [OF terminalize_frame(2) tm ok] tx_okD [OF tx_ok_end_events(2) e1] tx_okD [OF tx_ok_end_events(1) e2]
      tx_okD [OF tx_ok_draws(1) n] by simp
  have ok6: "turn_db_ok db6" using tx_okD [OF tx_ok_events(3) [OF frame] se tx_okD [OF tx_ok_save sv ok4]] .
  note s5 = save_cleared [OF sv u(1)]
  have "inputs_of db6 = (inputs_of db)((rid, sid) \<mapsto> restored)" "active_sessions db6 = active_sessions db - {(rid, sid)}"
    using s5 same_sessions [OF same(1)] same_sessions [OF same(2)] u by auto
  note fin = assign_after_clear [OF frame ok6 as this]
  have "turn_ended (rid, sid) restored [] {} settings c db db'"
    unfolding turn_ended_def c using fin load_active_room_id [OF room] by auto
  moreover have "as_room_id (das_public t) = rid" using tt row by (simp add: key_of_def)
  moreover have "deleted_messages db1 = deleted_messages db" using terminalize_tables [OF tm] by (auto simp: deleted_messages_def)
  then have "deleted_messages db3 = deleted_messages db"
    using keepsD [OF keeps_deleted_end_events(2) e1] keepsD [OF keeps_deleted_end_events(1) e2] by simp
  ultimately show ?thesis using room row act mf(1) tt by auto
qed

end
