(* ===== verification/Turn_Ends.thy ===== *)
theory Turn_Ends
  imports Turn_Completion
begin

text \<open>
  What makes the ends of a turn correct: a turn ends at most once, its end moves the queues
  and the floor as the room's mode demands, and a turn can be ended while the runtime drains.
\<close>




section \<open>When an event can be appended\<close>

definition top_sequence :: "rstr \<Rightarrow> 'x turn_db \<Rightarrow> int" where
  "top_sequence rid db = Max (insert 0 (snd ` {k \<in> fst ` set (db_events db). fst k = rid}))"

lemma foldr_max: "foldr (\<lambda>x. max (f x)) xs (0 :: int) = Max (insert 0 (f ` set xs))"
proof (induction xs)
  case (Cons x xs)
  have "Max (insert 0 (f ` set (x # xs))) = Max (insert (f x) (insert 0 (f ` set xs)))" by (simp add: insert_commute)
  also have "\<dots> = max (f x) (Max (insert 0 (f ` set xs)))" by (rule Max_insert) auto
  finally show ?case using Cons.IH by simp
qed simp

lemma next_sequence_top:
  "next_sequence rid db = (if top_sequence rid db < i64_max then Ok (top_sequence rid db + 1) else Err Database_Error)"
proof -
  have "(\<lambda>row. snd (fst row)) ` set (filter (\<lambda>row. fst (fst row) = rid) (db_events db)) = snd ` {k \<in> fst ` set (db_events db). fst k = rid}"
    by force
  then show ?thesis by (simp add: next_sequence_def top_sequence_def foldr_max Let_def)
qed

lemma top_sequence_bounds:
  "0 \<le> top_sequence rid db" "((rid, n), e) \<in> set (db_events db) \<Longrightarrow> n \<le> top_sequence rid db"
  unfolding top_sequence_def by (rule Max_ge; force)+

lemma top_sequence_append [simp]:
  assumes "0 \<le> n" "top_sequence rid db \<le> n"
  shows "top_sequence rid (db\<lparr>db_events := om_insert (rid, n) e (db_events db), db_draws := d\<rparr>) = n"
proof -
  let ?S = "snd ` {k \<in> fst ` set (db_events db). fst k = rid}"
  have "{k \<in> insert (rid, n) (fst ` set (db_events db)). fst k = rid} = insert (rid, n) {k \<in> fst ` set (db_events db). fst k = rid}"
    by auto
  moreover have "Max (insert n (insert 0 ?S)) = max n (Max (insert 0 ?S))" by (rule Max_insert) auto
  ultimately show ?thesis using assms by (simp add: top_sequence_def om_insert_keys insert_commute)
qed

lemma quiet_index: "ev_type e = str ty \<Longrightarrow> ty \<notin> {''message_final'', ''channel_message_final''} \<Longrightarrow> index_room_message U e t = Ok t"
  by (auto simp: index_room_message_def searchable_room_message_def search_channel_def is_current_lobby_message_def CHANNEL_MESSAGE_EVENT_TYPE_def)

lemma insert_event_runs:
  assumes "ev_type e = str ty" "ty \<notin> {''message_final'', ''channel_message_final''}" "0 < ev_seq e"
    and "om_get (db_events db) (ev_room_id e, ev_seq e) = None" "db_rooms db (ev_room_id e) \<noteq> None"
  shows "insert_event E e db = Ok ((), db\<lparr>db_events := om_insert (ev_room_id e, ev_seq e) e (db_events db)\<rparr>)"
  using assms(3-5) quiet_index [OF assms(1,2)] by (simp add: insert_event_def ensure_def)

text \<open>An event that is not a message is appended whenever its room exists and has a sequence left.\<close>

lemma internal_event_runs:
  assumes "ty \<notin> {''message_final'', ''channel_message_final''}" "db_rooms db (as_room_id (das_public s)) \<noteq> None"
    and "top_sequence (as_room_id (das_public s)) db < i64_max"
  shows "\<exists>e. internal_event E s ty a c x db = Ok (e, db\<lparr>db_events := om_insert (as_room_id (das_public s),
     top_sequence (as_room_id (das_public s)) db + 1) e (db_events db), db_draws := Suc (Suc (db_draws db))\<rparr>)"
proof -
  let ?rid = "as_room_id (das_public s)"
  have new: "om_get (db_events db) (?rid, top_sequence ?rid db + 1) = None"
  proof (rule ccontr)
    assume "om_get (db_events db) (?rid, top_sequence ?rid db + 1) \<noteq> None"
    then obtain e where "((?rid, top_sequence ?rid db + 1), e) \<in> set (db_events db)" by (blast dest: om_get_in_set)
    from top_sequence_bounds(2) [OF this] show False by simp
  qed
  have top: "top_sequence ?rid (db\<lparr>db_draws := d\<rparr>) = top_sequence ?rid db" for d by (simp add: top_sequence_def)
  define pid where "pid = (if a then as_participant_id (das_public s) else str ''room-system'')"
  define pty where "pty = (if a then str ''agent'' else str ''system'')"
  define e where "e = \<lparr>ev_v = 1, ev_id = uuid_string (te_uuid E (db_draws db)), ev_seq = top_sequence ?rid db + 1,
            ev_created_at = te_now E (Suc (db_draws db)), ev_room_id = ?rid, ev_type = str ty,
            ev_actor = \<lparr>actor_participant_id = pid, actor_participant_type = pty\<rparr>,
            ev_participant_id = Some (as_participant_id (das_public s)), ev_participant_type = Some (str ''agent''),
            ev_actor_id = Some pid, ev_actor_type = Some pty, ev_display_name = Some (as_display_name (das_public s)),
            ev_content = c, ev_message_kind = (if ty = ''message_final'' then Some (str ''message'') else None), ev_extra = x\<rparr>"
  let ?db = "db\<lparr>db_draws := Suc (Suc (db_draws db))\<rparr>"
  have ins: "insert_event E e ?db = Ok ((), ?db\<lparr>db_events := om_insert (?rid, top_sequence ?rid db + 1) e (db_events db)\<rparr>)"
    using insert_event_runs [of e ty ?db E] assms(1,2) new top_sequence_bounds(1) [of ?rid db] by (simp add: e_def)
  have "internal_event E s ty a c x db = tx_bind (insert_event E e) (\<lambda>_. tx_return e) ?db"
    using assms(3) by (simp add: internal_event_def Let_def tx_bind_def draw_uuid_def draw_now_def tx_read_def
        next_sequence_top top e_def pid_def pty_def)
  with ins show ?thesis by (simp add: tx_bind_def tx_return_def)
qed

text \<open>No provider request is open, so closing them changes nothing.\<close>

definition reconcile_idle :: "'x turn_env \<Rightarrow> bool" where
  "reconcile_idle E \<longleftrightarrow> (\<forall>s now db. te_reconcile E s now db = Ok ((), db))"

lemma session_state_event_runs:
  assumes "reconcile_idle E" "db_rooms db (as_room_id (das_public s)) \<noteq> None" "top_sequence (as_room_id (das_public s)) db < i64_max"
  shows "\<exists>e evs. session_state_event E s db = Ok (e, db\<lparr>db_events := evs, db_draws := Suc (Suc (Suc (db_draws db)))\<rparr>)"
proof -
  let ?db = "db\<lparr>db_draws := db_draws db + 1\<rparr>"
  have "top_sequence (as_room_id (das_public s)) ?db = top_sequence (as_room_id (das_public s)) db" by (simp add: top_sequence_def)
  then obtain e evs where "internal_event E s ''agent_session_state'' False None (om_from
       [(str ''session_id'', String (as_session_id (das_public s))),
        (str ''runtime_status'', String (runtime_status_str (as_runtime_status (das_public s)))),
        (str ''agent_session'', te_session_json E (project_session_in E (das_public s) ?db))]) ?db
      = Ok (e, ?db\<lparr>db_events := evs, db_draws := Suc (Suc (db_draws ?db))\<rparr>)"
    using internal_event_runs [of "''agent_session_state''" ?db s E] assms(2,3) by fastforce
  with assms(1) show ?thesis
    by (auto simp: session_state_event_def tx_bind_def draw_now_def tx_read_def reconcile_idle_def)
qed

lemma finalization_while_draining:
  assumes idle: "reconcile_idle E" and drain: "restart_quiescing db"
    and row: "om_get (db_sessions db) (key_of s) \<noteq> None" and rm: "db_rooms db (as_room_id (das_public s)) \<noteq> None"
    and top: "top_sequence (as_room_id (das_public s)) db + 2 \<le> i64_max"
    and d: "ptf_disposition F = Disposition_Declined reason"
  shows "\<exists>c db'. apply_finalization E F s es db = Ok (c, db') \<and> atc_next_assignments c = []"
proof -
  let ?rid = "as_room_id (das_public s)"
  obtain f where f: "turn_finished_event E s (ptf_turn_id F) ''declined'' (Some (ptf_provider_turn_id F)) (Some reason) db
      = Ok (f, db\<lparr>db_events := om_insert (?rid, top_sequence ?rid db + 1) f (db_events db), db_draws := Suc (Suc (db_draws db))\<rparr>)"
    using internal_event_runs [of "''turn_finished''" db s E] rm top unfolding turn_finished_event_def by fastforce
  define now where "now = te_now E (Suc (Suc (db_draws db)))"
  define t where "t = complete_session_state now (das_input_up_to_event_id s) (das_input_up_to_seq s) s"
  have t: "key_of t = key_of s" "as_room_id (das_public t) = ?rid"
    by (simp_all add: t_def key_of_def complete_session_state_def clear_active_turn_fields_def)
  let ?db1 = "db\<lparr>db_events := om_insert (?rid, top_sequence ?rid db + 1) f (db_events db), db_draws := Suc (Suc (Suc (db_draws db)))\<rparr>"
  let ?db2 = "?db1\<lparr>db_sessions := om_insert (key_of s) t (db_sessions db)\<rparr>"
  have sv: "save_session t ?db1 = Ok ((), ?db2)" using row t(1) by (simp add: save_session_Ok)
  have "top_sequence ?rid ?db2 = top_sequence ?rid ?db1" by (simp add: top_sequence_def)
  then have "top_sequence ?rid ?db2 < i64_max" using top top_sequence_bounds(1) [of ?rid db] by simp
  with session_state_event_runs [OF idle, of ?db2 t] rm t(2) obtain e evs where
    st: "session_state_event E t ?db2 = Ok (e, ?db2\<lparr>db_events := evs, db_draws := Suc (Suc (Suc (db_draws ?db2)))\<rparr>)" by auto
  have q: "restart_quiescing (?db2\<lparr>db_events := evs, db_draws := Suc (Suc (Suc (db_draws ?db2)))\<rparr>)" using drain by (simp add: restart_quiescing_def)
  show ?thesis
    using f sv st q d unfolding t_def now_def
    by (simp add: apply_finalization_def apply_disposition_def Let_def tx_bind_def tx_return_def draw_now_def route_first_def
        assign_available_pending_def tx_read_def commit_of_def)
qed

lemma decline_while_draining:
  assumes "reconcile_idle E" "restart_quiescing db" "load_active_room E rid db = Ok (room, settings)"
    and "load_session rid sid db = Ok s" "require_active_turn s (pta_turn_id a) = Ok ()"
    and "\<not> isl (terminalize_ordinary_execution s a Declined db)" "validate_input_cursor s db = Ok ()"
    and "is_provider_turn_id (pta_provider_turn_id a)" "pta_provider_session_id a = None"
    and "reason \<in> {str ''nothing_useful_to_add'', str ''not_addressed'', str ''duplicate''}"
    and "top_sequence rid db + 2 \<le> i64_max"
  shows "\<exists>c db'. decline E rid sid a reason db = Ok (c, db') \<and> atc_next_assignments c = []
    \<and> execution_over (execution_key a) db' \<and> (turn_db_ok db \<longrightarrow> (rid, sid) \<notin> active_sessions db')"
proof -
  obtain x where tm: "terminalize_ordinary_execution s a Declined db = Ok ((), db\<lparr>db_executions := x\<rparr>)"
    using run_Ok [OF assms(6)] terminalize_tables by (metis (full_types) old.unit.exhaust)
  let ?db = "db\<lparr>db_executions := x\<rparr>"
  note row = load_session_row [OF assms(4)]
  have h: "validate_input_cursor s ?db = Ok ()" "restart_quiescing ?db" "top_sequence rid ?db = top_sequence rid db"
    using assms(2,7) by (simp_all add: validate_input_cursor_def load_event_def restart_quiescing_def top_sequence_def)
  have rid: "as_room_id (das_public s) = rid" using row by (simp add: key_of_def)
  have rm: "db_rooms db rid \<noteq> None" using assms(3) by (auto simp: load_active_room_def load_room_with_settings_def)
  obtain c db' where fin: "apply_finalization E \<lparr>ptf_room = room, ptf_settings = settings, ptf_turn_id = pta_turn_id a,
        ptf_provider_turn_id = pta_provider_turn_id a, ptf_disposition = Disposition_Declined reason\<rparr> s [] ?db = Ok (c, db')"
    "atc_next_assignments c = []"
    using finalization_while_draining [OF assms(1) h(2), of s "\<lparr>ptf_room = room, ptf_settings = settings, ptf_turn_id = pta_turn_id a,
        ptf_provider_turn_id = pta_provider_turn_id a, ptf_disposition = Disposition_Declined reason\<rparr>" reason "[]"]
      row rid rm assms(11) h(3) by auto
  have run: "decline E rid sid a reason db = Ok (c, db')"
    using assms(3-5,8-10) tm h(1) fin(1)
    by (simp add: decline_def tx_bind_def tx_read_def tx_try_def validate_identifier_def apply_provider_session_transition_def ensure_def)
  have frame: "reconcile_frame E" using assms(1) by (simp add: reconcile_idle_def reconcile_frame_def)
  have "execution_over (execution_key a) db'"
    using end_turn_over [OF frame, of a "\<lambda>m _. m" rid sid "Refuse reason"] run by (fastforce simp: establishes_def)
  moreover have "(rid, sid) \<notin> active_sessions db'" if "turn_db_ok db"
    using decline_effect [OF frame that run] fin(2) by (auto simp: turn_ended_def next_keys_def)
  ultimately show ?thesis using run fin(2) by blast
qed


section \<open>Witnesses\<close>

definition sample_authority :: provider_turn_authority where
  "sample_authority =
     \<lparr>pta_room_id = str ''main'', pta_session_id = str ''agent-1'', pta_turn_id = str ''turn-1'', pta_turn_generation = 1,
      pta_execution_id = str ''x1'', pta_start_dispatch_nonce = str ''n1'', pta_runtime_handle_id = str ''h'',
      pta_runtime_owner_id = str ''o'', pta_runtime_lease_token = str ''l'', pta_provider_turn_id = str ''p1'',
      pta_provider_session_id = None\<rparr>"

text \<open>The first session observes the first message and holds nothing else.\<close>

definition sample_turn_db :: "unit turn_db" where
  "sample_turn_db = sample_db
     \<lparr>db_sessions := [((str ''main'', str ''agent-1''),
           (sample_agent ''agent-1'' [])\<lparr>das_inflight_inputs := [\<lparr>qi_event_id = str ''e1'', qi_delivery_kind = Ordered_Observation\<rparr>],
              das_active_source_event_id := str ''e1'', das_input_up_to_event_id := str ''e1'', das_input_up_to_seq := 1,
              das_turn_generation := 1, das_runtime_handle_id := str ''h'', das_runtime_owner_id := str ''o'',
              das_runtime_lease_token := str ''l'',
              das_public := (das_public (sample_agent ''agent-1'' []))\<lparr>as_runtime_status := Runtime_Busy,
                as_turn_phase := Phase_Thinking, as_active_turn_id := str ''turn-1''\<rparr>\<rparr>)],
      db_executions := [((str ''main'', str ''agent-1'', 1),
         \<lparr>pte_execution_id = str ''x1'', pte_participant_id = str ''agent-1'', pte_turn_id = str ''turn-1'',
          pte_assignment = \<lparr>env_delivery_kind = Ordered_Observation, env_provider_input = [], env_room_view = [],
             env_attachment_ids = [], env_room_agent_ids = [], env_tabletop_tools = False\<rparr>,
          pte_phase = Running, pte_runtime_handle_id = str ''h'', pte_runtime_owner_id = str ''o'',
          pte_runtime_lease_token = str ''l'', pte_start_dispatch_nonce = str ''n1'', pte_provider_turn_id = [],
          pte_requeue_finalized = False\<rparr>)]\<rparr>"

definition sample_drain_db :: "unit turn_db" where
  "sample_drain_db = sample_turn_db\<lparr>db_restart := Some Restart_Quiescing\<rparr>"

definition sample_busy :: durable_agent_session where
  "sample_busy = projr (load_session (str ''main'') (str ''agent-1'') sample_drain_db)"

definition sample_found :: "room \<times> room_settings" where
  "sample_found = projr (load_active_room sample_env (str ''main'') sample_drain_db)"

lemma sample_drain:
  "reconcile_idle sample_env" "restart_quiescing sample_drain_db"
  "load_active_room sample_env (str ''main'') sample_drain_db = Ok (fst sample_found, snd sample_found)"
  "load_session (str ''main'') (str ''agent-1'') sample_drain_db = Ok sample_busy"
  "require_active_turn sample_busy (pta_turn_id sample_authority) = Ok ()"
  "\<not> isl (terminalize_ordinary_execution sample_busy sample_authority Declined sample_drain_db)"
  "validate_input_cursor sample_busy sample_drain_db = Ok ()"
  "is_provider_turn_id (pta_provider_turn_id sample_authority)" "pta_provider_session_id sample_authority = None"
  "top_sequence (str ''main'') sample_drain_db + 2 \<le> i64_max" "turn_db_ok sample_drain_db"
proof -
  show "reconcile_idle sample_env" by (simp add: reconcile_idle_def sample_env_def tx_return_def)
  have r: "\<not> isl (load_active_room sample_env (str ''main'') sample_drain_db)"
    and l: "\<not> isl (load_session (str ''main'') (str ''agent-1'') sample_drain_db)" by code_simp+
  show "load_active_room sample_env (str ''main'') sample_drain_db = Ok (fst sample_found, snd sample_found)"
    using run_Ok [OF r] by (simp add: sample_found_def)
  show "load_session (str ''main'') (str ''agent-1'') sample_drain_db = Ok sample_busy"
    using l by (cases "load_session (str ''main'') (str ''agent-1'') sample_drain_db") (simp_all add: sample_busy_def)
  show "restart_quiescing sample_drain_db" "require_active_turn sample_busy (pta_turn_id sample_authority) = Ok ()"
    "\<not> isl (terminalize_ordinary_execution sample_busy sample_authority Declined sample_drain_db)"
    "validate_input_cursor sample_busy sample_drain_db = Ok ()"
    "is_provider_turn_id (pta_provider_turn_id sample_authority)" "pta_provider_session_id sample_authority = None"
    "top_sequence (str ''main'') sample_drain_db + 2 \<le> i64_max" by code_simp+
  show "turn_db_ok sample_drain_db" unfolding turn_db_ok_def by code_simp
qed

lemma sample_declined:
  obtains c db' where "decline sample_env (str ''main'') (str ''agent-1'') sample_authority (str ''duplicate'') sample_drain_db = Ok (c, db')"
  using decline_while_draining [OF sample_drain(1-9) _ sample_drain(10), of "str ''duplicate''"] by auto




end
