(* ===== verification/Attachments.thy ===== *)
theory Attachments
  imports Turn_Ends
begin

text \<open>
  The custody of message attachments (persistence/message\_attachments.rs, with the storage
  quota of asset\_storage.rs, the raster validation of raster\_assets.rs and the membership
  checks of authority.rs): an upload is pending for one hour and for one user, a message binds
  its attachments to its event, and bytes are read only through a message that shows them.

  The tables of messages, votes and commands are one record; those of other modules are its
  last component. Decoding images and guessing types from file names belong to libraries and
  are functions of \<open>asset_env\<close>.
\<close>

section \<open>The tables of messages\<close>

datatype attachment_state = Attachment_Pending | Attachment_Bound

record attachment_row =
  at_room_id :: rstr
  at_pending_owner :: "rstr option"
  at_event_seq :: "int option"
  at_filename :: rstr
  at_content_type :: rstr
  at_content :: "8 word list"
  at_size :: int
  at_is_safe_image :: bool
  at_created_at :: int
  at_state :: attachment_state
  at_expires_at :: "int option"

record vote_row =
  vr_poll_seq :: int
  vr_tallies :: "64 word list"
  vr_total_votes :: int
  vr_manual_close_seq :: "int option"

record command_row =
  cr_action :: rstr
  cr_payload_hash :: rstr
  cr_result :: json

record 'y message_tables =
  mt_attachments :: "(rstr, attachment_row) omap"
  mt_votes :: "(rstr \<times> rstr, vote_row) omap"
  mt_ballots :: "(rstr \<times> rstr \<times> rstr, int) omap"
  mt_commands :: "rstr \<times> rstr \<times> rstr \<rightharpoonup> command_row"
  mt_pins :: "rstr \<times> rstr \<rightharpoonup> int \<times> int"
  mt_budgets :: "(rstr \<times> int, int \<times> int) omap"
  mt_rest :: 'y

type_synonym 'y room_db = "'y message_tables turn_db"
type_synonym 'y room_env = "'y message_tables turn_env"

definition tables :: "'y room_db \<Rightarrow> 'y message_tables" where "tables db = db_rest db"

definition with_tables :: "('y message_tables \<Rightarrow> 'y message_tables) \<Rightarrow> 'y room_db \<Rightarrow> 'y room_db" where
  "with_tables f db = db\<lparr>db_rest := f (db_rest db)\<rparr>"

section \<open>Membership\<close>

definition session_revoked :: persistence_error where
  "session_revoked = rejected ''session_revoked'' ''This room session has ended.''"

definition inactive_session_room :: persistence_error where
  "inactive_session_room = rejected ''room_inactive'' ''Closed or archived rooms do not accept active sessions.''"

definition load_room :: "rstr \<Rightarrow> 'x turn_db \<Rightarrow> persistence_error + room" where
  "load_room rid db =
     rbind (ok_or (db_rooms db rid) Room_Missing) (\<lambda>row.
     rbind (ensure (room_id (fst row) = rid) inactive_session_room) (\<lambda>_. Ok (fst row)))"

definition require_active_room :: "room \<Rightarrow> persistence_error + unit" where
  "require_active_room room = ensure (room_state room = Room_Active) inactive_session_room"

definition load_active_membership :: "rstr \<Rightarrow> rstr \<Rightarrow> 'x turn_db \<Rightarrow> persistence_error + room \<times> participant" where
  "load_active_membership rid participant_id db =
     rbind (load_room rid db) (\<lambda>room.
     rbind (require_active_room room) (\<lambda>_.
     rbind (ok_or (db_participants db (rid, participant_id)) Participant_Missing) (\<lambda>p.
     rbind (ensure (part_room_id p = rid \<and> part_id p = participant_id \<and> part_status p = Joined) session_revoked) (\<lambda>_.
     Ok (room, p)))))"

definition load_active_participant :: "rstr \<Rightarrow> rstr \<Rightarrow> 'x turn_db \<Rightarrow> persistence_error + participant" where
  "load_active_participant rid participant_id db =
     rbind (load_active_membership rid participant_id db) (\<lambda>found. Ok (snd found))"

definition active_room_for_principal :: "authenticated_principal \<Rightarrow> 'x turn_db \<Rightarrow> persistence_error + room" where
  "active_room_for_principal pr db =
     rbind (load_active_membership (pr_room_id pr) (pr_participant_id pr) db) (\<lambda>found. Ok (fst found))"

section \<open>Uploads\<close>

datatype image_format = Png | Jpeg | Gif | Web_P

record 'y asset_env =
  ae_image_format :: "8 word list \<Rightarrow> image_format option"
  ae_image_decode :: "8 word list \<Rightarrow> (nat \<times> nat) option"
  ae_mime_guess :: "rstr \<Rightarrow> rstr option"
  ae_known_user :: "rstr \<Rightarrow> 'y \<Rightarrow> bool"
  ae_other_assets :: "'y \<Rightarrow> int list"

definition invalid_image :: persistence_error where
  "invalid_image = rejected ''attachment_invalid_image'' ''Raster attachment bytes are not a valid bounded image.''"

definition safe_image_format :: "rstr \<Rightarrow> image_format option" where
  "safe_image_format content_type =
     (let kind = map ascii_lower (trim (hd (split_on (\<lambda>c. c = 59) content_type))) in
      if kind = str ''image/png'' then Some Png
      else if kind = str ''image/jpeg'' then Some Jpeg
      else if kind = str ''image/gif'' then Some Gif
      else if kind = str ''image/webp'' then Some Web_P
      else None)"

definition validate_pixels :: "nat \<times> nat \<Rightarrow> persistence_error + unit" where
  "validate_pixels dims =
     ensure (\<not> (fst dims = 0 \<or> snd dims = 0 \<or> fst dims > 4096 \<or> snd dims > 4096 \<or> fst dims * snd dims > 16 * 1024 * 1024))
       (rejected ''attachment_image_limits'' ''Raster attachment dimensions exceed the decode limits.'')"

definition validate_preserved_blocking ::
  "'y asset_env \<Rightarrow> image_format \<Rightarrow> 8 word list \<Rightarrow> persistence_error + 8 word list" where
  "validate_preserved_blocking A declared content =
     rbind (ok_or (ae_image_format A content) invalid_image) (\<lambda>detected.
     rbind (ensure (detected = declared)
              (rejected ''attachment_type_mismatch'' ''Raster attachment bytes do not match the declared image type.'')) (\<lambda>_.
     rbind (ok_or (ae_image_decode A content) invalid_image) (\<lambda>decoded.
     rbind (validate_pixels decoded) (\<lambda>_.
     Ok content))))"

definition validate_preserved_safe_raster ::
  "'y asset_env \<Rightarrow> rstr \<Rightarrow> 8 word list \<Rightarrow> persistence_error + 8 word list \<times> bool" where
  "validate_preserved_safe_raster A content_type content =
     (case safe_image_format content_type of
        None \<Rightarrow> Ok (content, False)
      | Some declared \<Rightarrow> rbind (validate_preserved_blocking A declared content) (\<lambda>content. Ok (content, True)))"

definition normalize_content_type :: "'y asset_env \<Rightarrow> rstr \<Rightarrow> rstr \<Rightarrow> rstr" where
  "normalize_content_type A v filename =
     (let candidate = map ascii_lower (trim (hd (split_on (\<lambda>c. c = 59) v))) in
      if byte_len candidate \<le> MAX_MESSAGE_ATTACHMENT_CONTENT_TYPE_BYTES \<and> valid_content_type candidate then candidate
      else unwrap_or (str ''application/octet-stream'') (ae_mime_guess A filename))"

record prepared_message_attachment =
  pma_filename :: rstr
  pma_content_type :: rstr
  pma_content :: "8 word list"
  pma_size :: int
  pma_is_safe_image :: bool

definition prepare_message_attachment ::
  "'y asset_env \<Rightarrow> rstr \<Rightarrow> rstr \<Rightarrow> 8 word list \<Rightarrow> persistence_error + prepared_message_attachment" where
  "prepare_message_attachment A filename content_type content =
     rbind (ensure (content \<noteq> [] \<and> length content \<le> MAX_ATTACHMENT_BYTES)
              (rejected ''attachment_too_large'' ''Message attachment must be between 1 byte and 10 MiB.'')) (\<lambda>_.
     let filename = canonical_message_attachment_filename filename;
         content_type = normalize_content_type A content_type filename in
     rbind (validate_preserved_safe_raster A content_type content) (\<lambda>(content, is_safe_image).
     Ok \<lparr>pma_filename = filename, pma_content_type = content_type, pma_content = content,
         pma_size = int (length content), pma_is_safe_image = is_safe_image\<rparr>))"

definition attachment_metadata :: "rstr \<Rightarrow> rstr \<Rightarrow> rstr \<Rightarrow> nat \<Rightarrow> bool \<Rightarrow> message_attachment_metadata" where
  "attachment_metadata i filename content_type n is_image =
     \<lparr>mam_id = i, mam_filename = filename, mam_content_type = content_type, mam_size = n, mam_is_image = is_image,
      mam_url = str ''/api/attachments/'' @ i @ str ''?view=1'',
      mam_download_url = str ''/api/attachments/'' @ i @ str ''?download=1''\<rparr>"

text \<open>The derived serialisation of metadata, and the extra field of a message with attachments.\<close>

definition encode_attachment :: "message_attachment_metadata \<Rightarrow> json" where
  "encode_attachment a = json_object
     [(str ''id'', String (mam_id a)), (str ''filename'', String (mam_filename a)),
      (str ''content_type'', String (mam_content_type a)), (str ''size'', Number (PosInt (of_nat (mam_size a)))),
      (str ''is_image'', Bool (mam_is_image a)), (str ''url'', String (mam_url a)),
      (str ''download_url'', String (mam_download_url a))]"

definition with_attachments :: "message_attachment_metadata list \<Rightarrow> room_event \<Rightarrow> room_event" where
  "with_attachments attachments e =
     (if attachments = [] then e
      else e\<lparr>ev_extra := om_insert (str ''attachments'') (Array (map encode_attachment attachments)) (ev_extra e)\<rparr>)"

definition MAX_RETAINED_ASSETS :: int where "MAX_RETAINED_ASSETS = 4096"
definition MAX_RETAINED_ASSET_BYTES :: int where "MAX_RETAINED_ASSET_BYTES = 8 * 1024 * 1024 * 1024"

definition invalid_storage_usage :: persistence_error where
  "invalid_storage_usage = rejected ''invalid_state'' ''Stored attachment usage is invalid.''"

text \<open>The sizes of all stored assets, of which this module owns the message attachments.\<close>

definition asset_sizes :: "'y asset_env \<Rightarrow> 'y room_db \<Rightarrow> int list" where
  "asset_sizes A db = map (at_size \<circ> snd) (mt_attachments (tables db)) @ ae_other_assets A (mt_rest (tables db))"

definition checked_sub_i64 :: "int \<Rightarrow> int \<Rightarrow> int option" where
  "checked_sub_i64 a b = (if i64_min \<le> a - b \<and> a - b \<le> i64_max then Some (a - b) else None)"

definition enforce_storage_replacement ::
  "'y asset_env \<Rightarrow> int option \<Rightarrow> int \<Rightarrow> 'y room_db \<Rightarrow> persistence_error + unit" where
  "enforce_storage_replacement A previous_size new_size db =
     rbind (ensure (1 \<le> new_size \<and> new_size \<le> int MAX_ATTACHMENT_BYTES \<and>
                    (case previous_size of None \<Rightarrow> True | Some n \<Rightarrow> 0 < n)) invalid_storage_usage) (\<lambda>_.
     let sizes = asset_sizes A db in
     rbind (ensure (sum_list sizes \<le> i64_max) Database_Error) (\<lambda>_.
     rbind (ok_or (Option.bind (checked_sub_i64 (int (length sizes)) (if previous_size = None then 0 else 1)) (\<lambda>n.
              checked_add_i64 n 1)) invalid_storage_usage) (\<lambda>next_count.
     rbind (ok_or (Option.bind (checked_sub_i64 (sum_list sizes) (unwrap_or 0 previous_size)) (\<lambda>n.
              checked_add_i64 n new_size)) invalid_storage_usage) (\<lambda>next_bytes.
     ensure (next_count \<le> MAX_RETAINED_ASSETS \<and> next_bytes \<le> MAX_RETAINED_ASSET_BYTES)
       (rejected ''attachment_quota_reached'' ''Absolute attachment storage limit reached.'')))))"

definition timestamp_seconds :: "timestamp \<Rightarrow> int" where
  "timestamp_seconds t = t div 1000000000"

definition PENDING_ATTACHMENT_TTL :: int where "PENDING_ATTACHMENT_TTL = 3600 * 1000000000"

definition expired_upload :: "int \<Rightarrow> attachment_row \<Rightarrow> bool" where
  "expired_upload now row \<longleftrightarrow>
     at_state row = Attachment_Pending \<and> (case at_expires_at row of None \<Rightarrow> False | Some e \<Rightarrow> e \<le> now)"

definition insert_attachment :: "'y asset_env \<Rightarrow> rstr \<Rightarrow> attachment_row \<Rightarrow> ('y room_db, unit) tx" where
  "insert_attachment A i row = (\<lambda>db.
     rbind (ensure (om_get (mt_attachments (tables db)) i = None \<and> is_message_attachment_id i \<and>
                    0 < at_size row \<and> at_size row \<le> 10485760 \<and> int (length (at_content row)) = at_size row \<and>
                    0 < at_created_at row \<and>
                    (case at_expires_at row of None \<Rightarrow> False | Some e \<Rightarrow> at_created_at row < e) \<and>
                    db_rooms db (at_room_id row) \<noteq> None \<and>
                    (case at_pending_owner row of None \<Rightarrow> False | Some u \<Rightarrow> ae_known_user A u (mt_rest (tables db))))
              Database_Error) (\<lambda>_.
     Ok ((), with_tables (\<lambda>t. t\<lparr>mt_attachments := om_insert i row (mt_attachments t)\<rparr>) db)))"

definition store_pending_in_transaction ::
  "'y room_env \<Rightarrow> 'y asset_env \<Rightarrow> authenticated_principal \<Rightarrow> prepared_message_attachment
     \<Rightarrow> ('y room_db, message_attachment_metadata) tx" where
  "store_pending_in_transaction E A pr p =
     tx_bind (draw_now E) (\<lambda>now.
     tx_bind (\<lambda>db. Ok ((), with_tables (\<lambda>t. t\<lparr>mt_attachments :=
                filter (\<lambda>e. \<not> expired_upload (timestamp_seconds now) (snd e)) (mt_attachments t)\<rparr>) db)) (\<lambda>_.
     tx_bind (tx_read (enforce_storage_replacement A None (pma_size p))) (\<lambda>_.
     tx_bind (draw_uuid E) (\<lambda>uid.
     let i = str ''ma_'' @ uuid_simple uid in
     tx_bind (insert_attachment A i
       \<lparr>at_room_id = pr_room_id pr, at_pending_owner = Some (pr_principal_id pr), at_event_seq = None,
        at_filename = pma_filename p, at_content_type = pma_content_type p, at_content = pma_content p,
        at_size = pma_size p, at_is_safe_image = pma_is_safe_image p, at_created_at = timestamp_seconds now,
        at_state = Attachment_Pending, at_expires_at = Some (timestamp_seconds (now + PENDING_ATTACHMENT_TTL))\<rparr>) (\<lambda>_.
     tx_return (attachment_metadata i (pma_filename p) (pma_content_type p) (nat (pma_size p)) (pma_is_safe_image p)))))))"

definition require_current_message_writer :: "authenticated_principal \<Rightarrow> 'x turn_db \<Rightarrow> persistence_error + unit" where
  "require_current_message_writer pr db =
     rbind (load_active_participant (pr_room_id pr) (pr_participant_id pr) db) (\<lambda>p.
     map_err rejection (require_message_write_authority pr p))"

definition store_message_attachment ::
  "'y room_env \<Rightarrow> 'y asset_env \<Rightarrow> authenticated_principal \<Rightarrow> rstr \<Rightarrow> rstr \<Rightarrow> 8 word list
     \<Rightarrow> ('y room_db, message_attachment_metadata) tx" where
  "store_message_attachment E A pr filename content_type content =
     tx_bind (tx_try (prepare_message_attachment A filename content_type content)) (\<lambda>prepared.
     tx_bind (tx_read (require_current_message_writer pr)) (\<lambda>_.
     store_pending_in_transaction E A pr prepared))"

section \<open>Binding\<close>

definition attachment_unavailable :: persistence_error where
  "attachment_unavailable = rejected ''attachment_unavailable'' ''A message attachment is unavailable or no longer pending.''"

definition pending_for :: "authenticated_principal \<Rightarrow> int \<Rightarrow> attachment_row \<Rightarrow> bool" where
  "pending_for pr now row \<longleftrightarrow>
     at_room_id row = pr_room_id pr \<and> at_pending_owner row = Some (pr_principal_id pr) \<and> at_event_seq row = None \<and>
     at_state row = Attachment_Pending \<and> (case at_expires_at row of None \<Rightarrow> False | Some e \<Rightarrow> now < e)"

definition prepare_message_attachment_bindings ::
  "authenticated_principal \<Rightarrow> rstr list \<Rightarrow> int \<Rightarrow> 'y room_db \<Rightarrow> persistence_error + message_attachment_metadata list" where
  "prepare_message_attachment_bindings pr ids now db =
     traverse (\<lambda>i.
       rbind (ok_or (om_get (mt_attachments (tables db)) i) attachment_unavailable) (\<lambda>row.
       rbind (ensure (pending_for pr now row) attachment_unavailable) (\<lambda>_.
       rbind (ensure (0 \<le> at_size row) invalid_attachment_state) (\<lambda>_.
       Ok (attachment_metadata i (at_filename row) (at_content_type row) (nat (at_size row)) (at_is_safe_image row)))))) ids"

definition bind_attachment :: "authenticated_principal \<Rightarrow> int \<Rightarrow> int \<Rightarrow> rstr \<Rightarrow> ('y room_db, unit) tx" where
  "bind_attachment pr event_seq now i = (\<lambda>db.
     case om_get (mt_attachments (tables db)) i of
       None \<Rightarrow> Err attachment_unavailable
     | Some row \<Rightarrow>
         rbind (ensure (pending_for pr now row) attachment_unavailable) (\<lambda>_.
         rbind (ensure (0 < event_seq \<and> om_get (db_events db) (at_room_id row, event_seq) \<noteq> None) Database_Error) (\<lambda>_.
         Ok ((), with_tables (\<lambda>t. t\<lparr>mt_attachments := om_insert i
               (row\<lparr>at_pending_owner := None, at_event_seq := Some event_seq, at_state := Attachment_Bound, at_expires_at := None\<rparr>)
               (mt_attachments t)\<rparr>) db))))"

definition bind_message_attachments :: "authenticated_principal \<Rightarrow> rstr list \<Rightarrow> int \<Rightarrow> int \<Rightarrow> ('y room_db, unit) tx" where
  "bind_message_attachments pr ids event_seq now = tx_each (bind_attachment pr event_seq now) ids"

text \<open>The rows bound to an event.\<close>

definition bound_to :: "rstr \<Rightarrow> int \<Rightarrow> attachment_row \<Rightarrow> bool" where
  "bound_to rid seq row \<longleftrightarrow> at_room_id row = rid \<and> at_event_seq row = Some seq \<and> at_state row = Attachment_Bound"

definition delete_bound_message_attachments :: "room_event \<Rightarrow> ('y room_db, rstr list) tx" where
  "delete_bound_message_attachments e =
     tx_bind (tx_try (message_attachments_from_event e)) (\<lambda>attachments.
     let expected = sort (map mam_id attachments) in
     tx_bind (tx_read (\<lambda>db. Ok (sort (map fst (filter (\<lambda>a. bound_to (ev_room_id e) (ev_seq e) (snd a))
                                                (mt_attachments (tables db))))))) (\<lambda>stored.
     tx_bind (tx_try (ensure (stored = expected) invalid_attachment_state)) (\<lambda>_.
     tx_bind (\<lambda>db. Ok ((), with_tables (\<lambda>t. t\<lparr>mt_attachments :=
                filter (\<lambda>a. \<not> bound_to (ev_room_id e) (ev_seq e) (snd a)) (mt_attachments t)\<rparr>) db)) (\<lambda>_.
     tx_return expected))))"

section \<open>Reading\<close>

record message_attachment =
  ma_metadata :: message_attachment_metadata
  ma_content :: "8 word list"

definition message_attachment_missing :: persistence_error where
  "message_attachment_missing = rejected ''message_attachment_missing'' ''Message attachment was not found.''"

definition stored_metadata :: "rstr \<Rightarrow> attachment_row \<Rightarrow> persistence_error + message_attachment_metadata" where
  "stored_metadata i row =
     rbind (ensure (0 \<le> at_size row) invalid_attachment_state) (\<lambda>_.
     rbind (ensure (int (length (at_content row)) = at_size row) invalid_attachment_state) (\<lambda>_.
     let metadata = attachment_metadata i (at_filename row) (at_content_type row) (nat (at_size row)) (at_is_safe_image row) in
     rbind (ensure (canonical_metadata metadata) invalid_attachment_state) (\<lambda>_.
     Ok metadata)))"

definition read_bound_message_attachment :: "rstr \<Rightarrow> rstr \<Rightarrow> 'y room_db \<Rightarrow> persistence_error + message_attachment" where
  "read_bound_message_attachment rid i db =
     rbind (ok_or (case om_get (mt_attachments (tables db)) i of
                     None \<Rightarrow> None
                   | Some row \<Rightarrow>
                       if at_room_id row = rid \<and> at_state row = Attachment_Bound \<and> at_pending_owner row = None \<and> at_expires_at row = None
                       then (case at_event_seq row of
                               None \<Rightarrow> None
                             | Some seq \<Rightarrow> map_option (\<lambda>e. (row, seq, e)) (om_get (db_events db) (rid, seq)))
                       else None) message_attachment_missing) (\<lambda>(row, seq, e).
     rbind (stored_metadata i row) (\<lambda>stored.
     rbind (message_attachments_from_event e) (\<lambda>attachments.
     rbind (ensure (ev_room_id e = rid \<and> ev_seq e = seq \<and> is_current_lobby_message e \<and> stored \<in> set attachments)
              message_attachment_missing) (\<lambda>_.
     rbind (ensure (length (at_content row) = mam_size stored) invalid_attachment_state) (\<lambda>_.
     Ok \<lparr>ma_metadata = stored, ma_content = at_content row\<rparr>)))))"

record provider_attachment_read_authority =
  para_room_id :: rstr
  para_session_id :: rstr
  para_turn_id :: rstr
  para_input_up_to_seq :: int
  para_turn_generation :: "64 word"
  para_execution_id :: rstr

definition stale_attachment_turn :: persistence_error where
  "stale_attachment_turn = rejected ''stale_provider_turn'' ''The Agent Session attachment read no longer owns the active turn.''"

definition load_upload_execution :: "rstr \<Rightarrow> rstr \<Rightarrow> 64 word \<Rightarrow> 'x turn_db \<Rightarrow> persistence_error + provider_turn_execution" where
  "load_upload_execution rid sid generation db =
     rbind (generation_i64 generation) (\<lambda>g. ok_or (om_get (db_executions db) (rid, sid, g)) stale_execution)"

definition bound_provider_attachment_in ::
  "provider_attachment_read_authority \<Rightarrow> rstr \<Rightarrow> 'y room_db \<Rightarrow> persistence_error + message_attachment" where
  "bound_provider_attachment_in a i db =
     rbind (ensure (is_message_attachment_id i) message_attachment_missing) (\<lambda>_.
     rbind (load_session (para_room_id a) (para_session_id a) db) (\<lambda>s.
     rbind (load_participant (para_room_id a) (as_participant_id (das_public s)) db) (\<lambda>p.
     rbind (load_upload_execution (para_room_id a) (para_session_id a) (para_turn_generation a) db) (\<lambda>execution.
     rbind (ensure (part_status p = Joined \<and> \<not> part_muted p \<and> as_active_turn_id (das_public s) = para_turn_id a \<and>
                    das_input_up_to_seq s = para_input_up_to_seq a \<and> das_turn_generation s = para_turn_generation a \<and>
                    active_turn_authority s = Some True \<and> pte_execution_id execution = para_execution_id a \<and>
                    pte_turn_id execution = para_turn_id a \<and>
                    pte_participant_id execution = as_participant_id (das_public s) \<and>
                    pte_phase execution = Start_Dispatching) stale_attachment_turn) (\<lambda>_.
     rbind (traverse (\<lambda>input. rbind (load_event (para_room_id a) (qi_event_id input) db) (\<lambda>found.
              ok_or found message_attachment_missing)) (das_inflight_inputs s)) (\<lambda>events.
     rbind (message_attachment_ids_from_events events) (\<lambda>ids.
     rbind (ensure (i \<in> set ids) message_attachment_missing) (\<lambda>_.
     read_bound_message_attachment (para_room_id a) i db))))))))"

end
