(* ===== verification/Vote_Store.thy ===== *)
theory Vote_Store
  imports Attachments
begin

text \<open>
  Polls of a room (persistence/room\_votes.rs): a poll is a message, its tallies and its ballots
  are rows, and every command checks the poll against its message before it changes them.
\<close>

definition MAX_VOTE_BALLOTS_PER_POLL :: "64 word" where "MAX_VOTE_BALLOTS_PER_POLL = 192"

record vote_definition =
  vd_question :: rstr
  vd_options :: "rstr list"
  vd_duration_seconds :: "32 word"
  vd_deadline_at :: "timestamp option"

record stored_vote =
  sv_poll :: room_event
  sv_definition :: vote_definition
  sv_tallies :: "64 word list"
  sv_total_votes :: "64 word"
  sv_manual_close :: "(int \<times> timestamp) option"

definition invalid_vote_state :: persistence_error where
  "invalid_vote_state = rejected ''invalid_state'' ''Stored vote authority is invalid.''"

definition vote_missing :: persistence_error where
  "vote_missing = rejected ''vote_not_found'' ''This vote does not exist in the room.''"

definition invalid_vote_choice :: persistence_error where
  "invalid_vote_choice = rejected ''invalid_vote_choice'' ''The vote choice is invalid.''"

definition vote_capacity_reached :: persistence_error where
  "vote_capacity_reached = rejected ''vote_capacity_reached'' ''This vote has reached its participant limit.''"

definition as_u64 :: "json \<Rightarrow> 64 word option" where
  "as_u64 v = (case v of Number n \<Rightarrow> number_as_u64 n | _ \<Rightarrow> None)"

definition poll_definition ::
  "unicode \<Rightarrow> (timestamp \<Rightarrow> rstr) \<Rightarrow> room_event \<Rightarrow> persistence_error + vote_definition" where
  "poll_definition U rfc3339 e =
     rbind (ensure (ev_type e = str ''message_final'' \<and> ev_message_kind e = Some (str ''vote'')) invalid_vote_state) (\<lambda>_.
     rbind (ok_or (Option.bind (om_get (ev_extra e) (str ''vote_question'')) as_str) invalid_vote_state) (\<lambda>question.
     rbind (ok_or (Option.bind (om_get (ev_extra e) (str ''vote_options'')) as_array) invalid_vote_state) (\<lambda>options.
     rbind (ok_or (Option.bind (om_get (ev_extra e) (str ''vote_duration_seconds'')) as_u64) invalid_vote_state) (\<lambda>duration.
     rbind (ok_or (Option.bind (om_get (ev_extra e) (str ''vote_deadline_at'')) as_str) invalid_vote_state) (\<lambda>deadline.
     let payload = json_object
       [(str ''kind'', String (str ''vote'')), (str ''vote_question'', String question),
        (str ''vote_options'', Array options), (str ''vote_duration_seconds'', Number (PosInt duration))] in
     rbind (map_err (\<lambda>_. invalid_vote_state) (vote_from_payload U payload)) (\<lambda>command.
     case command of
       Vote_Create c \<Rightarrow>
         rbind (ok_or (those (map as_str options)) invalid_vote_state) (\<lambda>raw_options.
         rbind (ensure (uint duration < 2 ^ 32) invalid_vote_state) (\<lambda>_.
         let duration = ucast duration;
             deadline_at = vote_deadline_at (ev_created_at e) duration;
             expected_deadline = unwrap_or [] (map_option rfc3339 deadline_at) in
         rbind (ensure (vc_question c = question \<and> vc_options c = raw_options \<and> vc_duration_seconds c = duration \<and>
                        deadline = expected_deadline) invalid_vote_state) (\<lambda>_.
         Ok \<lparr>vd_question = vc_question c, vd_options = vc_options c, vd_duration_seconds = duration,
             vd_deadline_at = deadline_at\<rparr>)))
     | _ \<Rightarrow> Err invalid_vote_state))))))"

definition validate_close_event :: "rstr \<Rightarrow> rstr \<Rightarrow> int \<Rightarrow> int \<Rightarrow> 'x turn_db \<Rightarrow> persistence_error + timestamp" where
  "validate_close_event rid vote_id poll_seq close_seq db =
     rbind (ensure (poll_seq < close_seq) invalid_vote_state) (\<lambda>_.
     rbind (ok_or (om_get (db_events db) (rid, close_seq)) invalid_vote_state) (\<lambda>e.
     rbind (ensure (ev_room_id e = rid \<and> ev_seq e = close_seq \<and> ev_type e = str ''message_final'' \<and>
                    ev_message_kind e = Some (str ''vote_close'') \<and>
                    Option.bind (om_get (ev_extra e) (str ''vote_id'')) as_str = Some vote_id) invalid_vote_state) (\<lambda>_.
     Ok (ev_created_at e))))"

text \<open>The checked sum of the tallies.\<close>

definition checked_sum_u64 :: "64 word list \<Rightarrow> 64 word option" where
  "checked_sum_u64 ws = (if sum_list (map unat ws) < 2 ^ 64 then Some (sum_list ws) else None)"

definition load_vote ::
  "unicode \<Rightarrow> (timestamp \<Rightarrow> rstr) \<Rightarrow> rstr \<Rightarrow> rstr \<Rightarrow> 'y room_db \<Rightarrow> persistence_error + stored_vote" where
  "load_vote U rfc3339 rid vote_id db =
     rbind (ok_or (Option.bind (om_get (mt_votes (tables db)) (rid, vote_id)) (\<lambda>row.
              map_option (\<lambda>poll. (row, poll)) (om_get (db_events db) (rid, vr_poll_seq row)))) vote_missing) (\<lambda>(row, poll).
     rbind (ensure (ev_id poll = vote_id \<and> ev_room_id poll = rid \<and> ev_seq poll = vr_poll_seq row) invalid_vote_state) (\<lambda>_.
     rbind (poll_definition U rfc3339 poll) (\<lambda>definition.
     rbind (ensure (0 \<le> vr_total_votes row) invalid_vote_state) (\<lambda>_.
     let total = of_int (vr_total_votes row) in
     rbind (ensure (total \<le> MAX_VOTE_BALLOTS_PER_POLL \<and> length (vr_tallies row) = length (vd_options definition) \<and>
                    checked_sum_u64 (vr_tallies row) = Some total) invalid_vote_state) (\<lambda>_.
     rbind (case vr_manual_close_seq row of
              None \<Rightarrow> Ok None
            | Some close_seq \<Rightarrow>
                rbind (validate_close_event rid vote_id (ev_seq poll) close_seq db) (\<lambda>closed_at. Ok (Some (close_seq, closed_at))))
       (\<lambda>manual_close.
     Ok \<lparr>sv_poll = poll, sv_definition = definition, sv_tallies = vr_tallies row, sv_total_votes = total,
         sv_manual_close = manual_close\<rparr>))))))"

definition require_open :: "stored_vote \<Rightarrow> timestamp \<Rightarrow> persistence_error + unit" where
  "require_open v now =
     rbind (ensure (\<not> (case vd_deadline_at (sv_definition v) of None \<Rightarrow> False | Some deadline \<Rightarrow> deadline \<le> now))
              (rejected ''vote_expired'' ''This vote has ended.'')) (\<lambda>_.
     ensure (sv_manual_close v = None) (rejected ''vote_closed'' ''This vote has ended.''))"

text \<open>\<open>Iterator::position\<close>.\<close>

fun position :: "('a \<Rightarrow> bool) \<Rightarrow> 'a list \<Rightarrow> nat option" where
  "position P [] = None"
| "position P (x # xs) = (if P x then Some 0 else map_option Suc (position P xs))"

section \<open>Rows\<close>

text \<open>The keys, checks and foreign key of the table; the text of the tallies is at most 41 bytes.\<close>

definition insert_vote_state :: "unicode \<Rightarrow> (timestamp \<Rightarrow> rstr) \<Rightarrow> room_event \<Rightarrow> ('y room_db, unit) tx" where
  "insert_vote_state U rfc3339 e =
     tx_bind (tx_try (poll_definition U rfc3339 e)) (\<lambda>definition.
     (\<lambda>db. rbind (ensure (om_get (mt_votes (tables db)) (ev_room_id e, ev_id e) = None \<and>
              \<not> list_ex (\<lambda>((r, _), row). r = ev_room_id e \<and> vr_poll_seq row = ev_seq e) (mt_votes (tables db)) \<and>
              1 \<le> byte_len (ev_id e) \<and> byte_len (ev_id e) \<le> 128 \<and> 0 \<notin> set (ev_id e) \<and> 0 < ev_seq e \<and>
              om_get (db_events db) (ev_room_id e, ev_seq e) \<noteq> None) Database_Error) (\<lambda>_.
           Ok ((), with_tables (\<lambda>t. t\<lparr>mt_votes := om_insert (ev_room_id e, ev_id e)
               \<lparr>vr_poll_seq = ev_seq e, vr_tallies = replicate (length (vd_options definition)) 0, vr_total_votes = 0,
                vr_manual_close_seq = None\<rparr> (mt_votes t)\<rparr>) db))))"

definition load_ballot :: "rstr \<Rightarrow> stored_vote \<Rightarrow> 'y room_db \<Rightarrow> persistence_error + nat option" where
  "load_ballot participant_id v db =
     (case om_get (mt_ballots (tables db)) (ev_room_id (sv_poll v), ev_id (sv_poll v), participant_id) of
        None \<Rightarrow> Ok None
      | Some n \<Rightarrow>
          if 0 \<le> n \<and> nat n < length (vd_options (sv_definition v)) then Ok (Some (nat n)) else Err invalid_vote_state)"

definition checked_dec_u64 :: "64 word \<Rightarrow> 64 word option" where
  "checked_dec_u64 w = (if w = 0 then None else Some (w - 1))"

definition upsert_ballot :: "rstr \<times> rstr \<times> rstr \<Rightarrow> nat \<Rightarrow> ('y room_db, unit) tx" where
  "upsert_ballot key choice = (\<lambda>db.
     rbind (ensure (choice \<le> 9 \<and> om_get (mt_votes (tables db)) (fst key, fst (snd key)) \<noteq> None \<and>
                    db_participants db (fst key, snd (snd key)) \<noteq> None) Database_Error) (\<lambda>_.
     Ok ((), with_tables (\<lambda>t. t\<lparr>mt_ballots := om_insert key (int choice) (mt_ballots t)\<rparr>) db)))"

definition replace_ballot :: "participant \<Rightarrow> nat \<Rightarrow> stored_vote \<Rightarrow> ('y room_db, stored_vote) tx" where
  "replace_ballot p choice v =
     tx_bind (tx_read (load_ballot (part_id p) v)) (\<lambda>previous.
     if previous = Some choice then tx_return v
     else
       tx_bind (tx_try (case previous of
           Some old \<Rightarrow>
             rbind (ok_or (checked_dec_u64 (sv_tallies v ! old)) invalid_vote_state) (\<lambda>n.
             Ok (v\<lparr>sv_tallies := (sv_tallies v)[old := n]\<rparr>))
         | None \<Rightarrow>
             rbind (ensure (sv_total_votes v < MAX_VOTE_BALLOTS_PER_POLL) vote_capacity_reached) (\<lambda>_.
             rbind (ok_or (checked_inc_u64 (sv_total_votes v)) invalid_vote_state) (\<lambda>n.
             Ok (v\<lparr>sv_total_votes := n\<rparr>))))) (\<lambda>v.
       tx_bind (tx_try (ok_or (checked_inc_u64 (sv_tallies v ! choice)) invalid_vote_state)) (\<lambda>n.
       tx_bind (upsert_ballot (ev_room_id (sv_poll v), ev_id (sv_poll v), part_id p) choice) (\<lambda>_.
       tx_return (v\<lparr>sv_tallies := (sv_tallies v)[choice := n]\<rparr>)))))"

definition remove_ballot :: "participant \<Rightarrow> stored_vote \<Rightarrow> ('y room_db, stored_vote) tx" where
  "remove_ballot p v =
     tx_bind (tx_read (load_ballot (part_id p) v)) (\<lambda>previous.
     case previous of
       None \<Rightarrow> tx_return v
     | Some old \<Rightarrow>
         tx_bind (tx_try (ok_or (checked_dec_u64 (sv_tallies v ! old)) invalid_vote_state)) (\<lambda>n.
         tx_bind (tx_try (ok_or (checked_dec_u64 (sv_total_votes v)) invalid_vote_state)) (\<lambda>total.
         tx_bind (\<lambda>db. Ok ((), with_tables (\<lambda>t. t\<lparr>mt_ballots :=
                    om_remove (ev_room_id (sv_poll v), ev_id (sv_poll v), part_id p) (mt_ballots t)\<rparr>) db)) (\<lambda>_.
         tx_return (v\<lparr>sv_tallies := (sv_tallies v)[old := n], sv_total_votes := total\<rparr>)))))"

definition save_vote_state :: "stored_vote \<Rightarrow> ('y room_db, unit) tx" where
  "save_vote_state v = (\<lambda>db.
     let key = (ev_room_id (sv_poll v), ev_id (sv_poll v)) in
     rbind (ensure (uint (sv_total_votes v) \<le> i64_max) invalid_vote_state) (\<lambda>_.
     case om_get (mt_votes (tables db)) key of
       None \<Rightarrow> Err invalid_vote_state
     | Some row \<Rightarrow>
         rbind (ensure (vr_poll_seq row = ev_seq (sv_poll v)) invalid_vote_state) (\<lambda>_.
         rbind (ensure (case sv_manual_close v of
                          None \<Rightarrow> True
                        | Some (n, _) \<Rightarrow> vr_poll_seq row < n \<and> om_get (db_events db) (fst key, n) \<noteq> None) Database_Error) (\<lambda>_.
         Ok ((), with_tables (\<lambda>t. t\<lparr>mt_votes := om_insert key
               (row\<lparr>vr_tallies := sv_tallies v, vr_total_votes := uint (sv_total_votes v),
                    vr_manual_close_seq := map_option fst (sv_manual_close v)\<rparr>) (mt_votes t)\<rparr>) db)))))"

text \<open>Deleting the row of a poll deletes its ballots.\<close>

definition delete_vote_projection :: "rstr \<Rightarrow> rstr \<Rightarrow> int \<Rightarrow> ('y room_db, unit) tx" where
  "delete_vote_projection rid vote_id poll_seq = (\<lambda>db.
     case om_get (mt_votes (tables db)) (rid, vote_id) of
       None \<Rightarrow> Err invalid_vote_state
     | Some row \<Rightarrow>
         rbind (ensure (vr_poll_seq row = poll_seq) invalid_vote_state) (\<lambda>_.
         Ok ((), with_tables (\<lambda>t. t\<lparr>mt_votes := om_remove (rid, vote_id) (mt_votes t),
               mt_ballots := om_retain (\<lambda>k. (fst k, fst (snd k)) \<noteq> (rid, vote_id)) (mt_ballots t)\<rparr>) db)))"

section \<open>Commands\<close>

text \<open>A ballot is published without its choice.\<close>

definition vote_transition_event ::
  "'y room_env \<Rightarrow> (timestamp \<Rightarrow> rstr) \<Rightarrow> authenticated_principal \<Rightarrow> participant \<Rightarrow> vote_command \<Rightarrow> int \<Rightarrow> timestamp
     \<Rightarrow> ('y room_db, room_event) tx" where
  "vote_transition_event E rfc3339 pr p command sequence now =
     tx_bind (draw_uuid E) (\<lambda>uid.
     tx_bind (tx_try (map_err rejection (prepare_vote_event rfc3339 (uuid_string uid) pr p command sequence now))) (\<lambda>e.
     tx_return (privacy_minimized_vote_transition e)))"

fun apply_vote_command ::
  "'y room_env \<Rightarrow> (timestamp \<Rightarrow> rstr) \<Rightarrow> authenticated_principal \<Rightarrow> participant \<Rightarrow> vote_command \<Rightarrow> int \<Rightarrow> timestamp
     \<Rightarrow> ('y room_db, room_event) tx" where
  "apply_vote_command E rfc3339 pr p (Vote_Create c) sequence now =
     tx_bind (tx_read (prepare_message_attachment_bindings pr (vc_attachment_ids c) (timestamp_seconds now))) (\<lambda>attachments.
     tx_bind (draw_uuid E) (\<lambda>uid.
     tx_bind (tx_try (map_err rejection
        (prepare_vote_event rfc3339 (uuid_string uid) pr p (Vote_Create c) sequence now))) (\<lambda>e.
     let e = with_attachments attachments e in
     tx_bind (insert_event E e) (\<lambda>_.
     tx_bind (insert_vote_state (te_unicode E) rfc3339 e) (\<lambda>_.
     tx_bind (bind_message_attachments pr (vc_attachment_ids c) sequence (timestamp_seconds now)) (\<lambda>_.
     tx_return e))))))"
| "apply_vote_command E rfc3339 pr p (Vote_Cast c) sequence now =
     tx_bind (tx_read (load_vote (te_unicode E) rfc3339 (pr_room_id pr) (cast_vote_id c))) (\<lambda>v.
     tx_bind (tx_try (require_open v now)) (\<lambda>_.
     tx_bind (tx_try (ok_or (resolve_vote_choice (te_unicode E) (cast_choice c) (vd_options (sv_definition v)))
                        invalid_vote_choice)) (\<lambda>choice.
     tx_bind (tx_try (ok_or (position (\<lambda>option. option = choice) (vd_options (sv_definition v))) invalid_vote_state)) (\<lambda>index.
     tx_bind (vote_transition_event E rfc3339 pr p
                (Vote_Cast \<lparr>cast_vote_id = cast_vote_id c, cast_choice = choice\<rparr>) sequence now) (\<lambda>e.
     tx_bind (replace_ballot p index v) (\<lambda>v.
     tx_bind (insert_event E e) (\<lambda>_.
     tx_bind (save_vote_state v) (\<lambda>_.
     tx_return e))))))))"
| "apply_vote_command E rfc3339 pr p (Vote_Withdraw r) sequence now =
     tx_bind (tx_read (load_vote (te_unicode E) rfc3339 (pr_room_id pr) (ref_vote_id r))) (\<lambda>v.
     tx_bind (tx_try (require_open v now)) (\<lambda>_.
     tx_bind (vote_transition_event E rfc3339 pr p (Vote_Withdraw r) sequence now) (\<lambda>e.
     tx_bind (insert_event E e) (\<lambda>_.
     tx_bind (remove_ballot p v) (\<lambda>v.
     tx_bind (save_vote_state v) (\<lambda>_.
     tx_return e))))))"
| "apply_vote_command E rfc3339 pr p (Vote_Close r) sequence now =
     tx_bind (tx_read (load_vote (te_unicode E) rfc3339 (pr_room_id pr) (ref_vote_id r))) (\<lambda>v.
     tx_bind (tx_try (require_open v now)) (\<lambda>_.
     tx_bind (tx_try (ensure (pr_is_operator pr \<or> actor_participant_id (ev_actor (sv_poll v)) = part_id p)
        (rejected ''permission_denied'' ''Only the vote creator or room operator can close this vote.''))) (\<lambda>_.
     tx_bind (vote_transition_event E rfc3339 pr p (Vote_Close r) sequence now) (\<lambda>e.
     tx_bind (insert_event E e) (\<lambda>_.
     tx_bind (save_vote_state (v\<lparr>sv_manual_close := Some (sequence, now)\<rparr>)) (\<lambda>_.
     tx_return e))))))"

definition is_terminal_vote_rejection :: "persistence_error \<Rightarrow> bool" where
  "is_terminal_vote_rejection e \<longleftrightarrow>
     (case e of
        Command_Rejected code _ \<Rightarrow>
          code \<in> set [''vote_not_found'', ''vote_expired'', ''vote_closed'', ''vote_capacity_reached'',
                     ''invalid_vote_choice'', ''permission_denied'']
      | _ \<Rightarrow> False)"

section \<open>Summaries\<close>

record vote_summary =
  vs_vote_id :: rstr
  vs_question :: rstr
  vs_options :: "rstr list"
  vs_vote_duration_seconds :: "32 word"
  vs_vote_deadline_at :: rstr
  vs_created_by :: rstr
  vs_created_at :: rstr
  vs_tallies :: "(rstr, 64 word) omap"
  vs_own_choice :: rstr
  vs_total_votes :: "64 word"
  vs_closed :: bool
  vs_closed_at :: rstr
  vs_close_reason :: rstr

definition build_vote_summary ::
  "unicode \<Rightarrow> (timestamp \<Rightarrow> rstr) \<Rightarrow> stored_vote \<Rightarrow> rstr \<Rightarrow> timestamp \<Rightarrow> persistence_error + vote_summary" where
  "build_vote_summary U rfc3339 v own_choice now =
     rbind (ok_or (filter_opt (has_visible_text U) (ev_display_name (sv_poll v))) invalid_vote_state) (\<lambda>created_by.
     let tallies = om_from (zip (vd_options (sv_definition v)) (sv_tallies v));
         deadline_closed = filter_opt (\<lambda>deadline. deadline \<le> now) (vd_deadline_at (sv_definition v));
         manual_closed_at = map_option (\<lambda>c. rfc3339 (snd c)) (sv_manual_close v);
         closed_at = unwrap_or (unwrap_or [] (map_option rfc3339 deadline_closed)) manual_closed_at;
         close_reason = (if deadline_closed \<noteq> None then str ''deadline''
                         else if manual_closed_at \<noteq> None then str ''manual'' else []) in
     Ok \<lparr>vs_vote_id = ev_id (sv_poll v), vs_question = vd_question (sv_definition v), vs_options = vd_options (sv_definition v),
         vs_vote_duration_seconds = vd_duration_seconds (sv_definition v),
         vs_vote_deadline_at = unwrap_or [] (map_option rfc3339 (vd_deadline_at (sv_definition v))),
         vs_created_by = created_by, vs_created_at = rfc3339 (ev_created_at (sv_poll v)),
         vs_tallies = tallies, vs_own_choice = own_choice, vs_total_votes = sv_total_votes v,
         vs_closed = (closed_at \<noteq> []), vs_closed_at = closed_at, vs_close_reason = close_reason\<rparr>)"

definition read_vote_summary ::
  "'y room_env \<Rightarrow> (timestamp \<Rightarrow> rstr) \<Rightarrow> authenticated_principal \<Rightarrow> rstr \<Rightarrow> ('y room_db, vote_summary) tx" where
  "read_vote_summary E rfc3339 pr vote_id =
     tx_bind (tx_try (ensure (pr_client_kind pr \<noteq> Agent_Bridge \<and> cap_room_vote_summary (pr_capabilities pr))
        (rejected ''permission_denied'' ''room.vote.summary permission is required.''))) (\<lambda>_.
     tx_bind (tx_try (map_err rejection (validate_vote_id vote_id))) (\<lambda>vote_id.
     tx_bind (tx_read (load_vote (te_unicode E) rfc3339 (pr_room_id pr) vote_id)) (\<lambda>v.
     tx_bind (tx_read (load_ballot (pr_participant_id pr) v)) (\<lambda>ballot.
     tx_bind (draw_now E) (\<lambda>now.
     tx_try (build_vote_summary (te_unicode E) rfc3339 v
       (case ballot of None \<Rightarrow> [] | Some n \<Rightarrow> vd_options (sv_definition v) ! n) now))))))"

section \<open>Tallies count ballots\<close>

text \<open>The tallies and the tot of a poll, against the ballots by participant.\<close>

definition tallied :: "64 word list \<Rightarrow> int \<Rightarrow> (rstr \<rightharpoonup> int) \<Rightarrow> bool" where
  "tallied ts tot B \<longleftrightarrow>
     finite (dom B) \<and> tot = int (card (dom B)) \<and> tot \<le> 192 \<and>
     (\<forall>p i. B p = Some i \<longrightarrow> 0 \<le> i \<and> nat i < length ts) \<and>
     (\<forall>i < length ts. unat (ts ! i) = card {p. B p = Some (int i)})"

lemma count_upd:
  assumes "finite (dom B)"
  shows "card {q. (B(p := x)) q = Some y} = card {q. B q = Some y} - (if B p = Some y then 1 else 0) + (if x = Some y then 1 else 0)"
proof -
  have fin: "finite {q. B q = Some y}" using assms by (rule rev_finite_subset) auto
  have "{q. (B(p := x)) q = Some y} = (if x = Some y then insert p ({q. B q = Some y} - {p}) else {q. B q = Some y} - {p})" by auto
  moreover have "0 < card {q. B q = Some y}" if "B p = Some y" using fin that by (auto simp: card_gt_0_iff)
  ultimately show ?thesis using fin by (cases "B p = Some y") (auto simp: card_Diff_singleton_if card_insert_if)
qed

lemma count_pos: "finite (dom B) \<Longrightarrow> B p = Some y \<Longrightarrow> 0 < card {q. B q = Some y}"
  by (subst card_gt_0_iff) (auto intro: rev_finite_subset)

lemma count_le: "finite (dom B) \<Longrightarrow> card {q. B q = Some y} \<le> card (dom B)"
  by (rule card_mono) auto

lemma dom_upd_card: "finite (dom B) \<Longrightarrow> card (dom (B(p \<mapsto> y))) = card (dom B) + (if B p = None then 1 else 0)"
  by (auto simp: insert_absorb domIff)

lemma word_inc: "unat (w :: 64 word) \<le> 192 \<Longrightarrow> checked_inc_u64 w = Some (w + 1) \<and> unat (w + 1) = unat w + 1"
proof -
  assume a: "unat w \<le> 192"
  have "w \<noteq> - 1"
  proof
    assume "w = - 1"
    then have "unat w = 2 ^ 64 - 1" by (simp add: unsigned_minus_1_eq_mask mask_eq_exp_minus_1)
    with a show False by simp
  qed
  then have "checked_inc_u64 w = Some (w + 1)" by (simp add: checked_inc_u64_def)
  with checked_inc_u64_unat [OF this] show ?thesis by simp
qed

lemma word_dec: "0 < unat (w :: 64 word) \<Longrightarrow> checked_dec_u64 w = Some (w - 1) \<and> unat (w - 1) = unat w - 1"
  by (auto simp: checked_dec_u64_def unat_minus_one)

lemma uint_unat: "uint (w :: 64 word) = int (unat w)"
  by simp

lemma word_inc_uint: "uint (w :: 64 word) \<le> 192 \<Longrightarrow> checked_inc_u64 w = Some (w + 1) \<and> uint (w + 1) = uint w + 1"
  using word_inc [of w] uint_unat [of w] uint_unat [of "w + 1"] by linarith

lemma word_dec_uint: "0 < uint (w :: 64 word) \<Longrightarrow> checked_dec_u64 w = Some (w - 1) \<and> uint (w - 1) = uint w - 1"
  using word_dec [of w] uint_unat [of w] uint_unat [of "w - 1"] by linarith

lemma tallied_count: "tallied ts tot B \<Longrightarrow> i < length ts \<Longrightarrow> unat (ts ! i) = card {p. B p = Some (int i)} \<and> unat (ts ! i) \<le> 192"
  using count_le [of B "int i"] by (auto simp: tallied_def)

lemma tallied_new:
  assumes "tallied ts tot B" "B p = None" "tot < 192" "i < length ts"
  shows "checked_inc_u64 (ts ! i) = Some (ts ! i + 1) \<and> tallied (ts[i := ts ! i + 1]) (tot + 1) (B(p \<mapsto> int i))"
proof -
  have fin: "finite (dom B)" using assms(1) by (simp add: tallied_def)
  note inc = word_inc [of "ts ! i"] and c = tallied_count [OF assms(1,4)]
  have "unat (ts[i := ts ! i + 1] ! j) = card {q. (B(p \<mapsto> int i)) q = Some (int j)}" if "j < length ts" for j
    using tallied_count [OF assms(1) that] count_upd [OF fin, of p "Some (int i)" "int j"] inc c assms(2) that
    by (cases "j = i") simp_all
  then show ?thesis
    using assms inc c dom_upd_card [OF fin, of p "int i"] by (auto simp: tallied_def split: if_splits)
qed

lemma tallied_change:
  assumes "tallied ts tot B" "B p = Some (int j)" "i \<noteq> j" "i < length ts"
  shows "j < length ts" "checked_dec_u64 (ts ! j) = Some (ts ! j - 1)"
    "checked_inc_u64 (ts[j := ts ! j - 1] ! i) = Some (ts ! i + 1)"
    "tallied (ts[j := ts ! j - 1, i := ts ! i + 1]) tot (B(p \<mapsto> int i))"
proof -
  have fin: "finite (dom B)" using assms(1) by (simp add: tallied_def)
  show j: "j < length ts" using assms(1,2) by (fastforce simp: tallied_def)
  note cj = tallied_count [OF assms(1) j] and ci = tallied_count [OF assms(1,4)]
  have dec: "checked_dec_u64 (ts ! j) = Some (ts ! j - 1)" "unat (ts ! j - 1) = unat (ts ! j) - 1"
    using word_dec [of "ts ! j"] count_pos [OF fin assms(2)] cj by simp_all
  note inc = word_inc [of "ts ! i"]
  have "unat (ts[j := ts ! j - 1, i := ts ! i + 1] ! n) = card {q. (B(p \<mapsto> int i)) q = Some (int n)}" if "n < length ts" for n
    using tallied_count [OF assms(1) that] count_upd [OF fin, of p "Some (int i)" "int n"] inc ci cj dec assms(2,3) that
    by (cases "n = i"; cases "n = j") simp_all
  then show "tallied (ts[j := ts ! j - 1, i := ts ! i + 1]) tot (B(p \<mapsto> int i))"
    using assms dom_upd_card [OF fin, of p "int i"] by (auto simp: tallied_def split: if_splits)
  show "checked_dec_u64 (ts ! j) = Some (ts ! j - 1)" "checked_inc_u64 (ts[j := ts ! j - 1] ! i) = Some (ts ! i + 1)"
    using dec inc ci assms(3) by simp_all
qed

lemma tallied_withdraw:
  assumes "tallied ts tot B" "B p = Some (int j)"
  shows "j < length ts" "checked_dec_u64 (ts ! j) = Some (ts ! j - 1)" "0 < tot"
    "tallied (ts[j := ts ! j - 1]) (tot - 1) (B(p := None))"
proof -
  have fin: "finite (dom B)" using assms(1) by (simp add: tallied_def)
  show j: "j < length ts" using assms by (fastforce simp: tallied_def)
  note cj = tallied_count [OF assms(1) j]
  have dec: "checked_dec_u64 (ts ! j) = Some (ts ! j - 1)" "unat (ts ! j - 1) = unat (ts ! j) - 1"
    using word_dec [of "ts ! j"] count_pos [OF fin assms(2)] cj by simp_all
  then show "checked_dec_u64 (ts ! j) = Some (ts ! j - 1)" by simp
  have cd: "0 < card (dom B)" using fin assms(2) by (auto simp: card_gt_0_iff)
  then show "0 < tot" using assms(1) by (simp add: tallied_def)
  have "unat (ts[j := ts ! j - 1] ! n) = card {q. (B(p := None)) q = Some (int n)}" if "n < length ts" for n
    using tallied_count [OF assms(1) that] count_upd [OF fin, of p None "int n"] cj dec assms(2) that
    by (cases "n = j") simp_all
  moreover have "card (dom (B(p := None))) = card (dom B) - 1" using assms(2) by (simp add: domI card_Diff_singleton)
  ultimately show "tallied (ts[j := ts ! j - 1]) (tot - 1) (B(p := None))"
    using assms cd by (auto simp: tallied_def split: if_splits)
qed


section \<open>Polls\<close>

definition ballots_of :: "'y room_db \<Rightarrow> rstr \<times> rstr \<Rightarrow> rstr \<rightharpoonup> int" where
  "ballots_of db k = (\<lambda>p. om_get (mt_ballots (tables db)) (fst k, snd k, p))"

text \<open>Every row counts the ballots of its poll, and every ballot belongs to a poll.\<close>

definition poll_counted :: "vote_row option \<Rightarrow> (rstr \<rightharpoonup> int) \<Rightarrow> bool" where
  "poll_counted row B =
     (case row of None \<Rightarrow> B = Map.empty | Some r \<Rightarrow> tallied (vr_tallies r) (vr_total_votes r) B)"

definition votes_ok :: "'y room_db \<Rightarrow> bool" where
  "votes_ok db \<longleftrightarrow> (\<forall>k. poll_counted (om_get (mt_votes (tables db)) k) (ballots_of db k))"

text \<open>What a poll is for its users: who has chosen what, and whether it was closed.\<close>

record poll =
  poll_ballots :: "rstr \<rightharpoonup> int"
  poll_closed :: bool

definition polls :: "'y room_db \<Rightarrow> rstr \<times> rstr \<rightharpoonup> poll" where
  "polls db k = map_option (\<lambda>row. \<lparr>poll_ballots = ballots_of db k, poll_closed = (vr_manual_close_seq row \<noteq> None)\<rparr>)
     (om_get (mt_votes (tables db)) k)"

lemma tables_with [simp]:
  "tables (with_tables f db) = f (tables db)" "db_events (with_tables f db) = db_events db"
  "db_sessions (with_tables f db) = db_sessions db" "db_rooms (with_tables f db) = db_rooms db"
  "db_participants (with_tables f db) = db_participants db" "db_executions (with_tables f db) = db_executions db"
  by (simp_all add: tables_def with_tables_def)

lemma keeps_tables_basic [keeps_intros]:
  "keeps tables (draw_now E)" "keeps tables (draw_uuid E)"
  by (auto simp: keeps_def draw_now_def draw_uuid_def tables_def)

lemma keeps_tables_insert [keeps_intros]: "keeps tables (insert_event E e)"
  unfolding keeps_def insert_event_def by (auto simp: tables_def)

lemma keeps_tables_transition [keeps_intros]: "keeps tables (vote_transition_event E rfc pr p c sq now)"
  unfolding vote_transition_event_def by (intro keeps_intros)

lemma same_tables: "tables db' = tables db \<Longrightarrow> votes_ok db' = votes_ok db \<and> polls db' = polls db \<and> ballots_of db' = ballots_of db"
proof -
  assume "tables db' = tables db"
  moreover from this have "ballots_of db' = ballots_of db" by (simp add: ballots_of_def fun_eq_iff)
  ultimately show ?thesis unfolding votes_ok_def polls_def [abs_def] by simp
qed

lemma ballots_insert:
  "ballots_of (with_tables (\<lambda>t. t\<lparr>mt_ballots := om_insert (rid, vid, p) x (mt_ballots t)\<rparr>) db) =
     (ballots_of db)((rid, vid) := (ballots_of db (rid, vid))(p \<mapsto> x))"
  by (auto simp: ballots_of_def fun_eq_iff)

lemma ballots_remove:
  "ballots_of (with_tables (\<lambda>t. t\<lparr>mt_ballots := om_remove (rid, vid, p) (mt_ballots t)\<rparr>) db) =
     (ballots_of db)((rid, vid) := (ballots_of db (rid, vid))(p := None))"
  by (auto simp: ballots_of_def fun_eq_iff)

lemma load_vote_facts:
  assumes "load_vote U rfc rid vid db = Ok v"
  obtains row where "om_get (mt_votes (tables db)) (rid, vid) = Some row" "sv_tallies v = vr_tallies row"
    "sv_total_votes v = of_int (vr_total_votes row)" "ev_room_id (sv_poll v) = rid" "ev_id (sv_poll v) = vid"
    "ev_seq (sv_poll v) = vr_poll_seq row" "length (sv_tallies v) = length (vd_options (sv_definition v))"
    "sv_manual_close v = None \<longleftrightarrow> vr_manual_close_seq row = None"
    "om_get (db_events db) (rid, vr_poll_seq row) = Some (sv_poll v)" "poll_definition U rfc (sv_poll v) = Ok (sv_definition v)"
  using assms by (auto simp: load_vote_def Let_def bind_eq_Some_conv split: option.splits)

lemma votes_okD:
  assumes "votes_ok db" "om_get (mt_votes (tables db)) k = Some row"
  shows "tallied (vr_tallies row) (vr_total_votes row) (ballots_of db k)"
proof -
  have "poll_counted (om_get (mt_votes (tables db)) k) (ballots_of db k)" using assms(1) unfolding votes_ok_def by (rule spec)
  with assms(2) show ?thesis by (simp add: poll_counted_def)
qed

text \<open>What the loaded poll says when the rows count the ballots.\<close>

lemma loaded_tallied:
  assumes "votes_ok db" "load_vote U rfc rid vid db = Ok v"
  shows "tallied (sv_tallies v) (uint (sv_total_votes v)) (ballots_of db (rid, vid))"
proof -
  obtain row where row: "om_get (mt_votes (tables db)) (rid, vid) = Some row" "sv_tallies v = vr_tallies row"
    "sv_total_votes v = of_int (vr_total_votes row)"
    using load_vote_facts [OF assms(2)] by metis
  then have t: "tallied (vr_tallies row) (vr_total_votes row) (ballots_of db (rid, vid))"
    using votes_okD [OF assms(1)] by blast
  then have "0 \<le> vr_total_votes row" "vr_total_votes row \<le> 192" by (auto simp: tallied_def)
  then have "uint (of_int (vr_total_votes row) :: 64 word) = vr_total_votes row" by (simp add: uint_word_of_int)
  with t row show ?thesis by simp
qed

lemma load_ballot_facts:
  assumes "load_ballot p v db = Ok r" "k = (ev_room_id (sv_poll v), ev_id (sv_poll v))"
  shows "ballots_of db k p = map_option int r"
  using assms by (auto simp: load_ballot_def ballots_of_def split: option.splits if_splits)

lemma replace_ballot_effect:
  assumes ok: "tallied (sv_tallies v) (uint (sv_total_votes v)) (ballots_of db k)"
    and k: "k = (ev_room_id (sv_poll v), ev_id (sv_poll v))" and i: "i < length (sv_tallies v)"
    and run: "replace_ballot p i v db = Ok (v', db')"
  shows "tallied (sv_tallies v') (uint (sv_total_votes v')) ((ballots_of db k)(part_id p \<mapsto> int i))"
    "ballots_of db' = (ballots_of db)(k := (ballots_of db k)(part_id p \<mapsto> int i))"
    "mt_votes (tables db') = mt_votes (tables db)" "sv_poll v' = sv_poll v" "sv_manual_close v' = sv_manual_close v"
    "db_events db' = db_events db"
proof -
  let ?B = "ballots_of db k"
  obtain prev where prev: "load_ballot (part_id p) v db = Ok prev" using run by (auto simp: replace_ballot_def)
  note bp = load_ballot_facts [OF prev k]
  have "tallied (sv_tallies v') (uint (sv_total_votes v')) (?B(part_id p \<mapsto> int i))
    \<and> ballots_of db' = (ballots_of db)(k := ?B(part_id p \<mapsto> int i)) \<and> mt_votes (tables db') = mt_votes (tables db)
    \<and> sv_poll v' = sv_poll v \<and> sv_manual_close v' = sv_manual_close v \<and> db_events db' = db_events db"
  proof (cases prev)
    case None
    then have small: "sv_total_votes v < MAX_VOTE_BALLOTS_PER_POLL" using run prev by (auto simp: replace_ballot_def)
    then have lt: "uint (sv_total_votes v) < 192" by (simp add: MAX_VOTE_BALLOTS_PER_POLL_def word_less_def)
    note new = tallied_new [OF ok _ lt i, of "part_id p"]
    have inc: "checked_inc_u64 (sv_total_votes v) = Some (sv_total_votes v + 1)" "uint (sv_total_votes v + 1) = uint (sv_total_votes v) + 1"
      using word_inc_uint [of "sv_total_votes v"] lt by simp_all
    show ?thesis
      using run prev None bp new inc k small
      by (auto simp: replace_ballot_def upsert_ballot_def ballots_insert)
  next
    case (Some j)
    show ?thesis
    proof (cases "j = i")
      case True
      then have "v' = v" "db' = db" using run prev Some by (auto simp: replace_ballot_def)
      moreover have "?B(part_id p \<mapsto> int i) = ?B" using bp Some True by (simp add: fun_upd_idem)
      ultimately show ?thesis using ok by simp
    next
      case False
      have "?B (part_id p) = Some (int j)" using bp Some by simp
      note ch = tallied_change [OF ok this not_sym [OF False] i]
      show ?thesis using run prev Some False ch k by (auto simp: replace_ballot_def upsert_ballot_def ballots_insert)
    qed
  qed
  then show "tallied (sv_tallies v') (uint (sv_total_votes v')) (?B(part_id p \<mapsto> int i))"
    "ballots_of db' = (ballots_of db)(k := ?B(part_id p \<mapsto> int i))"
    "mt_votes (tables db') = mt_votes (tables db)" "sv_poll v' = sv_poll v" "sv_manual_close v' = sv_manual_close v"
    "db_events db' = db_events db" by auto
qed

lemma remove_ballot_effect:
  assumes ok: "tallied (sv_tallies v) (uint (sv_total_votes v)) (ballots_of db k)"
    and k: "k = (ev_room_id (sv_poll v), ev_id (sv_poll v))" and run: "remove_ballot p v db = Ok (v', db')"
  shows "tallied (sv_tallies v') (uint (sv_total_votes v')) ((ballots_of db k)(part_id p := None))
    \<and> ballots_of db' = (ballots_of db)(k := (ballots_of db k)(part_id p := None))
    \<and> mt_votes (tables db') = mt_votes (tables db) \<and> sv_poll v' = sv_poll v \<and> sv_manual_close v' = sv_manual_close v"
proof -
  let ?B = "ballots_of db k"
  obtain prev where prev: "load_ballot (part_id p) v db = Ok prev" using run by (auto simp: remove_ballot_def)
  note bp = load_ballot_facts [OF prev k]
  show ?thesis
  proof (cases prev)
    case None
    then have "v' = v" "db' = db" using run prev by (auto simp: remove_ballot_def)
    moreover have "?B(part_id p := None) = ?B" using bp None by (simp add: fun_upd_idem)
    ultimately show ?thesis using ok by simp
  next
    case (Some j)
    have "?B (part_id p) = Some (int j)" using bp Some by simp
    note wd = tallied_withdraw [OF ok this]
    from word_dec_uint [OF wd(3)] show ?thesis using run prev Some wd k by (auto simp: remove_ballot_def ballots_remove)
  qed
qed


lemma position_Some: "position P xs = Some i \<Longrightarrow> i < length xs \<and> P (xs ! i)"
  by (induction xs arbitrary: i) (auto split: if_splits)

lemma votes_saved:
  assumes "votes_ok db" "mt_votes (tables db1) = mt_votes (tables db)" "ballots_of db1 = (ballots_of db)(k := B)"
    and "tallied (sv_tallies v) (uint (sv_total_votes v)) B" "k = (ev_room_id (sv_poll v), ev_id (sv_poll v))"
    and "save_vote_state v db1 = Ok ((), db')"
  shows "votes_ok db' \<and> polls db' = (polls db)(k \<mapsto> \<lparr>poll_ballots = B, poll_closed = (sv_manual_close v \<noteq> None)\<rparr>)"
proof -
  obtain row where row: "mt_votes (tables db') = om_insert k (row\<lparr>vr_tallies := sv_tallies v, vr_total_votes := uint (sv_total_votes v),
      vr_manual_close_seq := map_option fst (sv_manual_close v)\<rparr>) (mt_votes (tables db))" "mt_ballots (tables db') = mt_ballots (tables db1)"
    using assms(2,5,6) by (auto simp: save_vote_state_def Let_def split: option.splits)
  have "ballots_of db' = ballots_of db1" using row(2) by (simp add: ballots_of_def fun_eq_iff)
  with assms(3) have b: "ballots_of db' = (ballots_of db)(k := B)" by simp
  have "poll_counted (om_get (mt_votes (tables db')) k') (ballots_of db' k')" for k'
  proof (cases "k' = k")
    case False
    moreover have "poll_counted (om_get (mt_votes (tables db)) k') (ballots_of db k')" using assms(1) unfolding votes_ok_def by (rule spec)
    ultimately show ?thesis by (simp add: row(1) b)
  qed (use assms(4) in \<open>simp add: row(1) b poll_counted_def\<close>)
  then have "votes_ok db'" by (simp add: votes_ok_def)
  moreover have "polls db' k' = ((polls db)(k \<mapsto> \<lparr>poll_ballots = B, poll_closed = (sv_manual_close v \<noteq> None)\<rparr>)) k'" for k'
    by (cases "k' = k") (simp_all add: polls_def row(1) b)
  ultimately show ?thesis by blast
qed

lemma require_open_Ok: "require_open v now = Ok () \<Longrightarrow> sv_manual_close v = None \<and>
    (\<forall>deadline. vd_deadline_at (sv_definition v) = Some deadline \<longrightarrow> now < deadline)"
  by (auto simp: require_open_def split: option.splits)

lemma loaded_poll:
  assumes "load_vote U rfc rid vid db = Ok v" "require_open v now = Ok ()"
  shows "polls db (rid, vid) = Some \<lparr>poll_ballots = ballots_of db (rid, vid), poll_closed = False\<rparr>"
    "(ev_room_id (sv_poll v), ev_id (sv_poll v)) = (rid, vid)" "length (sv_tallies v) = length (vd_options (sv_definition v))"
proof -
  obtain row where "om_get (mt_votes (tables db)) (rid, vid) = Some row" "ev_room_id (sv_poll v) = rid" "ev_id (sv_poll v) = vid"
    "length (sv_tallies v) = length (vd_options (sv_definition v))" "sv_manual_close v = None \<longleftrightarrow> vr_manual_close_seq row = None"
    using load_vote_facts [OF assms(1)] by metis
  with require_open_Ok [OF assms(2)] show "polls db (rid, vid) = Some \<lparr>poll_ballots = ballots_of db (rid, vid), poll_closed = False\<rparr>"
    "(ev_room_id (sv_poll v), ev_id (sv_poll v)) = (rid, vid)" "length (sv_tallies v) = length (vd_options (sv_definition v))"
    by (simp_all add: polls_def)
qed

lemma cast_effect:
  assumes ok: "votes_ok db" and run: "apply_vote_command E rfc pr p (Vote_Cast c) sq now db = Ok (e, db')"
  shows "votes_ok db' \<and> (\<exists>q i v. polls db (pr_room_id pr, cast_vote_id c) = Some q \<and> \<not> poll_closed q
    \<and> load_vote (te_unicode E) rfc (pr_room_id pr) (cast_vote_id c) db = Ok v
    \<and> (\<forall>deadline. vd_deadline_at (sv_definition v) = Some deadline \<longrightarrow> now < deadline)
    \<and> i < length (vd_options (sv_definition v))
    \<and> resolve_vote_choice (te_unicode E) (cast_choice c) (vd_options (sv_definition v)) = Some (vd_options (sv_definition v) ! i)
    \<and> polls db' = (polls db)((pr_room_id pr, cast_vote_id c) \<mapsto> q\<lparr>poll_ballots := (poll_ballots q)(part_id p \<mapsto> int i)\<rparr>))"
proof -
  let ?k = "(pr_room_id pr, cast_vote_id c)"
  obtain v choice i e db1 db2 v' db3 where v: "load_vote (te_unicode E) rfc (pr_room_id pr) (cast_vote_id c) db = Ok v"
    and o: "require_open v now = Ok ()" and ch: "resolve_vote_choice (te_unicode E) (cast_choice c) (vd_options (sv_definition v)) = Some choice"
    and pos: "position (\<lambda>option. option = choice) (vd_options (sv_definition v)) = Some i"
    and tr: "vote_transition_event E rfc pr p (Vote_Cast \<lparr>cast_vote_id = cast_vote_id c, cast_choice = choice\<rparr>) sq now db = Ok (e, db1)"
    and rb: "replace_ballot p i v db1 = Ok (v', db2)" and ins: "insert_event E e db2 = Ok ((), db3)"
    and sv: "save_vote_state v' db3 = Ok ((), db')"
    using run by auto
  note lp = loaded_poll [OF v o] and i = position_Some [OF pos]
  have t1: "tables db1 = tables db" and t3: "tables db3 = tables db2"
    using keepsD [OF keeps_tables_transition tr] keepsD [OF keeps_tables_insert ins] by simp_all
  note rf = replace_ballot_effect [OF _ lp(2) [symmetric] _ rb]
  have tl: "tallied (sv_tallies v) (uint (sv_total_votes v)) (ballots_of db1 ?k)" "i < length (sv_tallies v)"
    using loaded_tallied [OF ok v] same_tables [OF t1] lp(3) i by simp_all
  have "votes_ok db' \<and> polls db' = (polls db)(?k \<mapsto> \<lparr>poll_ballots = (ballots_of db ?k)(part_id p \<mapsto> int i), poll_closed = (sv_manual_close v' \<noteq> None)\<rparr>)"
    using rf(1-5) [OF tl] same_tables [OF t1] same_tables [OF t3] t1 t3 lp(2)
    by (intro votes_saved [OF ok _ _ _ _ sv]) simp_all
  with rf(5) [OF tl] lp(1) v o i ch require_open_Ok [OF o] show ?thesis by auto
qed


lemma withdraw_effect:
  assumes ok: "votes_ok db" and run: "apply_vote_command E rfc pr p (Vote_Withdraw r) sq now db = Ok (e, db')"
  shows "votes_ok db' \<and> (\<exists>q v. polls db (pr_room_id pr, ref_vote_id r) = Some q \<and> \<not> poll_closed q
    \<and> load_vote (te_unicode E) rfc (pr_room_id pr) (ref_vote_id r) db = Ok v
    \<and> (\<forall>deadline. vd_deadline_at (sv_definition v) = Some deadline \<longrightarrow> now < deadline)
    \<and> polls db' = (polls db)((pr_room_id pr, ref_vote_id r) \<mapsto> q\<lparr>poll_ballots := (poll_ballots q)(part_id p := None)\<rparr>))"
proof -
  let ?k = "(pr_room_id pr, ref_vote_id r)"
  obtain v e db1 db2 v' db3 where v: "load_vote (te_unicode E) rfc (pr_room_id pr) (ref_vote_id r) db = Ok v"
    and o: "require_open v now = Ok ()" and tr: "vote_transition_event E rfc pr p (Vote_Withdraw r) sq now db = Ok (e, db1)"
    and ins: "insert_event E e db1 = Ok ((), db2)" and rb: "remove_ballot p v db2 = Ok (v', db3)"
    and sv: "save_vote_state v' db3 = Ok ((), db')"
    using run by auto
  note lp = loaded_poll [OF v o]
  have t2: "tables db2 = tables db"
    using keepsD [OF keeps_tables_transition tr] keepsD [OF keeps_tables_insert ins] by simp
  have "tallied (sv_tallies v) (uint (sv_total_votes v)) (ballots_of db2 ?k)"
    using loaded_tallied [OF ok v] same_tables [OF t2] by simp
  note rf = remove_ballot_effect [OF this lp(2) [symmetric] rb]
  have "votes_ok db' \<and> polls db' = (polls db)(?k \<mapsto> \<lparr>poll_ballots = (ballots_of db ?k)(part_id p := None), poll_closed = (sv_manual_close v' \<noteq> None)\<rparr>)"
    using rf same_tables [OF t2] t2 lp(2) by (intro votes_saved [OF ok _ _ _ _ sv]) simp_all
  with rf lp(1) v require_open_Ok [OF o] show ?thesis by auto
qed

lemma close_effect:
  assumes ok: "votes_ok db" and run: "apply_vote_command E rfc pr p (Vote_Close r) sq now db = Ok (e, db')"
  shows "votes_ok db' \<and> (\<exists>q v. polls db (pr_room_id pr, ref_vote_id r) = Some q \<and> \<not> poll_closed q
    \<and> load_vote (te_unicode E) rfc (pr_room_id pr) (ref_vote_id r) db = Ok v
    \<and> (\<forall>deadline. vd_deadline_at (sv_definition v) = Some deadline \<longrightarrow> now < deadline)
    \<and> (pr_is_operator pr \<or> actor_participant_id (ev_actor (sv_poll v)) = part_id p)
    \<and> polls db' = (polls db)((pr_room_id pr, ref_vote_id r) \<mapsto> q\<lparr>poll_closed := True\<rparr>))"
proof -
  let ?k = "(pr_room_id pr, ref_vote_id r)"
  obtain v e db1 db2 where v: "load_vote (te_unicode E) rfc (pr_room_id pr) (ref_vote_id r) db = Ok v"
    and o: "require_open v now = Ok ()" and au: "pr_is_operator pr \<or> actor_participant_id (ev_actor (sv_poll v)) = part_id p"
    and tr: "vote_transition_event E rfc pr p (Vote_Close r) sq now db = Ok (e, db1)"
    and ins: "insert_event E e db1 = Ok ((), db2)"
    and sv: "save_vote_state (v\<lparr>sv_manual_close := Some (sq, now)\<rparr>) db2 = Ok ((), db')"
    using run by auto
  note lp = loaded_poll [OF v o]
  have t2: "tables db2 = tables db"
    using keepsD [OF keeps_tables_transition tr] keepsD [OF keeps_tables_insert ins] by simp
  have "votes_ok db' \<and> polls db' = (polls db)(?k \<mapsto> \<lparr>poll_ballots = ballots_of db ?k,
      poll_closed = (sv_manual_close (v\<lparr>sv_manual_close := Some (sq, now)\<rparr>) \<noteq> None)\<rparr>)"
    using loaded_tallied [OF ok v] same_tables [OF t2] t2 lp(2)
    by (intro votes_saved [OF ok _ _ _ _ sv]) simp_all
  with lp(1) v au require_open_Ok [OF o] show ?thesis by auto
qed

definition vote_tables :: "'y room_db \<Rightarrow> (rstr \<times> rstr, vote_row) omap \<times> (rstr \<times> rstr \<times> rstr, int) omap" where
  "vote_tables db = (mt_votes (tables db), mt_ballots (tables db))"

lemma keeps_vote_tables: "keeps tables m \<Longrightarrow> keeps vote_tables m"
  by (auto simp: keeps_def vote_tables_def)

lemma keeps_votes_bind [keeps_intros]: "keeps vote_tables (bind_message_attachments pr ids sq now)"
proof -
  have "keeps vote_tables (bind_attachment pr sq now i)" for i
    unfolding keeps_def bind_attachment_def by (auto simp: vote_tables_def split: option.splits)
  then show ?thesis unfolding bind_message_attachments_def by (intro keeps_intros)
qed

lemma same_vote_tables: "vote_tables db' = vote_tables db \<Longrightarrow> votes_ok db' = votes_ok db \<and> polls db' = polls db"
proof -
  assume a: "vote_tables db' = vote_tables db"
  then have "ballots_of db' = ballots_of db" by (simp add: vote_tables_def ballots_of_def fun_eq_iff)
  with a show ?thesis unfolding votes_ok_def polls_def [abs_def] by (simp add: vote_tables_def)
qed

lemma new_poll_effect:
  assumes ok: "votes_ok db" and run: "insert_vote_state U rfc e db = Ok ((), db')"
  shows "votes_ok db' \<and> polls db (ev_room_id e, ev_id e) = None
    \<and> polls db' = (polls db)((ev_room_id e, ev_id e) \<mapsto> \<lparr>poll_ballots = Map.empty, poll_closed = False\<rparr>)"
proof -
  let ?k = "(ev_room_id e, ev_id e)"
  obtain n where free: "om_get (mt_votes (tables db)) ?k = None" and row: "mt_votes (tables db') = om_insert ?k
      \<lparr>vr_poll_seq = ev_seq e, vr_tallies = replicate n 0, vr_total_votes = 0, vr_manual_close_seq = None\<rparr> (mt_votes (tables db))"
    and same: "mt_ballots (tables db') = mt_ballots (tables db)"
    using run by (auto simp: insert_vote_state_def)
  have pc: "poll_counted (om_get (mt_votes (tables db)) k) (ballots_of db k)" for k using ok unfolding votes_ok_def by (rule spec)
  have b: "ballots_of db' = ballots_of db" using same by (simp add: ballots_of_def fun_eq_iff)
  have e: "ballots_of db ?k = Map.empty" using pc [of ?k] free by (simp add: poll_counted_def)
  have "poll_counted (om_get (mt_votes (tables db')) k) (ballots_of db' k)" for k
    using pc [of k] e by (cases "k = ?k") (simp_all add: row b poll_counted_def tallied_def)
  then have "votes_ok db'" by (simp add: votes_ok_def)
  moreover have "polls db' k = ((polls db)(?k \<mapsto> \<lparr>poll_ballots = Map.empty, poll_closed = False\<rparr>)) k" for k
    using e by (cases "k = ?k") (simp_all add: polls_def row b)
  ultimately show ?thesis using free by (auto simp: polls_def)
qed

lemma create_effect:
  assumes ok: "votes_ok db" and run: "apply_vote_command E rfc pr p (Vote_Create c) sq now db = Ok (e, db')"
  shows "votes_ok db' \<and> polls db (pr_room_id pr, ev_id e) = None
    \<and> polls db' = (polls db)((pr_room_id pr, ev_id e) \<mapsto> \<lparr>poll_ballots = Map.empty, poll_closed = False\<rparr>)"
proof -
  obtain as uid e0 db1 db2 db3 where d: "draw_uuid E db = Ok (uid, db1)"
    and e0: "prepare_vote_event rfc (uuid_string uid) pr p (Vote_Create c) sq now = Ok e0" and e: "e = with_attachments as e0"
    and ins: "insert_event E e db1 = Ok ((), db2)" and st: "insert_vote_state (te_unicode E) rfc e db2 = Ok ((), db3)"
    and bd: "bind_message_attachments pr (vc_attachment_ids c) sq (timestamp_seconds now) db3 = Ok ((), db')"
    using run by (auto simp: Let_def)
  have t2: "tables db2 = tables db" using keepsD [OF keeps_tables_basic(2) d] keepsD [OF keeps_tables_insert ins] by simp
  have "pr_room_id pr = part_room_id p" "ev_room_id e0 = part_room_id p"
    using e0 by (auto simp: prepare_vote_event_def prepare_authorized_participant_message_event_def require_vote_write_authority_def
        require_active_write_participant_def)
  then have "ev_room_id e = pr_room_id pr" using e by (simp add: with_attachments_def)
  with new_poll_effect [OF _ st] same_tables [OF t2] ok same_vote_tables [OF keepsD [OF keeps_votes_bind bd]] show ?thesis by simp
qed


lemma delete_poll_effect:
  assumes ok: "votes_ok db" and run: "delete_vote_projection rid vid sq db = Ok ((), db')"
  shows "votes_ok db' \<and> polls db' = (polls db)((rid, vid) := None)"
proof -
  let ?k = "(rid, vid)"
  have row: "mt_votes (tables db') = om_remove ?k (mt_votes (tables db))"
    "mt_ballots (tables db') = om_retain (\<lambda>q. (fst q, fst (snd q)) \<noteq> ?k) (mt_ballots (tables db))"
    using run by (auto simp: delete_vote_projection_def split: option.splits)
  have b: "ballots_of db' = (ballots_of db)(?k := Map.empty)" by (auto simp: ballots_of_def row fun_eq_iff)
  have pc: "poll_counted (om_get (mt_votes (tables db)) k) (ballots_of db k)" for k using ok unfolding votes_ok_def by (rule spec)
  have "poll_counted (om_get (mt_votes (tables db')) k) (ballots_of db' k)" for k
    using pc [of k] by (cases "k = ?k") (simp_all add: row b poll_counted_def)
  then have "votes_ok db'" by (simp add: votes_ok_def)
  moreover have "polls db' k = ((polls db)(?k := None)) k" for k
    by (cases "k = ?k") (simp_all add: polls_def row b)
  ultimately show ?thesis by blast
qed

text \<open>C7: the rows of the polls always count their ballots, and on polls seen as
  maps from participants to choices the commands are simple: creating adds an empty poll under
  a new identifier, casting sets the caller's one ballot to a listed option, withdrawing removes it,
  and closing, by the creator or an operator, ends the poll; a closed poll or one past its
  deadline accepts nothing, and no command touches another poll.\<close>

theorem vote_command_refines:
  assumes "votes_ok db" "apply_vote_command E rfc pr p command sq now db = Ok (e, db')"
  shows "votes_ok db' \<and>
    (case command of
       Vote_Create c \<Rightarrow> polls db (pr_room_id pr, ev_id e) = None
         \<and> polls db' = (polls db)((pr_room_id pr, ev_id e) \<mapsto> \<lparr>poll_ballots = Map.empty, poll_closed = False\<rparr>)
     | Vote_Cast c \<Rightarrow> \<exists>q i v. polls db (pr_room_id pr, cast_vote_id c) = Some q \<and> \<not> poll_closed q
         \<and> load_vote (te_unicode E) rfc (pr_room_id pr) (cast_vote_id c) db = Ok v
         \<and> (\<forall>deadline. vd_deadline_at (sv_definition v) = Some deadline \<longrightarrow> now < deadline)
         \<and> i < length (vd_options (sv_definition v))
         \<and> resolve_vote_choice (te_unicode E) (cast_choice c) (vd_options (sv_definition v)) = Some (vd_options (sv_definition v) ! i)
         \<and> polls db' = (polls db)((pr_room_id pr, cast_vote_id c) \<mapsto> q\<lparr>poll_ballots := (poll_ballots q)(part_id p \<mapsto> int i)\<rparr>)
     | Vote_Withdraw r \<Rightarrow> \<exists>q v. polls db (pr_room_id pr, ref_vote_id r) = Some q \<and> \<not> poll_closed q
         \<and> load_vote (te_unicode E) rfc (pr_room_id pr) (ref_vote_id r) db = Ok v
         \<and> (\<forall>deadline. vd_deadline_at (sv_definition v) = Some deadline \<longrightarrow> now < deadline)
         \<and> polls db' = (polls db)((pr_room_id pr, ref_vote_id r) \<mapsto> q\<lparr>poll_ballots := (poll_ballots q)(part_id p := None)\<rparr>)
     | Vote_Close r \<Rightarrow> \<exists>q v. polls db (pr_room_id pr, ref_vote_id r) = Some q \<and> \<not> poll_closed q
         \<and> load_vote (te_unicode E) rfc (pr_room_id pr) (ref_vote_id r) db = Ok v
         \<and> (\<forall>deadline. vd_deadline_at (sv_definition v) = Some deadline \<longrightarrow> now < deadline)
         \<and> (pr_is_operator pr \<or> actor_participant_id (ev_actor (sv_poll v)) = part_id p)
         \<and> polls db' = (polls db)((pr_room_id pr, ref_vote_id r) \<mapsto> q\<lparr>poll_closed := True\<rparr>))"
proof (cases command)
  case (Vote_Create c)
  with create_effect [OF assms(1)] assms(2) show ?thesis by simp
next
  case (Vote_Cast c)
  from cast_effect [OF assms(1) assms(2) [unfolded this]] Vote_Cast show ?thesis by simp
next
  case (Vote_Withdraw r)
  from withdraw_effect [OF assms(1) assms(2) [unfolded this]] Vote_Withdraw show ?thesis by simp
next
  case (Vote_Close r)
  from close_effect [OF assms(1) assms(2) [unfolded this]] Vote_Close show ?thesis by simp
qed

section \<open>Witnesses\<close>

definition sample_room_env :: "unit room_env" where
  "sample_room_env =
     \<lparr>te_unicode = ascii_unicode, te_now = (\<lambda>n. 1000 + int n), te_uuid = (\<lambda>n. of_nat (n + 1)),
      te_session_json = (\<lambda>_. Null), te_reconcile = (\<lambda>_ _. tx_return ()),
      te_retained_interrupt = (\<lambda>_ _ _. False), te_attendee_ready = (\<lambda>_ _ _. Ok True),
      te_persona_card = (\<lambda>_ _. Err Persona_Asset_Missing)\<rparr>"

definition sample_human :: participant where
  "sample_human =
     \<lparr>part_room_id = str ''main'', part_id = str ''ada'', part_display_name = str ''Ada'', part_avatar_image_url = [],
      part_type = str ''human'', part_status = Joined, part_role = Human, part_owner_id = [],
      part_muted = False, part_created_at = 3, part_updated_at = 3\<rparr>"

definition sample_operator :: authenticated_principal where
  "sample_operator =
     \<lparr>pr_principal_id = str ''user-1'', pr_participant_id = str ''ada'', pr_display_name = str ''Ada'',
      pr_room_id = str ''main'', pr_client_kind = Browser, pr_invite_scope = Read_Write, pr_is_operator = True,
      pr_capabilities = local_operator Browser Read_Write\<rparr>"

definition sample_room_db :: "unit room_db" where
  "sample_room_db =
     \<lparr>db_rooms = [str ''main'' \<mapsto> (sample_room, encode_settings (defaults (str ''Main'')))],
      db_participants = [(str ''main'', str ''ada'') \<mapsto> sample_human],
      db_sessions = [], db_events = [], db_search = [], db_executions = [], db_effects = [], db_restart = None,
      db_draws = 0,
      db_rest = \<lparr>mt_attachments = [], mt_votes = [], mt_ballots = [], mt_commands = Map.empty, mt_pins = Map.empty, mt_budgets = [], mt_rest = ()\<rparr>\<rparr>"

definition sample_poll :: vote_command where
  "sample_poll = Vote_Create \<lparr>vc_question = str ''Tea?'', vc_options = [str ''yes'', str ''no''], vc_duration_seconds = 0,
     vc_attachment_ids = []\<rparr>"

definition sample_poll_event :: room_event where
  "sample_poll_event = projr (prepare_vote_event show_int (uuid_string 1) sample_operator sample_human sample_poll 1 7)"

definition sample_poll_db :: "unit room_db" where
  "sample_poll_db = snd (projr (insert_event sample_room_env sample_poll_event (sample_room_db\<lparr>db_draws := 1\<rparr>)))"

lemma sample_votes_ok: "votes_ok sample_room_db"
  by (simp add: votes_ok_def sample_room_db_def tables_def ballots_of_def poll_counted_def om_get_def)

theorem vote_command_refines_witness:
  "\<exists>e db'. apply_vote_command sample_room_env show_int sample_operator sample_human sample_poll 1 7 sample_room_db = Ok (e, db')
     \<and> votes_ok db' \<and> polls db' (str ''main'', ev_id e) = Some \<lparr>poll_ballots = Map.empty, poll_closed = False\<rparr>"
proof -
  have "\<not> isl (prepare_vote_event show_int (uuid_string 1) sample_operator sample_human sample_poll 1 7)" by code_simp
  then have e: "prepare_vote_event show_int (uuid_string 1) sample_operator sample_human sample_poll 1 7 = Ok sample_poll_event"
    by (cases "prepare_vote_event show_int (uuid_string 1) sample_operator sample_human sample_poll 1 7") (simp_all add: sample_poll_event_def)
  have "\<not> isl (insert_event sample_room_env sample_poll_event (sample_room_db\<lparr>db_draws := 1\<rparr>))" by code_simp
  then have i: "insert_event sample_room_env sample_poll_event (sample_room_db\<lparr>db_draws := 1\<rparr>) = Ok ((), sample_poll_db)"
    using run_Ok by (fastforce simp: sample_poll_db_def)
  have "\<not> isl (insert_vote_state ascii_unicode show_int sample_poll_event sample_poll_db)" by code_simp
  then obtain db' where v: "insert_vote_state ascii_unicode show_int sample_poll_event sample_poll_db = Ok ((), db')"
    using run_Ok by fastforce
  have d: "draw_uuid sample_room_env sample_room_db = Ok (1, sample_room_db\<lparr>db_draws := 1\<rparr>)"
    by (simp add: draw_uuid_def sample_room_env_def sample_room_db_def)
  have u: "te_unicode sample_room_env = ascii_unicode" by (simp add: sample_room_env_def)
  have run: "apply_vote_command sample_room_env show_int sample_operator sample_human sample_poll 1 7 sample_room_db = Ok (sample_poll_event, db')"
    using e i v d u
    by (simp add: sample_poll_def tx_bind_def tx_read_def tx_try_def tx_return_def prepare_message_attachment_bindings_def
        bind_message_attachments_def with_attachments_def Let_def)
  have "votes_ok db' \<and> polls db' (str ''main'', ev_id sample_poll_event) = Some \<lparr>poll_ballots = Map.empty, poll_closed = False\<rparr>"
    using vote_command_refines [OF sample_votes_ok run] by (simp add: sample_poll_def sample_operator_def)
  with run show ?thesis by blast
qed

end
