(* ===== verification/Event_Codec.thy ===== *)
theory Event_Codec
  imports Projection
begin

text \<open>
  The stored form of an event: what the derived serialisation of model.rs writes, the derived
  deserialisation reads back. The event log, the results of commands and every page sent to a
  client pass through it.
\<close>

definition event_fields_free :: "jmap \<Rightarrow> bool" where
  "event_fields_free extra \<longleftrightarrow> list_all (\<lambda>k. k \<notin> set (map str EVENT_FIELDS)) (om_keys extra)"

definition event_encodable :: "room_event \<Rightarrow> bool" where
  "event_encodable e \<longleftrightarrow>
     om_wf (ev_extra e) \<and> event_fields_free (ev_extra e) \<and> i64_min \<le> ev_seq e \<and> ev_seq e \<le> i64_max"

lemma map_of_rev_wf: "om_wf m \<Longrightarrow> map_of (rev m) = map_of m"
  using om_wf_distinct [of m] by (intro map_of_eqI) (auto simp: om_keys_def rev_map [symmetric])

lemma as_i64_json_i64: "i64_min \<le> i \<Longrightarrow> i \<le> i64_max \<Longrightarrow> as_i64 (json_i64 i) = Some i"
proof (cases "0 \<le> i")
  case True
  assume "i \<le> i64_max"
  with True have "uint (word_of_int i :: 64 word) = i"
    by (simp add: uint_word_of_int i64_max_def take_bit_eq_mod)
  with True \<open>i \<le> i64_max\<close> show ?thesis by (simp add: json_i64_def)
next
  case False
  assume "i64_min \<le> i"
  with False have "sint (word_of_int i :: 64 word) = i"
    by (simp add: sint_sbintrunc' signed_take_bit_int_eq_self i64_min_def)
  with False show ?thesis by (simp add: json_i64_def)
qed

lemma decode_encode_actor [simp]: "decode_actor (encode_actor a) = Some a"
  by (cases a) (simp add: decode_actor_def encode_actor_def json_object_def om_get_from)

text \<open>The entries the struct itself writes, before the flattened extra fields.\<close>

definition event_head :: "(timestamp \<Rightarrow> rstr) \<Rightarrow> room_event \<Rightarrow> (rstr \<times> json) list" where
  "event_head json_time e =
     [(str ''v'', json_u32 (ev_v e)), (str ''id'', String (ev_id e)), (str ''seq'', json_i64 (ev_seq e)),
      (str ''created_at'', String (json_time (ev_created_at e))), (str ''room_id'', String (ev_room_id e)),
      (str ''type'', String (ev_type e)), (str ''actor'', encode_actor (ev_actor e))]
     @ present ''participant_id'' (ev_participant_id e) @ present ''participant_type'' (ev_participant_type e)
     @ present ''actor_id'' (ev_actor_id e) @ present ''actor_type'' (ev_actor_type e)
     @ present ''display_name'' (ev_display_name e) @ present ''content'' (ev_content e)
     @ present ''message_kind'' (ev_message_kind e)"

lemma map_of_present: "map_of (rev (present key v)) k = (if k = str key then map_option String v else None)"
  by (simp add: present_def split: option.splits)

lemma event_head_keys: "map_of (rev (event_head json_time e)) k \<noteq> None \<Longrightarrow> k \<in> set (map str EVENT_FIELDS)"
  by (auto simp: event_head_def map_add_def map_of_present EVENT_FIELDS_def split: option.splits if_splits)

lemma encode_event_get:
  assumes "om_wf (ev_extra e)" "event_fields_free (ev_extra e)" "encode_event json_time e = Object m"
  shows "om_get m k = (if k \<in> set (map str EVENT_FIELDS) then map_of (rev (event_head json_time e)) k else om_get (ev_extra e) k)"
proof -
  have m: "m = om_from (event_head json_time e @ ev_extra e)"
    using assms(3) by (simp add: encode_event_def event_head_def json_object_def)
  have "om_get m k = (case om_get (ev_extra e) k of None \<Rightarrow> map_of (rev (event_head json_time e)) k | Some v \<Rightarrow> Some v)"
    using map_of_rev_wf [OF assms(1)] unfolding m om_get_from by (simp add: map_add_def om_get_def)
  moreover have "om_get (ev_extra e) k = None" if "k \<in> set (map str EVENT_FIELDS)"
    using assms(2) that om_contains_iff [of "ev_extra e" k] by (auto simp: event_fields_free_def list_all_iff om_contains_def)
  moreover have "map_of (rev (event_head json_time e)) k = None" if "k \<notin> set (map str EVENT_FIELDS)"
    using event_head_keys [of json_time e k] that by blast
  ultimately show ?thesis by (auto split: option.splits)
qed

lemma event_extra_back:
  assumes "om_wf (ev_extra e)" "event_fields_free (ev_extra e)" "encode_event json_time e = Object m"
  shows "om_retain (\<lambda>k. k \<notin> set (map str EVENT_FIELDS)) m = ev_extra e"
proof (rule om_ext)
  have "om_wf m" using assms(3) by (auto simp: encode_event_def json_object_def om_wf_from)
  then show "om_wf (om_retain (\<lambda>k. k \<notin> set (map str EVENT_FIELDS)) m)" by (rule om_wf_retain)
  fix k
  have "om_get (ev_extra e) k = None" if "k \<in> set (map str EVENT_FIELDS)"
    using assms(2) that om_contains_iff [of "ev_extra e" k] by (auto simp: event_fields_free_def list_all_iff om_contains_def)
  then show "om_get (om_retain (\<lambda>k. k \<notin> set (map str EVENT_FIELDS)) m) k = om_get (ev_extra e) k"
    using encode_event_get [OF assms, of k] by auto
qed (rule assms(1))

lemma optional_text_back:
  assumes "om_get m (str key) = map_option String v"
  shows "optional_text m key = Some v"
  using assms by (cases v) (simp_all add: optional_text_def)

lemma event_roundtrip:
  assumes time: "parse_time (json_time (ev_created_at e)) = Some (ev_created_at e)" and ok: "event_encodable e"
  shows "decode_event parse_time (encode_event json_time e) = Some e"
proof -
  obtain m where m: "encode_event json_time e = Object m" by (simp add: encode_event_def json_object_def)
  have wf: "om_wf (ev_extra e)" "event_fields_free (ev_extra e)" using ok by (simp_all add: event_encodable_def)
  note get = encode_event_get [OF wf m]
  have field: "om_get m (str f) = map_of (rev (event_head json_time e)) (str f)" if "f \<in> set EVENT_FIELDS" for f
    using get [of "str f"] that by simp
  note head = event_head_def map_add_def map_of_present
  have required:
    "om_get m (str ''v'') = Some (json_u32 (ev_v e))" "om_get m (str ''id'') = Some (String (ev_id e))"
    "om_get m (str ''seq'') = Some (json_i64 (ev_seq e))" "om_get m (str ''created_at'') = Some (String (json_time (ev_created_at e)))"
    "om_get m (str ''room_id'') = Some (String (ev_room_id e))" "om_get m (str ''type'') = Some (String (ev_type e))"
    "om_get m (str ''actor'') = Some (encode_actor (ev_actor e))"
    using field by (simp_all add: EVENT_FIELDS_def head)
  have optional: "optional_text m ''participant_id'' = Some (ev_participant_id e)"
    "optional_text m ''participant_type'' = Some (ev_participant_type e)"
    "optional_text m ''actor_id'' = Some (ev_actor_id e)" "optional_text m ''actor_type'' = Some (ev_actor_type e)"
    "optional_text m ''display_name'' = Some (ev_display_name e)" "optional_text m ''content'' = Some (ev_content e)"
    "optional_text m ''message_kind'' = Some (ev_message_kind e)"
    by (rule optional_text_back, simp add: field EVENT_FIELDS_def head split: option.splits)+
  have seq: "as_i64 (json_i64 (ev_seq e)) = Some (ev_seq e)"
    using ok by (intro as_i64_json_i64) (simp_all add: event_encodable_def)
  have extra: "om_retain (\<lambda>k. k \<notin> str ` set EVENT_FIELDS) m = ev_extra e"
    using event_extra_back [OF wf m] by simp
  show ?thesis
    unfolding m by (simp add: decode_event_def required optional seq time extra)
qed

text \<open>C27: an event whose extra fields are ordered and repeat no field of the struct is
  read back from its stored document exactly, and projecting the document for a principal is then
  projecting the event.\<close>

theorem stored_event_roundtrip:
  assumes "event_encodable e" "parse_time (json_time (ev_created_at e)) = Some (ev_created_at e)"
  shows "decode_event parse_time (encode_event json_time e) = Some e
    \<and> public_value_for_principal parse_time json_time pr (encode_event json_time e) =
        encode_event json_time (public_event_for_principal e pr)"
  using event_roundtrip [where parse_time = parse_time and json_time = json_time, OF assms(2,1)]
  by (simp add: public_value_for_principal.simps [of _ _ _ "encode_event json_time e"])

definition sample_stored_event :: room_event where
  "sample_stored_event =
     \<lparr>ev_v = 1, ev_id = str ''e1'', ev_seq = 1, ev_created_at = 7, ev_room_id = str ''main'', ev_type = str ''message_final'',
      ev_actor = \<lparr>actor_participant_id = str ''ada'', actor_participant_type = str ''human''\<rparr>,
      ev_participant_id = None, ev_participant_type = None, ev_actor_id = None, ev_actor_type = None,
      ev_display_name = None, ev_content = Some (str ''hi''), ev_message_kind = Some (str ''message''),
      ev_extra = [(str ''edited_at'', Null)]\<rparr>"

theorem stored_event_roundtrip_witness:
  "decode_event (\<lambda>s. case s of [c] \<Rightarrow> Some (int c) | _ \<Rightarrow> None) (encode_event (\<lambda>t. [nat t]) sample_stored_event) = Some sample_stored_event"
proof -
  have "event_encodable sample_stored_event" by code_simp
  from stored_event_roundtrip [OF this, of "\<lambda>s. case s of [c] \<Rightarrow> Some (int c) | _ \<Rightarrow> None" "\<lambda>t. [nat t]"]
  show ?thesis by (simp add: sample_stored_event_def)
qed

end
