(* ===== verification/Room_Commands.thy ===== *)
theory Room_Commands
  imports Vote_Store Mutations Event_Codec
begin

text \<open>
  The commands that write messages (persistence/room\_turns.rs, message\_mutations.rs,
  command\_admission.rs and room\_write\_budget.rs): a request is admitted once, charged to the
  budget of its room, executed, and its result stored for retries; a message or a new poll is
  routed to the agents of the room in the same transaction.

  The digest of a payload, the two texts of a time stamp and the parser of one are functions
  of libraries, and whether an identifier belongs to a deleted room or a reserved lifecycle
  command is asked of the tables of other modules.
\<close>

record 'y command_env =
  ce_sha256 :: "rstr \<Rightarrow> rstr"
  ce_rfc3339 :: "timestamp \<Rightarrow> rstr"
  ce_json_time :: "timestamp \<Rightarrow> rstr"
  ce_parse_time :: "rstr \<Rightarrow> timestamp option"
  ce_deleted_request :: "rstr \<times> rstr \<times> rstr \<Rightarrow> 'y \<Rightarrow> bool"
  ce_reserved_request :: "rstr \<times> rstr \<times> rstr \<Rightarrow> 'y \<Rightarrow> bool"

section \<open>The write budget of a room\<close>

definition ROOM_WRITE_WINDOW_SECONDS :: int where "ROOM_WRITE_WINDOW_SECONDS = 60"
definition MAX_ROOM_COMMANDS_PER_WINDOW :: int where "MAX_ROOM_COMMANDS_PER_WINDOW = 14400"
definition MAX_ROOM_PAYLOAD_BYTES_PER_WINDOW :: int where "MAX_ROOM_PAYLOAD_BYTES_PER_WINDOW = 32 * 1024 * 1024"

definition budget_exceeded :: persistence_error where
  "budget_exceeded = rejected ''write_budget_exceeded'' ''Room-wide authenticated write budget exceeded.''"

definition command_size :: "rstr \<Rightarrow> rstr \<Rightarrow> json \<Rightarrow> nat" where
  "command_size request_id action payload = byte_len (encode (json_object
     [(str ''request_id'', String request_id), (str ''action'', String action), (str ''payload'', payload)]))"

definition reserve_room_write_budget_with_limits ::
  "rstr \<Rightarrow> int \<Rightarrow> nat \<Rightarrow> int \<Rightarrow> int \<Rightarrow> ('y room_db, unit) tx" where
  "reserve_room_write_budget_with_limits rid now_seconds payload_bytes command_limit payload_byte_limit = (\<lambda>db.
     rbind (ensure (int payload_bytes \<le> i64_max \<and> 0 < command_limit \<and> 0 < payload_byte_limit) budget_exceeded) (\<lambda>_.
     let window = (now_seconds div ROOM_WRITE_WINDOW_SECONDS) * ROOM_WRITE_WINDOW_SECONDS;
         kept = om_retain (\<lambda>k. \<not> snd k < window) (mt_budgets (tables db));
         (commands, bytes) = unwrap_or (0, 0) (om_get kept (rid, window)) in
     rbind (ensure (saturating_add_i64 commands 1 \<le> command_limit \<and>
                    saturating_add_i64 bytes (int payload_bytes) \<le> payload_byte_limit) budget_exceeded) (\<lambda>_.
     rbind (ensure (db_rooms db rid \<noteq> None) Database_Error) (\<lambda>_.
     Ok ((), with_tables (\<lambda>t. t\<lparr>mt_budgets := om_insert (rid, window)
           (case om_get kept (rid, window) of None \<Rightarrow> (1, int payload_bytes) | Some (c, b) \<Rightarrow> (c + 1, b + int payload_bytes))
           kept\<rparr>) db)))))"

definition reserve_room_write_budget :: "'y room_env \<Rightarrow> rstr \<Rightarrow> nat \<Rightarrow> ('y room_db, unit) tx" where
  "reserve_room_write_budget E rid payload_bytes =
     tx_bind (draw_now E) (\<lambda>now.
     reserve_room_write_budget_with_limits rid (timestamp_seconds now) payload_bytes
       MAX_ROOM_COMMANDS_PER_WINDOW MAX_ROOM_PAYLOAD_BYTES_PER_WINDOW)"

section \<open>Admission\<close>

record command_outcome =
  co_result :: json
  co_event :: room_event
  co_events :: "room_event list"
  co_deduplicated :: bool

definition existing_command ::
  "'y command_env \<Rightarrow> rstr \<Rightarrow> rstr \<Rightarrow> rstr \<Rightarrow> rstr \<Rightarrow> rstr \<Rightarrow> 'y room_db \<Rightarrow> persistence_error + command_outcome option" where
  "existing_command C rid principal_id request_id action payload_hash db =
     (let key = (rid, principal_id, request_id) in
      rbind (ensure (\<not> ce_deleted_request C key (mt_rest (tables db))) Command_Conflict) (\<lambda>_.
      case mt_commands (tables db) key of
        None \<Rightarrow> Ok None
      | Some row \<Rightarrow>
          rbind (ensure (cr_action row = action \<and> cr_payload_hash row = payload_hash) Command_Conflict) (\<lambda>_.
          let found = (\<lambda>k. Option.bind (as_object (cr_result row)) (\<lambda>m. om_get m (str k))) in
          rbind (ok_or (Option.bind (found ''event'') (decode_event (ce_parse_time C))) Json_Error) (\<lambda>event.
          rbind (case found ''events'' of
                   None \<Rightarrow> Ok [event]
                 | Some v \<Rightarrow> ok_or (decode_list (decode_event (ce_parse_time C)) v) Json_Error) (\<lambda>events.
          Ok (Some \<lparr>co_result = cr_result row, co_event = event, co_events = events, co_deduplicated = True\<rparr>))))))"

definition require_runtime_admission :: "'x turn_db \<Rightarrow> persistence_error + unit" where
  "require_runtime_admission db = ensure (\<not> restart_quiescing db)
     (Command_Unresolved ''runtime_restarting''
       (str ''The runtime is quiescing for restart. Retry the same request after readiness.''))"

definition inspect_non_lifecycle_command ::
  "'y command_env \<Rightarrow> rstr \<Rightarrow> rstr \<Rightarrow> rstr \<Rightarrow> rstr \<Rightarrow> rstr \<Rightarrow> 'y room_db \<Rightarrow> persistence_error + command_outcome option" where
  "inspect_non_lifecycle_command C rid principal_id request_id action payload_hash db =
     rbind (existing_command C rid principal_id request_id action payload_hash db) (\<lambda>outcome.
     rbind (ensure (\<not> ce_reserved_request C (rid, principal_id, request_id) (mt_rest (tables db))) Command_Conflict) (\<lambda>_.
     rbind (if outcome = None then require_runtime_admission db else Ok ()) (\<lambda>_.
     Ok outcome)))"

definition admit_non_lifecycle_command ::
  "'y room_env \<Rightarrow> 'y command_env \<Rightarrow> rstr \<Rightarrow> rstr \<Rightarrow> rstr \<Rightarrow> rstr \<Rightarrow> rstr \<Rightarrow> nat
     \<Rightarrow> ('y room_db, command_outcome option) tx" where
  "admit_non_lifecycle_command E C rid principal_id request_id action payload_hash payload_bytes =
     tx_bind (tx_read (inspect_non_lifecycle_command C rid principal_id request_id action payload_hash)) (\<lambda>outcome.
     if outcome = None
     then tx_bind (reserve_room_write_budget E rid payload_bytes) (\<lambda>_. tx_return None)
     else tx_return outcome)"

definition store_command_result :: "rstr \<times> rstr \<Rightarrow> rstr \<Rightarrow> rstr \<Rightarrow> rstr \<Rightarrow> json \<Rightarrow> ('y room_db, unit) tx" where
  "store_command_result owner request_id action payload_hash result = (\<lambda>db.
     let key = (fst owner, snd owner, request_id) in
     rbind (ensure (mt_commands (tables db) key = None \<and> db_rooms db (fst owner) \<noteq> None) Database_Error) (\<lambda>_.
     Ok ((), with_tables (\<lambda>t. t\<lparr>mt_commands := (mt_commands t)(key \<mapsto>
           \<lparr>cr_action = action, cr_payload_hash = payload_hash, cr_result = result\<rparr>)\<rparr>) db)))"

section \<open>Messages\<close>

definition prepare_human_message_event ::
  "'y room_env \<Rightarrow> 'y command_env \<Rightarrow> authenticated_principal \<Rightarrow> participant \<Rightarrow> json \<Rightarrow> int \<Rightarrow> timestamp
     \<Rightarrow> ('y room_db, room_event \<times> bool) tx" where
  "prepare_human_message_event E C pr p payload sequence now =
     (if Option.bind (as_object payload) (\<lambda>m. om_get m (str ''kind'')) \<noteq> None
      then
        tx_bind (tx_try (map_err rejection (vote_from_payload (te_unicode E) payload))) (\<lambda>command.
        tx_bind (apply_vote_command E (ce_rfc3339 C) pr p command sequence now) (\<lambda>event.
        tx_return (event, case command of Vote_Create _ \<Rightarrow> True | _ \<Rightarrow> False)))
      else
        tx_bind (tx_try (map_err rejection (message_send_from_payload (te_unicode E) payload))) (\<lambda>command.
        tx_bind (tx_read (prepare_message_attachment_bindings pr (ms_attachment_ids command) (timestamp_seconds now))) (\<lambda>attachments.
        tx_bind (draw_uuid E) (\<lambda>uid.
        tx_bind (tx_try (map_err rejection (prepare_message_event (uuid_string uid) pr p command sequence now))) (\<lambda>event.
        let event = with_attachments attachments event in
        tx_bind (insert_event E event) (\<lambda>_.
        tx_bind (bind_message_attachments pr (ms_attachment_ids command) sequence (timestamp_seconds now)) (\<lambda>_.
        tx_return (event, True))))))))"

record room_command_mutation =
  rcm_outcome :: command_outcome
  rcm_assignments :: "agent_turn_assignment list"

definition unsupported_action :: "rstr \<Rightarrow> persistence_error" where
  "unsupported_action action = Command_Rejected ''unsupported_action'' (str ''Unsupported room command: '' @ action)"

definition message_result :: "'y command_env \<Rightarrow> room_event \<Rightarrow> int \<Rightarrow> json" where
  "message_result C event sequence = json_object
     [(str ''event'', encode_event (ce_json_time C) event), (str ''event_seq'', json_i64 sequence)]"

definition execute_message_in ::
  "'y room_env \<Rightarrow> 'y command_env \<Rightarrow> authenticated_principal \<Rightarrow> rstr \<Rightarrow> rstr \<Rightarrow> json
     \<Rightarrow> ('y room_db, room_command_mutation) tx" where
  "execute_message_in E C pr request_id action payload =
     (let payload_hash = canonical_payload_hash (ce_sha256 C) payload in
      tx_bind (tx_read (load_active_room E (pr_room_id pr))) (\<lambda>(room, settings).
      tx_bind (admit_non_lifecycle_command E C (pr_room_id pr) (pr_principal_id pr) request_id action payload_hash
                 (command_size request_id action payload)) (\<lambda>existing.
      case existing of
        Some outcome \<Rightarrow> tx_return \<lparr>rcm_outcome = outcome, rcm_assignments = []\<rparr>
      | None \<Rightarrow>
          tx_bind (tx_try (ensure (action = str ''message.send'') (unsupported_action action))) (\<lambda>_.
          tx_bind (tx_read (load_participant (pr_room_id pr) (pr_participant_id pr))) (\<lambda>p.
          tx_bind (tx_read (next_sequence (pr_room_id pr))) (\<lambda>sequence.
          tx_bind (draw_now E) (\<lambda>now.
          tx_bind (prepare_human_message_event E C pr p payload sequence now) (\<lambda>(event, route_to_floor).
          tx_bind (if route_to_floor
                   then tx_bind (route_message E settings event) (\<lambda>_. assign_available_pending E room settings)
                   else tx_return []) (\<lambda>prepared.
          let result = message_result C event sequence in
          tx_bind (store_command_result (pr_room_id pr, pr_principal_id pr) request_id action payload_hash result) (\<lambda>_.
          tx_return
            \<lparr>rcm_outcome = \<lparr>co_result = result, co_event = event, co_events = event # concat (map pa_events prepared),
                            co_deduplicated = False\<rparr>,
             rcm_assignments = map pa_assignment prepared\<rparr>)))))))))) "

definition execute_message_with_turn ::
  "'y room_env \<Rightarrow> 'y command_env \<Rightarrow> authenticated_principal \<Rightarrow> rstr \<Rightarrow> rstr \<Rightarrow> json
     \<Rightarrow> ('y room_db, room_command_mutation) tx" where
  "execute_message_with_turn E C pr request_id action payload = execute_message_in E C pr request_id action payload"

definition execute_message ::
  "'y room_env \<Rightarrow> 'y command_env \<Rightarrow> authenticated_principal \<Rightarrow> rstr \<Rightarrow> rstr \<Rightarrow> json \<Rightarrow> ('y room_db, command_outcome) tx" where
  "execute_message E C pr request_id action payload =
     tx_bind (execute_message_with_turn E C pr request_id action payload) (\<lambda>mutation. tx_return (rcm_outcome mutation))"

section \<open>Edits and deletions\<close>

definition remove_message_pin :: "rstr \<Rightarrow> rstr \<Rightarrow> ('y room_db, unit) tx" where
  "remove_message_pin rid event_id = (\<lambda>db.
     Ok ((), with_tables (\<lambda>t. t\<lparr>mt_pins := (mt_pins t)((rid, event_id) := None)\<rparr>) db))"

text \<open>The index operations on the search table of the store.\<close>

definition update_search :: "(search_table \<Rightarrow> persistence_error + search_table) \<Rightarrow> ('x turn_db, unit) tx" where
  "update_search f = (\<lambda>db. rbind (f (db_search db)) (\<lambda>search. Ok ((), db\<lparr>db_search := search\<rparr>)))"

definition edit_message ::
  "'y room_env \<Rightarrow> 'y command_env \<Rightarrow> authenticated_principal \<Rightarrow> room_event \<Rightarrow> message_edit \<Rightarrow> int \<Rightarrow> timestamp
     \<Rightarrow> ('y room_db, room_event \<times> json) tx" where
  "edit_message E C pr target edit sequence now =
     tx_bind (tx_try (map_err rejection (authorize_message_edit pr target))) (\<lambda>_.
     tx_bind (tx_try (if has_visible_text (te_unicode E) (me_content edit) then Ok ()
                      else rbind (message_attachments_from_event target) (\<lambda>attachments.
                           ensure (attachments \<noteq> []) (rejected ''empty'' ''Message content or an attachment is required.'')))) (\<lambda>_.
     let updated = prepare_updated_message (ce_json_time C) target (me_content edit) now in
     tx_bind (replace_event updated) (\<lambda>_.
     tx_bind (update_search (replace_room_message_index (te_unicode E) updated)) (\<lambda>_.
     tx_bind (draw_uuid E) (\<lambda>uid.
     let mutation = prepare_message_updated_event (ce_json_time C) (uuid_string uid) pr target (me_content edit) sequence now in
     tx_return (mutation, json_object
       [(str ''message'', encode_event (ce_json_time C) updated), (str ''event'', encode_event (ce_json_time C) mutation),
        (str ''event_seq'', json_i64 sequence)]))))))"

definition delete_message ::
  "'y room_env \<Rightarrow> 'y command_env \<Rightarrow> authenticated_principal \<Rightarrow> room_event \<Rightarrow> int \<Rightarrow> timestamp
     \<Rightarrow> ('y room_db, room_event \<times> json) tx" where
  "delete_message E C pr target sequence now =
     tx_bind (tx_read (load_participant (pr_room_id pr) (actor_participant_id (ev_actor target)))) (\<lambda>author.
     tx_bind (tx_try (map_err rejection (authorize_message_delete pr target author))) (\<lambda>kind.
     tx_bind (delete_bound_message_attachments target) (\<lambda>attachment_ids.
     tx_bind (remove_message_pin (pr_room_id pr) (ev_id target)) (\<lambda>_.
     tx_bind (update_search (remove_room_message_index target)) (\<lambda>_.
     tx_bind (if kind = Mutable_Vote then delete_vote_projection (pr_room_id pr) (ev_id target) (ev_seq target)
              else tx_return ()) (\<lambda>_.
     tx_bind (remove_pending_input_reference (pr_room_id pr) (ev_id target)) (\<lambda>_.
     let updated = prepare_deleted_message (ce_json_time C) target kind now in
     tx_bind (replace_event updated) (\<lambda>_.
     tx_bind (draw_uuid E) (\<lambda>uid.
     let mutation = prepare_message_deleted_event (ce_json_time C) (uuid_string uid) pr target sequence now in
     tx_return (mutation, json_object
       [(str ''message'', encode_event (ce_json_time C) updated), (str ''event'', encode_event (ce_json_time C) mutation),
        (str ''event_seq'', json_i64 sequence), (str ''target_event_id'', String (ev_id target)),
        (str ''attachment_ids'', json_strs attachment_ids)]))))))))))"

definition mutate_message ::
  "'y room_env \<Rightarrow> 'y command_env \<Rightarrow> authenticated_principal \<Rightarrow> rstr \<times> message_edit option
     \<Rightarrow> ('y room_db, room_event \<times> json) tx" where
  "mutate_message E C pr request =
     tx_bind (tx_read (load_event (pr_room_id pr) (fst request))) (\<lambda>found.
     tx_bind (tx_try (ok_or found (rejected ''message_not_found'' ''Message was not found.''))) (\<lambda>target.
     tx_bind (draw_now E) (\<lambda>now.
     tx_bind (tx_read (next_sequence (pr_room_id pr))) (\<lambda>sequence.
     tx_bind (case snd request of
                Some edit \<Rightarrow> edit_message E C pr target edit sequence now
              | None \<Rightarrow> delete_message E C pr target sequence now) (\<lambda>(mutation, result).
     tx_bind (insert_event E mutation) (\<lambda>_.
     tx_return (mutation, result)))))))"

definition execute_message_mutation_in ::
  "'y room_env \<Rightarrow> 'y command_env \<Rightarrow> authenticated_principal \<Rightarrow> rstr \<Rightarrow> rstr \<Rightarrow> json \<Rightarrow> ('y room_db, command_outcome) tx" where
  "execute_message_mutation_in E C pr request_id action payload =
     (let payload_hash = canonical_payload_hash (ce_sha256 C) payload in
      tx_bind (admit_non_lifecycle_command E C (pr_room_id pr) (pr_principal_id pr) request_id action payload_hash
                 (command_size request_id action payload)) (\<lambda>existing.
      case existing of
        Some outcome \<Rightarrow> tx_return outcome
      | None \<Rightarrow>
          tx_bind (tx_try (map_err rejection
             (if action = str ''message.edit''
              then rbind (message_edit_from_payload payload) (\<lambda>edit. Ok (Some (me_event_id edit, Some edit)))
              else if action = str ''message.delete''
              then rbind (message_delete_from_payload payload) (\<lambda>deletion. Ok (Some (md_event_id deletion, None)))
              else Ok None))) (\<lambda>request.
          tx_bind (tx_try (ok_or request (unsupported_action action))) (\<lambda>request.
          tx_bind (mutate_message E C pr request) (\<lambda>(mutation, result).
          tx_bind (store_command_result (pr_room_id pr, pr_principal_id pr) request_id action payload_hash result) (\<lambda>_.
          tx_return \<lparr>co_result = result, co_event = mutation, co_events = [mutation], co_deduplicated = False\<rparr>))))))"

definition execute_message_mutation ::
  "'y room_env \<Rightarrow> 'y command_env \<Rightarrow> authenticated_principal \<Rightarrow> rstr \<Rightarrow> rstr \<Rightarrow> json \<Rightarrow> ('y room_db, command_outcome) tx" where
  "execute_message_mutation E C pr request_id action payload =
     tx_bind (tx_read (load_active_participant (pr_room_id pr) (pr_participant_id pr))) (\<lambda>_.
     execute_message_mutation_in E C pr request_id action payload)"

text \<open>What a reader sees of the edit of a message that was deleted since.\<close>

definition message_update_invalid :: persistence_error where
  "message_update_invalid = rejected ''message_update_target_invalid'' ''Stored message edit target is inconsistent.''"

definition project_deleted_message_update :: "room_event \<Rightarrow> 'x turn_db \<Rightarrow> persistence_error + room_event" where
  "project_deleted_message_update e db =
     (if ev_type e \<noteq> str ''message_updated'' then Ok e
      else
        rbind (ok_or (filter_opt (\<lambda>n. 0 < n \<and> n < ev_seq e) (Option.bind (om_get (ev_extra e) (str ''target_seq'')) as_i64))
                 message_update_invalid) (\<lambda>target_seq.
        rbind (ok_or (Option.bind (om_get (ev_extra e) (str ''target_event_id'')) as_str) message_update_invalid) (\<lambda>target_id.
        rbind (ok_or (om_get (db_events db) (ev_room_id e, target_seq)) message_update_invalid) (\<lambda>target.
        rbind (ensure (ev_id target = target_id \<and> ev_seq target = target_seq \<and> ev_room_id target = ev_room_id e)
                 message_update_invalid) (\<lambda>_.
        Ok (if om_get (ev_extra target) (str ''message_deleted'') = Some (Bool True)
            then e\<lparr>ev_content := None, ev_extra := om_insert (str ''message_deleted'') (Bool True) (ev_extra e)\<rparr>
            else e))))))"

section \<open>Polls by agents\<close>

text \<open>A rejection that ends the turn comes before the first write of the vote command, so the
  tables are then those before it.\<close>

definition complete_vote ::
  "'y room_env \<Rightarrow> 'y command_env \<Rightarrow> rstr \<Rightarrow> rstr \<Rightarrow> provider_turn_authority \<Rightarrow> vote_command
     \<Rightarrow> ('y room_db, agent_turn_commit) tx" where
  "complete_vote E C rid session_id authority command =
     tx_bind (tx_try (validate_identifier (pta_provider_turn_id authority) ''provider_turn_invalid'')) (\<lambda>_.
     tx_bind (tx_try (ensure (case command of Vote_Create c \<Rightarrow> vc_attachment_ids c = [] | _ \<Rightarrow> True)
        (rejected ''invalid_vote'' ''Agent Session votes cannot bind browser upload custody.''))) (\<lambda>_.
     let route_to_floor = (case command of Vote_Create _ \<Rightarrow> True | _ \<Rightarrow> False) in
     tx_bind (tx_read (load_active_room E rid)) (\<lambda>(room, settings).
     tx_bind (tx_read (load_session rid session_id)) (\<lambda>s.
     tx_bind (tx_try (require_active_turn s (pta_turn_id authority))) (\<lambda>_.
     tx_bind (tx_read (validate_input_cursor s)) (\<lambda>_.
     tx_bind (tx_try (apply_provider_session_transition (pta_provider_session_id authority) s)) (\<lambda>s.
     tx_bind (tx_read (load_participant (as_room_id (das_public s)) (as_participant_id (das_public s)))) (\<lambda>p.
     tx_bind (tx_try (provider_room_principal s p Read_Write)) (\<lambda>pr.
     tx_bind (tx_read (next_sequence rid)) (\<lambda>sequence.
     tx_bind (draw_now E) (\<lambda>now.
     let finalize = (\<lambda>disposition events. apply_finalization E
           \<lparr>ptf_room = room, ptf_settings = settings, ptf_turn_id = pta_turn_id authority,
            ptf_provider_turn_id = pta_provider_turn_id authority, ptf_disposition = disposition\<rparr> s events) in
     (\<lambda>db. case apply_vote_command E (ce_rfc3339 C) pr p command sequence now db of
        Inr (event, db') \<Rightarrow>
          tx_bind (terminalize_ordinary_execution s authority Completed) (\<lambda>_.
          finalize (Disposition_Completed route_to_floor) [event]) db'
      | Inl e \<Rightarrow>
          (case e of
             Command_Rejected code message \<Rightarrow>
               if is_terminal_vote_rejection e
               then tx_bind (terminalize_ordinary_execution s authority Failed) (\<lambda>_.
                    finalize (Disposition_Rejected (str code) message) []) db
               else Err e
           | _ \<Rightarrow> Err e)))))))))))))"

end
