(* ===== verification/Message_Commands.thy ===== *)
theory Message_Commands
  imports Room_Commands Idempotency
begin

text \<open>
  What the message commands promise: a retried request returns its stored result and changes
  nothing, the writes of a room stay within its budget, and deleting a message removes
  everything that refers to it.
\<close>

section \<open>Frames\<close>

text \<open>The rooms and the tables of other modules, which the turn operations leave alone.\<close>

definition rooms_rest :: "'x turn_db \<Rightarrow> (rstr \<rightharpoonup> room \<times> json) \<times> 'x" where
  "rooms_rest db = (db_rooms db, db_rest db)"

text \<open>What decides whether a request is a retry.\<close>

definition request_view ::
  "'y command_env \<Rightarrow> 'y room_db \<Rightarrow> (rstr \<rightharpoonup> room \<times> json) \<times> (rstr \<times> rstr \<times> rstr \<rightharpoonup> command_row) \<times>
     (rstr \<times> rstr \<times> rstr \<Rightarrow> bool) \<times> (rstr \<times> rstr \<times> rstr \<Rightarrow> bool)" where
  "request_view C db = (db_rooms db, mt_commands (tables db),
     \<lambda>k. ce_deleted_request C k (mt_rest (tables db)), \<lambda>k. ce_reserved_request C k (mt_rest (tables db)))"

lemma keeps_comp: "keeps v m \<Longrightarrow> keeps (\<lambda>s. f (v s)) m"
  by (simp add: keeps_def)

lemma request_view_of: "keeps rooms_rest m \<Longrightarrow> keeps (request_view C) m"
  using keeps_comp [of rooms_rest m "\<lambda>v. (fst v, mt_commands (snd v), \<lambda>k. ce_deleted_request C k (mt_rest (snd v)),
     \<lambda>k. ce_reserved_request C k (mt_rest (snd v)))"]
  by (simp add: rooms_rest_def request_view_def [abs_def] tables_def)

text \<open>Closing provider requests does not decide requests of clients, and the clock can be written and read back.\<close>

definition command_frame :: "'y room_env \<Rightarrow> 'y command_env \<Rightarrow> bool" where
  "command_frame E C \<longleftrightarrow>
     (\<forall>s now. keeps (request_view C) (te_reconcile E s now)) \<and>
     (\<forall>n. ce_parse_time C (ce_json_time C (te_now E n)) = Some (te_now E n))"

lemma rr_draws: "keeps rooms_rest (draw_now E)" "keeps rooms_rest (draw_uuid E)"
  by (auto simp: keeps_def draw_now_def draw_uuid_def rooms_rest_def)

lemma rr_save: "keeps rooms_rest (save_session s)"
  unfolding keeps_def save_session_Ok by (simp add: rooms_rest_def)

lemma rr_insert_event: "keeps rooms_rest (insert_event E e)"
  unfolding keeps_def insert_event_def by (auto simp: rooms_rest_def)

lemma rr_insert_execution: "keeps rooms_rest (insert_assigned_execution E s ti a)"
proof -
  have "keeps rooms_rest (\<lambda>db. rbind (ensure (om_get (db_executions db) q = None \<and> c db) Database_Error) (\<lambda>_.
      Ok (row, db\<lparr>db_executions := om_insert q row (db_executions db)\<rparr>)))" for q c row
    by (auto simp: keeps_def rooms_rest_def)
  then show ?thesis unfolding insert_assigned_execution_def Let_def by (intro keeps_intros rr_draws)
qed

lemmas view_basic [keeps_intros] = rr_draws [THEN request_view_of] rr_save [THEN request_view_of]
  rr_insert_event [THEN request_view_of] rr_insert_execution [THEN request_view_of]

lemma view_internal_event [keeps_intros]: "keeps (request_view C) (internal_event E s ty a c x)"
  unfolding internal_event_def Let_def by (intro keeps_intros)

lemma view_turn_events [keeps_intros]:
  "keeps (request_view C) (turn_started_event E s)" "keeps (request_view C) (turn_state_event E s)"
  unfolding turn_started_event_def turn_state_event_def by (intro keeps_intros)+

lemma view_session_state [keeps_intros]: "command_frame E C \<Longrightarrow> keeps (request_view C) (session_state_event E s)"
  unfolding session_state_event_def command_frame_def by (intro keeps_intros) simp

lemma view_route [keeps_intros]: "keeps (request_view C) (route_message E settings e)"
proof -
  have p: "keeps (request_view C) (floor_pick E settings e cs)" for cs
    unfolding floor_pick_def Let_def by (intro keeps_intros)
  have o: "keeps (request_view C) (ordered_targets E settings e ss)" for ss
    unfolding ordered_targets_def Let_def by (auto split: option.splits intro!: keeps_intros p)
  have "keeps (request_view C) (queue_input E e target)" for target
    unfolding queue_input_def by (intro keeps_intros)
  with o show ?thesis unfolding route_message_def by (intro keeps_intros)
qed

lemma view_survey [keeps_intros]:
  "keeps (request_view C) (survey_session E room s)" "keeps (request_view C) (clear_schedule_request E s)"
  unfolding survey_session_def clear_schedule_request_def is_available_def
  by (intro keeps_intros; auto split: list.splits intro!: keeps_intros)+

lemma view_prepare [keeps_intros]: "command_frame E C \<Longrightarrow> keeps (request_view C) (prepare_assignment E room settings s)"
  unfolding prepare_assignment_def Let_def by (intro keeps_intros)

lemma view_assign [keeps_intros]: "command_frame E C \<Longrightarrow> keeps (request_view C) (assign_available_pending E room settings)"
  unfolding assign_available_pending_def Let_def by (intro keeps_intros)

lemma view_bind [keeps_intros]: "keeps (request_view C) (bind_message_attachments pr ids sq now)"
proof -
  have "keeps (request_view C) (bind_attachment pr sq now i)" for i
    unfolding keeps_def bind_attachment_def by (auto simp: request_view_def split: option.splits)
  then show ?thesis unfolding bind_message_attachments_def by (intro keeps_intros)
qed

lemma view_vote_rows:
  "keeps (request_view C) (insert_vote_state U rfc e)" "keeps (request_view C) (save_vote_state v)"
  "keeps (request_view C) (upsert_ballot key choice)" "keeps (request_view C) (delete_vote_projection rid vid sq)"
  unfolding keeps_def insert_vote_state_def save_vote_state_def upsert_ballot_def delete_vote_projection_def
  by (auto simp: request_view_def Let_def split: option.splits prod.splits)

lemma view_ballots [keeps_intros]:
  "keeps (request_view C) (replace_ballot p n v)" "keeps (request_view C) (remove_ballot p v)"
proof -
  have "keeps (request_view C) (\<lambda>db. Ok ((), with_tables (\<lambda>t. t\<lparr>mt_ballots := f (mt_ballots t)\<rparr>) db))" for f
    by (simp add: keeps_def request_view_def)
  then show "keeps (request_view C) (remove_ballot p v)"
    unfolding remove_ballot_def by (auto split: option.splits intro!: keeps_intros)
  show "keeps (request_view C) (replace_ballot p n v)"
    unfolding replace_ballot_def by (intro keeps_intros view_vote_rows)
qed

lemma view_vote_command [keeps_intros]: "keeps (request_view C) (apply_vote_command E rfc pr p c sq now)"
proof -
  have t: "keeps (request_view C) (vote_transition_event E rfc pr p c sq now)" for c
    unfolding vote_transition_event_def by (intro keeps_intros)
  show ?thesis by (cases c) (simp_all add: Let_def, (intro keeps_intros view_vote_rows t)+)
qed

lemma view_prepare_message [keeps_intros]: "keeps (request_view C) (prepare_human_message_event E C' pr p payload sq now)"
  unfolding prepare_human_message_event_def Let_def by (intro keeps_intros)

lemma view_budget [keeps_intros]: "keeps (request_view C) (reserve_room_write_budget E rid n)"
proof -
  have "keeps (request_view C) (reserve_room_write_budget_with_limits rid sec n c b)" for sec c b
    unfolding keeps_def reserve_room_write_budget_with_limits_def
    by (auto simp: request_view_def Let_def split: prod.splits)
  then show ?thesis unfolding reserve_room_write_budget_def by (intro keeps_intros)
qed


section \<open>Events of messages can be stored\<close>

lemma fields_free_iff: "event_fields_free m \<longleftrightarrow> (\<forall>k \<in> set (om_keys m). k \<notin> str ` set EVENT_FIELDS)"
  by (simp add: event_fields_free_def list_all_iff)

lemma with_attachments_encodable:
  assumes "event_encodable e"
  shows "event_encodable (with_attachments as e)"
  using assms by (auto simp: with_attachments_def event_encodable_def fields_free_iff om_wf_insert EVENT_FIELDS_def)

lemma vote_fields_encodable: "om_wf (vote_event_fields rfc now c) \<and> event_fields_free (vote_event_fields rfc now c)"
  by (cases c) (simp_all add: om_wf_from fields_free_iff EVENT_FIELDS_def)

lemma vote_event_encodable:
  assumes "prepare_vote_event rfc i pr p c sq now = Ok e" "sq \<le> i64_max"
  shows "event_encodable e \<and> ev_created_at e = now"
  using assms vote_fields_encodable [of rfc now c]
  by (auto simp: prepare_vote_event_def prepare_authorized_participant_message_event_def event_encodable_def i64_min_def)

lemma minimized_encodable: "event_encodable e \<Longrightarrow> event_encodable (privacy_minimized_vote_transition e)"
  by (auto simp: privacy_minimized_vote_transition_def event_encodable_def fields_free_iff om_wf_retain)

lemma minimized_time [simp]: "ev_created_at (privacy_minimized_vote_transition e) = ev_created_at e"
  by (simp add: privacy_minimized_vote_transition_def)

lemma with_attachments_time [simp]: "ev_created_at (with_attachments as e) = ev_created_at e"
  by (simp add: with_attachments_def)

lemma vote_transition_encodable:
  assumes "vote_transition_event E rfc pr p c sq now db = Ok (e, db')" "sq \<le> i64_max"
  shows "event_encodable e \<and> ev_created_at e = now"
  using assms vote_event_encodable [where rfc = rfc and pr = pr and p = p and c = c and now = now and sq = sq]
  by (fastforce simp: vote_transition_event_def minimized_encodable split: sum.splits)

lemma vote_command_encodable:
  assumes "apply_vote_command E rfc pr p c sq now db = Ok (e, db')" "sq \<le> i64_max"
  shows "event_encodable e \<and> ev_created_at e = now"
proof (cases c)
  case (Vote_Create v)
  then obtain as uid e0 where e0: "prepare_vote_event rfc (uuid_string uid) pr p c sq now = Ok e0" and e: "e = with_attachments as e0"
    using assms(1) by (auto simp: Let_def)
  show ?thesis using vote_event_encodable [OF e0 assms(2)] with_attachments_encodable [of e0 as] by (simp add: e)
next
  case (Vote_Cast v)
  then obtain c' d d' where "vote_transition_event E rfc pr p c' sq now d = Ok (e, d')" using assms(1) by auto
  then show ?thesis using vote_transition_encodable assms(2) by blast
next
  case (Vote_Withdraw v)
  then obtain c' d d' where "vote_transition_event E rfc pr p c' sq now d = Ok (e, d')" using assms(1) by auto
  then show ?thesis using vote_transition_encodable assms(2) by blast
next
  case (Vote_Close v)
  then obtain c' d d' where "vote_transition_event E rfc pr p c' sq now d = Ok (e, d')" using assms(1) by auto
  then show ?thesis using vote_transition_encodable assms(2) by blast
qed

lemma human_message_encodable:
  assumes run: "prepare_human_message_event E C pr p payload sq now db = Ok ((e, route), db')" and sq: "sq \<le> i64_max"
  shows "event_encodable e \<and> ev_created_at e = now"
proof (cases "Option.bind (as_object payload) (\<lambda>m. om_get m (str ''kind'')) \<noteq> None")
  case True
  then obtain c d d' where "apply_vote_command E (ce_rfc3339 C) pr p c sq now d = Ok (e, d')"
    using run by (auto simp: prepare_human_message_event_def)
  then show ?thesis using vote_command_encodable sq by blast
next
  case False
  then obtain i c as e0 where e0: "prepare_message_event i pr p c sq now = Ok e0" and e: "e = with_attachments as e0"
    using run by (auto simp: prepare_human_message_event_def Let_def)
  have "event_encodable e0 \<and> ev_created_at e0 = now"
    using e0 sq by (auto simp: prepare_message_event_def prepare_participant_message_event_def
        prepare_authorized_participant_message_event_def event_encodable_def i64_min_def om_wf_def fields_free_iff om_keys_def)
  then show ?thesis using with_attachments_encodable [of e0 as] by (simp add: e)
qed

section \<open>A retried message\<close>

definition request_key :: "authenticated_principal \<Rightarrow> rstr \<Rightarrow> rstr \<times> rstr \<times> rstr" where
  "request_key pr q = (pr_room_id pr, pr_principal_id pr, q)"

lemma inspect_stored:
  assumes "mt_commands (tables db) (rid, pid, q) = Some \<lparr>cr_action = action, cr_payload_hash = hash, cr_result = message_result C e sq\<rparr>"
    and "\<not> ce_deleted_request C (rid, pid, q) (mt_rest (tables db))" "\<not> ce_reserved_request C (rid, pid, q) (mt_rest (tables db))"
    and "event_encodable e" "ce_parse_time C (ce_json_time C (ev_created_at e)) = Some (ev_created_at e)"
  shows "inspect_non_lifecycle_command C rid pid q action hash db =
    Ok (Some \<lparr>co_result = message_result C e sq, co_event = e, co_events = [e], co_deduplicated = True\<rparr>)"
  using assms event_roundtrip [of "ce_parse_time C" "ce_json_time C" e]
  by (simp add: inspect_non_lifecycle_command_def existing_command_def message_result_def json_object_def om_get_from)

lemma inspect_fresh:
  assumes "inspect_non_lifecycle_command C rid pid q action hash db = Ok None"
  shows "mt_commands (tables db) (rid, pid, q) = None \<and> \<not> ce_deleted_request C (rid, pid, q) (mt_rest (tables db))
    \<and> \<not> ce_reserved_request C (rid, pid, q) (mt_rest (tables db)) \<and> \<not> restart_quiescing db"
  using assms by (auto simp: inspect_non_lifecycle_command_def existing_command_def require_runtime_admission_def Let_def
      split: option.splits if_splits)

lemma inspect_dedup:
  assumes "inspect_non_lifecycle_command C rid pid q action hash db = Ok (Some outcome)"
  shows "co_deduplicated outcome"
  using assms by (auto simp: inspect_non_lifecycle_command_def existing_command_def Let_def split: option.splits if_splits)

text \<open>What a retry returns.\<close>

definition replayed_mutation :: "room_command_mutation \<Rightarrow> room_command_mutation" where
  "replayed_mutation m =
     (if co_deduplicated (rcm_outcome m) then m
      else \<lparr>rcm_outcome = (rcm_outcome m)\<lparr>co_events := [co_event (rcm_outcome m)], co_deduplicated := True\<rparr>, rcm_assignments = []\<rparr>)"

lemma execute_existing:
  assumes "load_active_room E (pr_room_id pr) db = Ok found"
    and "inspect_non_lifecycle_command C (pr_room_id pr) (pr_principal_id pr) q action
           (canonical_payload_hash (ce_sha256 C) payload) db = Ok (Some outcome)"
  shows "execute_message_in E C pr q action payload db = Ok (\<lparr>rcm_outcome = outcome, rcm_assignments = []\<rparr>, db)"
  using assms by (cases found)
    (simp add: execute_message_in_def admit_non_lifecycle_command_def tx_bind_def tx_read_def tx_return_def Let_def)

lemma store_result_view:
  assumes "store_command_result (rid, pid) q action hash result db = Ok ((), db')"
  shows "request_view C db' = (db_rooms db, (mt_commands (tables db))((rid, pid, q) \<mapsto>
      \<lparr>cr_action = action, cr_payload_hash = hash, cr_result = result\<rparr>), snd (snd (request_view C db)))"
  using assms by (auto simp: store_command_result_def request_view_def Let_def)

lemma next_sequence_bound: "next_sequence rid db = Ok sq \<Longrightarrow> sq \<le> i64_max"
  by (auto simp: next_sequence_def Let_def split: if_splits)

lemma load_active_room_cong: "db_rooms db' = db_rooms db \<Longrightarrow> load_active_room E rid db' = load_active_room E rid db"
  by (simp add: load_active_room_def load_room_with_settings_def)

lemma execute_message_replay:
  assumes frame: "command_frame E C" and run: "execute_message_in E C pr q action payload db = Ok (r, db')"
  shows "execute_message_in E C pr q action payload db' = Ok (replayed_mutation r, db')"
proof -
  let ?hash = "canonical_payload_hash (ce_sha256 C) payload" and ?key = "(pr_room_id pr, pr_principal_id pr, q)"
  obtain found where found: "load_active_room E (pr_room_id pr) db = Ok found"
    using run by (auto simp: execute_message_in_def Let_def)
  obtain existing where existing: "inspect_non_lifecycle_command C (pr_room_id pr) (pr_principal_id pr) q action ?hash db = Ok existing"
    using run by (auto simp: execute_message_in_def admit_non_lifecycle_command_def Let_def)
  show ?thesis
  proof (cases existing)
    case (Some outcome)
    note same = execute_existing [OF found existing [unfolded Some]]
    then have "r = \<lparr>rcm_outcome = outcome, rcm_assignments = []\<rparr>" "db' = db" using run by simp_all
    then show ?thesis using same inspect_dedup [OF existing [unfolded Some]] by (simp add: replayed_mutation_def)
  next
    case None
    obtain room settings where rs: "found = (room, settings)" by (cases found)
    from None existing found run obtain d1 d2 d3 d4 d5 p sq now e route prepared where
      budget: "reserve_room_write_budget E (pr_room_id pr) (command_size q action payload) db = Ok ((), d1)"
      and sq: "next_sequence (pr_room_id pr) d1 = Ok sq" and now: "draw_now E d1 = Ok (now, d2)"
      and event: "prepare_human_message_event E C pr p payload sq now d2 = Ok ((e, route), d3)"
      and routed: "(if route then tx_bind (route_message E settings e) (\<lambda>_. assign_available_pending E room settings)
                    else tx_return []) d3 = Ok (prepared, d4)"
      and stored: "store_command_result (pr_room_id pr, pr_principal_id pr) q action ?hash (message_result C e sq) d4 = Ok ((), d5)"
      and r: "rcm_outcome r = \<lparr>co_result = message_result C e sq, co_event = e, co_events = e # concat (map pa_events prepared),
                               co_deduplicated = False\<rparr>" and d5: "d5 = db'"
      unfolding rs by (auto simp: execute_message_in_def admit_non_lifecycle_command_def Let_def)
    have "request_view C d1 = request_view C db" "request_view C d2 = request_view C d1" "request_view C d3 = request_view C d2"
      using keepsD [OF view_budget budget] keepsD [OF view_basic(1) now] keepsD [OF view_prepare_message event] by simp_all
    moreover have k4: "keeps (request_view C) (if route then tx_bind (route_message E settings e) (\<lambda>_. assign_available_pending E room settings)
                    else tx_return [])" using frame by (intro keeps_intros)
    ultimately have v4: "request_view C d4 = request_view C db" using keepsD [OF k4 routed] by simp
    have enc: "event_encodable e" "ev_created_at e = now" using human_message_encodable [OF event next_sequence_bound [OF sq]] by simp_all
    have time: "ce_parse_time C (ce_json_time C now) = Some now"
      using frame now by (auto simp: command_frame_def draw_now_def)
    from store_result_view [OF stored [unfolded d5], of C] v4 inspect_fresh [OF existing [unfolded None]]
    have rooms: "db_rooms db' = db_rooms db" and row: "mt_commands (tables db') ?key =
        Some \<lparr>cr_action = action, cr_payload_hash = ?hash, cr_result = message_result C e sq\<rparr>"
      and "\<not> ce_deleted_request C ?key (mt_rest (tables db'))" "\<not> ce_reserved_request C ?key (mt_rest (tables db'))"
      by (auto simp: request_view_def fun_eq_iff)
    then have "inspect_non_lifecycle_command C (pr_room_id pr) (pr_principal_id pr) q action ?hash db' =
        Ok (Some \<lparr>co_result = message_result C e sq, co_event = e, co_events = [e], co_deduplicated = True\<rparr>)"
      using enc time by (intro inspect_stored) simp_all
    from execute_existing [OF found [folded load_active_room_cong [OF rooms]] this] show ?thesis
      by (simp add: replayed_mutation_def r)
  qed
qed


interpretation message_send: idempotent_request
  "\<lambda>(_ :: unit) (E, C, pr, q, action, payload) db. execute_message_in E C pr q action payload db"
  replayed_mutation "\<lambda>(E, C, pr, q, action, payload). command_frame E C"
  by unfold_locales (auto simp: execute_message_replay replayed_mutation_def)

text \<open>C2: once a message command has committed, any number of retries with the
  same request identifier and payload return its stored result and event marked as deduplicated,
  assign no further turns and leave the database exactly as the first execution left it.\<close>

theorem message_send_idempotent:
  assumes "command_frame E C" "execute_message_with_turn E C pr q action payload db = Ok (r, db')"
  shows "\<exists>r'. ((\<lambda>m. rbind m (\<lambda>x. execute_message_with_turn E C pr q action payload (snd x))) ^^ Suc n) (Ok (r, db')) = Ok (r', db')
    \<and> co_deduplicated (rcm_outcome r') \<and> co_result (rcm_outcome r') = co_result (rcm_outcome r)
    \<and> co_event (rcm_outcome r') = co_event (rcm_outcome r) \<and> rcm_assignments r' = []"
proof -
  have once: "execute_message_with_turn E C pr q action payload db' = Ok (replayed_mutation r, db')"
    using message_send.replay [of "(E, C, pr, q, action, payload)" db r db'] assms
    by (simp add: execute_message_with_turn_def)
  let ?retry = "\<lambda>m. rbind m (\<lambda>x. execute_message_with_turn E C pr q action payload (snd x))"
  have "(?retry ^^ Suc n) (Ok (r, db')) = Ok (replayed_mutation r, db')"
  proof (induction n)
    case (Suc n)
    have "(?retry ^^ Suc (Suc n)) (Ok (r, db')) = ?retry ((?retry ^^ Suc n) (Ok (r, db')))" by simp
    then show ?case unfolding Suc using once by simp
  qed (simp add: once)
  moreover have "rcm_assignments r = []" if "co_deduplicated (rcm_outcome r)"
    using assms(2) that
    by (auto simp: execute_message_with_turn_def execute_message_in_def Let_def split: option.splits)
  ultimately show ?thesis by (auto simp: replayed_mutation_def)
qed


section \<open>The budget of a room\<close>

definition budget_window :: "int \<Rightarrow> int" where
  "budget_window now = now div ROOM_WRITE_WINDOW_SECONDS * ROOM_WRITE_WINDOW_SECONDS"

text \<open>Reservations in the order they were made: the room, the time and the size of each.\<close>

type_synonym reservation = "rstr \<times> int \<times> nat"

definition reserve_at :: "reservation \<Rightarrow> ('y room_db, unit) tx" where
  "reserve_at r = reserve_room_write_budget_with_limits (fst r) (fst (snd r)) (snd (snd r))
     MAX_ROOM_COMMANDS_PER_WINDOW MAX_ROOM_PAYLOAD_BYTES_PER_WINDOW"

definition charged :: "reservation list \<Rightarrow> rstr \<Rightarrow> int \<Rightarrow> reservation list" where
  "charged rs rid w = filter (\<lambda>r. fst r = rid \<and> budget_window (fst (snd r)) = w) rs"

definition charged_bytes :: "reservation list \<Rightarrow> int" where
  "charged_bytes rs = sum_list (map (\<lambda>r. int (snd (snd r))) rs)"

text \<open>The rows of the current window count what was charged to it, and no later window has rows.\<close>

definition budget_counted :: "reservation list \<Rightarrow> int \<Rightarrow> 'y room_db \<Rightarrow> bool" where
  "budget_counted rs w db \<longleftrightarrow>
     (\<forall>rid. om_get (mt_budgets (tables db)) (rid, w) =
        (if charged rs rid w = [] then None else Some (int (length (charged rs rid w)), charged_bytes (charged rs rid w))))
     \<and> (\<forall>rid v. w < v \<longrightarrow> om_get (mt_budgets (tables db)) (rid, v) = None)"

definition within_budget :: "reservation list \<Rightarrow> bool" where
  "within_budget rs \<longleftrightarrow> (\<forall>rid w. int (length (charged rs rid w)) \<le> MAX_ROOM_COMMANDS_PER_WINDOW
     \<and> charged_bytes (charged rs rid w) \<le> MAX_ROOM_PAYLOAD_BYTES_PER_WINDOW)"

lemma budget_window_mono: "a \<le> b \<Longrightarrow> budget_window a \<le> budget_window b"
  by (simp add: budget_window_def ROOM_WRITE_WINDOW_SECONDS_def zdiv_mono1)

lemma charged_snoc: "charged (rs @ [(rid, now, n)]) rid' w =
    charged rs rid' w @ (if rid' = rid \<and> w = budget_window now then [(rid, now, n)] else [])"
  by (auto simp: charged_def)

lemma charged_bytes_append: "charged_bytes (a @ b) = charged_bytes a + charged_bytes b"
  by (simp add: charged_bytes_def)

lemma charged_bytes_nonneg: "0 \<le> charged_bytes rs"
  by (induction rs) (simp_all add: charged_bytes_def)

lemma saturating_small: "saturating_add_i64 a b \<le> n \<Longrightarrow> n < i64_max \<Longrightarrow> a + b \<le> n"
  by (auto simp: saturating_add_i64_def split: if_splits)

lemma reserve_effect:
  assumes "reserve_at (rid, now, n) db = Ok ((), db')"
  defines "w \<equiv> budget_window now" and "used \<equiv> unwrap_or (0, 0) (om_get (mt_budgets (tables db)) (rid, budget_window now))"
  shows "fst used + 1 \<le> MAX_ROOM_COMMANDS_PER_WINDOW \<and> snd used + int n \<le> MAX_ROOM_PAYLOAD_BYTES_PER_WINDOW \<and>
    (\<forall>q v. om_get (mt_budgets (tables db')) (q, v) =
       (if q = rid \<and> v = w then Some (fst used + 1, snd used + int n)
        else if w \<le> v then om_get (mt_budgets (tables db)) (q, v) else None))"
proof -
  obtain c b where cb: "used = (c, b)" by (cases used)
  have kept: "unwrap_or (0, 0) (om_get (om_retain (\<lambda>k. \<not> snd k < w) (mt_budgets (tables db))) (rid, w)) = (c, b)"
    using cb by (simp add: used_def w_def)
  have fits: "saturating_add_i64 c 1 \<le> MAX_ROOM_COMMANDS_PER_WINDOW" "saturating_add_i64 b (int n) \<le> MAX_ROOM_PAYLOAD_BYTES_PER_WINDOW"
    and db': "mt_budgets (tables db') = om_insert (rid, w)
        (case om_get (om_retain (\<lambda>k. \<not> snd k < w) (mt_budgets (tables db))) (rid, w) of
           None \<Rightarrow> (1, int n) | Some (c, b) \<Rightarrow> (c + 1, b + int n)) (om_retain (\<lambda>k. \<not> snd k < w) (mt_budgets (tables db)))"
    using assms(1) kept unfolding reserve_at_def reserve_room_write_budget_with_limits_def Let_def w_def budget_window_def fst_conv snd_conv
    by (auto simp: ensure_def simp del: om_get_retain split: if_splits prod.splits)
  have "MAX_ROOM_COMMANDS_PER_WINDOW < i64_max" "MAX_ROOM_PAYLOAD_BYTES_PER_WINDOW < i64_max"
    by (simp_all add: MAX_ROOM_COMMANDS_PER_WINDOW_def MAX_ROOM_PAYLOAD_BYTES_PER_WINDOW_def i64_max_def)
  with fits have "c + 1 \<le> MAX_ROOM_COMMANDS_PER_WINDOW" "b + int n \<le> MAX_ROOM_PAYLOAD_BYTES_PER_WINDOW"
    by (auto dest: saturating_small)
  moreover have "om_get (mt_budgets (tables db')) (q, v) =
       (if q = rid \<and> v = w then Some (c + 1, b + int n)
        else if w \<le> v then om_get (mt_budgets (tables db)) (q, v) else None)" for q v
    using kept unfolding db' by (auto split: option.splits)
  ultimately show ?thesis by (simp add: cb)
qed

lemma reserve_counted:
  assumes c: "budget_counted rs w db" and ok: "within_budget rs" and run: "reserve_at (rid, now, n) db = Ok ((), db')"
    and later: "w \<le> budget_window now" and all: "\<And>r. r \<in> set rs \<Longrightarrow> budget_window (fst (snd r)) \<le> w"
  shows "budget_counted (rs @ [(rid, now, n)]) (budget_window now) db' \<and> within_budget (rs @ [(rid, now, n)])"
proof -
  let ?v = "budget_window now" and ?rs = "rs @ [(rid, now, n)]"
  have now: "om_get (mt_budgets (tables db)) (q, ?v) =
      (if charged rs q ?v = [] then None else Some (int (length (charged rs q ?v)), charged_bytes (charged rs q ?v)))" for q
  proof (cases "?v = w")
    case False
    then have "charged rs q ?v = []" using later all by (fastforce simp: charged_def filter_empty_conv)
    with False later c show ?thesis by (simp add: budget_counted_def)
  qed (use c in \<open>simp add: budget_counted_def\<close>)
  have used: "unwrap_or (0, 0) (om_get (mt_budgets (tables db)) (rid, ?v)) = (int (length (charged rs rid ?v)), charged_bytes (charged rs rid ?v))"
    by (simp add: now charged_bytes_def)
  note effect = reserve_effect [OF run, unfolded used fst_conv snd_conv]
  have "om_get (mt_budgets (tables db')) (q, ?v) =
      (if charged ?rs q ?v = [] then None else Some (int (length (charged ?rs q ?v)), charged_bytes (charged ?rs q ?v)))" for q
    using effect now [of q] by (auto simp: charged_snoc charged_bytes_append, simp_all add: charged_bytes_def)
  moreover have "om_get (mt_budgets (tables db')) (q, v) = None" if "?v < v" for q v
    using effect that c later by (auto simp: budget_counted_def)
  moreover have "within_budget ?rs"
    using ok effect unfolding within_budget_def charged_snoc charged_bytes_append
    by (auto simp: charged_bytes_def)
  ultimately show ?thesis by (simp add: budget_counted_def)
qed

lemma sorted_le_last: "sorted (map f xs) \<Longrightarrow> x \<in> set xs \<Longrightarrow> f x \<le> f (last xs)"
  by (induction xs) auto

lemma reservations_counted:
  assumes "sorted (map (\<lambda>r. fst (snd r)) rs)" "rs \<noteq> []" "mt_budgets (tables db) = []" "tx_each reserve_at rs db = Ok ((), db')"
  shows "budget_counted rs (budget_window (fst (snd (last rs)))) db' \<and> within_budget rs"
  using assms
proof (induction rs arbitrary: db' rule: rev_induct)
  case (snoc r rs)
  obtain rid now n where r: "r = (rid, now, n)" by (cases r)
  have each: "tx_each f (xs @ [x]) db = Ok ((), d') \<longleftrightarrow> (\<exists>d. tx_each f xs db = Ok ((), d) \<and> f x d = Ok ((), d'))"
    for f :: "reservation \<Rightarrow> ('a room_db, unit) tx" and xs x d' and db by (induction xs arbitrary: db) auto
  obtain d where d: "tx_each reserve_at rs db = Ok ((), d)" and run: "reserve_at (rid, now, n) d = Ok ((), db')"
    using snoc.prems(4) by (auto simp: each r)
  show ?case
  proof (cases "rs = []")
    case True
    then have "budget_counted [] (budget_window now) d \<and> within_budget []"
      using d snoc.prems(3) by (simp add: budget_counted_def within_budget_def charged_def charged_bytes_def tx_return_def
          MAX_ROOM_COMMANDS_PER_WINDOW_def MAX_ROOM_PAYLOAD_BYTES_PER_WINDOW_def)
    then show ?thesis using reserve_counted [OF _ _ run, of "[]" "budget_window now"] by (simp add: True r)
  next
    case False
    have ord: "sorted (map (\<lambda>r. fst (snd r)) rs)" "\<And>x. x \<in> set rs \<Longrightarrow> fst (snd x) \<le> now"
      using snoc.prems(1) by (auto simp: sorted_append r)
    have le: "fst (snd x) \<le> fst (snd (last rs))" if "x \<in> set rs" for x
      using sorted_le_last [OF ord(1) that] .
    have m: "budget_window (fst (snd (last rs))) \<le> budget_window now"
      using ord(2) [OF last_in_set [OF False]] by (rule budget_window_mono)
    from snoc.IH [OF ord(1) False snoc.prems(3) d] reserve_counted [OF _ _ run m] le budget_window_mono
    show ?thesis by (simp add: r)
  qed
qed simp


section \<open>Deleting a message\<close>

lemma save_filtered:
  assumes "om_get (db_sessions db) (key_of s) = Some s"
  shows "(if length kept = length (das_pending_inputs s) then tx_return () else save_session (s\<lparr>das_pending_inputs := kept\<rparr>)) db = Ok ((), db')
    \<Longrightarrow> kept = filter p (das_pending_inputs s)
    \<Longrightarrow> om_get (db_sessions db') k = (if k = key_of s then Some (s\<lparr>das_pending_inputs := kept\<rparr>) else om_get (db_sessions db) k)"
proof -
  assume run: "(if length kept = length (das_pending_inputs s) then tx_return () else save_session (s\<lparr>das_pending_inputs := kept\<rparr>)) db = Ok ((), db')"
    and kept: "kept = filter p (das_pending_inputs s)"
  show ?thesis
  proof (cases "length kept = length (das_pending_inputs s)")
    case True
    then have "kept = das_pending_inputs s" using kept by (metis length_filter_less filter_id_conv less_irrefl)
    with True run assms show ?thesis by (auto simp: tx_return_def)
  next
    case False
    with run show ?thesis by (auto simp: save_session_Ok key_of_def)
  qed
qed

lemma remove_pending_each:
  "tx_each (\<lambda>s. let kept = filter p (das_pending_inputs s) in
       if length kept = length (das_pending_inputs s) then tx_return () else save_session (s\<lparr>das_pending_inputs := kept\<rparr>)) ss db = Ok ((), db') \<Longrightarrow>
   (\<And>s. s \<in> set ss \<Longrightarrow> om_get (db_sessions db) (key_of s) = Some s) \<Longrightarrow> distinct (map key_of ss) \<Longrightarrow>
   om_get (db_sessions db') k = (case map_of (map (\<lambda>s. (key_of s, s)) ss) k of
       Some s \<Rightarrow> Some (s\<lparr>das_pending_inputs := filter p (das_pending_inputs s)\<rparr>) | None \<Rightarrow> om_get (db_sessions db) k)"
proof (induction ss arbitrary: db)
  case (Cons s ss)
  let ?op = "\<lambda>s. let kept = filter p (das_pending_inputs s) in
       if length kept = length (das_pending_inputs s) then tx_return () else save_session (s\<lparr>das_pending_inputs := kept\<rparr>)"
  obtain d where d: "?op s db = Ok ((), d)" and r: "tx_each ?op ss d = Ok ((), db')" using Cons.prems(1) by auto
  have row: "om_get (db_sessions db) (key_of s) = Some s" using Cons.prems(2) by simp
  have step: "om_get (db_sessions d) j = (if j = key_of s then Some (s\<lparr>das_pending_inputs := filter p (das_pending_inputs s)\<rparr>)
      else om_get (db_sessions db) j)" for j
    using save_filtered [OF row d [unfolded Let_def] refl, of j] .
  have "om_get (db_sessions d) (key_of t) = Some t" if "t \<in> set ss" for t
  proof -
    have "key_of t \<in> key_of ` set ss" using that by (rule imageI)
    then have "key_of t \<noteq> key_of s" using Cons.prems(3) by (metis distinct.simps(2) list.set_map list.simps(9))
    then show ?thesis unfolding step using Cons.prems(2) [of t] that by simp
  qed
  from Cons.IH [OF r this] Cons.prems(3) step show ?case
    by (auto split: option.splits dest!: map_of_SomeD)
qed (simp add: tx_return_def)

definition without_input :: "rstr \<Rightarrow> durable_agent_session \<Rightarrow> durable_agent_session" where
  "without_input event_id s = s\<lparr>das_pending_inputs := filter (\<lambda>i. qi_event_id i \<noteq> event_id) (das_pending_inputs s)\<rparr>"

lemma loaded_keys_distinct:
  assumes "turn_db_ok db" "load_room_sessions rid db = Ok ss"
  shows "distinct (map key_of ss)"
proof -
  let ?rows = "filter (\<lambda>row. fst (fst row) = rid) (db_sessions db)"
  have n: "length (take 65 ?rows) \<le> 64" and tr: "traverse (\<lambda>row. decode_session (snd row)) (take 65 ?rows) = Ok ss"
    using assms(2) by (auto simp: load_room_sessions_def Let_def)
  then have "take 65 ?rows = ?rows" by simp
  with tr have "list_all2 (\<lambda>row s. decode_session (snd row) = Ok s) ?rows ss" by (simp add: traverse_Ok_iff)
  then have ss: "map snd ?rows = ss"
    by (rule list_all2_induct) (auto simp: decode_session_def split: if_splits)
  have "map key_of (map snd ?rows) = map fst ?rows" using assms(1) by (auto simp: turn_db_ok_def)
  moreover have "distinct (map fst ?rows)"
    using om_wf_distinct [of "db_sessions db"] assms(1) by (simp add: turn_db_ok_def om_keys_def distinct_map_filter)
  ultimately show ?thesis using ss by simp
qed

lemma remove_pending_effect:
  assumes ok: "turn_db_ok db" and run: "remove_pending_input_reference rid event_id db = Ok ((), db')"
  shows "om_get (db_sessions db') k = map_option (\<lambda>s. if fst k = rid then without_input event_id s else s) (om_get (db_sessions db) k)"
proof -
  obtain ss where ss: "load_room_sessions rid db = Ok ss" and each: "tx_each (\<lambda>s.
       let kept = filter (\<lambda>i. qi_event_id i \<noteq> event_id) (das_pending_inputs s) in
       if length kept = length (das_pending_inputs s) then tx_return ()
       else save_session (s\<lparr>das_pending_inputs := kept\<rparr>)) ss db = Ok ((), db')"
    using run by (auto simp: remove_pending_input_reference_def)
  note rows = load_room_sessions_rows [OF ok ss]
  have eff: "om_get (db_sessions db') k = (case map_of (map (\<lambda>s. (key_of s, s)) ss) k of
       Some s \<Rightarrow> Some (without_input event_id s) | None \<Rightarrow> om_get (db_sessions db) k)"
    unfolding without_input_def using rows by (intro remove_pending_each [OF each _ loaded_keys_distinct [OF ok ss]]) simp
  show ?thesis
  proof (cases "map_of (map (\<lambda>s. (key_of s, s)) ss) k")
    case None
    then have no: "s \<notin> set ss" if "key_of s = k" for s using that by (force simp: map_of_eq_None_iff)
    have "fst k \<noteq> rid" if "om_get (db_sessions db) k = Some s" for s
      using rows [of s] no [of s] row_key [OF ok that] that by (auto simp: key_of_def)
    then show ?thesis using eff None by (cases "om_get (db_sessions db) k") auto
  next
    case (Some s)
    then have "s \<in> set ss" "key_of s = k" by (auto dest: map_of_SomeD)
    then have "om_get (db_sessions db) k = Some s" "fst k = rid" using rows [of s] by (auto simp: key_of_def)
    then show ?thesis using eff Some by simp
  qed
qed

text \<open>What is left of a deleted message: its tombstone, and nothing that refers to it.\<close>

definition message_gone :: "room_event \<Rightarrow> 'y room_db \<Rightarrow> bool" where
  "message_gone e db \<longleftrightarrow>
     mt_pins (tables db) (ev_room_id e, ev_id e) = None \<and>
     list_all (\<lambda>a. \<not> bound_to (ev_room_id e) (ev_seq e) (snd a)) (mt_attachments (tables db)) \<and>
     om_get (db_search db) (ev_room_id e, ev_seq e) = None \<and>
     (\<forall>k s. om_get (db_sessions db) k = Some s \<longrightarrow> fst k = ev_room_id e \<longrightarrow> ev_id e \<notin> qi_event_id ` set (das_pending_inputs s)) \<and>
     (case om_get (db_events db) (ev_room_id e, ev_seq e) of
        None \<Rightarrow> False
      | Some stored \<Rightarrow> ev_id stored = ev_id e \<and> ev_content stored = Some [] \<and>
          om_get (ev_extra stored) (str ''message_deleted'') = Some (Bool True) \<and>
          om_get (ev_extra stored) (str ''attachments'') = Some (Array [])) \<and>
     (ev_message_kind e = Some (str ''vote'') \<longrightarrow>
        om_get (mt_votes (tables db)) (ev_room_id e, ev_id e) = None \<and>
        list_all (\<lambda>b. (fst (fst b), fst (snd (fst b))) \<noteq> (ev_room_id e, ev_id e)) (mt_ballots (tables db)))"

lemma keeps_pending_rest: "keeps db_rest (remove_pending_input_reference rid i)" "keeps db_search (remove_pending_input_reference rid i)"
  "keeps db_events (remove_pending_input_reference rid i)"
proof -
  have "keeps db_rest (save_session s)" "keeps db_search (save_session s)" "keeps db_events (save_session s)" for s
    by (auto simp: keeps_def save_session_Ok)
  then show "keeps db_rest (remove_pending_input_reference rid i)" "keeps db_search (remove_pending_input_reference rid i)"
    "keeps db_events (remove_pending_input_reference rid i)"
    unfolding remove_pending_input_reference_def Let_def by (auto intro!: keeps_intros)
qed


lemma tombstone_facts:
  "ev_id (prepare_deleted_message jt e kind now) = ev_id e" "ev_seq (prepare_deleted_message jt e kind now) = ev_seq e"
  "ev_room_id (prepare_deleted_message jt e kind now) = ev_room_id e" "ev_content (prepare_deleted_message jt e kind now) = Some []"
  "om_get (ev_extra (prepare_deleted_message jt e kind now)) (str ''message_deleted'') = Some (Bool True)"
  "om_get (ev_extra (prepare_deleted_message jt e kind now)) (str ''attachments'') = Some (Array [])"
  by (simp_all add: prepare_deleted_message_def Let_def)

lemma deletable_vote:
  "authorize_message_delete pr e author = Ok kind \<Longrightarrow> ev_message_kind e = Some (str ''vote'') \<Longrightarrow> kind = Mutable_Vote"
  by (auto simp: authorize_message_delete_def require_mutable_message_def Let_def split: if_splits)

lemma delete_bound_effect:
  assumes "delete_bound_message_attachments e db = Ok (ids, db')"
  shows "db' = with_tables (\<lambda>t. t\<lparr>mt_attachments := filter (\<lambda>a. \<not> bound_to (ev_room_id e) (ev_seq e) (snd a)) (mt_attachments t)\<rparr>) db"
  using assms by (auto simp: delete_bound_message_attachments_def Let_def)

lemma delete_vote_rows:
  assumes "delete_vote_projection rid vid sq db = Ok ((), db')"
  shows "om_get (mt_votes (tables db')) (rid, vid) = None \<and> list_all (\<lambda>b. (fst (fst b), fst (snd (fst b))) \<noteq> (rid, vid)) (mt_ballots (tables db'))
    \<and> mt_attachments (tables db') = mt_attachments (tables db) \<and> mt_pins (tables db') = mt_pins (tables db)
    \<and> db_search db' = db_search db \<and> db_sessions db' = db_sessions db \<and> db_events db' = db_events db"
  using assms by (auto simp: delete_vote_projection_def with_tables_def tables_def list_all_iff split: option.splits)

lemma draw_uuid_frame:
  "draw_uuid E db = Ok (u, db') \<Longrightarrow>
     db_rest db' = db_rest db \<and> db_search db' = db_search db \<and> db_sessions db' = db_sessions db \<and> db_events db' = db_events db"
  unfolding draw_uuid_def by (elim Inr_inject [THEN Pair_inject]) (hypsubst, simp)

lemma delete_message_effect:
  assumes ok: "turn_db_ok db" and room: "ev_room_id target = pr_room_id pr"
    and run: "delete_message E C pr target sq now db = Ok ((mutation, result), db')"
  shows "message_gone target db' \<and> ev_room_id mutation = ev_room_id target \<and> ev_type mutation = str ''message_deleted''"
proof -
  obtain author kind ids d1 d2 d3 d4 d5 d6 uid where
    kind: "authorize_message_delete pr target author = Ok kind"
    and bound: "delete_bound_message_attachments target db = Ok (ids, d1)"
    and pin: "remove_message_pin (pr_room_id pr) (ev_id target) d1 = Ok ((), d2)"
    and search: "update_search (remove_room_message_index target) d2 = Ok ((), d3)"
    and poll: "(if kind = Mutable_Vote then delete_vote_projection (pr_room_id pr) (ev_id target) (ev_seq target) else tx_return ()) d3 = Ok ((), d4)"
    and pending: "remove_pending_input_reference (pr_room_id pr) (ev_id target) d4 = Ok ((), d5)"
    and stone: "replace_event (prepare_deleted_message (ce_json_time C) target kind now) d5 = Ok ((), d6)"
    and uid: "draw_uuid E d6 = Ok (uid, db')"
    and mutation: "mutation = prepare_message_deleted_event (ce_json_time C) (uuid_string uid) pr target sq now"
    using run unfolding delete_message_def Let_def by auto
  have d1: "d1 = with_tables (\<lambda>t. t\<lparr>mt_attachments := filter (\<lambda>a. \<not> bound_to (ev_room_id target) (ev_seq target) (snd a)) (mt_attachments t)\<rparr>) db"
    using delete_bound_effect [OF bound] .
  have d2: "d2 = with_tables (\<lambda>t. t\<lparr>mt_pins := (mt_pins t)((pr_room_id pr, ev_id target) := None)\<rparr>) d1"
    using pin by (simp add: remove_message_pin_def)
  obtain table where d3: "d3 = d2\<lparr>db_search := table\<rparr>" and table: "om_get table (ev_room_id target, ev_seq target) = None"
    using search by (auto simp: update_search_def remove_room_message_index_def split: option.splits if_splits)
  have d4: "mt_attachments (tables d4) = mt_attachments (tables d3) \<and> mt_pins (tables d4) = mt_pins (tables d3)
      \<and> db_search d4 = db_search d3 \<and> db_sessions d4 = db_sessions d3 \<and> db_events d4 = db_events d3"
    using poll delete_vote_rows by (fastforce simp: tx_return_def split: if_splits)
  have gone_poll: "om_get (mt_votes (tables d4)) (pr_room_id pr, ev_id target) = None
      \<and> list_all (\<lambda>b. (fst (fst b), fst (snd (fst b))) \<noteq> (pr_room_id pr, ev_id target)) (mt_ballots (tables d4))"
    if "ev_message_kind target = Some (str ''vote'')"
    using poll deletable_vote [OF kind that] delete_vote_rows by fastforce
  have "turn_db_ok d4" using ok d4 unfolding d3 d2 d1 by (simp add: turn_db_ok_def with_tables_def)
  note pend = remove_pending_effect [OF this pending]
  note kept = keepsD [OF keeps_pending_rest(1) pending] keepsD [OF keeps_pending_rest(2) pending] keepsD [OF keeps_pending_rest(3) pending]
  have d6: "db_rest d6 = db_rest d5 \<and> db_search d6 = db_search d5 \<and> db_sessions d6 = db_sessions d5
      \<and> om_get (db_events d6) (ev_room_id target, ev_seq target) = Some (prepare_deleted_message (ce_json_time C) target kind now)"
    using stone by (auto simp: replace_event_def tombstone_facts split: if_splits)
  have d7: "db_rest db' = db_rest d6 \<and> db_search db' = db_search d6 \<and> db_sessions db' = db_sessions d6 \<and> db_events db' = db_events d6"
    by (rule draw_uuid_frame [OF uid])
  have tables': "tables db' = tables d4" using d7 d6 kept(1) by (simp add: tables_def)
  have t: "mt_pins (tables db') (ev_room_id target, ev_id target) = None"
    "list_all (\<lambda>a. \<not> bound_to (ev_room_id target) (ev_seq target) (snd a)) (mt_attachments (tables db'))"
    using d4 room unfolding tables' d3 d2 d1 by (simp_all add: tables_def with_tables_def list_all_iff)
  have s: "om_get (db_search db') (ev_room_id target, ev_seq target) = None"
    using d7 d6 kept(2) d4 table by (simp add: d3)
  have p: "ev_id target \<notin> qi_event_id ` set (das_pending_inputs s)"
    if "om_get (db_sessions db') k = Some s" "fst k = ev_room_id target" for k s
    using pend [of k] that d7 d6 room by (auto simp: without_input_def)
  have e: "om_get (db_events db') (ev_room_id target, ev_seq target) = Some (prepare_deleted_message (ce_json_time C) target kind now)"
    using d7 d6 by simp
  have v: "om_get (mt_votes (tables db')) (ev_room_id target, ev_id target) = None
      \<and> list_all (\<lambda>b. (fst (fst b), fst (snd (fst b))) \<noteq> (ev_room_id target, ev_id target)) (mt_ballots (tables db'))"
    if "ev_message_kind target = Some (str ''vote'')" using gone_poll [OF that] room by (simp add: tables')
  have "message_gone target db'" unfolding message_gone_def using t s p e v by (simp add: tombstone_facts)
  then show ?thesis by (simp add: mutation prepare_message_deleted_event_def mutation_event_def)
qed

lemma gone_insert:
  assumes gone: "message_gone e db" and run: "insert_event E m db = Ok ((), db')" and quiet: "ev_type m = str ''message_deleted''"
  shows "message_gone e db'"
proof -
  have idx: "index_room_message (te_unicode E) m t = Ok t" for t using quiet_index [OF quiet] by simp
  have db': "db' = db\<lparr>db_events := om_insert (ev_room_id m, ev_seq m) m (db_events db)\<rparr>"
    and new: "om_get (db_events db) (ev_room_id m, ev_seq m) = None"
    using run idx by (auto simp: insert_event_def)
  have "(ev_room_id m, ev_seq m) \<noteq> (ev_room_id e, ev_seq e)" using gone new by (auto simp: message_gone_def)
  then have "om_get (db_events db') (ev_room_id e, ev_seq e) = om_get (db_events db) (ev_room_id e, ev_seq e)"
    unfolding db' by auto
  moreover have "tables db' = tables db" "db_search db' = db_search db" "db_sessions db' = db_sessions db"
    unfolding db' by (simp_all add: tables_def)
  ultimately show ?thesis using gone unfolding message_gone_def by simp
qed

lemma gone_stored:
  assumes gone: "message_gone e db" and run: "store_command_result owner q a h v db = Ok ((), db')"
  shows "message_gone e db'"
proof -
  obtain f where "db' = with_tables (\<lambda>t. t\<lparr>mt_commands := f (mt_commands t)\<rparr>) db"
    using run by (auto simp: store_command_result_def Let_def)
  then show ?thesis using gone by (simp add: message_gone_def with_tables_def tables_def)
qed

text \<open>The tables of the turns, which admission does not touch.\<close>

definition turn_tables :: "'x turn_db \<Rightarrow> (rstr \<times> rstr, durable_agent_session) omap \<times> (rstr \<times> int, room_event) omap" where
  "turn_tables db = (db_sessions db, db_events db)"

lemma admit_turn_tables: "keeps turn_tables (admit_non_lifecycle_command E C rid pid q action hash n)"
proof -
  have d: "keeps turn_tables (draw_now E)" by (auto simp: keeps_def draw_now_def turn_tables_def)
  have "keeps turn_tables (reserve_room_write_budget_with_limits rid sec n c b)" for sec c b
    unfolding keeps_def reserve_room_write_budget_with_limits_def
    by (auto simp: turn_tables_def Let_def split: prod.splits)
  with d show ?thesis
    unfolding admit_non_lifecycle_command_def reserve_room_write_budget_def by (intro keeps_intros)
qed

lemma admitted_retry: "admit_non_lifecycle_command E C rid pid q action hash n db = Ok (Some outcome, db') \<Longrightarrow> co_deduplicated outcome"
  by (auto simp: admit_non_lifecycle_command_def split: if_splits dest: inspect_dedup)

lemma load_event_room: "load_event rid i db = Ok (Some e) \<Longrightarrow> ev_room_id e = rid \<and> ev_id e = i"
  by (auto simp: load_event_def split: list.splits)

text \<open>C6: when a deletion commits, the message is replaced by an empty tombstone, and its
  pin, its attachments, its search record, its poll with the ballots, and every queued reference of an
  agent to it are gone.\<close>

theorem deletion_is_complete:
  assumes "turn_db_ok db" "execute_message_mutation E C pr q (str ''message.delete'') payload db = Ok (r, db')"
    and "\<not> co_deduplicated r"
  shows "\<exists>deletion target. message_delete_from_payload payload = Ok deletion
    \<and> load_event (pr_room_id pr) (md_event_id deletion) db = Ok (Some target) \<and> message_gone target db'"
proof -
  have run: "execute_message_mutation_in E C pr q (str ''message.delete'') payload db = Ok (r, db')"
    using assms(2) by (auto simp: execute_message_mutation_def)
  then obtain existing hash n d1 where
    ad: "admit_non_lifecycle_command E C (pr_room_id pr) (pr_principal_id pr) q (str ''message.delete'') hash n db = Ok (existing, d1)"
    and hash: "hash = canonical_payload_hash (ce_sha256 C) payload" and n: "n = command_size q (str ''message.delete'') payload"
    by (auto simp: execute_message_mutation_in_def Let_def)
  have none: "existing = None"
    using run ad admitted_retry [of E C _ _ q _ hash n db] assms(3) unfolding hash n
    by (cases existing) (auto simp: execute_message_mutation_in_def Let_def)
  with run ad obtain deletion mutation result d2 where
    del: "message_delete_from_payload payload = Ok deletion"
    and mut: "mutate_message E C pr (md_event_id deletion, None) d1 = Ok ((mutation, result), d2)"
    and st: "store_command_result (pr_room_id pr, pr_principal_id pr) q (str ''message.delete'') hash result d2 = Ok ((), db')"
    unfolding hash n by (auto simp: execute_message_mutation_in_def Let_def)
  from mut obtain target now sq d3 d4 where
    target: "load_event (pr_room_id pr) (md_event_id deletion) d1 = Ok (Some target)" and now: "draw_now E d1 = Ok (now, d3)"
    and gone: "delete_message E C pr target sq now d3 = Ok ((mutation, result), d4)"
    and ins: "insert_event E mutation d4 = Ok ((), d2)"
    by (auto simp: mutate_message_def)
  have tt: "turn_tables d1 = turn_tables db" using keepsD [OF admit_turn_tables ad] .
  have "turn_db_ok d3" using assms(1) tt now by (auto simp: turn_db_ok_def turn_tables_def draw_now_def)
  from delete_message_effect [OF this _ gone] load_event_room [OF target]
  have "message_gone target d4" "ev_type mutation = str ''message_deleted''" by simp_all
  from gone_stored [OF gone_insert [OF this(1) ins this(2)] st] have "message_gone target db'" .
  moreover have "load_event (pr_room_id pr) (md_event_id deletion) db = Ok (Some target)"
    using target tt by (simp add: load_event_def turn_tables_def)
  ultimately show ?thesis using del by blast
qed


section \<open>Witnesses\<close>

definition sample_commands :: "unit command_env" where
  "sample_commands =
     \<lparr>ce_sha256 = (\<lambda>s. s), ce_rfc3339 = show_int, ce_json_time = (\<lambda>t. [nat t]),
      ce_parse_time = (\<lambda>s. case s of [c] \<Rightarrow> Some (int c) | _ \<Rightarrow> None),
      ce_deleted_request = (\<lambda>_ _. False), ce_reserved_request = (\<lambda>_ _. False)\<rparr>"

definition sample_payload :: json where
  "sample_payload = json_object [(str ''content'', String (str ''hi''))]"

lemma sample_command_frame: "command_frame sample_room_env sample_commands"
  by (simp add: command_frame_def sample_room_env_def sample_commands_def keeps_return)

lemma sample_send_runs:
  "\<not> isl (execute_message_with_turn sample_room_env sample_commands sample_operator (str ''q-1'') (str ''message.send'')
     sample_payload sample_room_db)"
  by code_simp

theorem message_send_idempotent_witness:
  "\<exists>r db' r'. execute_message_with_turn sample_room_env sample_commands sample_operator (str ''q-1'') (str ''message.send'')
     sample_payload sample_room_db = Ok (r, db')
    \<and> execute_message_with_turn sample_room_env sample_commands sample_operator (str ''q-1'') (str ''message.send'')
     sample_payload db' = Ok (r', db') \<and> co_deduplicated (rcm_outcome r')"
proof -
  from run_Ok [OF sample_send_runs] obtain r db' where r: "execute_message_with_turn sample_room_env sample_commands sample_operator
      (str ''q-1'') (str ''message.send'') sample_payload sample_room_db = Ok (r, db')" by blast
  from message_send_idempotent [OF sample_command_frame r, of 0] r show ?thesis by auto
qed

definition sample_sent :: room_event where
  "sample_sent = projr (prepare_message_event (str ''e1'') sample_operator sample_human
     \<lparr>ms_content = str ''Hello'', ms_attachment_ids = []\<rparr> 1 7)"

definition sample_sent_db :: "unit room_db" where
  "sample_sent_db = snd (projr (insert_event sample_room_env
     sample_sent
     sample_room_db))"

lemma sample_sent_runs:
  "\<not> isl (insert_event sample_room_env
     sample_sent
     sample_room_db)"
  by code_simp

definition sample_deletion :: json where
  "sample_deletion = json_object [(str ''event_id'', String (str ''e1''))]"

lemma sample_delete_runs:
  "\<not> isl (execute_message_mutation sample_room_env sample_commands sample_operator (str ''q-2'') (str ''message.delete'')
     sample_deletion sample_sent_db)"
  by code_simp

theorem deletion_is_complete_witness:
  "\<exists>r db'. execute_message_mutation sample_room_env sample_commands sample_operator (str ''q-2'') (str ''message.delete'')
     sample_deletion sample_sent_db = Ok (r, db')
    \<and> (\<exists>target. load_event (str ''main'') (str ''e1'') sample_sent_db = Ok (Some target) \<and> message_gone target db')"
proof -
  from run_Ok [OF sample_delete_runs] obtain r db' where r: "execute_message_mutation sample_room_env sample_commands sample_operator
      (str ''q-2'') (str ''message.delete'') sample_deletion sample_sent_db = Ok (r, db')" by blast
  have new: "existing_command sample_commands rid pid q a h sample_sent_db = Ok None" for rid pid q a h
  proof -
    have "tables sample_sent_db = tables sample_room_db"
      using keepsD [OF keeps_tables_insert run_Ok [OF sample_sent_runs]] by (simp add: sample_sent_db_def)
    then show ?thesis by (simp add: existing_command_def sample_commands_def sample_room_db_def tables_def Let_def)
  qed
  have "\<not> co_deduplicated r"
    using r new by (auto simp: execute_message_mutation_def execute_message_mutation_in_def admit_non_lifecycle_command_def
        inspect_non_lifecycle_command_def Let_def split: if_splits)
  moreover have "turn_db_ok sample_sent_db" by code_simp
  moreover have "message_delete_from_payload sample_deletion = Ok \<lparr>md_event_id = str ''e1''\<rparr>" by code_simp
  ultimately have "\<exists>target. load_event (str ''main'') (str ''e1'') sample_sent_db = Ok (Some target) \<and> message_gone target db'"
    using deletion_is_complete [OF _ r] by (auto simp: sample_operator_def)
  with r show ?thesis by blast
qed


end
