(* ===== verification/Room_Random.thy ===== *)
theory Room_Random
  imports Commands
begin

text \<open>
  Dice and random choices (domain/room\_turn.rs and the generator of
  server/room\_random\_runtime.rs). The draw of the crate rand is a parameter; so is the class
  of decimal digits of the crate regex, of which only its ASCII part can pass the parsing of
  the numbers.
\<close>

section \<open>Requests and results\<close>

datatype room_random_request =
  Roll (rr_notation: rstr) (rr_count: nat) (rr_sides: nat) (rr_modifier: int) (rr_reason: rstr)
| Choose (rr_options: "rstr list") (rr_reason: rstr)

datatype room_random_result =
  Roll_Dice rstr "nat list" int int
| Choose_Random rstr nat nat "rstr list"

definition random_rejected :: "string \<Rightarrow> rstr + 'a" where
  "random_rejected message = Err (str message)"

definition U32_MAX :: nat where "U32_MAX = 4294967295"
definition I32_MAX :: nat where "I32_MAX = 2147483647"

text \<open>The notation \<open>(?i)^\s*(\d{0,3})d(\d{1,4})([+-]\d{1,5})?\s*$\<close>. The classes of its parts
  are disjoint, so there is one way to match; the first group takes part in every match, if only with the empty text.\<close>

definition dice_captures :: "(nat \<Rightarrow> bool) \<Rightarrow> rstr \<Rightarrow> (rstr option \<times> rstr \<times> rstr option) option" where
  "dice_captures digit v =
     (let s = dropWhile is_whitespace v;
          count = takeWhile digit s;
          after_count = dropWhile digit s in
      if 3 < length count \<or> after_count = [] \<or> hd after_count \<notin> {68, 100} then None
      else
        let sides = takeWhile digit (tl after_count);
            rest = dropWhile digit (tl after_count) in
        if sides = [] \<or> 4 < length sides then None
        else if rest \<noteq> [] \<and> hd rest \<in> {43, 45} then
          let modifier = takeWhile digit (tl rest) in
          if modifier = [] \<or> 5 < length modifier \<or> \<not> list_all is_whitespace (dropWhile digit (tl rest)) then None
          else Some (Some count, sides, Some (hd rest # modifier))
        else if list_all is_whitespace rest then Some (Some count, sides, None)
        else None)"

definition show_signed :: "int \<Rightarrow> rstr" where
  "show_signed i = (if i < 0 then show_int i else 43 # show_int i)"

definition dice_notation :: "nat \<Rightarrow> nat \<Rightarrow> int \<Rightarrow> rstr" where
  "dice_notation count sides modifier =
     show_nat count @ [100] @ show_nat sides @ (if modifier = 0 then [] else show_signed modifier)"

definition parse_dice :: "(nat \<Rightarrow> bool) \<Rightarrow> rstr \<Rightarrow> rstr \<Rightarrow> rstr + room_random_request" where
  "parse_dice digit v reason =
     rbind (ok_or (dice_captures digit v) (str ''Dice notation must look like d20, 2d6, or 1d20+3.'')) (\<lambda>(c, s, m).
     rbind (ok_or (parse_unsigned U32_MAX (unwrap_or (str ''1'') c)) (str ''A dice roll must use between 1 and 100 dice.'')) (\<lambda>count.
     rbind (ok_or (parse_unsigned U32_MAX s) (str ''Dice must have between 2 and 1000 sides.'')) (\<lambda>sides.
     rbind (ok_or (parse_signed I32_MAX (unwrap_or (str ''0'') m)) (str ''The dice modifier is out of range.'')) (\<lambda>modifier.
     rbind (ensure (1 \<le> count \<and> count \<le> 100) (str ''A dice roll must use between 1 and 100 dice.'')) (\<lambda>_.
     rbind (ensure (2 \<le> sides \<and> sides \<le> 1000) (str ''Dice must have between 2 and 1000 sides.'')) (\<lambda>_.
     rbind (ensure (- 100000 \<le> modifier \<and> modifier \<le> 100000) (str ''The dice modifier is out of range.'')) (\<lambda>_.
     Ok (Roll (dice_notation count sides modifier) count sides modifier reason))))))))"

definition require_random_keys :: "(rstr, json) omap \<Rightarrow> string list \<Rightarrow> rstr + unit" where
  "require_random_keys m allowed =
     (case find (\<lambda>k. k \<notin> set (map str allowed)) (om_keys m) of
        Some key \<Rightarrow> Err (str ''Unknown room randomness field `'' @ key @ str ''`.'')
      | None \<Rightarrow> Ok ())"

definition choice_option :: "unicode \<Rightarrow> json \<Rightarrow> rstr + rstr" where
  "choice_option U v =
     ok_or (filter_opt (\<lambda>s. s \<noteq> [] \<and> has_visible_text U s) (map_option (\<lambda>s. clean_single_line s 200) (as_str v)))
       (str ''Random choice requires 2 to 50 non-empty options.'')"

definition random_request_parse :: "unicode \<Rightarrow> (nat \<Rightarrow> bool) \<Rightarrow> rstr \<Rightarrow> json \<Rightarrow> rstr + room_random_request" where
  "random_request_parse U digit action payload =
     rbind (ok_or (as_object payload) (str ''Room randomness payload must be an object.'')) (\<lambda>m.
     rbind (case om_get m (str ''reason'') of
              None \<Rightarrow> Ok []
            | Some v \<Rightarrow> rbind (ok_or (as_str v) (str ''Room randomness reason must be text.'')) (\<lambda>s. Ok (clean_single_line s 200))) (\<lambda>reason.
     if action = str ''room.random.roll'' then
       rbind (require_random_keys m [''notation'', ''reason'']) (\<lambda>_.
       rbind (ok_or (Option.bind (om_get m (str ''notation'')) as_str) (str ''Dice notation must be text.'')) (\<lambda>notation.
       parse_dice digit notation reason))
     else if action = str ''room.random.choose'' then
       rbind (require_random_keys m [''options'', ''reason'']) (\<lambda>_.
       rbind (ok_or (Option.bind (om_get m (str ''options'')) as_array) (str ''Random choice requires a list of options.'')) (\<lambda>values.
       rbind (ensure (2 \<le> length values \<and> length values \<le> 50) (str ''Random choice requires 2 to 50 non-empty options.'')) (\<lambda>_.
       rbind (traverse (choice_option U) values) (\<lambda>options.
       Ok (Choose options reason)))))
     else random_rejected ''Unsupported room randomness operation.''))"

fun random_operation :: "room_random_request \<Rightarrow> rstr" where
  "random_operation (Roll _ _ _ _ _) = str ''roll_dice''"
| "random_operation (Choose _ _) = str ''choose_random''"

fun random_room_action :: "room_random_request \<Rightarrow> rstr" where
  "random_room_action (Roll _ _ _ _ _) = str ''room.random.roll''"
| "random_room_action (Choose _ _) = str ''room.random.choose''"

fun random_canonical_payload :: "room_random_request \<Rightarrow> json" where
  "random_canonical_payload (Roll notation _ _ _ reason) =
     json_object [(str ''notation'', String notation), (str ''reason'', String reason)]"
| "random_canonical_payload (Choose options reason) =
     json_object [(str ''options'', json_strs options), (str ''reason'', String reason)]"

text \<open>A request travels as the pair of its action and its payload and is parsed when it arrives.\<close>

definition random_serialize :: "room_random_request \<Rightarrow> rstr \<times> json" where
  "random_serialize r = (random_room_action r, random_canonical_payload r)"

definition random_deserialize :: "unicode \<Rightarrow> (nat \<Rightarrow> bool) \<Rightarrow> rstr \<times> json \<Rightarrow> rstr + room_random_request" where
  "random_deserialize U digit w = random_request_parse U digit (fst w) (snd w)"

section \<open>Drawing\<close>

text \<open>\<open>draw i lo hi\<close> is the i-th draw of the crate rand from the numbers between the bounds.\<close>

type_synonym draws = "nat \<Rightarrow> nat \<Rightarrow> nat \<Rightarrow> nat"

definition draws_in_range :: "draws \<Rightarrow> bool" where
  "draws_in_range draw \<longleftrightarrow> (\<forall>i lo hi. lo \<le> hi \<longrightarrow> lo \<le> draw i lo hi \<and> draw i lo hi \<le> hi)"

fun generate_room_random :: "draws \<Rightarrow> room_random_request \<Rightarrow> room_random_result" where
  "generate_room_random draw (Roll notation count sides modifier _) =
     (let rolls = map (\<lambda>i. draw i 1 sides) [0..<count] in
      Roll_Dice notation rolls modifier (sum_list (map int rolls) + modifier))"
| "generate_room_random draw (Choose options _) =
     (let index = draw 0 0 (length options - 1) in
      Choose_Random (options ! index) index (length options) options)"

text \<open>The check of a result before it is stored (persistence/room\_random.rs).\<close>

fun random_result_matches :: "room_random_request \<Rightarrow> room_random_result \<Rightarrow> bool" where
  "random_result_matches (Roll notation count sides modifier _) (Roll_Dice notation' rolls modifier' tot) \<longleftrightarrow>
     notation' = notation \<and> length rolls = count \<and> list_all (\<lambda>r. 1 \<le> r \<and> r \<le> sides) rolls \<and>
     modifier' = modifier \<and> tot = sum_list (map int rolls) + modifier"
| "random_result_matches (Choose options _) (Choose_Random choice index option_count options') \<longleftrightarrow>
     options' = options \<and> option_count = length options \<and> index < length options \<and> options ! index = choice"
| "random_result_matches _ _ \<longleftrightarrow> False"

section \<open>Parsing is strict and bounded\<close>

definition cleaned_line :: "rstr \<Rightarrow> bool" where
  "cleaned_line t \<longleftrightarrow> (\<exists>s. t = clean_single_line s 200)"

lemma cleaned_line_simps [simp]: "cleaned_line (clean_single_line s 200)" "cleaned_line []"
  unfolding cleaned_line_def by (blast, rule exI [of _ "[]"], simp add: clean_single_line_def split_whitespace_def)

text \<open>What every parsed request satisfies.\<close>

fun random_request_ok :: "unicode \<Rightarrow> room_random_request \<Rightarrow> bool" where
  "random_request_ok U (Roll notation count sides modifier reason) \<longleftrightarrow>
     notation = dice_notation count sides modifier \<and> 1 \<le> count \<and> count \<le> 100 \<and> 2 \<le> sides \<and> sides \<le> 1000 \<and>
     - 100000 < modifier \<and> modifier < 100000 \<and> cleaned_line reason"
| "random_request_ok U (Choose options reason) \<longleftrightarrow>
     2 \<le> length options \<and> length options \<le> 50 \<and>
     (\<forall>p \<in> set options. p \<noteq> [] \<and> has_visible_text U p \<and> cleaned_line p) \<and>
     cleaned_line reason"

text \<open>The ASCII part of the class of digits.\<close>

definition digit_class :: "(nat \<Rightarrow> bool) \<Rightarrow> bool" where
  "digit_class digit \<longleftrightarrow> (\<forall>c < 128. digit c = is_ascii_digit c)"

lemma digit_class_ascii [simp]: "digit_class is_ascii_digit"
  by (simp add: digit_class_def)

lemma digits_value_less: "list_all is_ascii_digit s \<Longrightarrow> digits_value s < 10 ^ length s"
proof (induction s rule: rev_induct)
  case (snoc c s)
  then have "digits_value s < 10 ^ length s" "c - 48 \<le> 9" by (auto simp: is_ascii_digit_def)
  then show ?case by (simp add: digits_value_snoc)
qed (simp add: digits_value_def)

lemma show_nat_length: "n < 10 ^ k \<Longrightarrow> 0 < k \<Longrightarrow> length (show_nat n) \<le> k"
proof (induction n arbitrary: k rule: show_nat.induct)
  case (1 n)
  show ?case
  proof (cases "n < 10")
    case True
    then show ?thesis using 1 by (subst show_nat.simps) simp
  next
    case False
    then obtain j where k: "k = Suc j" "0 < j" using "1.prems" by (cases k; cases "k - 1") auto
    then have "n div 10 < 10 ^ j" using "1.prems" by (simp add: less_mult_imp_div_less mult.commute)
    then show ?thesis using 1 False k by (subst show_nat.simps) simp
  qed
qed

lemma parse_dice_ok:
  assumes "parse_dice digit v reason = Ok r" and "cleaned_line reason"
  shows "random_request_ok U r"
proof -
  from assms(1) obtain c s m count sides modifier where m: "dice_captures digit v = Some (c, s, m)"
    and modifier: "parse_signed I32_MAX (unwrap_or (str ''0'') m) = Some modifier"
    and r: "1 \<le> count" "count \<le> 100" "2 \<le> sides" "sides \<le> 1000" "r = Roll (dice_notation count sides modifier) count sides modifier reason"
    by (auto simp: parse_dice_def)
  have "\<bar>modifier\<bar> < 100000"
  proof (cases m)
    case None
    then show ?thesis using modifier by (simp add: parse_signed_def parse_unsigned_def str_def is_ascii_digit_def digits_value_def split: if_splits)
  next
    case (Some t)
    with m obtain g d where t: "t = g # d" "length d \<le> 5" "g \<in> {43, 45}" 
      by (auto simp: dice_captures_def Let_def split: if_splits)
    have "digits_value d < 100000" if "list_all is_ascii_digit d"
    proof -
      have "(10::nat) ^ length d \<le> 10 ^ 5" using t(2) by (intro power_increasing) simp_all
      then show ?thesis using digits_value_less [OF that] by simp
    qed
    then show ?thesis using modifier t Some
      by (auto simp: parse_signed_def parse_unsigned_def Let_def split: if_splits)
  qed
  then show ?thesis using r assms(2) by auto
qed

lemma parsed_request_ok:
  assumes "random_request_parse U digit action payload = Ok r"
  shows "random_request_ok U r"
proof -
  have options: "p \<noteq> [] \<and> has_visible_text U p \<and> cleaned_line p"
    if "traverse (choice_option U) vs = Ok os" "p \<in> set os" for vs os p
    using that by (induction vs arbitrary: os) (auto simp: choice_option_def)
  have len: "length os = length vs" if "traverse (choice_option U) vs = Ok os" for vs os
    using that by (induction vs arbitrary: os) auto
  then show ?thesis using assms options len
    by (auto simp: random_request_parse_def random_rejected_def dest!: parse_dice_ok [where U = U] split: option.splits if_splits) 
qed

section \<open>Requests travel unchanged\<close>

text \<open>The texts of a request without the space that the limit of a text may leave at its end.\<close>

fun settled_request :: "room_random_request \<Rightarrow> room_random_request" where
  "settled_request (Roll notation count sides modifier reason) =
     Roll notation count sides modifier (trim_end_matches is_whitespace reason)"
| "settled_request (Choose options reason) =
     Choose (map (trim_end_matches is_whitespace) options) (trim_end_matches is_whitespace reason)"

lemma clean_cleaned: "cleaned_line t \<Longrightarrow> clean_single_line t 200 = trim_end_matches is_whitespace t"
  unfolding cleaned_line_def using single_line_facts by blast

lemma visible_trimmed: "has_visible_text U (trim_end_matches is_whitespace t) = has_visible_text U t"
proof -
  have "\<exists>w. t = trim_end_matches is_whitespace t @ w \<and> list_all is_whitespace w"
    by (rule exI [of _ "rev (takeWhile is_whitespace (rev t))"])
      (auto simp: trim_end_matches_def list_all_iff dest: set_takeWhileD simp: rev_append [symmetric] simp del: rev_append)
  then obtain w where w: "t = trim_end_matches is_whitespace t @ w" "list_all is_whitespace w" by blast
  then have "set t = set (trim_end_matches is_whitespace t) \<union> set w" by (metis set_append)
  then show ?thesis using w(2) by (auto simp: has_visible_text_def list_all_iff)
qed

lemma visible_text_nonempty: "has_visible_text U t \<Longrightarrow> t \<noteq> []"
  by (auto simp: has_visible_text_def)

lemma captures_notation:
  assumes d: "digit_class digit" and n: "count \<le> 100" "sides \<le> 1000" "\<bar>modifier\<bar> < 100000"
  shows "dice_captures digit (dice_notation count sides modifier) =
    Some (Some (show_nat count), show_nat sides, if modifier = 0 then None else Some (show_signed modifier))"
proof -
  have digits: "list_all digit (show_nat k)" for k
    using show_nat_digits [of k] d by (auto simp: list_all_iff digit_class_def is_ascii_digit_def)
  have head: "dropWhile is_whitespace (show_nat k @ t) = show_nat k @ t" for k t
  proof -
    obtain c u where c: "show_nat k = c # u" by (meson list.exhaust show_nat_nonempty)
    then have "is_ascii_digit c" using show_nat_hd_not_plus by blast
    then have "\<not> is_whitespace c" by (auto simp: is_ascii_digit_def is_whitespace_def)
    then show ?thesis by (simp add: c)
  qed
  have span: "takeWhile digit (show_nat k @ t) = show_nat k @ takeWhile digit t" 
    "dropWhile digit (show_nat k @ t) = dropWhile digit t" for k t
    using digits [of k] by (simp_all add: list_all_iff)
  have no: "\<not> digit 100" "\<not> digit 43" "\<not> digit 45" using d by (simp_all add: digit_class_def is_ascii_digit_def)
  have len: "length (show_nat count) \<le> 3" "length (show_nat sides) \<le> 4" 
    "length (show_nat (nat modifier)) \<le> 5" "length (show_nat (nat (- modifier))) \<le> 5"
    using n by (auto intro!: show_nat_length)
  have all: "takeWhile digit (show_nat k) = show_nat k" "dropWhile digit (show_nat k) = []" for k
    using span [of k "[]"] by simp_all
  show ?thesis using len n no
    by (simp add: dice_captures_def dice_notation_def head span all Let_def show_signed_def show_int_def not_less)
qed

lemma parse_notation:
  assumes "digit_class digit" "1 \<le> count" "count \<le> 100" "2 \<le> sides" "sides \<le> 1000" "- 100000 < modifier" "modifier < 100000"
  shows "parse_dice digit (dice_notation count sides modifier) reason =
    Ok (Roll (dice_notation count sides modifier) count sides modifier reason)"
proof -
  have "parse_signed I32_MAX (show_signed modifier) = Some modifier" if "modifier \<noteq> 0"
    using assms that show_nat_digits [of "nat modifier"] show_nat_digits [of "nat (- modifier)"]
    by (cases "modifier < 0") (simp_all add: parse_signed_def show_signed_def show_int_def parse_unsigned_def I32_MAX_def)
  moreover have "parse_signed I32_MAX (str ''0'') = Some 0" by code_simp
  moreover have "dice_captures digit (dice_notation count sides modifier) =
    Some (Some (show_nat count), show_nat sides, if modifier = 0 then None else Some (show_signed modifier))"
    using assms by (intro captures_notation) auto
  ultimately show ?thesis using assms by (simp add: parse_dice_def parse_unsigned_show_nat U32_MAX_def)
qed

lemma choice_settled:
  "p \<noteq> [] \<and> has_visible_text U p \<and> cleaned_line p \<Longrightarrow> choice_option U (String p) = Ok (trim_end_matches is_whitespace p)"
  using visible_text_nonempty [of U "trim_end_matches is_whitespace p"]
  by (simp add: choice_option_def filter_opt_def clean_cleaned visible_trimmed)

lemma traverse_settled:
  "\<forall>p \<in> set os. p \<noteq> [] \<and> has_visible_text U p \<and> cleaned_line p \<Longrightarrow>
     traverse (choice_option U) (map String os) = Ok (map (trim_end_matches is_whitespace) os)"
  by (induction os) (simp_all add: choice_settled)

lemma no_other_keys: "fst ` set es \<subseteq> str ` set ks \<Longrightarrow> require_random_keys (om_from es) ks = Ok ()"
proof -
  assume "fst ` set es \<subseteq> str ` set ks"
  then have "find (\<lambda>k. k \<notin> set (map str ks)) (om_keys (om_from es)) = None"
    by (auto simp: find_None_iff)
  then show ?thesis by (simp add: require_random_keys_def)
qed

lemma deserialize_serialized:
  assumes "digit_class digit" "random_request_ok U r"
  shows "random_deserialize U digit (random_serialize r) = Ok (settled_request r)"
proof (cases r)
  case (Roll nt count sides modifier reason)
  then show ?thesis using assms
    by (simp add: random_deserialize_def random_serialize_def random_request_parse_def json_object_def
        om_get_from no_other_keys clean_cleaned parse_notation)
next
  case (Choose options reason)
  then show ?thesis using assms
    by (simp add: random_deserialize_def random_serialize_def random_request_parse_def json_object_def
        om_get_from no_other_keys clean_cleaned traverse_settled json_strs_def)
qed

lemma cleaned_trimmed: "cleaned_line t \<Longrightarrow> cleaned_line (trim_end_matches is_whitespace t)"
  using clean_cleaned [of t] by (metis cleaned_line_simps(1))

lemma trim_end_twice: "trim_end_matches p (trim_end_matches p t) = trim_end_matches p t"
  using trim_end_last [of p t] by (auto simp: trim_end_id_iff)

lemma settled_ok: "random_request_ok U r \<Longrightarrow> random_request_ok U (settled_request r)"
  using visible_text_nonempty visible_trimmed by (cases r) (fastforce simp: cleaned_trimmed)+

lemma settled_twice: "settled_request (settled_request r) = settled_request r"
  by (cases r) (simp_all add: trim_end_twice)

text \<open>C35: a request for a draw that was parsed from a payload is sent as its action and canonical payload and
  read back as the same request, up to a space that the length limit left at the end of its texts; the request that was read back
  then travels unchanged.\<close>

theorem random_request_roundtrip:
  assumes "digit_class digit" and "random_request_parse U digit action payload = Ok r"
  shows "random_deserialize U digit (random_serialize r) = Ok (settled_request r) \<and>
    random_deserialize U digit (random_serialize (settled_request r)) = Ok (settled_request r)"
  using assms parsed_request_ok [OF assms(2)] by (simp add: deserialize_serialized settled_ok settled_twice)

text \<open>What a result can be: the total of a roll lies between the least and the greatest the dice can show, a choice is one of the options.\<close>

fun result_in_bounds :: "room_random_request \<Rightarrow> room_random_result \<Rightarrow> bool" where
  "result_in_bounds (Roll _ count sides modifier _) (Roll_Dice _ rolls _ tot) \<longleftrightarrow>
     int count + modifier \<le> tot \<and> tot \<le> int count * int sides + modifier \<and> \<bar>tot\<bar> < 2 ^ 31"
| "result_in_bounds (Choose options _) (Choose_Random choice _ _ _) \<longleftrightarrow> choice \<in> set options"
| "result_in_bounds _ _ \<longleftrightarrow> False"

lemma rolls_sum:
  "list_all (\<lambda>r. 1 \<le> r \<and> r \<le> sides) rolls \<Longrightarrow>
     int (length rolls) \<le> sum_list (map int rolls) \<and> sum_list (map int rolls) \<le> int (length rolls) * int sides"
  by (induction rolls) (auto simp: algebra_simps)

lemma matching_in_bounds:
  assumes ok: "random_request_ok U r" and m: "random_result_matches r x"
  shows "result_in_bounds r x"
proof (cases r)
  case (Roll nt count sides modifier reason)
  with m obtain nt' rolls m' tot where x: "x = Roll_Dice nt' rolls m' tot" by (cases x) auto
  from m Roll x have r: "length rolls = count" "tot = sum_list (map int rolls) + modifier"
    "list_all (\<lambda>r. 1 \<le> r \<and> r \<le> sides) rolls" by auto
  have "int count * int sides \<le> 100 * 1000" using ok Roll by (intro mult_mono) auto
  then show ?thesis using rolls_sum [OF r(3)] r(1,2) ok Roll x by auto
next
  case (Choose options reason)
  then show ?thesis using m by (cases x) auto
qed

text \<open>Every draw answers its request.  When a request was parsed and the generator draws numbers in the
  range it asks for, the result passes the check before it is stored: as many rolls as dice, each between one and the number of
  sides, with the sum and modifier as total, or one of the options with its index.  The total therefore lies between the least and
  the greatest the dice can show and fits every integer type that carries it.\<close>

theorem generated_result_matches:
  assumes "random_request_parse U digit action payload = Ok r" and "draws_in_range draw"
  shows "random_result_matches r (generate_room_random draw r) \<and> result_in_bounds r (generate_room_random draw r)"
proof -
  have ok: "random_request_ok U r" using assms(1) by (rule parsed_request_ok)
  have "random_result_matches r (generate_room_random draw r)"
  proof (cases r)
    case (Roll nt count sides modifier reason)
    then show ?thesis using assms(2) ok by (auto simp: Let_def list_all_iff draws_in_range_def)
  next
    case (Choose options reason)
    have "draw 0 0 (length options - 1) \<le> length options - 1" using assms(2) by (simp add: draws_in_range_def)
    then show ?thesis using Choose ok by (auto simp: Let_def)
  qed
  then show ?thesis using matching_in_bounds [OF ok] by blast
qed

text \<open>The notation without a number of dice, which the message of a rejected notation names first, is always rejected: the first group of
  the pattern then matches the empty text, and not the default of one die.\<close>

lemma bare_die_rejected:
  "parse_dice is_ascii_digit (str ''d20'') [] = Err (str ''A dice roll must use between 1 and 100 dice.'')"
  by code_simp

definition sample_roll :: json where
  "sample_roll = json_object [(str ''notation'', String (str '' 2D6+3 '')), (str ''reason'', String (str '' initiative ''))]"

definition sample_roll_request :: room_random_request where
  "sample_roll_request = Roll (str ''2d6+3'') 2 6 3 (str ''initiative'')"

lemma sample_roll_parses:
  "random_request_parse ascii_unicode is_ascii_digit (str ''room.random.roll'') sample_roll = Ok sample_roll_request"
  by code_simp

theorem random_request_roundtrip_witness:
  "random_deserialize ascii_unicode is_ascii_digit (random_serialize sample_roll_request) = Ok (settled_request sample_roll_request)"
  using random_request_roundtrip [OF digit_class_ascii sample_roll_parses] by blast

theorem generated_result_matches_witness:
  "random_result_matches sample_roll_request (generate_room_random (\<lambda>i lo hi. hi) sample_roll_request)
    \<and> generate_room_random (\<lambda>i lo hi. hi) sample_roll_request = Roll_Dice (str ''2d6+3'') [6, 6] 3 15"
proof -
  have "draws_in_range (\<lambda>i lo hi. hi)" by (simp add: draws_in_range_def)
  moreover have "generate_room_random (\<lambda>i lo hi. hi) sample_roll_request = Roll_Dice (str ''2d6+3'') [6, 6] 3 15" by code_simp
  ultimately show ?thesis using generated_result_matches [OF sample_roll_parses, of "\<lambda>i lo hi. hi"] by blast
qed

end
