(* ===== verification/Random_Commands.thy ===== *)
theory Random_Commands
  imports Room_Random Message_Commands Turn_Ends
begin

text \<open>
  The commits of draws (persistence/room\_random.rs, with the checks of a provider's turn in
  turn\_authority.rs): a person's draw is a command that can be retried; an agent draws under its
  active turn, a bounded number of times. The table of the results of a turn is added to the
  tables of the store.
\<close>

record turn_tool_result =
  ttr_session_id :: rstr
  ttr_turn_id :: rstr
  ttr_event_seq :: int

record 'z tool_tables =
  tl_results :: "(rstr \<times> rstr, turn_tool_result) omap"
  tl_rest :: 'z

type_synonym 'z tool_db = "'z tool_tables room_db"

definition tool_results :: "'z tool_db \<Rightarrow> (rstr \<times> rstr, turn_tool_result) omap" where
  "tool_results db = tl_results (mt_rest (tables db))"

definition MAX_RANDOM_RESULTS_PER_TURN :: nat where "MAX_RANDOM_RESULTS_PER_TURN = 32"

section \<open>Checks\<close>

definition valid_result_id :: "rstr \<Rightarrow> bool" where
  "valid_result_id v \<longleftrightarrow>
     byte_len v = 39 \<and> take 7 v = str ''result-'' \<and> list_all (\<lambda>c. is_ascii_digit c \<or> 97 \<le> c \<and> c \<le> 102) (drop 7 v)"

definition invalid_room_result :: "string \<Rightarrow> persistence_error" where
  "invalid_room_result message = rejected ''invalid_room_result'' message"

definition validate_result :: "room_random_request \<Rightarrow> room_random_result \<Rightarrow> persistence_error + unit" where
  "validate_result request result = ensure (random_result_matches request result)
     (invalid_room_result ''Room randomness result does not match its validated request.'')"

definition random_unavailable :: persistence_error where
  "random_unavailable = rejected ''room_random_unavailable'' ''Room randomness is available only in tabletop mode.''"

definition require_participant :: "participant_status \<Rightarrow> bool \<Rightarrow> persistence_error + unit" where
  "require_participant status muted =
     rbind (ensure (status = Joined) (rejected ''session_revoked'' ''This participant is no longer in the room.'')) (\<lambda>_.
     ensure (\<not> muted) (rejected ''participant_muted'' ''Muted participants cannot publish room results.''))"

definition require_tabletop :: "'x turn_env \<Rightarrow> rstr \<Rightarrow> 'x turn_db \<Rightarrow> persistence_error + unit" where
  "require_tabletop E rid db =
     rbind (ok_or (db_rooms db rid) Database_Error) (\<lambda>row.
     rbind (load_settings (te_unicode E) (snd row)) (\<lambda>settings.
     ensure (rs_tool_mode settings = str ''tabletop'') random_unavailable))"

definition stale_room_tool_turn :: persistence_error where
  "stale_room_tool_turn = rejected ''stale_provider_turn'' ''Room tool result no longer matches the active provider turn.''"

definition require_room_tool_turn_authority ::
  "(rstr \<Rightarrow> bool) \<Rightarrow> durable_agent_session \<Rightarrow> rstr \<Rightarrow> int \<Rightarrow> 64 word \<Rightarrow> rstr \<Rightarrow> 'x turn_db \<Rightarrow> persistence_error + unit" where
  "require_room_tool_turn_authority is_uuid s turn_id input_up_to_seq turn_generation execution_id db =
     rbind (ensure (active_turn_authority s = Some True \<and> as_active_turn_id (das_public s) = turn_id \<and>
                    das_input_up_to_seq s = input_up_to_seq \<and> das_turn_generation s = turn_generation \<and>
                    turn_generation \<noteq> 0 \<and> is_uuid execution_id \<and>
                    as_status (das_public s) = Session_Attached \<and> as_runtime_status (das_public s) = Runtime_Busy \<and>
                    as_enabled (das_public s) \<and> as_provider_session_active (das_public s) \<and>
                    das_runtime_handle_id s \<noteq> [] \<and> das_runtime_owner_id s \<noteq> [] \<and> das_runtime_lease_token s \<noteq> [])
              stale_room_tool_turn) (\<lambda>_.
     rbind (ensure (int (unat turn_generation) \<le> i64_max) stale_room_tool_turn) (\<lambda>_.
     let key = (as_room_id (das_public s), as_session_id (das_public s), int (unat turn_generation)) in
     ensure (case om_get (db_executions db) key of
               None \<Rightarrow> False
             | Some row \<Rightarrow>
                 pte_execution_id row = execution_id \<and> pte_turn_id row = turn_id \<and>
                 pte_phase row \<in> {Start_Dispatching, Running} \<and> pte_start_dispatch_nonce row \<noteq> [] \<and>
                 pte_runtime_handle_id row = das_runtime_handle_id s \<and> pte_runtime_owner_id row = das_runtime_owner_id s \<and>
                 pte_runtime_lease_token row = das_runtime_lease_token s \<and>
                 \<not> effect_unsettled db key)
       stale_room_tool_turn))"

definition require_provider_room_tool_authority ::
  "(rstr \<Rightarrow> bool) \<Rightarrow> durable_agent_session \<Rightarrow> rstr \<Rightarrow> int \<Rightarrow> 64 word \<Rightarrow> rstr \<Rightarrow> 'x turn_db \<Rightarrow> persistence_error + unit" where
  "require_provider_room_tool_authority is_uuid s turn_id input_up_to_seq turn_generation execution_id db =
     rbind (ensure (\<not> as_external_owned (das_public s) \<and> as_process_ownership (das_public s) = str ''server'') stale_room_tool_turn) (\<lambda>_.
     require_room_tool_turn_authority is_uuid s turn_id input_up_to_seq turn_generation execution_id db)"

section \<open>The event of a draw\<close>

text \<open>The Korean texts of the source: the titles of a roll and of a choice, the labels of the rolls and of the choice, and the
  corner brackets and the middle dot.\<close>

definition DICE_RESULT :: rstr where "DICE_RESULT = [51452, 49324, 50948, 32, 44208, 44284]"
definition CHOICE_RESULT :: rstr where "CHOICE_RESULT = [47924, 51089, 50948, 32, 49440, 53469, 32, 44208, 44284]"
definition ROLLS_LABEL :: rstr where "ROLLS_LABEL = [44404, 47548]"
definition CHOICE_LABEL :: rstr where "CHOICE_LABEL = [47924, 51089, 50948, 32, 49440, 53469]"

fun random_event_texts :: "rstr \<Rightarrow> room_random_result \<Rightarrow> rstr \<times> rstr \<times> string \<times> string \<times> json" where
  "random_event_texts source (Roll_Dice nt rolls modifier tot) =
     (DICE_RESULT,
      source @ [32, 183, 32] @ nt @ [32, 8594, 32] @ show_int tot @ [32, 40] @ ROLLS_LABEL @ [58, 32] @
        join [44, 32] (map show_nat rolls) @ [41],
      ''dice_roll'', ''roll_dice'',
      json_object [(str ''notation'', String nt), (str ''rolls'', Array (map (\<lambda>r. json_i64 (int r)) rolls)),
        (str ''modifier'', json_i64 modifier), (str ''total'', json_i64 tot)])"
| "random_event_texts source (Choose_Random choice index option_count options) =
     (CHOICE_RESULT,
      source @ [32, 183, 32] @ CHOICE_LABEL @ [32, 8594, 32, 12300] @ choice @ [12301, 32, 40] @ show_nat (index + 1) @ [47] @
        show_nat option_count @ [41],
      ''random_choice'', ''choose_random'',
      json_object [(str ''choice'', String choice), (str ''index'', json_i64 (int index)), (str ''option_count'', json_i64 (int option_count))])"

definition random_event ::
  "'x turn_env \<Rightarrow> rstr \<Rightarrow> rstr \<Rightarrow> rstr \<Rightarrow> rstr \<Rightarrow> rstr \<Rightarrow> room_random_result \<Rightarrow> ('x turn_db, room_event) tx" where
  "random_event E rid source_participant_id source_display_name source_turn_id result_id result =
     (let (display_name, content, kind, operation, details) = random_event_texts source_display_name result;
          system = str ''room-system'' in
      tx_bind (draw_uuid E) (\<lambda>uid.
      tx_bind (tx_read (next_sequence rid)) (\<lambda>sequence.
      tx_bind (draw_now E) (\<lambda>now.
      tx_return
        \<lparr>ev_v = 1, ev_id = uuid_string uid, ev_seq = sequence, ev_created_at = now, ev_room_id = rid, ev_type = str ''message_final'',
         ev_actor = \<lparr>actor_participant_id = system, actor_participant_type = str ''system''\<rparr>,
         ev_participant_id = Some system, ev_participant_type = Some (str ''system''),
         ev_actor_id = Some system, ev_actor_type = Some (str ''system''),
         ev_display_name = Some display_name, ev_content = Some content, ev_message_kind = Some (str ''system''),
         ev_extra = om_from
           [(str ''message_source'', String (str ''room_tool_result'')), (str ''room_result_id'', String result_id),
            (str ''room_result_kind'', String (str kind)), (str ''operation'', String (str operation)),
            (str ''source_turn_id'', String source_turn_id), (str ''source_participant_id'', String source_participant_id),
            (str ''details'', details)]\<rparr>))))"

section \<open>A person's draw\<close>

definition execute_room_random_command_in ::
  "'y room_env \<Rightarrow> 'y command_env \<Rightarrow> (nat \<Rightarrow> bool) \<Rightarrow> authenticated_principal \<Rightarrow> rstr \<Rightarrow> rstr \<Rightarrow> json \<Rightarrow> room_random_result
     \<Rightarrow> ('y room_db, command_outcome) tx" where
  "execute_room_random_command_in E C digit pr request_id action payload result =
     (let payload_hash = canonical_payload_hash (ce_sha256 C) payload in
      tx_bind (tx_read (active_room_for_principal pr)) (\<lambda>_.
      tx_bind (tx_try (ensure (cap_room_random (pr_capabilities pr))
         (rejected ''permission_denied'' ''This room session cannot use room randomness.''))) (\<lambda>_.
      tx_bind (admit_non_lifecycle_command E C (pr_room_id pr) (pr_principal_id pr) request_id action payload_hash
                 (command_size request_id action payload)) (\<lambda>existing.
      case existing of
        Some outcome \<Rightarrow> tx_return outcome
      | None \<Rightarrow>
          tx_bind (tx_try (map_err (Command_Rejected ''invalid_room_random_request'')
             (random_request_parse (te_unicode E) digit action payload))) (\<lambda>request.
          tx_bind (tx_read (require_tabletop E (pr_room_id pr))) (\<lambda>_.
          tx_bind (tx_read (load_participant (pr_room_id pr) (pr_participant_id pr))) (\<lambda>p.
          tx_bind (tx_try (require_participant (part_status p) (part_muted p))) (\<lambda>_.
          tx_bind (tx_try (validate_result request result)) (\<lambda>_.
          tx_bind (draw_uuid E) (\<lambda>result_uid.
          tx_bind (random_event E (pr_room_id pr) (pr_participant_id pr) (part_display_name p) []
                     (str ''result-'' @ uuid_simple result_uid) result) (\<lambda>event.
          let response = message_result C event (ev_seq event) in
          tx_bind (insert_event E event) (\<lambda>_.
          tx_bind (store_command_result (pr_room_id pr, pr_principal_id pr) request_id action payload_hash response) (\<lambda>_.
          tx_return \<lparr>co_result = response, co_event = event, co_events = [event], co_deduplicated = False\<rparr>)))))))))))))"

definition execute_room_random_command ::
  "'y room_env \<Rightarrow> 'y command_env \<Rightarrow> (nat \<Rightarrow> bool) \<Rightarrow> authenticated_principal \<Rightarrow> rstr \<Rightarrow> rstr \<Rightarrow> json \<Rightarrow> room_random_result
     \<Rightarrow> ('y room_db, command_outcome) tx" where
  "execute_room_random_command = execute_room_random_command_in"

text \<open>The handler of the server: a stored outcome is returned before anything is drawn.\<close>

definition replay_command ::
  "'y command_env \<Rightarrow> authenticated_principal \<Rightarrow> rstr \<Rightarrow> rstr \<Rightarrow> json \<Rightarrow> ('y room_db, command_outcome option) tx" where
  "replay_command C pr request_id action payload =
     tx_bind (tx_read (active_room_for_principal pr)) (\<lambda>_.
     tx_read (inspect_non_lifecycle_command C (pr_room_id pr) (pr_principal_id pr) request_id action
       (canonical_payload_hash (ce_sha256 C) payload)))"

definition execute_room_random ::
  "'y room_env \<Rightarrow> 'y command_env \<Rightarrow> (nat \<Rightarrow> bool) \<Rightarrow> draws \<Rightarrow> authenticated_principal \<Rightarrow> rstr \<Rightarrow> rstr \<Rightarrow> json
     \<Rightarrow> ('y room_db, command_outcome) tx" where
  "execute_room_random E C digit draw pr request_id action payload =
     tx_bind (replay_command C pr request_id action payload) (\<lambda>existing.
     case existing of
       Some outcome \<Rightarrow> tx_return outcome
     | None \<Rightarrow>
         tx_bind (tx_try (map_err (Command_Rejected ''invalid_room_random_request'')
            (random_request_parse (te_unicode E) digit action payload))) (\<lambda>request.
         execute_room_random_command E C digit pr request_id action payload (generate_room_random draw request)))"

section \<open>An agent's draw\<close>

record provider_room_random_commit =
  prc_room_id :: rstr
  prc_session_id :: rstr
  prc_turn_id :: rstr
  prc_input_up_to_seq :: int
  prc_turn_generation :: "64 word"
  prc_execution_id :: rstr
  prc_result_id :: rstr
  prc_request :: room_random_request
  prc_result :: room_random_result

record room_random_commit =
  rrc_event :: room_event
  rrc_result :: room_random_result

definition turn_results :: "rstr \<times> rstr \<times> rstr \<Rightarrow> (rstr \<times> rstr, turn_tool_result) omap \<Rightarrow> nat" where
  "turn_results turn m = length (filter (\<lambda>row. (fst (fst row), ttr_session_id (snd row), ttr_turn_id (snd row)) = turn) m)"

definition insert_tool_result :: "rstr \<times> rstr \<Rightarrow> turn_tool_result \<Rightarrow> ('z tool_db, unit) tx" where
  "insert_tool_result key row = (\<lambda>db.
     rbind (ensure (om_get (tool_results db) key = None \<and> 0 < ttr_event_seq row \<and>
                    om_get (db_sessions db) (fst key, ttr_session_id row) \<noteq> None) Database_Error) (\<lambda>_.
     Ok ((), with_tables (\<lambda>t. t\<lparr>mt_rest := (mt_rest t)\<lparr>tl_results := om_insert key row (tl_results (mt_rest t))\<rparr>\<rparr>) db)))"

definition commit_provider_random_in ::
  "'z tool_tables room_env \<Rightarrow> provider_room_random_commit \<Rightarrow> durable_agent_session \<Rightarrow> ('z tool_db, room_random_commit) tx" where
  "commit_provider_random_in E c s =
     tx_bind (tx_try (ensure (valid_result_id (prc_result_id c)) (invalid_room_result ''Room tool result id is invalid.''))) (\<lambda>_.
     tx_bind (tx_try (validate_result (prc_request c) (prc_result c))) (\<lambda>_.
     tx_bind (tx_read (load_active_room E (prc_room_id c))) (\<lambda>(room, settings).
     tx_bind (tx_try (ensure (rs_tool_mode settings = str ''tabletop'') random_unavailable)) (\<lambda>_.
     tx_bind (tx_read (load_participant (prc_room_id c) (as_participant_id (das_public s)))) (\<lambda>p.
     tx_bind (tx_try (require_participant (part_status p) (part_muted p))) (\<lambda>_.
     tx_bind (tx_read (\<lambda>db. ensure
        (turn_results (prc_room_id c, prc_session_id c, prc_turn_id c) (tool_results db) < MAX_RANDOM_RESULTS_PER_TURN)
        (rejected ''room_random_budget_exhausted'' ''This Agent Session turn reached its room-random result limit.''))) (\<lambda>_.
     let payload = random_canonical_payload (prc_request c) in
     tx_bind (reserve_room_write_budget E (prc_room_id c)
                (command_size (prc_result_id c) (random_room_action (prc_request c)) payload)) (\<lambda>_.
     tx_bind (random_event E (prc_room_id c) (as_participant_id (das_public s)) (as_display_name (das_public s)) (prc_turn_id c)
                (prc_result_id c) (prc_result c)) (\<lambda>event.
     tx_bind (insert_event E event) (\<lambda>_.
     tx_bind (insert_tool_result (prc_room_id c, prc_result_id c)
        \<lparr>ttr_session_id = prc_session_id c, ttr_turn_id = prc_turn_id c, ttr_event_seq = ev_seq event\<rparr>) (\<lambda>_.
     tx_return \<lparr>rrc_event = event, rrc_result = prc_result c\<rparr>)))))))))))"

definition commit_provider_room_random ::
  "'z tool_tables room_env \<Rightarrow> (rstr \<Rightarrow> bool) \<Rightarrow> provider_room_random_commit \<Rightarrow> ('z tool_db, room_random_commit) tx" where
  "commit_provider_room_random E is_uuid c =
     tx_bind (tx_read (load_session (prc_room_id c) (prc_session_id c))) (\<lambda>s.
     tx_bind (tx_read (require_provider_room_tool_authority is_uuid s (prc_turn_id c) (prc_input_up_to_seq c)
        (prc_turn_generation c) (prc_execution_id c))) (\<lambda>_.
     commit_provider_random_in E c s))"

section \<open>A draw is made once\<close>

lemma next_sequence_positive: "next_sequence rid db = Ok sq \<Longrightarrow> 0 < sq"
proof -
  have "0 \<le> foldr (\<lambda>row. max (snd (fst row))) xs (0 :: int)" for xs :: "((rstr \<times> int) \<times> room_event) list"
    by (induction xs) auto
  then show "next_sequence rid db = Ok sq \<Longrightarrow> 0 < sq" by (simp add: next_sequence_def Let_def order.strict_trans1 split: if_splits) (metis add_strict_increasing2 zero_less_one add.commute)
qed

lemma random_event_shape:
  assumes "random_event E rid p n t i x db = Ok (e, db')"
  shows "event_encodable e \<and> ev_room_id e = rid \<and> om_get (ev_extra e) (str ''room_result_id'') = Some (String i) \<and>
    om_get (ev_extra e) (str ''source_turn_id'') = Some (String t) \<and> (\<exists>k. ev_created_at e = te_now E k)"
  using assms next_sequence_positive [of rid] next_sequence_bound [of rid]
  by (cases "random_event_texts n x")
    (fastforce simp: random_event_def Let_def event_encodable_def fields_free_iff EVENT_FIELDS_def om_wf_from om_get_from i64_min_def
      draw_now_def)

lemma random_event_keeps:
  assumes "keeps v (draw_uuid E)" "keeps v (draw_now E)"
  shows "keeps v (random_event E rid p n t i x)"
  using assms by (cases "random_event_texts n x") (simp add: random_event_def Let_def, intro keeps_intros)

text \<open>The rooms and the participants.\<close>

definition membership_view :: "'x turn_db \<Rightarrow> (rstr \<rightharpoonup> room \<times> json) \<times> (rstr \<times> rstr \<rightharpoonup> participant)" where
  "membership_view db = (db_rooms db, db_participants db)"

lemma membership_basic:
  "keeps membership_view (draw_uuid E)" "keeps membership_view (draw_now E)" "keeps membership_view (insert_event E e)"
  by (auto simp: keeps_def draw_uuid_def draw_now_def insert_event_def membership_view_def)

lemma membership_tables: "membership_view (with_tables f db) = membership_view db"
  by (simp add: membership_view_def with_tables_def)

lemma membership_budget: "keeps membership_view (reserve_room_write_budget E rid n)"
proof -
  have "keeps membership_view (reserve_room_write_budget_with_limits rid sec n c b)" for sec c b
    unfolding keeps_def reserve_room_write_budget_with_limits_def
    by (auto simp: membership_tables Let_def split: prod.splits)
  then show ?thesis unfolding reserve_room_write_budget_def by (intro keeps_intros membership_basic)
qed

lemma membership_store: "keeps membership_view (store_command_result owner q a h v)"
  unfolding keeps_def store_command_result_def by (auto simp: membership_tables Let_def)

lemma active_room_cong:
  "membership_view db' = membership_view db \<Longrightarrow> active_room_for_principal pr db' = active_room_for_principal pr db"
  by (simp add: membership_view_def active_room_for_principal_def load_active_membership_def load_room_def)

definition replayed_outcome :: "command_outcome \<Rightarrow> command_outcome" where
  "replayed_outcome out = (if co_deduplicated out then out else out\<lparr>co_events := [co_event out], co_deduplicated := True\<rparr>)"

text \<open>A committed draw leaves its outcome where the next attempt finds it.\<close>

lemma random_command_stored:
  assumes frame: "command_frame E C"
    and run: "execute_room_random_command_in E C digit pr q action payload result db = Ok (r, db')"
    and fresh: "inspect_non_lifecycle_command C (pr_room_id pr) (pr_principal_id pr) q action
      (canonical_payload_hash (ce_sha256 C) payload) db = Ok None"
  shows "inspect_non_lifecycle_command C (pr_room_id pr) (pr_principal_id pr) q action
      (canonical_payload_hash (ce_sha256 C) payload) db' = Ok (Some (replayed_outcome r)) \<and> \<not> co_deduplicated r
      \<and> membership_view db' = membership_view db"
proof -
  let ?hash = "canonical_payload_hash (ce_sha256 C) payload" and ?key = "(pr_room_id pr, pr_principal_id pr, q)"
  from run fresh obtain d1 d2 d3 d4 p uid e n where
    budget: "reserve_room_write_budget E (pr_room_id pr) (command_size q action payload) db = Ok ((), d1)"
    and uid: "draw_uuid E d1 = Ok (uid, d2)"
    and e: "random_event E (pr_room_id pr) (pr_participant_id pr) n [] (str ''result-'' @ uuid_simple uid) result d2 = Ok (e, d3)"
    and ins: "insert_event E e d3 = Ok ((), d4)"
    and st: "store_command_result (pr_room_id pr, pr_principal_id pr) q action ?hash (message_result C e (ev_seq e)) d4 = Ok ((), db')"
    and r: "r = \<lparr>co_result = message_result C e (ev_seq e), co_event = e, co_events = [e], co_deduplicated = False\<rparr>"
    by (auto simp: execute_room_random_command_in_def admit_non_lifecycle_command_def Let_def)
  note views = view_budget view_basic(2) random_event_keeps [OF view_basic(2) view_basic(1)] view_basic(4)
  have v4: "request_view C d4 = request_view C db"
    using keepsD [OF view_budget budget] keepsD [OF view_basic(2) uid] keepsD [OF random_event_keeps [OF view_basic(2) view_basic(1)] e]
      keepsD [OF view_basic(4) ins] by simp
  have m: "membership_view db' = membership_view db"
    using keepsD [OF membership_budget budget] keepsD [OF membership_basic(1) uid]
      keepsD [OF random_event_keeps [OF membership_basic(1,2)] e] keepsD [OF membership_basic(3) ins] keepsD [OF membership_store st] by simp
  from store_result_view [OF st, of C] v4 inspect_fresh [OF fresh]
  have "mt_commands (tables db') ?key = Some \<lparr>cr_action = action, cr_payload_hash = ?hash, cr_result = message_result C e (ev_seq e)\<rparr>"
    "\<not> ce_deleted_request C ?key (mt_rest (tables db'))" "\<not> ce_reserved_request C ?key (mt_rest (tables db'))"
    by (auto simp: request_view_def fun_eq_iff)
  moreover have "event_encodable e" "ce_parse_time C (ce_json_time C (ev_created_at e)) = Some (ev_created_at e)"
    using random_event_shape [OF e] frame by (auto simp: command_frame_def)
  ultimately show ?thesis using m r by (simp add: inspect_stored replayed_outcome_def)
qed

lemma room_random_replay:
  assumes frame: "command_frame E C" and run: "execute_room_random E C digit draw pr q action payload db = Ok (r, db')"
  shows "execute_room_random E C digit draw' pr q action payload db' = Ok (replayed_outcome r, db')"
proof -
  let ?hash = "canonical_payload_hash (ce_sha256 C) payload"
  from run obtain room existing where room: "active_room_for_principal pr db = Ok room"
    and existing: "inspect_non_lifecycle_command C (pr_room_id pr) (pr_principal_id pr) q action ?hash db = Ok existing"
    by (auto simp: execute_room_random_def replay_command_def)
  show ?thesis
  proof (cases existing)
    case (Some outcome)
    then have "r = outcome" "db' = db" using run room existing by (auto simp: execute_room_random_def replay_command_def)
    then show ?thesis using Some room existing inspect_dedup [of C _ _ q action ?hash db outcome]
      by (simp add: execute_room_random_def replay_command_def replayed_outcome_def tx_bind_def tx_read_def tx_return_def)
  next
    case None
    with run existing obtain result where
      "execute_room_random_command_in E C digit pr q action payload result db = Ok (r, db')"
      by (auto simp: execute_room_random_def replay_command_def execute_room_random_command_def)
    from random_command_stored [OF frame this existing [unfolded None]] room active_room_cong [of db' db pr] show ?thesis
      by (simp add: execute_room_random_def replay_command_def tx_bind_def tx_read_def tx_return_def)
  qed
qed

interpretation room_random: idempotent_request
  "\<lambda>draw (E, C, digit, pr, q, action, payload) db. execute_room_random E C digit draw pr q action payload db"
  replayed_outcome "\<lambda>(E, C, digit, pr, q, action, payload). command_frame E C"
  by unfold_locales (auto simp: room_random_replay replayed_outcome_def)

text \<open>C16: a committed draw is never drawn again.  Whatever numbers the generator would draw for them, any number of
  retries of the request return the event of the first draw, marked as deduplicated, and leave the database as it is.\<close>

theorem draw_made_once:
  assumes "command_frame E C" and "execute_room_random E C digit draw pr q action payload db = Ok (r, db')"
  shows "foldl (\<lambda>m draw'. rbind m (\<lambda>x. execute_room_random E C digit draw' pr q action payload (snd x))) (Ok (r, db')) draws
    = Ok (if draws = [] then r else replayed_outcome r, db')"
  using room_random.retries_stable [of "(E, C, digit, pr, q, action, payload)" draw db r db' draws] assms
  by (simp add: room_random.retries_def)

section \<open>The draws of a turn\<close>

definition turn_of :: "provider_room_random_commit \<Rightarrow> rstr \<times> rstr \<times> rstr" where
  "turn_of c = (prc_room_id c, prc_session_id c, prc_turn_id c)"

text \<open>The result of a commit is recorded with the event that announced it.\<close>

definition result_recorded :: "(rstr \<times> int, room_event) omap \<Rightarrow> (rstr \<times> rstr) \<times> turn_tool_result \<Rightarrow> bool" where
  "result_recorded events row \<longleftrightarrow>
     (\<exists>e. om_get events (fst (fst row), ttr_event_seq (snd row)) = Some e \<and>
        om_get (ev_extra e) (str ''room_result_id'') = Some (String (snd (fst row))) \<and>
        om_get (ev_extra e) (str ''source_turn_id'') = Some (String (ttr_turn_id (snd row))))"

definition draws_recorded :: "'z tool_db \<Rightarrow> bool" where
  "draws_recorded db \<longleftrightarrow>
     (\<forall>turn. turn_results turn (tool_results db) \<le> MAX_RANDOM_RESULTS_PER_TURN) \<and>
     (\<forall>row \<in> set (tool_results db). result_recorded (db_events db) row)"

lemma om_insert_new_filter:
  "om_get m k = None \<Longrightarrow> length (filter P (om_insert k v m)) = length (filter P m) + (if P (k, v) then 1 else 0)"
  by (induction k v m rule: om_insert.induct) (auto simp: om_get_def split: if_splits)

text \<open>The table of results, the events and the sessions.\<close>

definition results_view :: "'z tool_db \<Rightarrow> (rstr \<times> rstr, turn_tool_result) omap \<times> (rstr \<times> int, room_event) omap" where
  "results_view db = (tool_results db, db_events db)"

lemma results_basic: "keeps results_view (draw_uuid E)" "keeps results_view (draw_now E)"
  by (auto simp: keeps_def draw_uuid_def draw_now_def results_view_def tool_results_def tables_def)

lemma results_budget: "keeps results_view (reserve_room_write_budget E rid n)"
proof -
  have "keeps results_view (reserve_room_write_budget_with_limits rid sec n c b)" for sec c b
    unfolding keeps_def reserve_room_write_budget_with_limits_def
    by (auto simp: results_view_def tool_results_def Let_def split: prod.splits)
  then show ?thesis unfolding reserve_room_write_budget_def by (intro keeps_intros results_basic)
qed

lemma insert_event_view:
  assumes "insert_event E e db = Ok ((), db')"
  shows "results_view db' = (tool_results db, om_insert (ev_room_id e, ev_seq e) e (db_events db)) \<and>
    om_get (db_events db) (ev_room_id e, ev_seq e) = None"
  using assms by (auto simp: insert_event_def results_view_def tool_results_def tables_def)

lemma insert_tool_result_view:
  assumes "insert_tool_result key row db = Ok ((), db')"
  shows "results_view db' = (om_insert key row (tool_results db), db_events db) \<and> om_get (tool_results db) key = None"
  using assms by (auto simp: insert_tool_result_def results_view_def tool_results_def tables_def with_tables_def)

lemma commit_effect:
  assumes "commit_provider_room_random E is_uuid c db = Ok (r, db')"
  shows "\<exists>e row. tool_results db' = om_insert (prc_room_id c, prc_result_id c) row (tool_results db) \<and>
    om_get (tool_results db) (prc_room_id c, prc_result_id c) = None \<and>
    db_events db' = om_insert (prc_room_id c, ev_seq e) e (db_events db) \<and>
    om_get (db_events db) (prc_room_id c, ev_seq e) = None \<and>
    (ttr_session_id row, ttr_turn_id row) = (prc_session_id c, prc_turn_id c) \<and>
    result_recorded (db_events db') ((prc_room_id c, prc_result_id c), row) \<and>
    turn_results (turn_of c) (tool_results db) < MAX_RANDOM_RESULTS_PER_TURN \<and>
    random_result_matches (prc_request c) (rrc_result r) \<and> rrc_event r = e"
proof -
  from assms obtain s where run: "commit_provider_random_in E c s db = Ok (r, db')"
    by (auto simp: commit_provider_room_random_def)
  then obtain n d1 d2 d3 e where
    few: "turn_results (turn_of c) (tool_results db) < MAX_RANDOM_RESULTS_PER_TURN"
    and valid: "random_result_matches (prc_request c) (prc_result c)"
    and budget: "reserve_room_write_budget E (prc_room_id c) n db = Ok ((), d1)"
    and e: "random_event E (prc_room_id c) (as_participant_id (das_public s)) (as_display_name (das_public s)) (prc_turn_id c)
       (prc_result_id c) (prc_result c) d1 = Ok (e, d2)"
    and ins: "insert_event E e d2 = Ok ((), d3)"
    and row: "insert_tool_result (prc_room_id c, prc_result_id c)
        \<lparr>ttr_session_id = prc_session_id c, ttr_turn_id = prc_turn_id c, ttr_event_seq = ev_seq e\<rparr> d3 = Ok ((), db')"
    and r: "r = \<lparr>rrc_event = e, rrc_result = prc_result c\<rparr>"
    by (auto simp: commit_provider_random_in_def Let_def validate_result_def turn_of_def)
  have "results_view d2 = results_view db"
    using keepsD [OF results_budget budget] keepsD [OF random_event_keeps [OF results_basic] e] by simp
  then show ?thesis
    using insert_event_view [OF ins] insert_tool_result_view [OF row] random_event_shape [OF e] few valid r
    by (auto simp: results_view_def result_recorded_def)
qed

lemma commit_recorded:
  assumes "commit_provider_room_random E is_uuid c db = Ok (r, db')" "draws_recorded db"
  shows "draws_recorded db' \<and>
    turn_results turn (tool_results db') = turn_results turn (tool_results db) + (if turn_of c = turn then 1 else 0)"
proof -
  from commit_effect [OF assms(1)] obtain e row where
    t: "tool_results db' = om_insert (prc_room_id c, prc_result_id c) row (tool_results db)"
    and new: "om_get (tool_results db) (prc_room_id c, prc_result_id c) = None"
    and ev: "db_events db' = om_insert (prc_room_id c, ev_seq e) e (db_events db)" "om_get (db_events db) (prc_room_id c, ev_seq e) = None"
    and row: "(ttr_session_id row, ttr_turn_id row) = (prc_session_id c, prc_turn_id c)"
    and rec: "result_recorded (db_events db') ((prc_room_id c, prc_result_id c), row)"
    and few: "turn_results (turn_of c) (tool_results db) < MAX_RANDOM_RESULTS_PER_TURN"
    by blast
  have count: "turn_results turn (tool_results db') = turn_results turn (tool_results db) + (if turn_of c = turn then 1 else 0)" for turn
    using om_insert_new_filter [OF new] row unfolding turn_results_def t by (simp add: turn_of_def)
  have old: "result_recorded (db_events db') x" if "result_recorded (db_events db) x" for x
    using that ev unfolding result_recorded_def ev(1) by (metis om_get_insert option.distinct(1))
  have "\<forall>row \<in> set (tool_results db'). result_recorded (db_events db') row"
    using assms(2) rec old unfolding t by (auto simp: draws_recorded_def dest!: set_om_insert)
  moreover have "turn_results turn (tool_results db') \<le> MAX_RANDOM_RESULTS_PER_TURN" for turn
  proof -
    have "turn_results turn (tool_results db) \<le> MAX_RANDOM_RESULTS_PER_TURN" using assms(2) unfolding draws_recorded_def by blast
    then show ?thesis using few count [of turn] by (cases "turn_of c = turn") simp_all
  qed
  ultimately show ?thesis using count by (simp add: draws_recorded_def)
qed

lemma commits_recorded:
  assumes "tx_map (commit_provider_room_random E is_uuid) cs db = Ok (rs, db')" "draws_recorded db"
  shows "draws_recorded db' \<and>
    turn_results turn (tool_results db') = turn_results turn (tool_results db) + length (filter (\<lambda>c. turn_of c = turn) cs)"
  using assms
proof (induction cs arbitrary: db rs)
  case (Cons c cs)
  then obtain r rs' d where c: "commit_provider_room_random E is_uuid c db = Ok (r, d)"
    and cs: "tx_map (commit_provider_room_random E is_uuid) cs d = Ok (rs', db')" by auto
  from commit_recorded [OF c Cons.prems(2), of turn] Cons.IH [OF cs] show ?case by simp
qed simp


section \<open>Witnesses\<close>

definition sample_tool_env :: "unit tool_tables room_env" where
  "sample_tool_env =
     \<lparr>te_unicode = ascii_unicode, te_now = (\<lambda>n. 1000 + int n), te_uuid = (\<lambda>n. of_nat (n + 1)),
      te_session_json = (\<lambda>_. Null), te_reconcile = (\<lambda>_ _. tx_return ()),
      te_retained_interrupt = (\<lambda>_ _ _. False), te_attendee_ready = (\<lambda>_ _ _. Ok True),
      te_persona_card = (\<lambda>_ _. Err Persona_Asset_Missing)\<rparr>"

definition sample_tool_commands :: "unit tool_tables command_env" where
  "sample_tool_commands =
     \<lparr>ce_sha256 = (\<lambda>s. s), ce_rfc3339 = show_int, ce_json_time = (\<lambda>t. [nat t]),
      ce_parse_time = (\<lambda>s. case s of [c] \<Rightarrow> Some (int c) | _ \<Rightarrow> None),
      ce_deleted_request = (\<lambda>_ _. False), ce_reserved_request = (\<lambda>_ _. False)\<rparr>"

definition sample_roller :: durable_agent_session where
  "sample_roller = (sample_agent ''agent-1'' [])
     \<lparr>das_inflight_inputs := [\<lparr>qi_event_id = str ''e1'', qi_delivery_kind = Ordered_Observation\<rparr>],
      das_active_source_event_id := str ''e1'', das_input_up_to_event_id := str ''e1'', das_input_up_to_seq := 1,
      das_turn_generation := 1, das_runtime_handle_id := str ''h'', das_runtime_owner_id := str ''o'', das_runtime_lease_token := str ''l'',
      das_public := (das_public (sample_agent ''agent-1'' []))\<lparr>as_runtime_status := Runtime_Busy, as_turn_phase := Phase_Thinking,
        as_active_turn_id := str ''turn-1'', as_status := Session_Attached, as_enabled := True, as_provider_session_active := True,
        as_external_owned := False, as_process_ownership := str ''server''\<rparr>\<rparr>"

text \<open>A tabletop room with a person and an agent in its turn.\<close>

definition sample_tabletop :: "unit tool_db" where
  "sample_tabletop =
     \<lparr>db_rooms = [str ''main'' \<mapsto> (sample_room, encode_settings ((defaults (str ''Main''))\<lparr>rs_tool_mode := str ''tabletop''\<rparr>))],
      db_participants = [(str ''main'', str ''ada'') \<mapsto> sample_human, (str ''main'', str ''agent-1'') \<mapsto> sample_participant ''agent-1''],
      db_sessions = [((str ''main'', str ''agent-1''), sample_roller)], db_events = [], db_search = [],
      db_executions = db_executions sample_turn_db, db_effects = [], db_restart = None, db_draws = 0,
      db_rest = \<lparr>mt_attachments = [], mt_votes = [], mt_ballots = [], mt_commands = Map.empty, mt_pins = Map.empty, mt_budgets = [],
        mt_rest = \<lparr>tl_results = [], tl_rest = ()\<rparr>\<rparr>\<rparr>"

lemma sample_tool_frame: "command_frame sample_tool_env sample_tool_commands"
  by (simp add: command_frame_def sample_tool_env_def sample_tool_commands_def keeps_return)

theorem draw_made_once_witness:
  "\<exists>r db'. execute_room_random sample_tool_env sample_tool_commands is_ascii_digit (\<lambda>i lo hi. hi) sample_operator (str ''q-1'')
      (str ''room.random.roll'') sample_roll sample_tabletop = Ok (r, db')
    \<and> execute_room_random sample_tool_env sample_tool_commands is_ascii_digit (\<lambda>i lo hi. lo) sample_operator (str ''q-1'')
      (str ''room.random.roll'') sample_roll db' = Ok (replayed_outcome r, db')"
proof -
  have "\<not> isl (execute_room_random sample_tool_env sample_tool_commands is_ascii_digit (\<lambda>i lo hi. hi) sample_operator (str ''q-1'')
      (str ''room.random.roll'') sample_roll sample_tabletop)" by code_simp
  from run_Ok [OF this] obtain r db' where r: "execute_room_random sample_tool_env sample_tool_commands is_ascii_digit (\<lambda>i lo hi. hi)
      sample_operator (str ''q-1'') (str ''room.random.roll'') sample_roll sample_tabletop = Ok (r, db')" by blast
  from draw_made_once [OF sample_tool_frame r, of "[\<lambda>i lo hi. lo]"] r show ?thesis by auto
qed

definition sample_draw :: provider_room_random_commit where
  "sample_draw =
     \<lparr>prc_room_id = str ''main'', prc_session_id = str ''agent-1'', prc_turn_id = str ''turn-1'', prc_input_up_to_seq = 1,
      prc_turn_generation = 1, prc_execution_id = str ''x1'', prc_result_id = str ''result-'' @ uuid_simple 7,
      prc_request = sample_roll_request, prc_result = generate_room_random (\<lambda>i lo hi. hi) sample_roll_request\<rparr>"


end
