(* ===== verification/Tickets.thy ===== *)
theory Tickets
  imports Room_Settings Turn_Store
begin

text \<open>
  The one-use tickets of the server (server/ticket.rs and the modules under ticket/): a grant is
  issued for one purpose, lives for a short time, and is removed by the first attempt to use it,
  whether the attempt succeeds or not. The two clocks, the monotonic one of the grants and the
  calendar one of sessions, and the random identifiers are arguments.
\<close>

section \<open>Grants\<close>

record room_user_identity =
  rui_room_id :: rstr
  rui_user_id :: rstr
  rui_participant_id :: rstr

record local_room_manager_authority =
  lrm_server_id :: rstr
  lrm_authority_lineage_id :: rstr
  lrm_room_uid :: uuid
  lrm_manager :: room_user_identity

record human_session_authorization =
  hsa_session_fingerprint :: "8 word list"
  hsa_principal :: authenticated_principal
  hsa_expires_at :: timestamp

record operator_session_authorization =
  osa_session_fingerprint :: "8 word list"
  osa_device_fingerprint :: "8 word list"
  osa_target_origin :: rstr
  osa_principal :: authenticated_principal
  osa_expires_at :: timestamp

datatype room_session_authorization =
  Human_Session human_session_authorization
| Operator_Session operator_session_authorization

fun rsa_principal :: "room_session_authorization \<Rightarrow> authenticated_principal" where
  "rsa_principal (Human_Session s) = hsa_principal s"
| "rsa_principal (Operator_Session s) = osa_principal s"

fun rsa_session_fingerprint :: "room_session_authorization \<Rightarrow> 8 word list" where
  "rsa_session_fingerprint (Human_Session s) = hsa_session_fingerprint s"
| "rsa_session_fingerprint (Operator_Session s) = osa_session_fingerprint s"

fun rsa_expires_at :: "room_session_authorization \<Rightarrow> timestamp" where
  "rsa_expires_at (Human_Session s) = hsa_expires_at s"
| "rsa_expires_at (Operator_Session s) = osa_expires_at s"

datatype room_http_purpose =
  Preferences_Read | Preferences_Write | Message_Attachment_Upload | Bound_Message_Attachment_Read rstr
| Bound_Appearance_Read rstr

datatype local_room_manager_purpose =
  Message_Pins_Read | Message_Pins_Write | Message_Search_Read | Side_Chat_Read | Human_Invite_Create
| Connector_Invite_Create | Attendee_Invite_Create | Human_Invite_Revoke | Appearance_Upload
| Agent_Avatar_Upload rstr | Pending_Preview_Read rstr

record room_http_grant =
  rhg_room_id :: rstr
  rhg_principal_id :: rstr
  rhg_participant_id :: rstr
  rhg_purpose :: room_http_purpose

record local_room_manager_grant =
  lmg_authority :: local_room_manager_authority
  lmg_purpose :: local_room_manager_purpose

datatype ticket_authority =
  Authority_Room authenticated_principal
| Authority_Room_Http room_http_grant
| Authority_Local_Room_Manager local_room_manager_grant
| Authority_Room_Session_Socket room_session_authorization
| Authority_Settings_Directory_Read rstr
| Authority_Server_Operator rstr "64 word"
| Authority_Central_Registration rstr

record stored_ticket_grant =
  stg_authority :: ticket_authority
  stg_expires_at :: int

datatype ticket_error = Ticket_Invalid

text \<open>The capacity and the time to live are set when the store is made.\<close>

record ticket_store =
  tks_grants :: "(rstr, stored_ticket_grant) omap"
  tks_next_server_operator_sequence :: "64 word"
  tks_ttl :: int
  tks_capacity :: nat

definition new_ticket_store :: "int \<Rightarrow> nat \<Rightarrow> ticket_store" where
  "new_ticket_store ttl capacity =
     \<lparr>tks_grants = [], tks_next_server_operator_sequence = 0, tks_ttl = ttl, tks_capacity = max capacity 1\<rparr>"

text \<open>An operation returns the store it leaves on the error path as well.\<close>

type_synonym 'r ticket_op = "ticket_store \<Rightarrow> (ticket_error + 'r) \<times> ticket_store"

section \<open>Issuing\<close>

definition ticket_text :: "uuid \<times> uuid \<Rightarrow> rstr" where
  "ticket_text u = uuid_simple (fst u) @ uuid_simple (snd u)"

definition insert_grant :: "uuid \<times> uuid \<Rightarrow> ticket_authority \<Rightarrow> int \<Rightarrow> (rstr, stored_ticket_grant) omap
     \<Rightarrow> rstr \<times> (rstr, stored_ticket_grant) omap" where
  "insert_grant u authority expires_at grants =
     (ticket_text u, om_insert (ticket_text u) \<lparr>stg_authority = authority, stg_expires_at = expires_at\<rparr> grants)"

definition live_grants :: "int \<Rightarrow> (rstr, stored_ticket_grant) omap \<Rightarrow> (rstr, stored_ticket_grant) omap" where
  "live_grants now grants = filter (\<lambda>g. now < stg_expires_at (snd g)) grants"

definition issue_authority :: "int \<Rightarrow> uuid \<times> uuid \<Rightarrow> ticket_authority \<Rightarrow> rstr ticket_op" where
  "issue_authority now u authority st =
     (let grants = live_grants now (tks_grants st) in
      if tks_capacity st \<le> length grants then (Inl Ticket_Invalid, st\<lparr>tks_grants := grants\<rparr>)
      else (let (ticket, grants) = insert_grant u authority (now + tks_ttl st) grants in
            (Inr ticket, st\<lparr>tks_grants := grants\<rparr>)))"

definition issue_room :: "int \<Rightarrow> uuid \<times> uuid \<Rightarrow> authenticated_principal \<Rightarrow> rstr ticket_op" where
  "issue_room now u pr = issue_authority now u (Authority_Room pr)"

definition issue_server_operator :: "int \<Rightarrow> uuid \<times> uuid \<Rightarrow> rstr \<Rightarrow> rstr ticket_op" where
  "issue_server_operator now u principal_id st =
     (if principal_id = [] then (Inl Ticket_Invalid, st)
      else case checked_inc_u64 (tks_next_server_operator_sequence st) of
             None \<Rightarrow> (Inl Ticket_Invalid, st)
           | Some n \<Rightarrow> issue_authority now u (Authority_Server_Operator principal_id n)
                        (st\<lparr>tks_next_server_operator_sequence := n\<rparr>))"

definition issue_central_registration :: "int \<Rightarrow> uuid \<times> uuid \<Rightarrow> rstr \<Rightarrow> rstr ticket_op" where
  "issue_central_registration now u principal_id st =
     (if principal_id = [] then (Inl Ticket_Invalid, st)
      else issue_authority now u (Authority_Central_Registration principal_id) st)"

definition issue_settings_directory_read :: "int \<Rightarrow> uuid \<times> uuid \<Rightarrow> rstr \<Rightarrow> rstr ticket_op" where
  "issue_settings_directory_read now u principal_id st =
     (if principal_id = [] then (Inl Ticket_Invalid, st)
      else issue_authority now u (Authority_Settings_Directory_Read principal_id) st)"

definition issue_local_room_manager ::
  "int \<Rightarrow> uuid \<times> uuid \<Rightarrow> local_room_manager_authority \<Rightarrow> local_room_manager_purpose \<Rightarrow> rstr ticket_op" where
  "issue_local_room_manager now u authority purpose =
     issue_authority now u (Authority_Local_Room_Manager \<lparr>lmg_authority = authority, lmg_purpose = purpose\<rparr>)"

definition issue_pending_preview_read ::
  "int \<Rightarrow> uuid \<times> uuid \<Rightarrow> local_room_manager_authority \<Rightarrow> rstr \<Rightarrow> rstr ticket_op" where
  "issue_pending_preview_read now u authority asset_id st =
     (if \<not> is_room_appearance_asset_id asset_id then (Inl Ticket_Invalid, st)
      else issue_local_room_manager now u authority (Pending_Preview_Read asset_id) st)"

definition issue_room_http ::
  "int \<Rightarrow> uuid \<times> uuid \<Rightarrow> rstr \<Rightarrow> rstr \<Rightarrow> rstr \<Rightarrow> room_http_purpose \<Rightarrow> rstr ticket_op" where
  "issue_room_http now u rid principal_id participant_id purpose st =
     (if rid = [] \<or> principal_id = [] \<or> participant_id = [] then (Inl Ticket_Invalid, st)
      else issue_authority now u (Authority_Room_Http
             \<lparr>rhg_room_id = rid, rhg_principal_id = principal_id, rhg_participant_id = participant_id, rhg_purpose = purpose\<rparr>) st)"

definition issue_bound_appearance_read ::
  "int \<Rightarrow> uuid \<times> uuid \<Rightarrow> rstr \<Rightarrow> rstr \<Rightarrow> rstr \<Rightarrow> rstr \<Rightarrow> rstr ticket_op" where
  "issue_bound_appearance_read now u rid principal_id participant_id asset_id st =
     (if \<not> is_room_appearance_asset_id asset_id then (Inl Ticket_Invalid, st)
      else issue_room_http now u rid principal_id participant_id (Bound_Appearance_Read asset_id) st)"

definition issue_bound_message_attachment_read ::
  "int \<Rightarrow> uuid \<times> uuid \<Rightarrow> rstr \<Rightarrow> rstr \<Rightarrow> rstr \<Rightarrow> rstr \<Rightarrow> rstr ticket_op" where
  "issue_bound_message_attachment_read now u rid principal_id participant_id attachment_id st =
     (if \<not> is_message_attachment_id attachment_id then (Inl Ticket_Invalid, st)
      else issue_room_http now u rid principal_id participant_id (Bound_Message_Attachment_Read attachment_id) st)"

definition PUBLIC_SOCKET_TICKET_CAPACITY :: nat where "PUBLIC_SOCKET_TICKET_CAPACITY = 1792"
definition PUBLIC_SOCKET_TICKETS_PER_SESSION :: nat where "PUBLIC_SOCKET_TICKETS_PER_SESSION = 8"
definition LOCAL_PRIVATE_GRANT_RESERVE :: nat where "LOCAL_PRIVATE_GRANT_RESERVE = 2304"

definition public_socket_capacity :: "ticket_store \<Rightarrow> nat" where
  "public_socket_capacity st = min (tks_capacity st - LOCAL_PRIVATE_GRANT_RESERVE) PUBLIC_SOCKET_TICKET_CAPACITY"

definition is_public_socket :: "stored_ticket_grant \<Rightarrow> bool" where
  "is_public_socket g = (case stg_authority g of Authority_Room_Session_Socket _ \<Rightarrow> True | _ \<Rightarrow> False)"

definition is_socket_of :: "8 word list \<Rightarrow> stored_ticket_grant \<Rightarrow> bool" where
  "is_socket_of fingerprint g =
     (case stg_authority g of Authority_Room_Session_Socket a \<Rightarrow> rsa_session_fingerprint a = fingerprint | _ \<Rightarrow> False)"

definition issue_room_session_socket ::
  "int \<Rightarrow> timestamp \<Rightarrow> uuid \<times> uuid \<Rightarrow> room_session_authorization \<Rightarrow> rstr ticket_op" where
  "issue_room_session_socket now utc_now u authorization st =
     (let session_remaining = rsa_expires_at authorization - utc_now in
      if session_remaining < 0 then (Inl Ticket_Invalid, st)
      else
        let grants = live_grants now (tks_grants st);
            public_count = length (filter (\<lambda>g. is_public_socket (snd g)) grants);
            same_session_count = length (filter (\<lambda>g. is_socket_of (rsa_session_fingerprint authorization) (snd g)) grants) in
        if tks_capacity st \<le> length grants \<or> public_socket_capacity st \<le> public_count \<or>
           PUBLIC_SOCKET_TICKETS_PER_SESSION \<le> same_session_count
        then (Inl Ticket_Invalid, st\<lparr>tks_grants := grants\<rparr>)
        else (let (ticket, grants) = insert_grant u (Authority_Room_Session_Socket authorization)
                                       (now + min (tks_ttl st) session_remaining) grants in
              (Inr ticket, st\<lparr>tks_grants := grants\<rparr>)))"

section \<open>Using\<close>

definition consume_grant :: "int \<Rightarrow> rstr \<Rightarrow> stored_ticket_grant ticket_op" where
  "consume_grant now ticket st =
     (case om_get (tks_grants st) ticket of
        None \<Rightarrow> (Inl Ticket_Invalid, st)
      | Some grant \<Rightarrow>
          (if stg_expires_at grant \<le> now then Inl Ticket_Invalid else Inr grant,
           st\<lparr>tks_grants := om_remove ticket (tks_grants st)\<rparr>))"

text \<open>Every use resolves the authority of the removed grant.\<close>

definition consume_with :: "(ticket_authority \<Rightarrow> ticket_error + 'r) \<Rightarrow> int \<Rightarrow> rstr \<Rightarrow> 'r ticket_op" where
  "consume_with resolve now ticket st =
     (let (r, st) = consume_grant now ticket st in (rbind r (\<lambda>grant. resolve (stg_authority grant)), st))"

definition resolve_room :: "ticket_authority \<Rightarrow> ticket_error + authenticated_principal" where
  "resolve_room a = (case a of Authority_Room pr \<Rightarrow> Ok pr | _ \<Rightarrow> Err Ticket_Invalid)"

definition resolve_server_operator :: "ticket_authority \<Rightarrow> ticket_error + rstr \<times> 64 word" where
  "resolve_server_operator a = (case a of Authority_Server_Operator p n \<Rightarrow> Ok (p, n) | _ \<Rightarrow> Err Ticket_Invalid)"

definition resolve_central_registration :: "ticket_authority \<Rightarrow> ticket_error + rstr" where
  "resolve_central_registration a = (case a of Authority_Central_Registration p \<Rightarrow> Ok p | _ \<Rightarrow> Err Ticket_Invalid)"

definition resolve_settings_directory_read :: "ticket_authority \<Rightarrow> ticket_error + rstr" where
  "resolve_settings_directory_read a = (case a of Authority_Settings_Directory_Read p \<Rightarrow> Ok p | _ \<Rightarrow> Err Ticket_Invalid)"

definition resolve_local_room_manager_authority ::
  "local_room_manager_grant \<Rightarrow> local_room_manager_purpose \<Rightarrow> ticket_error + local_room_manager_authority" where
  "resolve_local_room_manager_authority manager expected =
     (if lmg_purpose manager \<noteq> expected then Err Ticket_Invalid else Ok (lmg_authority manager))"

definition resolve_local_room_manager ::
  "local_room_manager_purpose \<Rightarrow> ticket_authority \<Rightarrow> ticket_error + local_room_manager_authority" where
  "resolve_local_room_manager expected a =
     (case a of Authority_Local_Room_Manager manager \<Rightarrow> resolve_local_room_manager_authority manager expected
      | _ \<Rightarrow> Err Ticket_Invalid)"

record consumed_room_http_ticket =
  crh_room_id :: rstr
  crh_principal_id :: rstr
  crh_participant_id :: rstr

definition resolve_room_http_authority ::
  "room_http_grant \<Rightarrow> room_http_purpose \<Rightarrow> ticket_error + consumed_room_http_ticket" where
  "resolve_room_http_authority room expected =
     (if rhg_purpose room \<noteq> expected then Err Ticket_Invalid
      else Ok \<lparr>crh_room_id = rhg_room_id room, crh_principal_id = rhg_principal_id room,
               crh_participant_id = rhg_participant_id room\<rparr>)"

definition resolve_room_http :: "room_http_purpose \<Rightarrow> ticket_authority \<Rightarrow> ticket_error + consumed_room_http_ticket" where
  "resolve_room_http expected a =
     (case a of Authority_Room_Http room \<Rightarrow> resolve_room_http_authority room expected | _ \<Rightarrow> Err Ticket_Invalid)"

datatype consumed_appearance_read_ticket =
  Appearance_Pending local_room_manager_authority
| Appearance_Bound consumed_room_http_ticket

definition resolve_appearance_read :: "rstr \<Rightarrow> ticket_authority \<Rightarrow> ticket_error + consumed_appearance_read_ticket" where
  "resolve_appearance_read asset_id a =
     (case a of
        Authority_Local_Room_Manager manager \<Rightarrow>
          rbind (resolve_local_room_manager_authority manager (Pending_Preview_Read asset_id)) (\<lambda>m. Ok (Appearance_Pending m))
      | Authority_Room_Http room \<Rightarrow>
          (case rhg_purpose room of
             Bound_Appearance_Read expected \<Rightarrow>
               if expected = asset_id
               then rbind (resolve_room_http_authority room (Bound_Appearance_Read expected)) (\<lambda>r. Ok (Appearance_Bound r))
               else Err Ticket_Invalid
           | _ \<Rightarrow> Err Ticket_Invalid)
      | _ \<Rightarrow> Err Ticket_Invalid)"

datatype consumed_attachment_upload_ticket =
  Upload_Profile rstr
| Upload_Appearance local_room_manager_authority

definition resolve_attachment_upload_authority :: "ticket_authority \<Rightarrow> ticket_error + consumed_attachment_upload_ticket" where
  "resolve_attachment_upload_authority a =
     (case a of
        Authority_Server_Operator p _ \<Rightarrow> Ok (Upload_Profile p)
      | Authority_Local_Room_Manager manager \<Rightarrow>
          rbind (resolve_local_room_manager_authority manager Appearance_Upload) (\<lambda>m. Ok (Upload_Appearance m))
      | _ \<Rightarrow> Err Ticket_Invalid)"

definition resolve_profile :: "ticket_authority \<Rightarrow> ticket_error + rstr" where
  "resolve_profile a =
     rbind (resolve_attachment_upload_authority a) (\<lambda>r.
     case r of Upload_Profile p \<Rightarrow> Ok p | Upload_Appearance _ \<Rightarrow> Err Ticket_Invalid)"

definition resolve_room_session_socket_authority ::
  "timestamp \<Rightarrow> room_session_authorization \<Rightarrow> ticket_error + room_session_authorization" where
  "resolve_room_session_socket_authority utc_now authorization =
     (if rsa_expires_at authorization \<le> utc_now then Err Ticket_Invalid else Ok authorization)"

definition resolve_room_session_at :: "timestamp \<Rightarrow> ticket_authority \<Rightarrow> ticket_error + room_session_authorization" where
  "resolve_room_session_at utc_now a =
     (case a of Authority_Room_Session_Socket s \<Rightarrow> resolve_room_session_socket_authority utc_now s | _ \<Rightarrow> Err Ticket_Invalid)"

datatype consumed_socket_ticket =
  Socket_Local authenticated_principal
| Socket_Room_Session room_session_authorization

fun consumed_socket_principal :: "consumed_socket_ticket \<Rightarrow> authenticated_principal" where
  "consumed_socket_principal (Socket_Local pr) = pr"
| "consumed_socket_principal (Socket_Room_Session authorization) = rsa_principal authorization"

definition resolve_socket :: "timestamp \<Rightarrow> ticket_authority \<Rightarrow> ticket_error + consumed_socket_ticket" where
  "resolve_socket utc_now a =
     (case a of
        Authority_Room pr \<Rightarrow> Ok (Socket_Local pr)
      | Authority_Room_Session_Socket s \<Rightarrow>
          rbind (resolve_room_session_socket_authority utc_now s) (\<lambda>s. Ok (Socket_Room_Session s))
      | _ \<Rightarrow> Err Ticket_Invalid)"

datatype socket_ticket_hint = Hint_Local | Hint_Room_Session rstr

text \<open>A socket looks at its grant before it uses it; a grant for anything else is removed.\<close>

definition socket_ticket_hint :: "int \<Rightarrow> rstr \<Rightarrow> socket_ticket_hint ticket_op" where
  "socket_ticket_hint now ticket st =
     (case om_get (tks_grants st) ticket of
        None \<Rightarrow> (Inl Ticket_Invalid, st)
      | Some grant \<Rightarrow>
          let removed = st\<lparr>tks_grants := om_remove ticket (tks_grants st)\<rparr> in
          if stg_expires_at grant \<le> now then (Inl Ticket_Invalid, removed)
          else (case stg_authority grant of
                  Authority_Room _ \<Rightarrow> (Inr Hint_Local, st)
                | Authority_Room_Session_Socket s \<Rightarrow> (Inr (Hint_Room_Session (pr_room_id (rsa_principal s))), st)
                | _ \<Rightarrow> (Inl Ticket_Invalid, removed)))"


section \<open>The operations of the interface\<close>

definition consume_room :: "int \<Rightarrow> rstr \<Rightarrow> authenticated_principal ticket_op" where
  "consume_room = consume_with resolve_room"

definition consume_server_operator :: "int \<Rightarrow> rstr \<Rightarrow> (rstr \<times> 64 word) ticket_op" where
  "consume_server_operator = consume_with resolve_server_operator"

definition consume_central_registration :: "int \<Rightarrow> rstr \<Rightarrow> rstr ticket_op" where
  "consume_central_registration = consume_with resolve_central_registration"

definition consume_settings_directory_read :: "int \<Rightarrow> rstr \<Rightarrow> rstr ticket_op" where
  "consume_settings_directory_read = consume_with resolve_settings_directory_read"

definition consume_local_room_manager ::
  "local_room_manager_purpose \<Rightarrow> int \<Rightarrow> rstr \<Rightarrow> local_room_manager_authority ticket_op" where
  "consume_local_room_manager expected = consume_with (resolve_local_room_manager expected)"

definition consume_room_http :: "room_http_purpose \<Rightarrow> int \<Rightarrow> rstr \<Rightarrow> consumed_room_http_ticket ticket_op" where
  "consume_room_http expected = consume_with (resolve_room_http expected)"

definition consume_appearance_read :: "rstr \<Rightarrow> int \<Rightarrow> rstr \<Rightarrow> consumed_appearance_read_ticket ticket_op" where
  "consume_appearance_read asset_id = consume_with (resolve_appearance_read asset_id)"

definition consume_profile :: "int \<Rightarrow> rstr \<Rightarrow> rstr ticket_op" where
  "consume_profile = consume_with resolve_profile"

definition consume_attachment_upload :: "int \<Rightarrow> rstr \<Rightarrow> consumed_attachment_upload_ticket ticket_op" where
  "consume_attachment_upload = consume_with resolve_attachment_upload_authority"

definition consume_socket :: "timestamp \<Rightarrow> int \<Rightarrow> rstr \<Rightarrow> consumed_socket_ticket ticket_op" where
  "consume_socket utc_now = consume_with (resolve_socket utc_now)"

definition consume_room_session_socket :: "timestamp \<Rightarrow> int \<Rightarrow> rstr \<Rightarrow> room_session_authorization ticket_op" where
  "consume_room_session_socket utc_now = consume_with (resolve_room_session_at utc_now)"

datatype issue_request =
  Issue_Room authenticated_principal
| Issue_Operator rstr
| Issue_Registration rstr
| Issue_Settings_Read rstr
| Issue_Manager local_room_manager_authority local_room_manager_purpose
| Issue_Preview local_room_manager_authority rstr
| Issue_Http rstr rstr rstr room_http_purpose
| Issue_Appearance rstr rstr rstr rstr
| Issue_Attachment rstr rstr rstr rstr
| Issue_Session_Socket room_session_authorization

fun issue_ticket :: "issue_request \<Rightarrow> int \<Rightarrow> timestamp \<Rightarrow> uuid \<times> uuid \<Rightarrow> rstr ticket_op" where
  "issue_ticket (Issue_Room pr) now utc_now u = issue_room now u pr"
| "issue_ticket (Issue_Operator p) now utc_now u = issue_server_operator now u p"
| "issue_ticket (Issue_Registration p) now utc_now u = issue_central_registration now u p"
| "issue_ticket (Issue_Settings_Read p) now utc_now u = issue_settings_directory_read now u p"
| "issue_ticket (Issue_Manager m purpose) now utc_now u = issue_local_room_manager now u m purpose"
| "issue_ticket (Issue_Preview m asset_id) now utc_now u = issue_pending_preview_read now u m asset_id"
| "issue_ticket (Issue_Http r p q purpose) now utc_now u = issue_room_http now u r p q purpose"
| "issue_ticket (Issue_Appearance r p q i) now utc_now u = issue_bound_appearance_read now u r p q i"
| "issue_ticket (Issue_Attachment r p q i) now utc_now u = issue_bound_message_attachment_read now u r p q i"
| "issue_ticket (Issue_Session_Socket s) now utc_now u = issue_room_session_socket now utc_now u s"

datatype ticket_use =
  Use_Room | Use_Operator | Use_Registration | Use_Settings_Read | Use_Manager local_room_manager_purpose
| Use_Http room_http_purpose | Use_Appearance rstr | Use_Profile | Use_Upload | Use_Socket | Use_Session_Socket

datatype ticket_claim =
  Claim_Principal authenticated_principal
| Claim_Operator rstr "64 word"
| Claim_Identity rstr
| Claim_Manager local_room_manager_authority
| Claim_Http consumed_room_http_ticket
| Claim_Appearance consumed_appearance_read_ticket
| Claim_Upload consumed_attachment_upload_ticket
| Claim_Socket consumed_socket_ticket
| Claim_Session room_session_authorization

definition as_claim :: "('r \<Rightarrow> ticket_claim) \<Rightarrow> (ticket_error + 'r) \<times> ticket_store \<Rightarrow> (ticket_error + ticket_claim) \<times> ticket_store" where
  "as_claim f x = (rbind (fst x) (\<lambda>r. Ok (f r)), snd x)"

fun use_ticket :: "ticket_use \<Rightarrow> int \<Rightarrow> timestamp \<Rightarrow> rstr \<Rightarrow> ticket_claim ticket_op" where
  "use_ticket Use_Room now utc_now t st = as_claim Claim_Principal (consume_room now t st)"
| "use_ticket Use_Operator now utc_now t st = as_claim (\<lambda>(p, n). Claim_Operator p n) (consume_server_operator now t st)"
| "use_ticket Use_Registration now utc_now t st = as_claim Claim_Identity (consume_central_registration now t st)"
| "use_ticket Use_Settings_Read now utc_now t st = as_claim Claim_Identity (consume_settings_directory_read now t st)"
| "use_ticket (Use_Manager purpose) now utc_now t st = as_claim Claim_Manager (consume_local_room_manager purpose now t st)"
| "use_ticket (Use_Http purpose) now utc_now t st = as_claim Claim_Http (consume_room_http purpose now t st)"
| "use_ticket (Use_Appearance i) now utc_now t st = as_claim Claim_Appearance (consume_appearance_read i now t st)"
| "use_ticket Use_Profile now utc_now t st = as_claim Claim_Identity (consume_profile now t st)"
| "use_ticket Use_Upload now utc_now t st = as_claim Claim_Upload (consume_attachment_upload now t st)"
| "use_ticket Use_Socket now utc_now t st = as_claim Claim_Socket (consume_socket utc_now now t st)"
| "use_ticket Use_Session_Socket now utc_now t st = as_claim Claim_Session (consume_room_session_socket utc_now now t st)"


section \<open>The operation of each purpose\<close>

text \<open>Each endpoint has operations of its own, which fix the purpose.\<close>

definition issue_message_pins_read :: "int \<Rightarrow> uuid \<times> uuid \<Rightarrow> local_room_manager_authority \<Rightarrow> rstr ticket_op" where
  "issue_message_pins_read now u authority = issue_local_room_manager now u authority Message_Pins_Read"

definition consume_message_pins_read :: "int \<Rightarrow> rstr \<Rightarrow> local_room_manager_authority ticket_op" where
  "consume_message_pins_read = consume_local_room_manager Message_Pins_Read"

definition issue_message_pins_write :: "int \<Rightarrow> uuid \<times> uuid \<Rightarrow> local_room_manager_authority \<Rightarrow> rstr ticket_op" where
  "issue_message_pins_write now u authority = issue_local_room_manager now u authority Message_Pins_Write"

definition consume_message_pins_write :: "int \<Rightarrow> rstr \<Rightarrow> local_room_manager_authority ticket_op" where
  "consume_message_pins_write = consume_local_room_manager Message_Pins_Write"

definition issue_message_search_read :: "int \<Rightarrow> uuid \<times> uuid \<Rightarrow> local_room_manager_authority \<Rightarrow> rstr ticket_op" where
  "issue_message_search_read now u authority = issue_local_room_manager now u authority Message_Search_Read"

definition consume_message_search_read :: "int \<Rightarrow> rstr \<Rightarrow> local_room_manager_authority ticket_op" where
  "consume_message_search_read = consume_local_room_manager Message_Search_Read"

definition issue_side_chat_read :: "int \<Rightarrow> uuid \<times> uuid \<Rightarrow> local_room_manager_authority \<Rightarrow> rstr ticket_op" where
  "issue_side_chat_read now u authority = issue_local_room_manager now u authority Side_Chat_Read"

definition consume_side_chat_read :: "int \<Rightarrow> rstr \<Rightarrow> local_room_manager_authority ticket_op" where
  "consume_side_chat_read = consume_local_room_manager Side_Chat_Read"

definition issue_attendee_invite_create :: "int \<Rightarrow> uuid \<times> uuid \<Rightarrow> local_room_manager_authority \<Rightarrow> rstr ticket_op" where
  "issue_attendee_invite_create now u authority = issue_local_room_manager now u authority Attendee_Invite_Create"

definition consume_attendee_invite_create :: "int \<Rightarrow> rstr \<Rightarrow> local_room_manager_authority ticket_op" where
  "consume_attendee_invite_create = consume_local_room_manager Attendee_Invite_Create"

definition issue_connector_invite_create :: "int \<Rightarrow> uuid \<times> uuid \<Rightarrow> local_room_manager_authority \<Rightarrow> rstr ticket_op" where
  "issue_connector_invite_create now u authority = issue_local_room_manager now u authority Connector_Invite_Create"

definition consume_connector_invite_create :: "int \<Rightarrow> rstr \<Rightarrow> local_room_manager_authority ticket_op" where
  "consume_connector_invite_create = consume_local_room_manager Connector_Invite_Create"

definition issue_human_invite_create :: "int \<Rightarrow> uuid \<times> uuid \<Rightarrow> local_room_manager_authority \<Rightarrow> rstr ticket_op" where
  "issue_human_invite_create now u authority = issue_local_room_manager now u authority Human_Invite_Create"

definition consume_human_invite_create :: "int \<Rightarrow> rstr \<Rightarrow> local_room_manager_authority ticket_op" where
  "consume_human_invite_create = consume_local_room_manager Human_Invite_Create"

definition issue_human_invite_revoke :: "int \<Rightarrow> uuid \<times> uuid \<Rightarrow> local_room_manager_authority \<Rightarrow> rstr ticket_op" where
  "issue_human_invite_revoke now u authority = issue_local_room_manager now u authority Human_Invite_Revoke"

definition consume_human_invite_revoke :: "int \<Rightarrow> rstr \<Rightarrow> local_room_manager_authority ticket_op" where
  "consume_human_invite_revoke = consume_local_room_manager Human_Invite_Revoke"

definition issue_appearance_upload :: "int \<Rightarrow> uuid \<times> uuid \<Rightarrow> local_room_manager_authority \<Rightarrow> rstr ticket_op" where
  "issue_appearance_upload now u authority = issue_local_room_manager now u authority Appearance_Upload"

definition issue_agent_avatar_upload :: "int \<Rightarrow> uuid \<times> uuid \<Rightarrow> local_room_manager_authority \<Rightarrow> rstr \<Rightarrow> rstr ticket_op" where
  "issue_agent_avatar_upload now u authority session_id = issue_local_room_manager now u authority (Agent_Avatar_Upload session_id)"

definition consume_agent_avatar_upload :: "rstr \<Rightarrow> int \<Rightarrow> rstr \<Rightarrow> local_room_manager_authority ticket_op" where
  "consume_agent_avatar_upload session_id = consume_with (resolve_local_room_manager (Agent_Avatar_Upload session_id))"

definition issue_preferences_read :: "int \<Rightarrow> uuid \<times> uuid \<Rightarrow> rstr \<Rightarrow> rstr \<Rightarrow> rstr \<Rightarrow> rstr ticket_op" where
  "issue_preferences_read now u rid principal_id participant_id = issue_room_http now u rid principal_id participant_id Preferences_Read"

definition consume_preferences_read :: "int \<Rightarrow> rstr \<Rightarrow> consumed_room_http_ticket ticket_op" where
  "consume_preferences_read = consume_room_http Preferences_Read"

definition issue_preferences_write :: "int \<Rightarrow> uuid \<times> uuid \<Rightarrow> rstr \<Rightarrow> rstr \<Rightarrow> rstr \<Rightarrow> rstr ticket_op" where
  "issue_preferences_write now u rid principal_id participant_id = issue_room_http now u rid principal_id participant_id Preferences_Write"

definition consume_preferences_write :: "int \<Rightarrow> rstr \<Rightarrow> consumed_room_http_ticket ticket_op" where
  "consume_preferences_write = consume_room_http Preferences_Write"

definition issue_message_attachment_upload :: "int \<Rightarrow> uuid \<times> uuid \<Rightarrow> rstr \<Rightarrow> rstr \<Rightarrow> rstr \<Rightarrow> rstr ticket_op" where
  "issue_message_attachment_upload now u rid principal_id participant_id = issue_room_http now u rid principal_id participant_id Message_Attachment_Upload"

definition consume_message_attachment_upload :: "int \<Rightarrow> rstr \<Rightarrow> consumed_room_http_ticket ticket_op" where
  "consume_message_attachment_upload = consume_room_http Message_Attachment_Upload"

definition consume_message_attachment_read :: "rstr \<Rightarrow> int \<Rightarrow> rstr \<Rightarrow> consumed_room_http_ticket ticket_op" where
  "consume_message_attachment_read attachment_id = consume_room_http (Bound_Message_Attachment_Read attachment_id)"

text \<open>They are requests and uses of the interface above, so what holds of its runs holds of theirs.\<close>

lemma named_issue:
  "issue_message_pins_read now u m = issue_ticket (Issue_Manager m Message_Pins_Read) now utc u"
  "issue_message_pins_write now u m = issue_ticket (Issue_Manager m Message_Pins_Write) now utc u"
  "issue_message_search_read now u m = issue_ticket (Issue_Manager m Message_Search_Read) now utc u"
  "issue_side_chat_read now u m = issue_ticket (Issue_Manager m Side_Chat_Read) now utc u"
  "issue_attendee_invite_create now u m = issue_ticket (Issue_Manager m Attendee_Invite_Create) now utc u"
  "issue_connector_invite_create now u m = issue_ticket (Issue_Manager m Connector_Invite_Create) now utc u"
  "issue_human_invite_create now u m = issue_ticket (Issue_Manager m Human_Invite_Create) now utc u"
  "issue_human_invite_revoke now u m = issue_ticket (Issue_Manager m Human_Invite_Revoke) now utc u"
  "issue_appearance_upload now u m = issue_ticket (Issue_Manager m Appearance_Upload) now utc u"
  "issue_agent_avatar_upload now u m i = issue_ticket (Issue_Manager m (Agent_Avatar_Upload i)) now utc u"
  "issue_preferences_read now u r p q = issue_ticket (Issue_Http r p q Preferences_Read) now utc u"
  "issue_preferences_write now u r p q = issue_ticket (Issue_Http r p q Preferences_Write) now utc u"
  "issue_message_attachment_upload now u r p q = issue_ticket (Issue_Http r p q Message_Attachment_Upload) now utc u"
  by (simp_all add: fun_eq_iff issue_message_pins_read_def issue_message_pins_write_def issue_message_search_read_def issue_side_chat_read_def
    issue_attendee_invite_create_def issue_connector_invite_create_def issue_human_invite_create_def issue_human_invite_revoke_def
    issue_preferences_read_def issue_preferences_write_def issue_message_attachment_upload_def issue_appearance_upload_def
    issue_agent_avatar_upload_def)

lemma named_use:
  "use_ticket (Use_Manager Message_Pins_Read) now utc t st = as_claim Claim_Manager (consume_message_pins_read now t st)"
  "use_ticket (Use_Manager Message_Pins_Write) now utc t st = as_claim Claim_Manager (consume_message_pins_write now t st)"
  "use_ticket (Use_Manager Message_Search_Read) now utc t st = as_claim Claim_Manager (consume_message_search_read now t st)"
  "use_ticket (Use_Manager Side_Chat_Read) now utc t st = as_claim Claim_Manager (consume_side_chat_read now t st)"
  "use_ticket (Use_Manager Attendee_Invite_Create) now utc t st = as_claim Claim_Manager (consume_attendee_invite_create now t st)"
  "use_ticket (Use_Manager Connector_Invite_Create) now utc t st = as_claim Claim_Manager (consume_connector_invite_create now t st)"
  "use_ticket (Use_Manager Human_Invite_Create) now utc t st = as_claim Claim_Manager (consume_human_invite_create now t st)"
  "use_ticket (Use_Manager Human_Invite_Revoke) now utc t st = as_claim Claim_Manager (consume_human_invite_revoke now t st)"
  "use_ticket (Use_Manager (Agent_Avatar_Upload i)) now utc t st = as_claim Claim_Manager (consume_agent_avatar_upload i now t st)"
  "use_ticket (Use_Http Preferences_Read) now utc t st = as_claim Claim_Http (consume_preferences_read now t st)"
  "use_ticket (Use_Http Preferences_Write) now utc t st = as_claim Claim_Http (consume_preferences_write now t st)"
  "use_ticket (Use_Http Message_Attachment_Upload) now utc t st = as_claim Claim_Http (consume_message_attachment_upload now t st)"
  "use_ticket (Use_Http (Bound_Message_Attachment_Read i)) now utc t st = as_claim Claim_Http (consume_message_attachment_read i now t st)"
  by (simp_all add: consume_message_pins_read_def consume_message_pins_write_def consume_message_search_read_def consume_side_chat_read_def
    consume_attendee_invite_create_def consume_connector_invite_create_def consume_human_invite_create_def consume_human_invite_revoke_def
    consume_preferences_read_def consume_preferences_write_def consume_message_attachment_upload_def consume_agent_avatar_upload_def
    consume_message_attachment_read_def consume_local_room_manager_def)


section \<open>What the store keeps\<close>

text \<open>The authority a request asks for.\<close>

fun issued_for :: "issue_request \<Rightarrow> ticket_authority \<Rightarrow> bool" where
  "issued_for (Issue_Room pr) a = (a = Authority_Room pr)"
| "issued_for (Issue_Operator p) a = (case a of Authority_Server_Operator p' _ \<Rightarrow> p' = p | _ \<Rightarrow> False)"
| "issued_for (Issue_Registration p) a = (a = Authority_Central_Registration p)"
| "issued_for (Issue_Settings_Read p) a = (a = Authority_Settings_Directory_Read p)"
| "issued_for (Issue_Manager m purpose) a = (a = Authority_Local_Room_Manager \<lparr>lmg_authority = m, lmg_purpose = purpose\<rparr>)"
| "issued_for (Issue_Preview m i) a = (a = Authority_Local_Room_Manager \<lparr>lmg_authority = m, lmg_purpose = Pending_Preview_Read i\<rparr>)"
| "issued_for (Issue_Http r p q purpose) a = (a = Authority_Room_Http
     \<lparr>rhg_room_id = r, rhg_principal_id = p, rhg_participant_id = q, rhg_purpose = purpose\<rparr>)"
| "issued_for (Issue_Appearance r p q i) a = (a = Authority_Room_Http
     \<lparr>rhg_room_id = r, rhg_principal_id = p, rhg_participant_id = q, rhg_purpose = Bound_Appearance_Read i\<rparr>)"
| "issued_for (Issue_Attachment r p q i) a = (a = Authority_Room_Http
     \<lparr>rhg_room_id = r, rhg_principal_id = p, rhg_participant_id = q, rhg_purpose = Bound_Message_Attachment_Read i\<rparr>)"
| "issued_for (Issue_Session_Socket s) a = (a = Authority_Room_Session_Socket s)"

definition tickets_ok :: "ticket_store \<Rightarrow> bool" where
  "tickets_ok st \<longleftrightarrow>
     om_wf (tks_grants st) \<and> length (tks_grants st) \<le> tks_capacity st \<and>
     length (filter (\<lambda>g. is_public_socket (snd g)) (tks_grants st)) \<le> public_socket_capacity st \<and>
     (\<forall>fingerprint. length (filter (\<lambda>g. is_socket_of fingerprint (snd g)) (tks_grants st)) \<le> PUBLIC_SOCKET_TICKETS_PER_SESSION)"

lemma live_grants_wf: "om_wf g \<Longrightarrow> om_wf (live_grants now g)"
  unfolding live_grants_def by (induction g) (auto simp: om_wf_Cons split: if_splits)

lemma om_get_live: "om_wf g \<Longrightarrow> om_get (live_grants now g) t = Some x \<Longrightarrow> om_get g t = Some x"
  using live_grants_wf [of g now] by (auto simp: om_wf_get_set [symmetric] live_grants_def)

lemma length_filter_both: "length (filter (\<lambda>x. q x \<and> p x) xs) \<le> length (filter p xs)"
  by (induction xs) auto

lemma live_counts: "length (filter p (live_grants now g)) \<le> length (filter p g)"
  by (simp add: live_grants_def length_filter_both)

lemma insert_counts: "length (filter (\<lambda>x. p (snd x)) (om_insert t g m)) \<le> length (filter (\<lambda>x. p (snd x)) m) + (if p g then 1 else 0)"
  by (induction t g m rule: om_insert.induct) auto

lemma insert_length: "length (om_insert t g m) \<le> length m + 1"
  by (induction t g m rule: om_insert.induct) auto

lemma remove_counts: "length (filter p (om_remove t m)) \<le> length (filter p m)"
  by (simp_all add: om_remove_def om_retain_def length_filter_both)


lemma is_socket_public: "is_socket_of f g \<Longrightarrow> is_public_socket g"
  by (auto simp: is_socket_of_def is_public_socket_def split: ticket_authority.splits)

lemma grants_update [simp]:
  "tks_grants (st\<lparr>tks_grants := g\<rparr>) = g" "public_socket_capacity (st\<lparr>tks_grants := g\<rparr>) = public_socket_capacity st"
  "public_socket_capacity (st\<lparr>tks_next_server_operator_sequence := n\<rparr>) = public_socket_capacity st"
  by (simp_all add: public_socket_capacity_def)

lemma fewer_ok:
  assumes "tickets_ok st" "om_wf g" "\<And>p. length (filter p g) \<le> length (filter p (tks_grants st))"
  shows "tickets_ok (st\<lparr>tks_grants := g\<rparr>)"
proof -
  have "length g \<le> length (tks_grants st)" using assms(3) [of "\<lambda>_. True"] by simp
  then show ?thesis using assms order_trans [OF assms(3)] unfolding tickets_ok_def by fastforce
qed

lemma live_ok: "tickets_ok st \<Longrightarrow> tickets_ok (st\<lparr>tks_grants := live_grants now (tks_grants st)\<rparr>)"
  by (rule fewer_ok) (simp_all add: tickets_ok_def live_grants_wf live_counts)

lemma remove_ok: "tickets_ok st \<Longrightarrow> tickets_ok (st\<lparr>tks_grants := om_remove t (tks_grants st)\<rparr>)"
  by (rule fewer_ok) (simp_all add: tickets_ok_def om_wf_remove remove_counts)

lemma insert_ok:
  assumes ok: "tickets_ok st" and room: "length (tks_grants st) < tks_capacity st"
    and public: "is_public_socket g \<Longrightarrow> length (filter (\<lambda>x. is_public_socket (snd x)) (tks_grants st)) < public_socket_capacity st"
    and same: "\<And>f. is_socket_of f g \<Longrightarrow>
      length (filter (\<lambda>x. is_socket_of f (snd x)) (tks_grants st)) < PUBLIC_SOCKET_TICKETS_PER_SESSION"
  shows "tickets_ok (st\<lparr>tks_grants := om_insert t g (tks_grants st)\<rparr>)"
proof -
  have "length (om_insert t g (tks_grants st)) \<le> tks_capacity st"
    using insert_length [of t g "tks_grants st"] room by simp
  moreover have "length (filter (\<lambda>x. is_public_socket (snd x)) (om_insert t g (tks_grants st))) \<le> public_socket_capacity st"
    using insert_counts [of is_public_socket t g "tks_grants st"] ok public by (cases "is_public_socket g") (auto simp: tickets_ok_def)
  moreover have "length (filter (\<lambda>x. is_socket_of f (snd x)) (om_insert t g (tks_grants st))) \<le> PUBLIC_SOCKET_TICKETS_PER_SESSION" for f
    using insert_counts [of "is_socket_of f" t g "tks_grants st"] ok same [of f] unfolding tickets_ok_def
    by (cases "is_socket_of f g") (auto dest: spec [of _ f])
  ultimately show ?thesis using ok by (simp add: tickets_ok_def om_wf_insert)
qed

text \<open>A ticket is issued at the end of the table of live grants, or refused.\<close>

definition issues :: "issue_request \<Rightarrow> int \<Rightarrow> ticket_store \<Rightarrow> (ticket_error + rstr) \<times> ticket_store \<Rightarrow> bool" where
  "issues q now st x \<longleftrightarrow>
     (tickets_ok st \<longrightarrow> tickets_ok (snd x)) \<and> tks_ttl (snd x) = tks_ttl st \<and> tks_capacity (snd x) = tks_capacity st \<and>
     (case fst x of
        Inl _ \<Rightarrow> tks_grants (snd x) \<in> {tks_grants st, live_grants now (tks_grants st)}
      | Inr t \<Rightarrow> \<exists>a e. e \<le> now + tks_ttl st \<and> issued_for q a \<and>
          tks_grants (snd x) = om_insert t \<lparr>stg_authority = a, stg_expires_at = e\<rparr> (live_grants now (tks_grants st)))"

lemma issue_authority_issues:
  assumes "issued_for q a" "\<not> is_public_socket \<lparr>stg_authority = a, stg_expires_at = now + tks_ttl st\<rparr>"
  shows "issues q now st (issue_authority now u a st)"
proof (cases "tks_capacity st \<le> length (live_grants now (tks_grants st))")
  case True
  then show ?thesis by (simp add: issues_def issue_authority_def live_ok)
next
  case False
  have "tickets_ok (st\<lparr>tks_grants := om_insert (ticket_text u) \<lparr>stg_authority = a, stg_expires_at = now + tks_ttl st\<rparr>
      (live_grants now (tks_grants st))\<rparr>)" if "tickets_ok st"
    using insert_ok [OF live_ok [OF that, of now], of "\<lparr>stg_authority = a, stg_expires_at = now + tks_ttl st\<rparr>" "ticket_text u"]
      False assms(2) is_socket_public by auto
  then show ?thesis using False assms(1) by (auto simp: issues_def issue_authority_def insert_grant_def)
qed

lemma issues_refused: "issues q now st (Inl Ticket_Invalid, st)"
  by (simp add: issues_def)

lemma tickets_ok_sequence [simp]: "tickets_ok (st\<lparr>tks_next_server_operator_sequence := n\<rparr>) = tickets_ok st"
  by (simp add: tickets_ok_def)

lemma issues_sequence: "issues q now (st\<lparr>tks_next_server_operator_sequence := n\<rparr>) x \<Longrightarrow> issues q now st x"
  unfolding issues_def by (cases "fst x") simp_all

lemma issue_socket_issues: "issues (Issue_Session_Socket s) now st (issue_room_session_socket now utc u s st)"
proof -
  let ?g = "\<lparr>stg_authority = Authority_Room_Session_Socket s, stg_expires_at = now + min (tks_ttl st) (rsa_expires_at s - utc)\<rparr>"
  have "tickets_ok (st\<lparr>tks_grants := om_insert (ticket_text u) ?g (live_grants now (tks_grants st))\<rparr>)"
    if "tickets_ok st" "length (live_grants now (tks_grants st)) < tks_capacity st"
      "length (filter (\<lambda>g. is_public_socket (snd g)) (live_grants now (tks_grants st))) < public_socket_capacity st"
      "length (filter (\<lambda>g. is_socket_of (rsa_session_fingerprint s) (snd g)) (live_grants now (tks_grants st))) < PUBLIC_SOCKET_TICKETS_PER_SESSION"
    using insert_ok [OF live_ok [OF that(1), of now], of ?g "ticket_text u"] that(2,3,4) by (auto simp: is_socket_of_def)
  then show ?thesis
    by (auto simp: issues_def issue_room_session_socket_def Let_def insert_grant_def live_ok
        intro!: exI [of _ "now + min (tks_ttl st) (rsa_expires_at s - utc)"])
qed

lemma issues_plain:
  assumes "issued_for q a" "case a of Authority_Room_Session_Socket _ \<Rightarrow> False | _ \<Rightarrow> True"
  shows "issues q now st (issue_authority now u a st)"
  using assms by (intro issue_authority_issues) (auto simp: is_public_socket_def split: ticket_authority.splits)

lemma issues_if: "issues q now st x \<Longrightarrow> issues q now st (if c then (Inl Ticket_Invalid, st) else x)"
  by (simp add: issues_refused)

lemma issue_ticket_issues: "issues q now st (issue_ticket q now utc u st)"
proof (cases q)
  case (Issue_Operator p)
  have "issues (Issue_Operator p) now st (issue_authority now u (Authority_Server_Operator p n)
      (st\<lparr>tks_next_server_operator_sequence := n\<rparr>))" for n
    by (rule issues_sequence, rule issues_plain) simp_all
  then show ?thesis
    unfolding Issue_Operator issue_ticket.simps issue_server_operator_def
    by (cases "checked_inc_u64 (tks_next_server_operator_sequence st)") (simp_all add: issues_refused)
next
  case (Issue_Session_Socket s)
  then show ?thesis by (simp add: issue_socket_issues)
qed (hypsubst, simp only: issue_ticket.simps issue_room_def issue_central_registration_def issue_settings_directory_read_def
      issue_local_room_manager_def issue_pending_preview_read_def issue_room_http_def issue_bound_appearance_read_def
      issue_bound_message_attachment_read_def, intro issues_if issues_plain; simp)+


section \<open>Uses\<close>

text \<open>What a use returns for an authority.\<close>

definition claim_for :: "ticket_use \<Rightarrow> timestamp \<Rightarrow> ticket_authority \<Rightarrow> ticket_error + ticket_claim" where
  "claim_for x utc_now a =
     (case x of
        Use_Room \<Rightarrow> rbind (resolve_room a) (\<lambda>r. Ok (Claim_Principal r))
      | Use_Operator \<Rightarrow> rbind (resolve_server_operator a) (\<lambda>(p, n). Ok (Claim_Operator p n))
      | Use_Registration \<Rightarrow> rbind (resolve_central_registration a) (\<lambda>r. Ok (Claim_Identity r))
      | Use_Settings_Read \<Rightarrow> rbind (resolve_settings_directory_read a) (\<lambda>r. Ok (Claim_Identity r))
      | Use_Manager purpose \<Rightarrow> rbind (resolve_local_room_manager purpose a) (\<lambda>r. Ok (Claim_Manager r))
      | Use_Http purpose \<Rightarrow> rbind (resolve_room_http purpose a) (\<lambda>r. Ok (Claim_Http r))
      | Use_Appearance i \<Rightarrow> rbind (resolve_appearance_read i a) (\<lambda>r. Ok (Claim_Appearance r))
      | Use_Profile \<Rightarrow> rbind (resolve_profile a) (\<lambda>r. Ok (Claim_Identity r))
      | Use_Upload \<Rightarrow> rbind (resolve_attachment_upload_authority a) (\<lambda>r. Ok (Claim_Upload r))
      | Use_Socket \<Rightarrow> rbind (resolve_socket utc_now a) (\<lambda>r. Ok (Claim_Socket r))
      | Use_Session_Socket \<Rightarrow> rbind (resolve_room_session_at utc_now a) (\<lambda>r. Ok (Claim_Session r)))"

lemma consume_claim:
  "as_claim f (consume_with resolve now t st) =
     (case om_get (tks_grants st) t of
        None \<Rightarrow> (Inl Ticket_Invalid, st)
      | Some g \<Rightarrow> (if stg_expires_at g \<le> now then Inl Ticket_Invalid else rbind (resolve (stg_authority g)) (\<lambda>r. Ok (f r)),
                   st\<lparr>tks_grants := om_remove t (tks_grants st)\<rparr>))"
  by (simp add: as_claim_def consume_with_def consume_grant_def split: option.splits)

lemma use_ticket_eq:
  "use_ticket x now utc t st =
     (case om_get (tks_grants st) t of
        None \<Rightarrow> (Inl Ticket_Invalid, st)
      | Some g \<Rightarrow> (if stg_expires_at g \<le> now then Inl Ticket_Invalid else claim_for x utc (stg_authority g),
                   st\<lparr>tks_grants := om_remove t (tks_grants st)\<rparr>))"
  by (cases "om_get (tks_grants st) t"; cases x) (simp_all add: claim_for_def case_prod_unfold consume_room_def consume_server_operator_def consume_central_registration_def
        consume_settings_directory_read_def consume_local_room_manager_def consume_room_http_def consume_appearance_read_def
        consume_profile_def consume_attachment_upload_def consume_socket_def consume_room_session_socket_def consume_claim)

text \<open>The claims each issued ticket entitles to: the specification of the purposes.\<close>

definition entitles :: "issue_request \<Rightarrow> ticket_use \<Rightarrow> ticket_claim \<Rightarrow> bool" where
  "entitles q x c \<longleftrightarrow>
     (case q of
        Issue_Room pr \<Rightarrow> (x, c) \<in> {(Use_Room, Claim_Principal pr), (Use_Socket, Claim_Socket (Socket_Local pr))}
      | Issue_Operator p \<Rightarrow>
          (case c of Claim_Operator p' _ \<Rightarrow> x = Use_Operator \<and> p' = p
           | _ \<Rightarrow> (x, c) \<in> {(Use_Profile, Claim_Identity p), (Use_Upload, Claim_Upload (Upload_Profile p))})
      | Issue_Registration p \<Rightarrow> (x, c) = (Use_Registration, Claim_Identity p)
      | Issue_Settings_Read p \<Rightarrow> (x, c) = (Use_Settings_Read, Claim_Identity p)
      | Issue_Manager m purpose \<Rightarrow>
          (x, c) = (Use_Manager purpose, Claim_Manager m) \<or>
          purpose = Appearance_Upload \<and> (x, c) = (Use_Upload, Claim_Upload (Upload_Appearance m)) \<or>
          (case purpose of Pending_Preview_Read i \<Rightarrow> (x, c) = (Use_Appearance i, Claim_Appearance (Appearance_Pending m)) | _ \<Rightarrow> False)
      | Issue_Preview m i \<Rightarrow>
          (x, c) \<in> {(Use_Manager (Pending_Preview_Read i), Claim_Manager m), (Use_Appearance i, Claim_Appearance (Appearance_Pending m))}
      | Issue_Http r p q purpose \<Rightarrow>
          (let h = \<lparr>crh_room_id = r, crh_principal_id = p, crh_participant_id = q\<rparr> in
           (x, c) = (Use_Http purpose, Claim_Http h) \<or>
           (case purpose of Bound_Appearance_Read i \<Rightarrow> (x, c) = (Use_Appearance i, Claim_Appearance (Appearance_Bound h)) | _ \<Rightarrow> False))
      | Issue_Appearance r p q i \<Rightarrow>
          (let h = \<lparr>crh_room_id = r, crh_principal_id = p, crh_participant_id = q\<rparr> in
           (x, c) \<in> {(Use_Http (Bound_Appearance_Read i), Claim_Http h), (Use_Appearance i, Claim_Appearance (Appearance_Bound h))})
      | Issue_Attachment r p q i \<Rightarrow>
          (x, c) = (Use_Http (Bound_Message_Attachment_Read i),
                    Claim_Http \<lparr>crh_room_id = r, crh_principal_id = p, crh_participant_id = q\<rparr>)
      | Issue_Session_Socket s \<Rightarrow>
          (x, c) \<in> {(Use_Socket, Claim_Socket (Socket_Room_Session s)), (Use_Session_Socket, Claim_Session s)})"

lemmas resolve_defs = resolve_room_def resolve_server_operator_def resolve_central_registration_def
  resolve_settings_directory_read_def resolve_local_room_manager_def resolve_local_room_manager_authority_def
  resolve_room_http_def resolve_room_http_authority_def resolve_appearance_read_def resolve_profile_def
  resolve_attachment_upload_authority_def resolve_socket_def resolve_room_session_at_def
  resolve_room_session_socket_authority_def

lemma entitled: "issued_for q a \<Longrightarrow> claim_for x utc a = Ok c \<Longrightarrow> entitles q x c"
  by (cases q; cases x)
    (auto simp: claim_for_def entitles_def resolve_defs Let_def
      split: ticket_authority.splits if_splits local_room_manager_purpose.splits room_http_purpose.splits)


section \<open>Runs of the store\<close>

datatype ticket_event =
  Issued issue_request int rstr
| Claimed ticket_use int rstr ticket_claim
| Spent rstr

fun ticket_of :: "ticket_event \<Rightarrow> rstr" where
  "ticket_of (Issued q now t) = t"
| "ticket_of (Claimed x now t c) = t"
| "ticket_of (Spent t) = t"

text \<open>The stores that operations in any order, at any times, lead to, with what happened before, the latest first.
  An operation that refuses may still remove expired grants, or the grant it was shown.\<close>

inductive ticket_run :: "int \<Rightarrow> nat \<Rightarrow> ticket_store \<Rightarrow> ticket_event list \<Rightarrow> bool" for ttl capacity where
  start: "ticket_run ttl capacity (new_ticket_store ttl capacity) []"
| issued: "ticket_run ttl capacity st log \<Longrightarrow> issue_ticket q now utc u st = (Inr t, st') \<Longrightarrow>
    ticket_run ttl capacity st' (Issued q now t # log)"
| refused: "ticket_run ttl capacity st log \<Longrightarrow> issue_ticket q now utc u st = (Inl e, st') \<Longrightarrow> ticket_run ttl capacity st' log"
| claimed: "ticket_run ttl capacity st log \<Longrightarrow> use_ticket x now utc t st = (Inr c, st') \<Longrightarrow>
    ticket_run ttl capacity st' (Claimed x now t c # log)"
| spent: "ticket_run ttl capacity st log \<Longrightarrow> use_ticket x now utc t st = (Inl e, st') \<Longrightarrow> ticket_run ttl capacity st' (Spent t # log)"
| hinted: "ticket_run ttl capacity st log \<Longrightarrow> socket_ticket_hint now t st = (Inr h, st') \<Longrightarrow> ticket_run ttl capacity st' log"
| unhinted: "ticket_run ttl capacity st log \<Longrightarrow> socket_ticket_hint now t st = (Inl e, st') \<Longrightarrow>
    ticket_run ttl capacity st' (Spent t # log)"

text \<open>A ticket that was issued and not shown to the store since.\<close>

definition unused :: "int \<Rightarrow> ticket_event list \<Rightarrow> rstr \<Rightarrow> stored_ticket_grant \<Rightarrow> bool" where
  "unused ttl log t g \<longleftrightarrow>
     (\<exists>later q now earlier. log = later @ Issued q now t # earlier \<and> t \<notin> ticket_of ` set later \<and>
        stg_expires_at g \<le> now + ttl \<and> issued_for q (stg_authority g))"

lemma unused_more: "unused ttl log t g \<Longrightarrow> ticket_of e \<noteq> t \<Longrightarrow> unused ttl (e # log) t g"
  unfolding unused_def by (elim exE conjE) (rule exI [of _ "e # later" for later], auto)

definition accounted :: "int \<Rightarrow> ticket_event list \<Rightarrow> ticket_store \<Rightarrow> bool" where
  "accounted ttl log st \<longleftrightarrow> tks_ttl st = ttl \<and> (\<forall>t g. om_get (tks_grants st) t = Some g \<longrightarrow> unused ttl log t g)"

lemma hint_eq:
  "socket_ticket_hint now t st = (r, st') \<Longrightarrow>
     st' = st \<and> (isl r \<longrightarrow> om_get (tks_grants st) t = None) \<or> st' = st\<lparr>tks_grants := om_remove t (tks_grants st)\<rparr> \<and> isl r"
  by (auto simp: socket_ticket_hint_def Let_def split: option.splits if_splits ticket_authority.splits)

lemma use_result:
  assumes "use_ticket x now utc t st = (r, st')"
  shows "st' = st \<and> om_get (tks_grants st) t = None \<and> isl r \<or> st' = st\<lparr>tks_grants := om_remove t (tks_grants st)\<rparr>"
  using assms by (auto simp: use_ticket_eq split: option.splits)

lemma spent_accounted:
  assumes "accounted ttl log st" "ticket_of e = t"
    and "st' = st \<and> om_get (tks_grants st) t = None \<or> st' = st\<lparr>tks_grants := om_remove t (tks_grants st)\<rparr>"
  shows "accounted ttl (e # log) st'"
  using assms by (fastforce simp: accounted_def intro: unused_more split: if_splits)

lemma run_invariant: "ticket_run ttl capacity st log \<Longrightarrow>
  tickets_ok st \<and> accounted ttl log st \<and> tks_capacity st = max capacity 1"
proof (induction rule: ticket_run.induct)
  case start
  show ?case by (simp add: new_ticket_store_def tickets_ok_def accounted_def om_wf_def)
next
  case (issued st log q now utc u t st')
  from issue_ticket_issues [of q now st utc u] issued obtain a e where
    g: "tks_grants st' = om_insert t \<lparr>stg_authority = a, stg_expires_at = e\<rparr> (live_grants now (tks_grants st))"
    and a: "issued_for q a" "e \<le> now + ttl" and ok: "tickets_ok st'" "tks_ttl st' = ttl" "tks_capacity st' = max capacity 1"
    by (auto simp: issues_def accounted_def)
  have "unused ttl (Issued q now t # log) t' g'" if "om_get (tks_grants st') t' = Some g'" for t' g'
  proof (cases "t' = t")
    case True
    then have "g' = \<lparr>stg_authority = a, stg_expires_at = e\<rparr>" using that g by simp
    then show ?thesis using a unfolding unused_def True by (intro exI [of _ "[]"]) auto
  next
    case False
    then have "om_get (tks_grants st) t' = Some g'" using that g issued.IH om_get_live by (auto simp: tickets_ok_def)
    then show ?thesis using issued.IH False by (auto simp: accounted_def intro: unused_more)
  qed
  with ok show ?case by (simp add: accounted_def)
next
  case (refused st log q now utc u e st')
  from issue_ticket_issues [of q now st utc u] refused have
    "tks_grants st' \<in> {tks_grants st, live_grants now (tks_grants st)}" "tickets_ok st'" "tks_ttl st' = ttl"
    "tks_capacity st' = max capacity 1"
    by (auto simp: issues_def accounted_def)
  moreover have "accounted ttl log st" "om_wf (tks_grants st)" using refused.IH by (auto simp: tickets_ok_def)
  ultimately show ?case by (auto simp: accounted_def dest: om_get_live)
next
  case (claimed st log x now utc t c st')
  then show ?case using use_result [OF claimed(2)] by (auto intro!: spent_accounted remove_ok)
next
  case (spent st log x now utc t e st')
  then show ?case using use_result [OF spent(2)] by (auto intro!: spent_accounted remove_ok)
next
  case (hinted st log now t h st')
  then show ?case using hint_eq [OF hinted(2)] by auto
next
  case (unhinted st log now t e st')
  then show ?case using hint_eq [OF unhinted(2)] by (auto intro!: spent_accounted remove_ok)
qed

section \<open>Properties\<close>

lemma unused_live:
  "accounted ttl log st \<Longrightarrow> om_get (tks_grants st) t = Some g \<Longrightarrow> now < stg_expires_at g \<Longrightarrow>
     claim_for x utc (stg_authority g) = Ok c \<Longrightarrow>
     \<exists>q issued_at later earlier. log = later @ Issued q issued_at t # earlier \<and> t \<notin> ticket_of ` set later \<and>
       now < issued_at + ttl \<and> entitles q x c"
  by (fastforce simp: accounted_def unused_def dest: entitled)

text \<open>C11: a ticket works at most once, before it expires, and only for what it was issued for.  Whatever
  operations ran on a ticket store, in whatever order and at whatever times: when a use of a ticket returned a claim, the ticket had
  been issued less than the time to live before, no operation had used it up since, neither with success nor without, and the claim
  is one that its request entitles to.\<close>

theorem ticket_claims_once:
  assumes "ticket_run ttl capacity st log" and "log = later @ Claimed x now t c # before"
  shows "\<exists>q issued_at between earlier. before = between @ Issued q issued_at t # earlier \<and>
    t \<notin> ticket_of ` set between \<and> now < issued_at + ttl \<and> entitles q x c"
  using assms
proof (induction arbitrary: later rule: ticket_run.induct)
  case (claimed st log x' now' utc t' c' st')
  show ?case
  proof (cases later)
    case Nil
    then have same: "x' = x" "now' = now" "t' = t" "c' = c" "log = before" using claimed.prems by auto
    from claimed.hyps(2) obtain g where "om_get (tks_grants st) t = Some g" "now < stg_expires_at g"
      "claim_for x utc (stg_authority g) = Ok c"
      unfolding use_ticket_eq same by (auto split: option.splits if_splits)
    then show ?thesis using run_invariant [OF claimed.hyps(1)] unused_live same by blast
  next
    case (Cons e later')
    then show ?thesis using claimed by simp
  qed
qed (auto simp: append_eq_Cons_conv Cons_eq_append_conv)

text \<open>However the operations on a ticket store are ordered, the store holds no more tickets than its capacity,
  the tickets of public sockets leave the reserve of local grants free and number at most 1792, and no session has more than
  eight of them.\<close>

theorem tickets_bounded:
  assumes "ticket_run ttl capacity st log"
  shows "length (tks_grants st) \<le> max capacity 1 \<and>
    length (filter (\<lambda>g. is_public_socket (snd g)) (tks_grants st)) \<le> min (max capacity 1 - 2304) 1792 \<and>
    (\<forall>fingerprint. length (filter (\<lambda>g. is_socket_of fingerprint (snd g)) (tks_grants st)) \<le> 8)"
  using run_invariant [OF assms]
  by (auto simp: tickets_ok_def public_socket_capacity_def PUBLIC_SOCKET_TICKET_CAPACITY_def
      PUBLIC_SOCKET_TICKETS_PER_SESSION_def LOCAL_PRIVATE_GRANT_RESERVE_def)

text \<open>A registration ticket, used five seconds after it was issued.\<close>

definition example_ticket :: rstr where
  "example_ticket = ticket_text (7, 9)"

lemma example_run:
  "\<exists>st. ticket_run 30 4096 st
     [Claimed Use_Registration 105 example_ticket (Claim_Identity (str ''owner'')),
      Issued (Issue_Registration (str ''owner'')) 100 example_ticket]"
proof -
  let ?st = "snd (issue_ticket (Issue_Registration (str ''owner'')) 100 0 (7, 9) (new_ticket_store 30 4096))"
  have i: "issue_ticket (Issue_Registration (str ''owner'')) 100 0 (7, 9) (new_ticket_store 30 4096) = (Inr example_ticket, ?st)"
    by code_simp
  have u: "use_ticket Use_Registration 105 0 example_ticket ?st =
     (Inr (Claim_Identity (str ''owner'')), snd (use_ticket Use_Registration 105 0 example_ticket ?st))"
    by code_simp
  show ?thesis
    by (rule exI, rule ticket_run.claimed [OF ticket_run.issued [OF ticket_run.start i] u])
qed

lemma ticket_claims_once_witness:
  "\<exists>st q issued_at between earlier. ticket_run 30 4096 st
     [Claimed Use_Registration 105 example_ticket (Claim_Identity (str ''owner'')),
      Issued (Issue_Registration (str ''owner'')) 100 example_ticket] \<and>
   [Issued (Issue_Registration (str ''owner'')) 100 example_ticket] = between @ Issued q issued_at example_ticket # earlier \<and>
   105 < issued_at + 30 \<and> entitles q Use_Registration (Claim_Identity (str ''owner''))"
proof -
  obtain st where run: "ticket_run 30 4096 st ([] @ Claimed Use_Registration 105 example_ticket (Claim_Identity (str ''owner'')) #
      [Issued (Issue_Registration (str ''owner'')) 100 example_ticket])"
    using example_run by auto
  then show ?thesis using ticket_claims_once [OF run refl] by auto
qed

lemma tickets_bounded_witness:
  "\<exists>st. ticket_run 30 4096 st
     [Claimed Use_Registration 105 example_ticket (Claim_Identity (str ''owner'')),
      Issued (Issue_Registration (str ''owner'')) 100 example_ticket] \<and> length (tks_grants st) \<le> max 4096 1"
  using example_run tickets_bounded by blast

end
