(* ===== verification/Write_Windows.thy ===== *)
theory Write_Windows
  imports Store_Base Idempotency
begin

text \<open>
  The sliding windows that limit writes in memory: the budget of each provider session
  (server/provider\_write\_budget.rs) and the admission of the mutations of each principal
  (server/principal\_mutation\_admission.rs). Times are those of the monotonic clock; \<open>earliest\<close>
  is the earliest instant it can represent.
\<close>

section \<open>The contract of a sliding window\<close>

type_synonym charge = "int \<times> nat"

definition charged_sum :: "charge list \<Rightarrow> nat" where
  "charged_sum cs = sum_list (map snd cs)"

lemma charged_sum_simps [simp]:
  "charged_sum [] = 0" "charged_sum (c # cs) = snd c + charged_sum cs" "charged_sum (cs @ ds) = charged_sum cs + charged_sum ds"
  by (simp_all add: charged_sum_def)

lemma charged_sum_filter: "charged_sum (filter p cs) \<le> charged_sum cs"
  by (induction cs) auto

text \<open>
  A state keeps the recent charges of each key. A step at a time may charge a key; it forgets
  charges only from the front and only when they are as old as the window, and a charge leaves
  its key within the limits.
\<close>

locale sliding_window =
  fixes step :: "int \<Rightarrow> 's \<Rightarrow> ('k \<times> nat) option \<Rightarrow> 's \<Rightarrow> bool"
    and recent :: "'k \<Rightarrow> 's \<Rightarrow> charge list"
    and ok :: "'s \<Rightarrow> bool"
    and window :: int and max_charges :: nat and max_bytes :: nat
  assumes ok_step: "ok s \<Longrightarrow> step now s label s' \<Longrightarrow> ok s'"
    and other_step: "ok s \<Longrightarrow> step now s label s' \<Longrightarrow> (\<And>n. label \<noteq> Some (k, n)) \<Longrightarrow>
      \<exists>old. recent k s = old @ recent k s' \<and> (\<forall>c \<in> set old. fst c \<le> now - window)"
    and charged_step: "ok s \<Longrightarrow> step now s (Some (k, n)) s' \<Longrightarrow>
      \<exists>old kept. recent k s = old @ kept \<and> (\<forall>c \<in> set old. fst c \<le> now - window) \<and> recent k s' = kept @ [(now, n)] \<and>
        length (recent k s') \<le> max_charges \<and> charged_sum (recent k s') \<le> max_bytes"
begin

text \<open>Runs with their log of charges, the latest last, and the time of the latest step.\<close>

inductive run :: "'s \<Rightarrow> int \<Rightarrow> 's \<Rightarrow> ('k \<times> charge) list \<Rightarrow> bool" for s0 where
  start: "run s0 t s0 []"
| charge: "run s0 t s log \<Longrightarrow> t \<le> now \<Longrightarrow> step now s (Some (k, n)) s' \<Longrightarrow> run s0 now s' (log @ [(k, now, n)])"
| other: "run s0 t s log \<Longrightarrow> t \<le> now \<Longrightarrow> step now s None s' \<Longrightarrow> run s0 now s' log"

definition of_key :: "'k \<Rightarrow> ('k \<times> charge) list \<Rightarrow> charge list" where
  "of_key k log = map snd (filter (\<lambda>e. fst e = k) log)"

definition in_window :: "int \<Rightarrow> charge list \<Rightarrow> charge list" where
  "in_window t cs = filter (\<lambda>c. t - window < fst c \<and> fst c \<le> t) cs"

definition within :: "charge list \<Rightarrow> bool" where
  "within cs \<longleftrightarrow> length cs \<le> max_charges \<and> charged_sum cs \<le> max_bytes"

lemma of_key_snoc: "of_key k (log @ [(k', c)]) = of_key k log @ (if k' = k then [c] else [])"
  by (simp add: of_key_def)

lemma window_of_key:
  "in_window x (of_key k log) = map snd (filter (\<lambda>e. fst e = k \<and> x - window < fst (snd e) \<and> fst (snd e) \<le> x) log)"
  by (simp add: in_window_def of_key_def filter_map o_def conj_commute conj_left_commute)

lemma within_filter: "within cs \<Longrightarrow> within (filter p cs)"
  using charged_sum_filter [of p cs] length_filter_le [of p cs] unfolding within_def by linarith

lemma run_remembers:
  assumes "run s0 t s log" "ok s0" "\<And>k. recent k s0 = []" "0 \<le> window"
  shows "ok s \<and> (\<exists>old. of_key k log = old @ recent k s \<and> (\<forall>c \<in> set old. fst c \<le> t - window)) \<and>
    (\<forall>c \<in> set (of_key k log). fst c \<le> t)"
  using assms
proof (induction arbitrary: k rule: run.induct)
  case (start t)
  then show ?case by (simp add: of_key_def)
next
  case (charge t s log now k' n s')
  note ih = charge.IH [OF charge.prems]
  have ok: "ok s" "ok s'" using ih ok_step [OF _ charge.hyps(3)] by blast+
  obtain old where old: "of_key k log = old @ recent k s" "\<forall>c \<in> set old. fst c \<le> t - window" and le: "\<forall>c \<in> set (of_key k log). fst c \<le> t"
    using ih by blast
  have before: "\<forall>c \<in> set old. fst c \<le> now - window" "\<forall>c \<in> set (of_key k log). fst c \<le> now"
    using old(2) le charge.hyps(2) by fastforce+
  have now: "\<forall>c \<in> set (of_key k (log @ [(k', now, n)])). fst c \<le> now" using before(2) by (fastforce simp: of_key_snoc split: if_splits)
  show ?case
  proof (cases "k' = k")
    case True
    obtain dropped kept where d: "recent k s = dropped @ kept" "\<forall>c \<in> set dropped. fst c \<le> now - window" "recent k s' = kept @ [(now, n)]"
      using charged_step [OF ok(1) charge.hyps(3)] True by blast
    have "of_key k (log @ [(k', now, n)]) = (old @ dropped) @ recent k s'" using True old(1) d(1,3) by (simp add: of_key_snoc)
    moreover have "\<forall>c \<in> set (old @ dropped). fst c \<le> now - window" using before(1) d(2) by auto
    ultimately show ?thesis using ok now by blast
  next
    case False
    obtain dropped where d: "recent k s = dropped @ recent k s'" "\<forall>c \<in> set dropped. fst c \<le> now - window"
      using other_step [OF ok(1) charge.hyps(3), of k] False by auto
    have "of_key k (log @ [(k', now, n)]) = (old @ dropped) @ recent k s'" using False old(1) d(1) by (simp add: of_key_snoc)
    moreover have "\<forall>c \<in> set (old @ dropped). fst c \<le> now - window" using before(1) d(2) by auto
    ultimately show ?thesis using ok now by blast
  qed
next
  case (other t s log now s')
  note ih = other.IH [OF other.prems]
  have ok: "ok s" "ok s'" using ih ok_step [OF _ other.hyps(3)] by blast+
  obtain old where old: "of_key k log = old @ recent k s" "\<forall>c \<in> set old. fst c \<le> t - window" and le: "\<forall>c \<in> set (of_key k log). fst c \<le> t"
    using ih by blast
  have before: "\<forall>c \<in> set old. fst c \<le> now - window" "\<forall>c \<in> set (of_key k log). fst c \<le> now"
    using old(2) le other.hyps(2) by fastforce+
  obtain dropped where d: "recent k s = dropped @ recent k s'" "\<forall>c \<in> set dropped. fst c \<le> now - window"
    using other_step [OF ok(1) other.hyps(3), of k] by auto
  have "of_key k log = (old @ dropped) @ recent k s'" using old(1) d(1) by simp
  moreover have "\<forall>c \<in> set (old @ dropped). fst c \<le> now - window" using before(1) d(2) by auto
  ultimately show ?case using ok before(2) by blast
qed

text \<open>Whatever interval of the length of the window one looks at, its charges are within the limits.\<close>

lemma every_window_within:
  assumes "run s0 t s log" "ok s0" "\<And>k. recent k s0 = []" "0 \<le> window"
  shows "within (in_window x (of_key k log))"
  using assms
proof (induction rule: run.induct)
  case (start t)
  then show ?case by (simp add: of_key_def in_window_def within_def)
next
  case (charge t s log now k' n s')
  note ih = charge.IH [OF charge.prems]
  show ?case
  proof (cases "k' = k \<and> now \<le> x")
    case False
    then have "in_window x (of_key k (log @ [(k', now, n)])) = in_window x (of_key k log)"
      by (auto simp: of_key_snoc in_window_def)
    then show ?thesis using ih by simp
  next
    case True
    have run': "run s0 now s' (log @ [(k', now, n)])" using charge.hyps by (rule run.charge)
    have ok: "ok s" using run_remembers [OF charge.hyps(1) charge.prems] by blast
    from run_remembers [OF run' charge.prems, of k] obtain old where
      old: "of_key k (log @ [(k', now, n)]) = old @ recent k s'" "\<forall>c \<in> set old. fst c \<le> now - window" by blast
    then have none: "in_window x old = []" using True by (auto simp: in_window_def filter_empty_conv)
    have "in_window x (of_key k (log @ [(k', now, n)])) = in_window x (recent k s')"
      using none unfolding old(1) by (simp add: in_window_def)
    moreover have "within (recent k s')" using charged_step [OF ok charge.hyps(3)] True by (auto simp: within_def)
    ultimately show ?thesis unfolding in_window_def by (simp add: within_filter)
  qed
next
  case (other t s log now s')
  then show ?case by simp
qed

end

section \<open>Provider sessions\<close>

text \<open>Instants are in nanoseconds; sums of bytes stay far below the width of \<open>usize\<close>, where the code saturates.\<close>

definition MUTATION_WINDOW :: int where "MUTATION_WINDOW = 60000000000"
definition MAX_MUTATIONS_PER_WINDOW :: nat where "MAX_MUTATIONS_PER_WINDOW = 3600"
definition MAX_MUTATION_BYTES_PER_WINDOW :: nat where "MAX_MUTATION_BYTES_PER_WINDOW = 8 * 1024 * 1024"

definition window_cutoff :: "int \<Rightarrow> int \<Rightarrow> int" where
  "window_cutoff earliest now = (if earliest \<le> now - MUTATION_WINDOW then now - MUTATION_WINDOW else now)"

record provider_window =
  pw_recent :: "charge list"
  pw_bytes :: nat

type_synonym provider_write_budget = "rstr \<rightharpoonup> provider_window"

fun expire_charges :: "int \<Rightarrow> charge list \<Rightarrow> nat \<Rightarrow> charge list \<times> nat" where
  "expire_charges cutoff [] bytes = ([], bytes)"
| "expire_charges cutoff (c # cs) bytes =
     (if fst c \<le> cutoff then expire_charges cutoff cs (bytes - snd c) else (c # cs, bytes))"

definition provider_admit ::
  "int \<Rightarrow> int \<Rightarrow> rstr \<Rightarrow> nat \<Rightarrow> provider_write_budget \<Rightarrow> (persistence_error + unit) \<times> provider_write_budget" where
  "provider_admit earliest now session_id payload_bytes budget =
     (let cutoff = window_cutoff earliest now;
          w = unwrap_or \<lparr>pw_recent = [], pw_bytes = 0\<rparr> (budget session_id);
          (recent, bytes) = expire_charges cutoff (pw_recent w) (pw_bytes w);
          next_bytes = bytes + payload_bytes in
      if MAX_MUTATIONS_PER_WINDOW < length recent + 1 \<or> MAX_MUTATION_BYTES_PER_WINDOW < next_bytes
      then (Err (rejected ''write_budget_exceeded'' ''Provider-session write budget exceeded.''),
            budget(session_id \<mapsto> \<lparr>pw_recent = recent, pw_bytes = bytes\<rparr>))
      else (Ok (), budget(session_id \<mapsto> \<lparr>pw_recent = recent @ [(now, payload_bytes)], pw_bytes = next_bytes\<rparr>)))"

definition provider_recent :: "rstr \<Rightarrow> provider_write_budget \<Rightarrow> charge list" where
  "provider_recent k budget = (case budget k of None \<Rightarrow> [] | Some w \<Rightarrow> pw_recent w)"

definition provider_budget_ok :: "provider_write_budget \<Rightarrow> bool" where
  "provider_budget_ok budget \<longleftrightarrow> (\<forall>k w. budget k = Some w \<longrightarrow> pw_bytes w = charged_sum (pw_recent w))"

text \<open>A step is a call at a time from which the clock reaches back one window.\<close>

definition provider_step :: "int \<Rightarrow> int \<Rightarrow> provider_write_budget \<Rightarrow> (rstr \<times> nat) option \<Rightarrow> provider_write_budget \<Rightarrow> bool" where
  "provider_step earliest now budget label budget' \<longleftrightarrow> earliest \<le> now - MUTATION_WINDOW \<and>
     (\<exists>k n r. provider_admit earliest now k n budget = (r, budget') \<and> label = (if r = Ok () then Some (k, n) else None))"

lemma expire_charges_drops:
  "expire_charges cutoff cs bytes = (kept, bytes') \<Longrightarrow> bytes = charged_sum cs \<Longrightarrow>
     \<exists>old. cs = old @ kept \<and> (\<forall>c \<in> set old. fst c \<le> cutoff) \<and> bytes' = charged_sum kept"
proof (induction cutoff cs bytes rule: expire_charges.induct)
  case (2 cutoff c cs bytes)
  show ?case
  proof (cases "fst c \<le> cutoff")
    case True
    then obtain old where "cs = old @ kept" "\<forall>c \<in> set old. fst c \<le> cutoff" "bytes' = charged_sum kept"
      using 2 by auto
    then show ?thesis using True by (intro exI [of _ "c # old"]) auto
  next
    case False
    then show ?thesis using 2 by auto
  qed
qed auto

lemma provider_admit_effect:
  assumes "provider_budget_ok budget" "provider_admit earliest now k n budget = (r, budget')" "earliest \<le> now - MUTATION_WINDOW"
  shows "provider_budget_ok budget' \<and> (\<forall>j. j \<noteq> k \<longrightarrow> provider_recent j budget' = provider_recent j budget) \<and>
    (\<exists>old kept. provider_recent k budget = old @ kept \<and> (\<forall>c \<in> set old. fst c \<le> now - MUTATION_WINDOW) \<and>
       provider_recent k budget' = (if r = Ok () then kept @ [(now, n)] else kept) \<and>
       (r = Ok () \<longrightarrow> length (provider_recent k budget') \<le> MAX_MUTATIONS_PER_WINDOW \<and>
          charged_sum (provider_recent k budget') \<le> MAX_MUTATION_BYTES_PER_WINDOW))"
proof -
  define w where "w = unwrap_or \<lparr>pw_recent = [], pw_bytes = 0\<rparr> (budget k)"
  obtain kept bytes where e: "expire_charges (now - MUTATION_WINDOW) (pw_recent w) (pw_bytes w) = (kept, bytes)" by fastforce
  have "pw_bytes w = charged_sum (pw_recent w)" using assms(1) by (cases "budget k") (auto simp: w_def provider_budget_ok_def)
  from expire_charges_drops [OF e this] obtain old where
    old: "pw_recent w = old @ kept" "\<forall>c \<in> set old. fst c \<le> now - MUTATION_WINDOW" "bytes = charged_sum kept" by blast
  have r: "provider_recent k budget = pw_recent w" by (cases "budget k") (auto simp: w_def provider_recent_def)
  have c: "window_cutoff earliest now = now - MUTATION_WINDOW" using assms(3) by (simp add: window_cutoff_def)
  note run = assms(2) [unfolded provider_admit_def, folded w_def]
  show ?thesis
  proof (cases "MAX_MUTATIONS_PER_WINDOW < length kept + 1 \<or> MAX_MUTATION_BYTES_PER_WINDOW < bytes + n")
    case True
    then have "r = Err (rejected ''write_budget_exceeded'' ''Provider-session write budget exceeded.'')"
      "budget' = budget(k \<mapsto> \<lparr>pw_recent = kept, pw_bytes = bytes\<rparr>)" using run e c by (auto simp: Let_def)
    then show ?thesis using assms(1) old r by (auto simp: provider_budget_ok_def provider_recent_def)
  next
    case False
    then have "r = Ok ()" "budget' = budget(k \<mapsto> \<lparr>pw_recent = kept @ [(now, n)], pw_bytes = bytes + n\<rparr>)"
      using run e c by (auto simp: Let_def)
    then show ?thesis using assms(1) old r False by (auto simp: provider_budget_ok_def provider_recent_def)
  qed
qed

interpretation provider_writes: sliding_window "provider_step earliest" provider_recent provider_budget_ok
  MUTATION_WINDOW MAX_MUTATIONS_PER_WINDOW MAX_MUTATION_BYTES_PER_WINDOW for earliest
proof
  fix s s' :: provider_write_budget and now label and k :: rstr and n
  show "provider_budget_ok s \<Longrightarrow> provider_step earliest now s label s' \<Longrightarrow> provider_budget_ok s'"
    unfolding provider_step_def using provider_admit_effect by blast
  show "\<exists>old. provider_recent k s = old @ provider_recent k s' \<and> (\<forall>c \<in> set old. fst c \<le> now - MUTATION_WINDOW)"
    if ok: "provider_budget_ok s" and step: "provider_step earliest now s label s'" and no: "\<And>n. label \<noteq> Some (k, n)"
  proof -
    obtain k' n' r where a: "provider_admit earliest now k' n' s = (r, s')" "earliest \<le> now - MUTATION_WINDOW"
      and l: "label = (if r = Ok () then Some (k', n') else None)" using step by (auto simp: provider_step_def)
    note eff = provider_admit_effect [OF ok a]
    show ?thesis
    proof (cases "k' = k")
      case True
      then have "r \<noteq> Ok ()" using no [of n'] l by auto
      then show ?thesis using eff True by auto
    next
      case False
      then show ?thesis using eff by (intro exI [of _ "[]"]) auto
    qed
  qed
  show "\<exists>old kept. provider_recent k s = old @ kept \<and> (\<forall>c \<in> set old. fst c \<le> now - MUTATION_WINDOW) \<and>
      provider_recent k s' = kept @ [(now, n)] \<and> length (provider_recent k s') \<le> MAX_MUTATIONS_PER_WINDOW \<and>
      charged_sum (provider_recent k s') \<le> MAX_MUTATION_BYTES_PER_WINDOW"
    if ok: "provider_budget_ok s" and step: "provider_step earliest now s (Some (k, n)) s'"
  proof -
    obtain r where a: "provider_admit earliest now k n s = (r, s')" "earliest \<le> now - MUTATION_WINDOW" "r = Ok ()"
      using step by (auto simp: provider_step_def split: if_splits)
    show ?thesis using provider_admit_effect [OF ok a(1,2)] a(3) by auto
  qed
qed

text \<open>A sequence of calls, with the log of those that were admitted.\<close>

fun provider_calls ::
  "int \<Rightarrow> (int \<times> rstr \<times> nat) list \<Rightarrow> provider_write_budget \<Rightarrow> (rstr \<times> charge) list \<times> provider_write_budget" where
  "provider_calls earliest [] budget = ([], budget)"
| "provider_calls earliest ((now, k, n) # calls) budget =
     (let (r, budget) = provider_admit earliest now k n budget;
          (log, budget) = provider_calls earliest calls budget in
      ((if r = Ok () then (k, now, n) # log else log), budget))"

lemma provider_calls_run:
  assumes "provider_writes.run earliest s0 t s log0" "sorted (t # map fst calls)" "\<forall>c \<in> set calls. earliest \<le> fst c - MUTATION_WINDOW"
    and "provider_calls earliest calls s = (log, s')"
  shows "\<exists>t'. provider_writes.run earliest s0 t' s' (log0 @ log)"
  using assms
proof (induction calls arbitrary: t s log0 log)
  case (Cons c calls)
  obtain now k n where c: "c = (now, k, n)" by (cases c)
  obtain r s1 where a: "provider_admit earliest now k n s = (r, s1)" by fastforce
  obtain log1 where rest: "provider_calls earliest calls s1 = (log1, s')" and log: "log = (if r = Ok () then (k, now, n) # log1 else log1)"
    using Cons.prems(4) a by (auto simp: c split: prod.splits)
  have step: "provider_step earliest now s (if r = Ok () then Some (k, n) else None) s1"
    using a Cons.prems(3) by (auto simp: provider_step_def c)
  have later: "t \<le> now" "sorted (now # map fst calls)" using Cons.prems(2) by (auto simp: c)
  show ?case
  proof (cases "r = Ok ()")
    case True
    then have "provider_writes.run earliest s0 now s1 (log0 @ [(k, now, n)])"
      using provider_writes.run.charge [OF Cons.prems(1) later(1)] step by simp
    from Cons.IH [OF this later(2) _ rest] show ?thesis using Cons.prems(3) log True by simp
  next
    case False
    then have "provider_writes.run earliest s0 now s1 log0"
      using provider_writes.run.other [OF Cons.prems(1) later(1)] step by simp
    from Cons.IH [OF this later(2) _ rest] show ?thesis using Cons.prems(3) log False by simp
  qed
qed auto

text \<open>A provider session cannot write faster than its budget.  In the log of the calls that were admitted,
  made at times that do not decrease, every interval of one minute has at most 3600 writes of a session, with at most 8 MiB; not
  only the minutes that a counter happens to start.\<close>

theorem provider_writes_limited:
  assumes "sorted (map fst calls)" and "\<forall>c \<in> set calls. earliest \<le> fst c - MUTATION_WINDOW"
    and "provider_calls earliest calls Map.empty = (log, budget)"
  shows "let minute = map snd (filter (\<lambda>e. fst e = k \<and> t - MUTATION_WINDOW < fst (snd e) \<and> fst (snd e) \<le> t) log) in
    length minute \<le> 3600 \<and> charged_sum minute \<le> 8388608"
proof (cases calls)
  case Nil
  then show ?thesis using assms(3) by auto
next
  case (Cons c cs)
  have "provider_writes.run earliest Map.empty (fst c) Map.empty []" by (rule provider_writes.run.start)
  moreover have "sorted (fst c # map fst calls)" using assms(1) Cons by simp
  ultimately obtain t' where "provider_writes.run earliest Map.empty t' budget ([] @ log)"
    using provider_calls_run [OF _ _ assms(2,3)] by blast
  then have run: "provider_writes.run earliest Map.empty t' budget log" by simp
  have "provider_writes.within (provider_writes.in_window t (provider_writes.of_key k log))"
    using provider_writes.every_window_within [OF run, of t k]
    by (simp add: provider_budget_ok_def provider_recent_def MUTATION_WINDOW_def)
  then show ?thesis
    unfolding provider_writes.within_def provider_writes.window_of_key
    by (simp add: MAX_MUTATIONS_PER_WINDOW_def MAX_MUTATION_BYTES_PER_WINDOW_def Let_def)
qed

lemma provider_writes_limited_witness:
  "let (log, budget) = provider_calls 0 [(60000000000, str ''s'', 8388608), (60000000001, str ''s'', 1), (120000000000, str ''s'', 2)] Map.empty;
       minute = map snd (filter (\<lambda>e. fst e = str ''s'' \<and> 60000000001 - MUTATION_WINDOW < fst (snd e) \<and> fst (snd e) \<le> 60000000001) log) in
   log = [(str ''s'', 60000000000, 8388608), (str ''s'', 120000000000, 2)] \<and>
   length minute \<le> 3600 \<and> charged_sum minute \<le> 8388608"
proof -
  define calls where "calls = [(60000000000::int, str ''s'', 8388608::nat), (60000000001, str ''s'', 1), (120000000000, str ''s'', 2)]"
  obtain log budget where run: "provider_calls 0 calls Map.empty = (log, budget)" by fastforce
  have log: "log = [(str ''s'', 60000000000, 8388608), (str ''s'', 120000000000, 2)]"
    using run by (simp add: calls_def provider_admit_def window_cutoff_def MUTATION_WINDOW_def
      MAX_MUTATIONS_PER_WINDOW_def MAX_MUTATION_BYTES_PER_WINDOW_def Let_def)
  have "sorted (map fst calls)" "\<forall>c \<in> set calls. 0 \<le> fst c - MUTATION_WINDOW" by (simp_all add: calls_def MUTATION_WINDOW_def)
  from provider_writes_limited [OF this run, of "str ''s''" 60000000001] show ?thesis
    using log run by (simp add: calls_def)
qed

section \<open>Principals\<close>

definition MAX_TRACKED_PRINCIPALS :: nat where "MAX_TRACKED_PRINCIPALS = 512"
definition MAX_TRACKED_MUTATIONS :: nat where "MAX_TRACKED_MUTATIONS = 32768"
definition MAX_INFLIGHT_MUTATIONS :: nat where "MAX_INFLIGHT_MUTATIONS = 128"

text \<open>A mutation is identified by the digest of its four parts, each after its length in eight bytes.\<close>

type_synonym octets = "8 word list"
type_synonym mutation_identity = octets

definition be_bytes :: "nat \<Rightarrow> octets" where
  "be_bytes n = map (\<lambda>i. of_nat (n div 256 ^ (7 - i))) [0..<8]"

definition mutation_preimage :: "octets list \<Rightarrow> octets" where
  "mutation_preimage parts = map of_nat (str ''agentsassemble.principal-mutation.v1'') @ [0] @
     concat (map (\<lambda>field. be_bytes (length field) @ field) parts)"

definition new_mutation_identity :: "(octets \<Rightarrow> octets) \<Rightarrow> octets \<Rightarrow> octets \<Rightarrow> octets \<Rightarrow> octets \<Rightarrow> mutation_identity" where
  "new_mutation_identity sha256 rid request_id action payload_hash =
     sha256 (mutation_preimage [rid, request_id, action, payload_hash])"

record mutation_charge =
  mc_at :: int
  mc_bytes :: nat
  mc_identity :: mutation_identity
  mc_charge_id :: "64 word"

record principal_window =
  pm_recent :: "mutation_charge list"
  pm_bytes :: nat
  pm_retryable :: "mutation_identity \<rightharpoonup> 64 word"

definition new_principal_window :: principal_window where
  "new_principal_window = \<lparr>pm_recent = [], pm_bytes = 0, pm_retryable = Map.empty\<rparr>"

fun prune_charges ::
  "int \<Rightarrow> mutation_charge list \<Rightarrow> nat \<Rightarrow> (mutation_identity \<rightharpoonup> 64 word) \<Rightarrow> mutation_charge list \<times> nat \<times> (mutation_identity \<rightharpoonup> 64 word)" where
  "prune_charges cutoff [] bytes retryable = ([], bytes, retryable)"
| "prune_charges cutoff (c # cs) bytes retryable =
     (if mc_at c \<le> cutoff
      then prune_charges cutoff cs (bytes - mc_bytes c)
             (if retryable (mc_identity c) = Some (mc_charge_id c) then retryable(mc_identity c := None) else retryable)
      else (c # cs, bytes, retryable))"

text \<open>The window and how many charges it forgot.\<close>

definition prune_window :: "int \<Rightarrow> int \<Rightarrow> principal_window \<Rightarrow> principal_window \<times> nat" where
  "prune_window earliest now w =
     (let (recent, bytes, retryable) = prune_charges (window_cutoff earliest now) (pm_recent w) (pm_bytes w) (pm_retryable w) in
      (\<lparr>pm_recent = recent, pm_bytes = bytes, pm_retryable = retryable\<rparr>, length (pm_recent w) - length recent))"

definition principal_budget_exceeded :: persistence_error where
  "principal_budget_exceeded = rejected ''write_budget_exceeded'' ''Authenticated principal write budget exceeded.''"

definition capacity_exceeded :: persistence_error where
  "capacity_exceeded = rejected ''write_budget_capacity_exceeded'' ''Authenticated write admission capacity is unavailable.''"

definition charge_window ::
  "int \<Rightarrow> mutation_identity \<Rightarrow> nat \<Rightarrow> 64 word \<Rightarrow> principal_window \<Rightarrow> persistence_error + principal_window" where
  "charge_window now identity payload_bytes charge_id w =
     (let next_bytes = pm_bytes w + payload_bytes in
      if MAX_MUTATIONS_PER_WINDOW < length (pm_recent w) + 1 \<or> MAX_MUTATION_BYTES_PER_WINDOW < next_bytes
      then Err principal_budget_exceeded
      else Ok \<lparr>pm_recent = pm_recent w @ [\<lparr>mc_at = now, mc_bytes = payload_bytes, mc_identity = identity, mc_charge_id = charge_id\<rparr>],
               pm_bytes = next_bytes, pm_retryable = (pm_retryable w)(identity \<mapsto> charge_id)\<rparr>)"

record mutation_state =
  ms_sequence :: "64 word"
  ms_windows :: "(rstr, principal_window) omap"
  ms_tracked :: nat

definition new_mutation_state :: mutation_state where
  "new_mutation_state = \<lparr>ms_sequence = 0, ms_windows = [], ms_tracked = 0\<rparr>"

definition prune_principal :: "int \<Rightarrow> int \<Rightarrow> rstr \<Rightarrow> mutation_state \<Rightarrow> mutation_state" where
  "prune_principal earliest now p st =
     (case om_get (ms_windows st) p of
        None \<Rightarrow> st
      | Some w \<Rightarrow>
          let (w, removed) = prune_window earliest now w in
          st\<lparr>ms_windows := om_insert p w (ms_windows st), ms_tracked := ms_tracked st - removed\<rparr>)"

definition prune_all :: "int \<Rightarrow> int \<Rightarrow> mutation_state \<Rightarrow> mutation_state" where
  "prune_all earliest now st =
     (let pruned = map (\<lambda>e. (fst e, prune_window earliest now (snd e))) (ms_windows st) in
      st\<lparr>ms_windows := map (\<lambda>e. (fst e, fst (snd e))) (filter (\<lambda>e. pm_recent (fst (snd e)) \<noteq> []) pruned),
         ms_tracked := ms_tracked st - sum_list (map (\<lambda>e. snd (snd e)) pruned)\<rparr>)"

definition principal_capacity_full :: "rstr \<Rightarrow> mutation_state \<Rightarrow> bool" where
  "principal_capacity_full p st \<longleftrightarrow>
     (om_get (ms_windows st) p = None \<and> MAX_TRACKED_PRINCIPALS \<le> length (ms_windows st)) \<or> MAX_TRACKED_MUTATIONS \<le> ms_tracked st"

text \<open>The end of a charge, after the pruning: the window of the principal is charged or the state is left as it is.\<close>

definition charge_pruned ::
  "int \<Rightarrow> rstr \<Rightarrow> mutation_identity \<Rightarrow> nat \<Rightarrow> mutation_state \<Rightarrow> (persistence_error + 64 word) \<times> mutation_state" where
  "charge_pruned now p identity payload_bytes st =
     (if principal_capacity_full p st then (Err capacity_exceeded, st)
      else case checked_inc_u64 (ms_sequence st) of
        None \<Rightarrow> (Err capacity_exceeded, st)
      | Some charge_id \<Rightarrow>
          let w = unwrap_or new_principal_window (om_get (ms_windows st) p) in
          (case charge_window now identity payload_bytes charge_id w of
             Inl e \<Rightarrow> (Err e, st\<lparr>ms_windows := om_insert p w (ms_windows st)\<rparr>)
           | Inr w \<Rightarrow> (Ok charge_id,
               st\<lparr>ms_windows := om_insert p w (ms_windows st), ms_sequence := charge_id, ms_tracked := ms_tracked st + 1\<rparr>)))"

definition charge_mutation ::
  "int \<Rightarrow> int \<Rightarrow> rstr \<Rightarrow> mutation_identity \<Rightarrow> nat \<Rightarrow> mutation_state \<Rightarrow> (persistence_error + 64 word) \<times> mutation_state" where
  "charge_mutation earliest now p identity payload_bytes st =
     (let st = prune_principal earliest now p st in
      case Option.bind (om_get (ms_windows st) p) (\<lambda>w. pm_retryable w identity) of
        Some charge_id \<Rightarrow> (Ok charge_id, st)
      | None \<Rightarrow> charge_pruned now p identity payload_bytes
          (if principal_capacity_full p st then prune_all earliest now st else st))"

definition resolve_mutation :: "rstr \<Rightarrow> mutation_identity \<Rightarrow> 64 word \<Rightarrow> mutation_state \<Rightarrow> mutation_state" where
  "resolve_mutation p identity charge_id st =
     (case om_get (ms_windows st) p of
        None \<Rightarrow> st
      | Some w \<Rightarrow>
          if pm_retryable w identity = Some charge_id
          then st\<lparr>ms_windows := om_insert p (w\<lparr>pm_retryable := (pm_retryable w)(identity := None)\<rparr>) (ms_windows st)\<rparr>
          else st)"

text \<open>The semaphore of the writes in flight, as the number of its permits.\<close>

definition acquire_inflight :: "nat \<Rightarrow> persistence_error + nat" where
  "acquire_inflight held =
     (if held < MAX_INFLIGHT_MUTATIONS then Ok (held + 1)
      else Err (Command_Unresolved ''write_inflight_limited'' (str ''Authenticated write concurrency is temporarily full.'')))"

subsection \<open>The counters agree with the windows\<close>

definition charge_of :: "mutation_charge \<Rightarrow> charge" where
  "charge_of c = (mc_at c, mc_bytes c)"

lemma charge_of_simps [simp]: "fst (charge_of c) = mc_at c" "snd (charge_of c) = mc_bytes c"
  by (simp_all add: charge_of_def)

definition window_ok :: "64 word \<Rightarrow> principal_window \<Rightarrow> bool" where
  "window_ok sequence w \<longleftrightarrow> pm_bytes w = charged_sum (map charge_of (pm_recent w)) \<and>
     sorted_wrt (<) (map mc_charge_id (pm_recent w)) \<and> (\<forall>c \<in> set (pm_recent w). mc_charge_id c \<le> sequence)"

definition window_count :: "principal_window \<Rightarrow> nat" where
  "window_count w = length (pm_recent w)"

definition mutation_state_ok :: "mutation_state \<Rightarrow> bool" where
  "mutation_state_ok st \<longleftrightarrow> om_wf (ms_windows st) \<and> (\<forall>e \<in> set (ms_windows st). window_ok (ms_sequence st) (snd e)) \<and>
     ms_tracked st = om_total window_count (ms_windows st) \<and>
     length (ms_windows st) \<le> MAX_TRACKED_PRINCIPALS \<and> ms_tracked st \<le> MAX_TRACKED_MUTATIONS"

definition principal_recent :: "rstr \<Rightarrow> mutation_state \<Rightarrow> charge list" where
  "principal_recent p st = (case om_get (ms_windows st) p of None \<Rightarrow> [] | Some w \<Rightarrow> map charge_of (pm_recent w))"

text \<open>\<open>drops\<close>: only charges as old as the window are forgotten, from the front.\<close>

definition drops :: "int \<Rightarrow> mutation_state \<Rightarrow> mutation_state \<Rightarrow> bool" where
  "drops now st st' \<longleftrightarrow> (\<forall>p. \<exists>old. principal_recent p st = old @ principal_recent p st' \<and> (\<forall>c \<in> set old. fst c \<le> now - MUTATION_WINDOW))"

lemma drops_refl: "drops now st st"
  by (simp add: drops_def)

lemma drops_trans: "drops now a b \<Longrightarrow> drops now b c \<Longrightarrow> drops now a c"
  unfolding drops_def
proof
  fix p
  assume 1: "\<forall>p. \<exists>old. principal_recent p a = old @ principal_recent p b \<and> (\<forall>c \<in> set old. fst c \<le> now - MUTATION_WINDOW)"
    and 2: "\<forall>p. \<exists>old. principal_recent p b = old @ principal_recent p c \<and> (\<forall>c \<in> set old. fst c \<le> now - MUTATION_WINDOW)"
  obtain x y where "principal_recent p a = x @ principal_recent p b" "\<forall>c \<in> set x. fst c \<le> now - MUTATION_WINDOW"
    "principal_recent p b = y @ principal_recent p c" "\<forall>c \<in> set y. fst c \<le> now - MUTATION_WINDOW" using 1 2 by metis
  then show "\<exists>old. principal_recent p a = old @ principal_recent p c \<and> (\<forall>c \<in> set old. fst c \<le> now - MUTATION_WINDOW)"
    by (intro exI [of _ "x @ y"]) auto
qed

lemma prune_charges_drops:
  "prune_charges cutoff cs bytes retryable = (kept, bytes', retryable') \<Longrightarrow>
     \<exists>old. cs = old @ kept \<and> (\<forall>c \<in> set old. mc_at c \<le> cutoff) \<and> bytes' = bytes - charged_sum (map charge_of old) \<and>
       (\<forall>i. retryable' i = (if \<exists>c \<in> set old. mc_identity c = i \<and> retryable i = Some (mc_charge_id c) then None else retryable i))"
proof (induction cutoff cs bytes retryable arbitrary: kept rule: prune_charges.induct)
  case (2 cutoff c cs bytes retryable)
  show ?case
  proof (cases "mc_at c \<le> cutoff")
    case True
    then obtain old where "cs = old @ kept" "\<forall>c \<in> set old. mc_at c \<le> cutoff"
      "bytes' = bytes - mc_bytes c - charged_sum (map charge_of old)"
      and r: "\<forall>i. retryable' i = (if \<exists>d \<in> set old. mc_identity d = i \<and>
          (if retryable (mc_identity c) = Some (mc_charge_id c) then retryable(mc_identity c := None) else retryable) i = Some (mc_charge_id d)
        then None else (if retryable (mc_identity c) = Some (mc_charge_id c) then retryable(mc_identity c := None) else retryable) i)"
      using 2 by auto
    then show ?thesis using True
      by (intro exI [of _ "c # old"]) (auto split: if_splits)
  qed (use 2 in auto)
qed auto

lemma prune_window_effect:
  assumes "prune_window earliest now w = (w', removed)" "earliest \<le> now - MUTATION_WINDOW" "window_ok q w"
  shows "window_ok q w' \<and> window_count w = window_count w' + removed \<and>
    (\<exists>old. pm_recent w = old @ pm_recent w' \<and> (\<forall>c \<in> set old. mc_at c \<le> now - MUTATION_WINDOW) \<and>
       (\<forall>i. pm_retryable w' i = (if \<exists>c \<in> set old. mc_identity c = i \<and> pm_retryable w i = Some (mc_charge_id c) then None
          else pm_retryable w i)))"
proof -
  obtain kept bytes r where p: "prune_charges (now - MUTATION_WINDOW) (pm_recent w) (pm_bytes w) (pm_retryable w) = (kept, bytes, r)"
    using prod_cases3 by blast
  have w': "w' = \<lparr>pm_recent = kept, pm_bytes = bytes, pm_retryable = r\<rparr>" "removed = length (pm_recent w) - length kept"
    using assms(1,2) p by (simp_all add: prune_window_def window_cutoff_def)
  obtain old where o': "pm_recent w = old @ kept" "\<forall>c \<in> set old. mc_at c \<le> now - MUTATION_WINDOW"
    "bytes = pm_bytes w - charged_sum (map charge_of old)"
    "\<forall>i. r i = (if \<exists>c \<in> set old. mc_identity c = i \<and> pm_retryable w i = Some (mc_charge_id c) then None else pm_retryable w i)"
    using prune_charges_drops [OF p] by blast
  have "window_ok q w'" using assms(3) o'(1,3) by (auto simp: w' window_ok_def sorted_wrt_append)
  then show ?thesis using o' by (auto simp: w' window_count_def)
qed

lemma prune_principal_effect:
  assumes "mutation_state_ok st" "earliest \<le> now - MUTATION_WINDOW"
  shows "mutation_state_ok (prune_principal earliest now p st) \<and> drops now st (prune_principal earliest now p st) \<and>
    ms_sequence (prune_principal earliest now p st) = ms_sequence st"
proof (cases "om_get (ms_windows st) p")
  case None
  then show ?thesis using assms(1) by (simp add: prune_principal_def drops_refl)
next
  case (Some w)
  obtain w' removed where pw: "prune_window earliest now w = (w', removed)" by fastforce
  have ok: "window_ok (ms_sequence st) w" using assms(1) om_get_member [OF Some] by (auto simp: mutation_state_ok_def)
  note eff = prune_window_effect [OF pw assms(2) ok]
  have st': "prune_principal earliest now p st = st\<lparr>ms_windows := om_insert p w' (ms_windows st), ms_tracked := ms_tracked st - removed\<rparr>"
    using Some pw by (simp add: prune_principal_def)
  have wf: "om_wf (ms_windows st)" using assms(1) by (simp add: mutation_state_ok_def)
  have "\<forall>e \<in> set (om_insert p w' (ms_windows st)). window_ok (ms_sequence st) (snd e)"
    using om_insert_member eff assms(1) by (fastforce simp: mutation_state_ok_def)
  moreover have "ms_tracked st - removed = om_total window_count (om_insert p w' (ms_windows st))"
    using assms(1) om_total_insert [OF wf, of window_count p w'] eff by (simp add: mutation_state_ok_def Some)
  ultimately have "mutation_state_ok (prune_principal earliest now p st)"
    using assms(1) om_length_insert [OF wf, of p w']
    by (auto simp: mutation_state_ok_def st' Some om_wf_insert)
  moreover have "drops now st (prune_principal earliest now p st)"
    using eff Some by (fastforce simp: drops_def st' principal_recent_def)
  ultimately show ?thesis by (simp add: st')
qed

lemma prune_entries:
  fixes m :: "(rstr, principal_window) omap"
  assumes "\<forall>e \<in> set m. window_ok q (snd e)" "earliest \<le> now - MUTATION_WINDOW"
  defines "pruned \<equiv> map (\<lambda>e. (fst e, prune_window earliest now (snd e))) m"
  shows "om_total window_count m = om_total window_count (map (\<lambda>e. (fst e, fst (snd e))) (filter (\<lambda>e. pm_recent (fst (snd e)) \<noteq> []) pruned)) +
    sum_list (map (\<lambda>e. snd (snd e)) pruned)"
  using assms(1) unfolding pruned_def
proof (induction m)
  case (Cons e m)
  obtain w' removed where pw: "prune_window earliest now (snd e) = (w', removed)" by fastforce
  have "window_count (snd e) = window_count w' + removed" using prune_window_effect [OF pw assms(2), of q] Cons.prems by simp
  then show ?case using Cons by (auto simp: om_total_def pw window_count_def)
qed (simp add: om_total_def)

lemma prune_entries_get:
  fixes m :: "(rstr, principal_window) omap"
  shows "om_wf m \<Longrightarrow> om_get (map (\<lambda>e. (fst e, fst (snd e))) (filter (\<lambda>e. pm_recent (fst (snd e)) \<noteq> []) (map (\<lambda>e. (fst e, prune_window earliest now (snd e))) m))) p =
    (case om_get m p of None \<Rightarrow> None | Some w \<Rightarrow>
       (let w' = fst (prune_window earliest now w) in if pm_recent w' \<noteq> [] then Some w' else None))"
proof (induction m)
  case (Cons e m)
  obtain k v where e: "e = (k, v)" by (cases e)
  have "map_of m k = None" using Cons.prems by (force simp: e om_wf_Cons map_of_eq_None_iff)
  then show ?case using Cons by (auto simp: om_get_def e om_wf_Cons Let_def split: option.splits)
qed simp

lemma prune_all_effect:
  assumes "mutation_state_ok st" "earliest \<le> now - MUTATION_WINDOW"
  shows "mutation_state_ok (prune_all earliest now st) \<and> drops now st (prune_all earliest now st) \<and>
    ms_sequence (prune_all earliest now st) = ms_sequence st"
proof -
  define pruned where "pruned = map (\<lambda>e. (fst e, prune_window earliest now (snd e))) (ms_windows st)"
  define m where "m = map (\<lambda>e. (fst e, fst (snd e))) (filter (\<lambda>e. pm_recent (fst (snd e)) \<noteq> []) pruned)"
  have st': "prune_all earliest now st = st\<lparr>ms_windows := m, ms_tracked := ms_tracked st - sum_list (map (\<lambda>e. snd (snd e)) pruned)\<rparr>"
    by (simp add: prune_all_def pruned_def m_def Let_def)
  have wf: "om_wf (ms_windows st)" and each: "\<forall>e \<in> set (ms_windows st). window_ok (ms_sequence st) (snd e)"
    using assms(1) by (simp_all add: mutation_state_ok_def)
  have total: "om_total window_count (ms_windows st) = om_total window_count m + sum_list (map (\<lambda>e. snd (snd e)) pruned)"
    using prune_entries [OF each assms(2)] by (simp add: m_def pruned_def)
  have keys: "map fst m = map fst (filter (\<lambda>e. pm_recent (fst (prune_window earliest now (snd e))) \<noteq> []) (ms_windows st))"
    by (simp add: m_def pruned_def filter_map o_def)
  have "sorted_wrt (<) (map fst (filter (\<lambda>e. pm_recent (fst (prune_window earliest now (snd e))) \<noteq> []) (ms_windows st)))"
    using wf unfolding om_wf_def sorted_wrt_map by (rule sorted_wrt_filter)
  then have "om_wf m" unfolding om_wf_def keys .
  moreover have "length m \<le> length (ms_windows st)" by (simp add: m_def pruned_def filter_map o_def)
  moreover have "\<forall>e \<in> set m. window_ok (ms_sequence st) (snd e)"
  proof
    fix e
    assume "e \<in> set m"
    then obtain d where d: "d \<in> set (ms_windows st)" "snd e = fst (prune_window earliest now (snd d))" by (auto simp: m_def pruned_def)
    obtain w' removed where pw: "prune_window earliest now (snd d) = (w', removed)" by fastforce
    then show "window_ok (ms_sequence st) (snd e)" using prune_window_effect [OF pw assms(2)] each d by auto
  qed
  ultimately have "mutation_state_ok (prune_all earliest now st)"
    using assms(1) total by (simp add: mutation_state_ok_def st')
  moreover have "drops now st (prune_all earliest now st)"
    unfolding drops_def
  proof
    fix p
    show "\<exists>old. principal_recent p st = old @ principal_recent p (prune_all earliest now st) \<and> (\<forall>c \<in> set old. fst c \<le> now - MUTATION_WINDOW)"
    proof (cases "om_get (ms_windows st) p")
      case None
      then show ?thesis using prune_entries_get [OF wf, of earliest now p]
        by (simp add: st' principal_recent_def m_def pruned_def)
    next
      case (Some w)
      obtain w' removed where pw: "prune_window earliest now w = (w', removed)" by fastforce
      have "window_ok (ms_sequence st) w" using each om_get_member [OF Some] by auto
      from prune_window_effect [OF pw assms(2) this] obtain old where
        "pm_recent w = old @ pm_recent w'" "\<forall>c \<in> set old. mc_at c \<le> now - MUTATION_WINDOW" by blast
      then show ?thesis using prune_entries_get [OF wf, of earliest now p] Some pw
        by (intro exI [of _ "map charge_of old"]) (auto simp: st' principal_recent_def m_def pruned_def)
    qed
  qed
  ultimately show ?thesis by (simp add: st')
qed

lemma checked_inc_u64_less: "checked_inc_u64 w = Some v \<Longrightarrow> w < v"
  using checked_inc_u64_unat [of w v] by (simp add: word_less_nat_alt)

lemma put_window_ok:
  assumes "mutation_state_ok st" "window_ok q w" "ms_sequence st \<le> q" "om_get (ms_windows st) p \<noteq> None \<or> length (ms_windows st) < MAX_TRACKED_PRINCIPALS"
    "window_count w + ms_tracked st = tracked + (case om_get (ms_windows st) p of None \<Rightarrow> 0 | Some v \<Rightarrow> window_count v)" "tracked \<le> MAX_TRACKED_MUTATIONS"
  shows "mutation_state_ok (st\<lparr>ms_windows := om_insert p w (ms_windows st), ms_sequence := q, ms_tracked := tracked\<rparr>)"
proof -
  have wf: "om_wf (ms_windows st)" and tr: "ms_tracked st = om_total window_count (ms_windows st)"
    using assms(1) by (simp_all add: mutation_state_ok_def)
  have "\<forall>e \<in> set (om_insert p w (ms_windows st)). window_ok q (snd e)"
  proof
    fix e
    assume "e \<in> set (om_insert p w (ms_windows st))"
    then have "e = (p, w) \<or> e \<in> set (ms_windows st)" by (rule om_insert_member)
    then show "window_ok q (snd e)" using assms(1,2,3) by (fastforce simp: mutation_state_ok_def window_ok_def)
  qed
  moreover have "tracked = om_total window_count (om_insert p w (ms_windows st))"
    using om_total_insert [OF wf, of window_count p w] assms(5) tr by (cases "om_get (ms_windows st) p") simp_all
  moreover have "length (om_insert p w (ms_windows st)) \<le> MAX_TRACKED_PRINCIPALS"
    using om_length_insert [OF wf, of p w] assms(1,4) by (auto simp: mutation_state_ok_def)
  ultimately show ?thesis using assms(6) by (simp add: mutation_state_ok_def om_wf_insert [OF wf])
qed

lemma charge_window_effect:
  assumes "charge_window now identity n charge_id w = Ok w'" "window_ok q w" "checked_inc_u64 q = Some charge_id"
  shows "window_ok charge_id w' \<and> pm_recent w' = pm_recent w @ [\<lparr>mc_at = now, mc_bytes = n, mc_identity = identity, mc_charge_id = charge_id\<rparr>] \<and>
    pm_retryable w' = (pm_retryable w)(identity \<mapsto> charge_id) \<and> length (pm_recent w') \<le> MAX_MUTATIONS_PER_WINDOW \<and>
    charged_sum (map charge_of (pm_recent w')) \<le> MAX_MUTATION_BYTES_PER_WINDOW"
proof -
  have less: "q < charge_id" using assms(3) by (rule checked_inc_u64_less)
  have w': "w' = \<lparr>pm_recent = pm_recent w @ [\<lparr>mc_at = now, mc_bytes = n, mc_identity = identity, mc_charge_id = charge_id\<rparr>],
      pm_bytes = pm_bytes w + n, pm_retryable = (pm_retryable w)(identity \<mapsto> charge_id)\<rparr>"
    and lim: "length (pm_recent w) + 1 \<le> MAX_MUTATIONS_PER_WINDOW" "pm_bytes w + n \<le> MAX_MUTATION_BYTES_PER_WINDOW"
    using assms(1) by (auto simp: charge_window_def Let_def split: if_splits)
  show ?thesis using assms(2) lim less by (fastforce simp: w' window_ok_def sorted_wrt_append)
qed

definition same_recents :: "mutation_state \<Rightarrow> mutation_state \<Rightarrow> bool" where
  "same_recents st st' \<longleftrightarrow> (\<forall>p. principal_recent p st' = principal_recent p st)"

definition newly_charged :: "int \<Rightarrow> rstr \<Rightarrow> nat \<Rightarrow> mutation_state \<Rightarrow> mutation_state \<Rightarrow> bool" where
  "newly_charged now p n st st' \<longleftrightarrow> principal_recent p st' = principal_recent p st @ [(now, n)] \<and>
     (\<forall>j. j \<noteq> p \<longrightarrow> principal_recent j st' = principal_recent j st) \<and>
     length (principal_recent p st') \<le> MAX_MUTATIONS_PER_WINDOW \<and>
     charged_sum (principal_recent p st') \<le> MAX_MUTATION_BYTES_PER_WINDOW"

lemma new_principal_window_ok: "window_ok q new_principal_window" "window_count new_principal_window = 0"
  by (simp_all add: window_ok_def new_principal_window_def window_count_def)

lemma charge_pruned_effect:
  assumes "mutation_state_ok st" "charge_pruned now p identity n st = (r, st')"
  shows "mutation_state_ok st' \<and>
    (ms_sequence st' = ms_sequence st \<and> same_recents st st' \<and> isl r \<or>
     ms_sequence st < ms_sequence st' \<and> r = Ok (ms_sequence st') \<and> newly_charged now p n st st')"
proof (cases "principal_capacity_full p st \<or> checked_inc_u64 (ms_sequence st) = None")
  case True
  then have "st' = st" "isl r" using assms(2) by (auto simp: charge_pruned_def split: if_splits)
  then show ?thesis using assms(1) by (simp add: same_recents_def)
next
  case False
  then obtain charge_id where inc: "checked_inc_u64 (ms_sequence st) = Some charge_id" by auto
  define w where "w = unwrap_or new_principal_window (om_get (ms_windows st) p)"
  have room: "om_get (ms_windows st) p \<noteq> None \<or> length (ms_windows st) < MAX_TRACKED_PRINCIPALS" "ms_tracked st < MAX_TRACKED_MUTATIONS"
    using False by (auto simp: principal_capacity_full_def)
  have w: "window_ok (ms_sequence st) w" "window_count w = (case om_get (ms_windows st) p of None \<Rightarrow> 0 | Some v \<Rightarrow> window_count v)"
    using assms(1) om_get_member [of "ms_windows st" p]
    by (cases "om_get (ms_windows st) p"; fastforce simp: w_def new_principal_window_ok mutation_state_ok_def)+
  have recent: "principal_recent p st = map charge_of (pm_recent w)"
    by (simp add: w_def principal_recent_def new_principal_window_def split: option.splits)
  note run = assms(2) [unfolded charge_pruned_def Let_def, folded w_def]
  show ?thesis
  proof (cases "charge_window now identity n charge_id w")
    case (Inl e)
    then have r: "r = Err e" "st' = st\<lparr>ms_windows := om_insert p w (ms_windows st)\<rparr>" using run False inc by simp_all
    have "mutation_state_ok (st\<lparr>ms_windows := om_insert p w (ms_windows st), ms_sequence := ms_sequence st, ms_tracked := ms_tracked st\<rparr>)"
      using put_window_ok [OF assms(1) w(1) order_refl room(1)] w(2) room(2) by simp
    then show ?thesis using recent r by (simp add: same_recents_def principal_recent_def)
  next
    case (Inr w')
    then have r: "r = Ok charge_id"
      "st' = st\<lparr>ms_windows := om_insert p w' (ms_windows st), ms_sequence := charge_id, ms_tracked := ms_tracked st + 1\<rparr>"
      using run False inc by simp_all
    note eff = charge_window_effect [OF Inr w(1) inc]
    have le: "ms_sequence st \<le> charge_id" using checked_inc_u64_less [OF inc] by simp
    have count: "window_count w' + ms_tracked st = ms_tracked st + 1 + (case om_get (ms_windows st) p of None \<Rightarrow> 0 | Some v \<Rightarrow> window_count v)"
      using eff w(2) by (simp add: window_count_def split: option.splits)
    have tracked: "ms_tracked st + 1 \<le> MAX_TRACKED_MUTATIONS" using room(2) by simp
    have ok: "mutation_state_ok st'" unfolding r(2) using eff by (intro put_window_ok [OF assms(1) _ le room(1) count tracked]) simp
    have "newly_charged now p n st st'" using eff recent
      by (simp add: newly_charged_def r(2) principal_recent_def charge_of_def split: option.splits)
    then show ?thesis using ok r checked_inc_u64_less [OF inc] by simp
  qed
qed

lemma charge_mutation_effect:
  assumes "mutation_state_ok st" "charge_mutation earliest now p identity n st = (r, st')" "earliest \<le> now - MUTATION_WINDOW"
  shows "mutation_state_ok st' \<and> ms_sequence st \<le> ms_sequence st' \<and> (\<exists>mid. drops now st mid \<and>
    (ms_sequence st' = ms_sequence st \<and> same_recents mid st' \<or>
     ms_sequence st < ms_sequence st' \<and> r = Ok (ms_sequence st') \<and> newly_charged now p n mid st'))"
proof -
  define st1 where "st1 = prune_principal earliest now p st"
  define st2 where "st2 = (if principal_capacity_full p st1 then prune_all earliest now st1 else st1)"
  note one = prune_principal_effect [OF assms(1,3), of p, folded st1_def]
  have ok1: "mutation_state_ok st1" using one by blast
  have two: "mutation_state_ok st2" "drops now st st2" "ms_sequence st2 = ms_sequence st"
    using one prune_all_effect [OF ok1 assms(3)] drops_trans by (auto simp: st2_def)
  show ?thesis
  proof (cases "Option.bind (om_get (ms_windows st1) p) (\<lambda>w. pm_retryable w identity)")
    case (Some charge_id)
    then have "st' = st1" using assms(2) by (simp add: charge_mutation_def st1_def [symmetric] Let_def)
    then show ?thesis using one same_recents_def by auto
  next
    case None
    then have "charge_pruned now p identity n st2 = (r, st')"
      using assms(2) by (simp add: charge_mutation_def st1_def [symmetric] st2_def Let_def)
    then show ?thesis using charge_pruned_effect [OF two(1)] two(2,3) by fastforce
  qed
qed

lemma resolve_mutation_effect:
  assumes "mutation_state_ok st"
  shows "mutation_state_ok (resolve_mutation p identity charge_id st) \<and> same_recents st (resolve_mutation p identity charge_id st) \<and>
    ms_sequence (resolve_mutation p identity charge_id st) = ms_sequence st"
proof (cases "om_get (ms_windows st) p")
  case None
  then show ?thesis using assms by (simp add: resolve_mutation_def same_recents_def)
next
  case (Some w)
  define w' where "w' = w\<lparr>pm_retryable := (pm_retryable w)(identity := None)\<rparr>"
  have w: "window_ok (ms_sequence st) w" using assms om_get_member [OF Some] by (auto simp: mutation_state_ok_def)
  then have ok': "window_ok (ms_sequence st) w'" by (simp add: w'_def window_ok_def)
  have "ms_tracked st \<le> MAX_TRACKED_MUTATIONS" using assms by (simp add: mutation_state_ok_def)
  then have "mutation_state_ok (st\<lparr>ms_windows := om_insert p w' (ms_windows st), ms_sequence := ms_sequence st, ms_tracked := ms_tracked st\<rparr>)"
    by (intro put_window_ok [OF assms ok']) (simp_all add: Some w'_def window_count_def)
  then show ?thesis using assms Some
    by (simp add: resolve_mutation_def w'_def [symmetric] same_recents_def principal_recent_def) (simp add: w'_def)
qed

section \<open>Sequences of mutations\<close>

datatype mutation_op =
    Charge_Mutation int rstr mutation_identity nat
  | Resolve_Mutation rstr mutation_identity "64 word"

text \<open>The state after an operation, with the charge it made; only a charge that is not a retry moves the sequence.\<close>

fun do_mutation :: "int \<Rightarrow> mutation_op \<Rightarrow> mutation_state \<Rightarrow> (rstr \<times> charge) list \<times> mutation_state" where
  "do_mutation earliest (Charge_Mutation now p identity n) st =
     (let st' = snd (charge_mutation earliest now p identity n st) in
      (if ms_sequence st' = ms_sequence st then [] else [(p, now, n)], st'))"
| "do_mutation earliest (Resolve_Mutation p identity charge_id) st = ([], resolve_mutation p identity charge_id st)"

fun mutation_ops :: "int \<Rightarrow> mutation_op list \<Rightarrow> mutation_state \<Rightarrow> (rstr \<times> charge) list \<times> mutation_state" where
  "mutation_ops earliest [] st = ([], st)"
| "mutation_ops earliest (x # xs) st =
     (let (log, st) = do_mutation earliest x st; (rest, st) = mutation_ops earliest xs st in (log @ rest, st))"

fun op_times :: "mutation_op \<Rightarrow> int list" where
  "op_times (Charge_Mutation now _ _ _) = [now]"
| "op_times (Resolve_Mutation _ _ _) = []"

definition mutation_step :: "int \<Rightarrow> int \<Rightarrow> mutation_state \<Rightarrow> (rstr \<times> nat) option \<Rightarrow> mutation_state \<Rightarrow> bool" where
  "mutation_step earliest now st label st' \<longleftrightarrow>
     (\<exists>x. (\<forall>t \<in> set (op_times x). t = now \<and> earliest \<le> t - MUTATION_WINDOW) \<and>
        do_mutation earliest x st = ((case label of None \<Rightarrow> [] | Some (p, n) \<Rightarrow> [(p, now, n)]), st'))"

lemma mutation_op_effect:
  assumes "mutation_state_ok st" "do_mutation earliest x st = (log, st')" "\<forall>t \<in> set (op_times x). t = now \<and> earliest \<le> t - MUTATION_WINDOW"
  shows "mutation_state_ok st' \<and> (\<exists>mid. drops now st mid \<and>
    (log = [] \<and> same_recents mid st' \<or> (\<exists>p n. log = [(p, now, n)] \<and> newly_charged now p n mid st')))"
proof (cases x)
  case (Charge_Mutation t p identity n)
  obtain r where run: "charge_mutation earliest now p identity n st = (r, st')"
    using assms(2,3) Charge_Mutation by (cases "charge_mutation earliest now p identity n st") (simp add: Let_def)
  have early: "earliest \<le> now - MUTATION_WINDOW" using assms(3) Charge_Mutation by simp
  have log: "log = (if ms_sequence st' = ms_sequence st then [] else [(p, now, n)])"
    using assms(2,3) Charge_Mutation run by (auto simp: Let_def)
  show ?thesis using charge_mutation_effect [OF assms(1) run early] log by auto
next
  case (Resolve_Mutation p identity charge_id)
  then have "log = []" "st' = resolve_mutation p identity charge_id st" using assms(2) by simp_all
  then show ?thesis using resolve_mutation_effect [OF assms(1), of p identity charge_id] drops_refl [of now st] by blast
qed

interpretation principal_writes: sliding_window "mutation_step earliest" principal_recent mutation_state_ok
  MUTATION_WINDOW MAX_MUTATIONS_PER_WINDOW MAX_MUTATION_BYTES_PER_WINDOW
  for earliest
proof unfold_locales
  fix st :: mutation_state and now label st' p n
  show "mutation_state_ok st'" if ok: "mutation_state_ok st" and step: "mutation_step earliest now st label st'"
    using mutation_op_effect [OF ok] step unfolding mutation_step_def by blast
  show "\<exists>old. principal_recent p st = old @ principal_recent p st' \<and> (\<forall>c \<in> set old. fst c \<le> now - MUTATION_WINDOW)"
    if ok: "mutation_state_ok st" and step: "mutation_step earliest now st label st'" and no: "\<And>n. label \<noteq> Some (p, n)"
  proof -
    obtain x where x: "do_mutation earliest x st = ((case label of None \<Rightarrow> [] | Some (p, n) \<Rightarrow> [(p, now, n)]), st')"
      "\<forall>t \<in> set (op_times x). t = now \<and> earliest \<le> t - MUTATION_WINDOW" using step by (auto simp: mutation_step_def)
    obtain mid where d: "drops now st mid" "same_recents mid st' \<or> (\<exists>q n. label = Some (q, n) \<and> newly_charged now q n mid st')"
      using mutation_op_effect [OF ok x] by (auto split: option.splits)
    have "principal_recent p st' = principal_recent p mid" using d(2) no unfolding same_recents_def newly_charged_def by metis
    then show ?thesis using d(1) by (simp add: drops_def)
  qed
  show "\<exists>old kept. principal_recent p st = old @ kept \<and> (\<forall>c \<in> set old. fst c \<le> now - MUTATION_WINDOW) \<and>
      principal_recent p st' = kept @ [(now, n)] \<and> length (principal_recent p st') \<le> MAX_MUTATIONS_PER_WINDOW \<and>
      charged_sum (principal_recent p st') \<le> MAX_MUTATION_BYTES_PER_WINDOW"
    if ok: "mutation_state_ok st" and step: "mutation_step earliest now st (Some (p, n)) st'"
  proof -
    obtain x where x: "do_mutation earliest x st = ([(p, now, n)], st')"
      "\<forall>t \<in> set (op_times x). t = now \<and> earliest \<le> t - MUTATION_WINDOW" using step by (auto simp: mutation_step_def)
    obtain mid where d: "drops now st mid" "newly_charged now p n mid st'"
      using mutation_op_effect [OF ok x] by auto
    show ?thesis using d by (auto simp: drops_def newly_charged_def)
  qed
qed

lemma mutation_ops_run:
  assumes "principal_writes.run earliest s0 t st log0" "sorted (t # concat (map op_times xs))"
    and "\<forall>u \<in> set (concat (map op_times xs)). earliest \<le> u - MUTATION_WINDOW" "mutation_ops earliest xs st = (log, st')"
  shows "\<exists>t'. principal_writes.run earliest s0 t' st' (log0 @ log)"
  using assms
proof (induction xs arbitrary: t st log0 log)
  case (Cons x xs)
  obtain new st1 where one: "do_mutation earliest x st = (new, st1)" by fastforce
  obtain rest where two: "mutation_ops earliest xs st1 = (rest, st')" and log: "log = new @ rest"
    using Cons.prems(4) one by (auto split: prod.splits)
  define now where "now = (case op_times x of [] \<Rightarrow> t | u # us \<Rightarrow> u)"
  have now: "\<forall>u \<in> set (op_times x). u = now \<and> earliest \<le> u - MUTATION_WINDOW" "t \<le> now" "sorted (now # concat (map op_times xs))"
    using Cons.prems(2,3) by (cases x; auto simp: now_def)+
  have "new = [] \<or> (\<exists>p n. new = [(p, now, n)])" using one now(1) by (cases x) (auto simp: Let_def split: if_splits)
  then have "principal_writes.run earliest s0 now st1 (log0 @ new)"
  proof
    assume n: "new = []"
    then have "mutation_step earliest now st None st1" using one now(1) unfolding mutation_step_def by auto
    from principal_writes.run.other [OF Cons.prems(1) now(2) this] show ?thesis by (simp add: n)
  next
    assume "\<exists>p n. new = [(p, now, n)]"
    then obtain p n where n: "new = [(p, now, n)]" by blast
    then have "mutation_step earliest now st (Some (p, n)) st1" using one now(1) unfolding mutation_step_def by auto
    from principal_writes.run.charge [OF Cons.prems(1) now(2) this] show ?thesis by (simp add: n)
  qed
  from Cons.IH [OF this now(3) _ two] show ?case using Cons.prems(3) log by simp
qed auto

lemma new_mutation_state_ok: "mutation_state_ok new_mutation_state" "principal_recent p new_mutation_state = []"
  by (simp_all add: mutation_state_ok_def new_mutation_state_def om_wf_def om_total_def principal_recent_def)


section \<open>Pending retries\<close>

definition pending_window :: "mutation_identity \<Rightarrow> 64 word \<Rightarrow> int \<Rightarrow> principal_window \<Rightarrow> bool" where
  "pending_window identity charge_id t0 w \<longleftrightarrow> pm_retryable w identity = Some charge_id \<and>
     (\<exists>c \<in> set (pm_recent w). mc_charge_id c = charge_id \<and> t0 \<le> mc_at c)"

definition pending :: "rstr \<Rightarrow> mutation_identity \<Rightarrow> 64 word \<Rightarrow> int \<Rightarrow> mutation_state \<Rightarrow> bool" where
  "pending p identity charge_id t0 st \<longleftrightarrow> (\<exists>w. om_get (ms_windows st) p = Some w \<and> pending_window identity charge_id t0 w)"

lemma sorted_distinct_ids:
  "window_ok q w \<Longrightarrow> pm_recent w = old @ kept \<Longrightarrow> c \<in> set old \<Longrightarrow> d \<in> set kept \<Longrightarrow> mc_charge_id c \<noteq> mc_charge_id d"
  by (fastforce simp: window_ok_def sorted_wrt_append)

lemma prune_window_pending:
  assumes "prune_window earliest now w = (w', removed)" "earliest \<le> now - MUTATION_WINDOW" "window_ok q w"
    and "pending_window identity charge_id t0 w" "now - MUTATION_WINDOW < t0"
  shows "pending_window identity charge_id t0 w' \<and> pm_recent w' \<noteq> []"
proof -
  obtain old where old: "pm_recent w = old @ pm_recent w'" "\<forall>c \<in> set old. mc_at c \<le> now - MUTATION_WINDOW"
    and r: "\<forall>i. pm_retryable w' i = (if \<exists>c \<in> set old. mc_identity c = i \<and> pm_retryable w i = Some (mc_charge_id c) then None else pm_retryable w i)"
    using prune_window_effect [OF assms(1-3)] by blast
  obtain c where c: "c \<in> set (pm_recent w)" "mc_charge_id c = charge_id" "t0 \<le> mc_at c" and k: "pm_retryable w identity = Some charge_id"
    using assms(4) by (auto simp: pending_window_def)
  have "c \<in> set (pm_recent w')" using c(1,3) old assms(5) by fastforce
  then have "\<forall>d \<in> set old. mc_charge_id d \<noteq> charge_id" using sorted_distinct_ids [OF assms(3) old(1)] c(2) by metis
  then have "pm_retryable w' identity = Some charge_id" using r k by auto
  then show ?thesis using \<open>c \<in> set (pm_recent w')\<close> c by (auto simp: pending_window_def)
qed

lemma prune_principal_pending:
  assumes "mutation_state_ok st" "earliest \<le> now - MUTATION_WINDOW" "pending p identity charge_id t0 st" "now - MUTATION_WINDOW < t0"
  shows "pending p identity charge_id t0 (prune_principal earliest now j st)"
proof (cases "om_get (ms_windows st) j")
  case (Some w)
  obtain w' removed where pw: "prune_window earliest now w = (w', removed)" by fastforce
  have "window_ok (ms_sequence st) w" using assms(1) om_get_member [OF Some] by (auto simp: mutation_state_ok_def)
  from prune_window_pending [OF pw assms(2) this] show ?thesis
    using assms(3,4) Some pw by (auto simp: prune_principal_def pending_def)
qed (use assms in \<open>simp add: prune_principal_def\<close>)

lemma prune_all_pending:
  assumes "mutation_state_ok st" "earliest \<le> now - MUTATION_WINDOW" "pending p identity charge_id t0 st" "now - MUTATION_WINDOW < t0"
  shows "pending p identity charge_id t0 (prune_all earliest now st)"
proof -
  obtain w where w: "om_get (ms_windows st) p = Some w" "pending_window identity charge_id t0 w" using assms(3) by (auto simp: pending_def)
  obtain w' removed where pw: "prune_window earliest now w = (w', removed)" by fastforce
  have wf: "om_wf (ms_windows st)" and "window_ok (ms_sequence st) w" using assms(1) om_get_member [OF w(1)] by (auto simp: mutation_state_ok_def)
  note kept = prune_window_pending [OF pw assms(2) this(2) w(2) assms(4)]
  show ?thesis using prune_entries_get [OF wf, of earliest now p] w(1) pw kept
    by (simp add: prune_all_def pending_def Let_def)
qed

lemma pending_update [simp]:
  "pending p identity charge_id t0 (st\<lparr>ms_windows := om_insert j w (ms_windows st), ms_sequence := q, ms_tracked := n\<rparr>) =
     (if j = p then pending_window identity charge_id t0 w else pending p identity charge_id t0 st)"
  "pending p identity charge_id t0 (st\<lparr>ms_windows := om_insert j w (ms_windows st)\<rparr>) =
     (if j = p then pending_window identity charge_id t0 w else pending p identity charge_id t0 st)"
  by (auto simp: pending_def)

lemma resolve_mutation_pending:
  assumes "pending p identity charge_id t0 st" "\<not> (j = p \<and> i = identity \<and> c = charge_id)"
  shows "pending p identity charge_id t0 (resolve_mutation j i c st)"
proof (cases "om_get (ms_windows st) j")
  case (Some w)
  then show ?thesis using assms by (auto simp: resolve_mutation_def pending_window_def) (auto simp: pending_def pending_window_def)
qed (use assms in \<open>simp add: resolve_mutation_def\<close>)

lemma charge_window_pending:
  assumes "charge_window now i n c w = Ok w'" "pending_window identity charge_id t0 w" "i \<noteq> identity"
  shows "pending_window identity charge_id t0 w'"
  using assms by (auto simp: charge_window_def pending_window_def Let_def split: if_splits)

lemma charge_pruned_pending:
  assumes "pending p identity charge_id t0 st" "\<not> (j = p \<and> i = identity)"
  shows "pending p identity charge_id t0 (snd (charge_pruned now j i n st))"
proof (cases "principal_capacity_full j st \<or> checked_inc_u64 (ms_sequence st) = None")
  case True
  then show ?thesis using assms(1) by (auto simp: charge_pruned_def)
next
  case False
  then obtain c where inc: "checked_inc_u64 (ms_sequence st) = Some c" by auto
  define w where "w = unwrap_or new_principal_window (om_get (ms_windows st) j)"
  have w: "j = p \<Longrightarrow> pending_window identity charge_id t0 w" using assms(1) by (auto simp: w_def pending_def)
  show ?thesis
  proof (cases "charge_window now i n c w")
    case (Inl e)
    then show ?thesis using False inc w assms(1) by (simp add: charge_pruned_def w_def [symmetric])
  next
    case (Inr w')
    then show ?thesis using False inc w assms charge_window_pending [OF Inr] by (auto simp: charge_pruned_def w_def [symmetric])
  qed
qed

text \<open>A charge at a time in the window keeps what is pending, and if it is the same mutation returns its debit without a charge.\<close>

lemma charge_mutation_pending:
  assumes "mutation_state_ok st" "earliest \<le> now - MUTATION_WINDOW" "pending p identity charge_id t0 st" "now - MUTATION_WINDOW < t0"
  shows "pending p identity charge_id t0 (snd (charge_mutation earliest now j i n st)) \<and>
    (j = p \<and> i = identity \<longrightarrow> fst (charge_mutation earliest now j i n st) = Ok charge_id \<and>
       ms_sequence (snd (charge_mutation earliest now j i n st)) = ms_sequence st)"
proof -
  define st1 where "st1 = prune_principal earliest now j st"
  have st1: "mutation_state_ok st1" "pending p identity charge_id t0 st1" "ms_sequence st1 = ms_sequence st"
    using prune_principal_effect [OF assms(1,2)] prune_principal_pending [OF assms] by (simp_all add: st1_def)
  have p2: "pending p identity charge_id t0 (prune_all earliest now st1)" by (rule prune_all_pending [OF st1(1) assms(2) st1(2) assms(4)])
  show ?thesis
  proof (cases "Option.bind (om_get (ms_windows st1) j) (\<lambda>w. pm_retryable w i)")
    case (Some c)
    then have run: "charge_mutation earliest now j i n st = (Ok c, st1)" by (simp add: charge_mutation_def st1_def [symmetric] Let_def)
    show ?thesis unfolding run using st1 Some by (auto simp: pending_def pending_window_def)
  next
    case None
    then have other: "\<not> (j = p \<and> i = identity)" using st1(2) by (auto simp: pending_def pending_window_def)
    show ?thesis using charge_pruned_pending [OF _ other] st1(2) p2 None other
      by (auto simp: charge_mutation_def st1_def [symmetric] Let_def)
  qed
qed

lemma charge_mutation_new_pending:
  assumes "mutation_state_ok st" "earliest \<le> now - MUTATION_WINDOW" "charge_mutation earliest now p identity n st = (Ok charge_id, st')"
    and "ms_sequence st' \<noteq> ms_sequence st"
  shows "mutation_state_ok st' \<and> pending p identity charge_id now st'"
proof -
  define st1 where "st1 = prune_principal earliest now p st"
  define st2 where "st2 = (if principal_capacity_full p st1 then prune_all earliest now st1 else st1)"
  note one = prune_principal_effect [OF assms(1,2), of p, folded st1_def]
  have ok1: "mutation_state_ok st1" using one by blast
  have two: "mutation_state_ok st2" using ok1 prune_all_effect [OF ok1 assms(2)] by (simp add: st2_def)
  have none: "Option.bind (om_get (ms_windows st1) p) (\<lambda>w. pm_retryable w identity) = None"
    using assms(3,4) one by (auto simp: charge_mutation_def st1_def [symmetric] Let_def split: option.splits)
  then have run: "charge_pruned now p identity n st2 = (Ok charge_id, st')"
    using assms(3) by (simp add: charge_mutation_def st1_def [symmetric] st2_def Let_def)
  then obtain c w' where inc: "checked_inc_u64 (ms_sequence st2) = Some c" "\<not> principal_capacity_full p st2"
    and w': "charge_window now identity n c (unwrap_or new_principal_window (om_get (ms_windows st2) p)) = Ok w'"
    by (auto simp: charge_pruned_def Let_def split: if_splits option.splits sum.splits)
  then have "charge_id = c" "om_get (ms_windows st') p = Some w'" using run by (auto simp: charge_pruned_def)
  then have "pending p identity charge_id now st'" using w'
    by (auto simp: pending_def pending_window_def charge_window_def Let_def split: if_splits)
  then show ?thesis using charge_mutation_effect [OF assms(1,3,2)] by simp
qed

lemma charge_not_pending:
  assumes "mutation_state_ok st" "earliest \<le> now - MUTATION_WINDOW"
    and "Option.bind (om_get (ms_windows st) p) (\<lambda>w. pm_retryable w identity) = None"
    and "charge_mutation earliest now p identity n st = (r, st')"
  shows "isl r \<or> r = Ok (ms_sequence st') \<and> ms_sequence st < ms_sequence st'"
proof -
  define st1 where "st1 = prune_principal earliest now p st"
  define st2 where "st2 = (if principal_capacity_full p st1 then prune_all earliest now st1 else st1)"
  note one = prune_principal_effect [OF assms(1,2), of p, folded st1_def]
  have ok1: "mutation_state_ok st1" using one by blast
  have two: "mutation_state_ok st2" "ms_sequence st2 = ms_sequence st" using one prune_all_effect [OF ok1 assms(2)] by (simp_all add: st2_def)
  have "Option.bind (om_get (ms_windows st1) p) (\<lambda>w. pm_retryable w identity) = None"
  proof (cases "om_get (ms_windows st) p")
    case None
    then show ?thesis by (simp add: st1_def prune_principal_def)
  next
    case (Some w)
    obtain w' removed where pw: "prune_window earliest now w = (w', removed)" by fastforce
    have "window_ok (ms_sequence st) w" using assms(1) om_get_member [OF Some] by (auto simp: mutation_state_ok_def)
    from prune_window_effect [OF pw assms(2) this] have "pm_retryable w' identity = None" using Some assms(3) by auto
    then show ?thesis using Some pw by (simp add: st1_def prune_principal_def)
  qed
  then have "charge_pruned now p identity n st2 = (r, st')"
    using assms(4) by (simp add: charge_mutation_def st1_def [symmetric] st2_def Let_def)
  from charge_pruned_effect [OF two(1) this] two(2) show ?thesis by auto
qed

lemma mutation_ops_snd:
  "snd (mutation_ops earliest (x # xs) st) = snd (mutation_ops earliest xs (snd (do_mutation earliest x st)))"
  by (simp split: prod.splits)

lemma mutation_ops_pending:
  assumes "mutation_state_ok st" "pending p identity charge_id t0 st" "Resolve_Mutation p identity charge_id \<notin> set xs"
    and "\<forall>u \<in> set (concat (map op_times xs)). earliest \<le> u - MUTATION_WINDOW \<and> u - MUTATION_WINDOW < t0"
  shows "mutation_state_ok (snd (mutation_ops earliest xs st)) \<and> pending p identity charge_id t0 (snd (mutation_ops earliest xs st))"
  using assms
proof (induction xs arbitrary: st)
  case (Cons x xs)
  have "mutation_state_ok (snd (do_mutation earliest x st)) \<and> pending p identity charge_id t0 (snd (do_mutation earliest x st))"
  proof (cases x)
    case (Charge_Mutation now j i n)
    obtain r st' where run: "charge_mutation earliest now j i n st = (r, st')" by fastforce
    show ?thesis using charge_mutation_pending [OF Cons.prems(1) _ Cons.prems(2), of earliest now j i n]
        charge_mutation_effect [OF Cons.prems(1) run] Cons.prems(4) run Charge_Mutation by (simp add: Let_def)
  next
    case (Resolve_Mutation j i c)
    then show ?thesis using Cons.prems(3) resolve_mutation_effect [OF Cons.prems(1)] resolve_mutation_pending [OF Cons.prems(2)] by auto
  qed
  then show ?case using Cons.IH Cons.prems(3,4) unfolding mutation_ops_snd by simp
qed simp

text \<open>C20: a mutation whose outcome is not known can be retried for free, and only such a mutation.  After it was charged,
  whatever the principals do in the rest of its window short of resolving it, the same mutation is admitted again with the same debit,
  whatever the limits say, and nothing is charged; once it is resolved the next attempt is charged like any other.\<close>

theorem retry_not_charged:
  assumes "mutation_state_ok st" and "charge_mutation earliest now p identity n st = (Ok charge_id, st1)" and "ms_sequence st1 \<noteq> ms_sequence st"
    and "Resolve_Mutation p identity charge_id \<notin> set xs"
    and "\<forall>u \<in> set (now # later # concat (map op_times xs)). earliest \<le> u - MUTATION_WINDOW \<and> u - MUTATION_WINDOW < now"
  shows "let st2 = snd (mutation_ops earliest xs st1); (r, st3) = charge_mutation earliest later p identity m st2;
      resolved = resolve_mutation p identity charge_id st2; (r', st4) = charge_mutation earliest later p identity m resolved in
    r = Ok charge_id \<and> do_mutation earliest (Charge_Mutation later p identity m) st2 = ([], st3) \<and>
    (isl r' \<or> r' \<noteq> Ok charge_id \<and> do_mutation earliest (Charge_Mutation later p identity m) resolved = ([(p, later, m)], st4))"
proof -
  define st2 where "st2 = snd (mutation_ops earliest xs st1)"
  have t: "earliest \<le> now - MUTATION_WINDOW" "earliest \<le> later - MUTATION_WINDOW" "later - MUTATION_WINDOW < now" using assms(5) by auto
  have st1: "mutation_state_ok st1" "pending p identity charge_id now st1" "ms_sequence st1 = charge_id"
    using charge_mutation_new_pending [OF assms(1) t(1) assms(2,3)] charge_mutation_effect [OF assms(1,2) t(1)] assms(3) by auto
  have st2: "mutation_state_ok st2" "pending p identity charge_id now st2"
    using mutation_ops_pending [OF st1(1,2) assms(4)] assms(5) by (simp_all add: st2_def)
  have seq: "charge_id \<le> ms_sequence st2"
    using st2 om_get_member [of "ms_windows st2" p] by (fastforce simp: pending_def pending_window_def mutation_state_ok_def window_ok_def)
  obtain r st3 where retry: "charge_mutation earliest later p identity m st2 = (r, st3)" by fastforce
  have one: "r = Ok charge_id" "ms_sequence st3 = ms_sequence st2"
    using charge_mutation_pending [OF st2(1) t(2) st2(2) t(3), of p identity m] retry by simp_all
  define resolved where "resolved = resolve_mutation p identity charge_id st2"
  have ok: "mutation_state_ok resolved" "ms_sequence resolved = ms_sequence st2" using resolve_mutation_effect [OF st2(1)] by (simp_all add: resolved_def)
  obtain r' st4 where again: "charge_mutation earliest later p identity m resolved = (r', st4)" by fastforce
  have "Option.bind (om_get (ms_windows resolved) p) (\<lambda>w. pm_retryable w identity) = None"
    using st2(2) by (auto simp: resolved_def resolve_mutation_def pending_def pending_window_def)
  from charge_not_pending [OF ok(1) t(2) this again] ok(2) seq
  have "isl r' \<or> r' \<noteq> Ok charge_id \<and> ms_sequence st4 \<noteq> ms_sequence resolved" by auto
  then show ?thesis using one retry again by (auto simp: st2_def [symmetric] resolved_def [symmetric] Let_def)
qed

lemma retry_not_charged_witness:
  "let (r, st1) = charge_mutation 0 60000000000 (str ''p'') [1] 8388608 new_mutation_state;
       xs = [Charge_Mutation 60000000001 (str ''p'') [2] 3, Resolve_Mutation (str ''p'') [2] 1];
       st2 = snd (mutation_ops 0 xs st1); (r', st3) = charge_mutation 0 60000000002 (str ''p'') [1] 8388608 st2 in
     r' = r \<and> do_mutation 0 (Charge_Mutation 60000000002 (str ''p'') [1] 8388608) st2 = ([], st3)"
proof -
  define xs :: "mutation_op list" where "xs = [Charge_Mutation 60000000001 (str ''p'') [2] 3, Resolve_Mutation (str ''p'') [2] 1]"
  obtain r st1 where run: "charge_mutation 0 60000000000 (str ''p'') [1] 8388608 new_mutation_state = (r, st1)" by fastforce
  have r: "r = Ok 1" "ms_sequence st1 \<noteq> ms_sequence new_mutation_state"
    using run by (auto simp: charge_mutation_def charge_pruned_def charge_window_def prune_principal_def new_mutation_state_def
      principal_capacity_full_def MAX_TRACKED_PRINCIPALS_def MAX_TRACKED_MUTATIONS_def MAX_MUTATIONS_PER_WINDOW_def
      MAX_MUTATION_BYTES_PER_WINDOW_def checked_inc_u64_def new_principal_window_def Let_def)
  have "Resolve_Mutation (str ''p'') [1] 1 \<notin> set xs"
    "\<forall>u \<in> set (60000000000 # 60000000002 # concat (map op_times xs)). 0 \<le> u - MUTATION_WINDOW \<and> u - MUTATION_WINDOW < 60000000000"
    by (simp_all add: xs_def MUTATION_WINDOW_def)
  from retry_not_charged [OF new_mutation_state_ok(1) run [unfolded r(1)] r(2) this, of 8388608]
  show ?thesis using r(1) run by (auto simp: xs_def [symmetric] Let_def simp del: mutation_ops.simps do_mutation.simps split: prod.splits)
qed

section \<open>The identity of a mutation\<close>

lemma digits_determine:
  fixes m n :: nat
  shows "(\<forall>i < k. m div 256 ^ i mod 256 = n div 256 ^ i mod 256) \<Longrightarrow> m mod 256 ^ k = n mod 256 ^ k"
proof (induction k)
  case (Suc k)
  have "m mod (256 ^ k * 256) = 256 ^ k * (m div 256 ^ k mod 256) + m mod 256 ^ k" by (rule mod_mult2_eq)
  moreover have "n mod (256 ^ k * 256) = 256 ^ k * (n div 256 ^ k mod 256) + n mod 256 ^ k" by (rule mod_mult2_eq)
  ultimately show ?case using Suc by (simp add: mult.commute)
qed simp

lemma be_bytes_inject:
  assumes "be_bytes m = be_bytes n" "m < 2 ^ 64" "n < 2 ^ 64"
  shows "m = n"
proof -
  have "m div 256 ^ i mod 256 = n div 256 ^ i mod 256" if "i < 8" for i
  proof -
    have "be_bytes m ! (7 - i) = be_bytes n ! (7 - i)" using assms(1) by simp
    then have "(of_nat (m div 256 ^ i) :: 8 word) = of_nat (n div 256 ^ i)" using that by (simp add: be_bytes_def del: upt_rec_numeral) (simp add: nth_upt del: upt_rec_numeral)
    then show ?thesis by (simp add: word_of_nat_eq_iff take_bit_eq_mod)
  qed
  then have "m mod 256 ^ 8 = n mod 256 ^ 8" by (intro digits_determine) simp
  then show ?thesis using assms(2,3) by simp
qed

lemma framed_inject:
  "concat (map (\<lambda>field. be_bytes (length field) @ field) xs) = concat (map (\<lambda>field. be_bytes (length field) @ field) ys) \<Longrightarrow>
     \<forall>x \<in> set xs \<union> set ys. length x < 2 ^ 64 \<Longrightarrow> xs = ys"
proof (induction xs arbitrary: ys)
  case Nil
  then show ?case by (cases ys) (auto simp: be_bytes_def)
next
  case (Cons x xs)
  then obtain y zs where ys: "ys = y # zs" by (cases ys) (auto simp: be_bytes_def)
  have len: "length (be_bytes (length x)) = length (be_bytes (length y))" by (simp add: be_bytes_def)
  have eq: "be_bytes (length x) @ x @ concat (map (\<lambda>field. be_bytes (length field) @ field) xs) =
    be_bytes (length y) @ y @ concat (map (\<lambda>field. be_bytes (length field) @ field) zs)" using Cons.prems(1) by (simp add: ys)
  then have "be_bytes (length x) = be_bytes (length y)" using len append_eq_append_conv by blast
  then have "length x = length y" using Cons.prems(2) by (intro be_bytes_inject) (simp_all add: ys)
  then show ?case using eq len Cons by (simp add: ys)
qed

text \<open>C37: the digest that identifies a mutation covers its room, request, action and payload hash without
  ambiguity: two mutations with the same identity agree in all four parts, wherever the bytes of one part end and the next begin,
  unless they exhibit a collision of the hash function.\<close>

theorem mutation_identity_unambiguous:
  assumes "new_mutation_identity sha256 a b c d = new_mutation_identity sha256 a' b' c' d'"
    and "\<forall>x \<in> {a, b, c, d, a', b', c', d'}. length x < 2 ^ 64"
  shows "(a, b, c, d) = (a', b', c', d') \<or>
    (mutation_preimage [a, b, c, d] \<noteq> mutation_preimage [a', b', c', d'] \<and>
     sha256 (mutation_preimage [a, b, c, d]) = sha256 (mutation_preimage [a', b', c', d']))"
proof (cases "mutation_preimage [a, b, c, d] = mutation_preimage [a', b', c', d']")
  case True
  then have "[a, b, c, d] = [a', b', c', d']" using assms(2) by (intro framed_inject) (auto simp: mutation_preimage_def)
  then show ?thesis by simp
next
  case False
  then show ?thesis using assms(1) by (simp add: new_mutation_identity_def)
qed

lemma mutation_identity_unambiguous_witness:
  "(([1, 2], [], [], [3]) :: octets \<times> octets \<times> octets \<times> octets) = ([1], [2], [], [3]) \<or>
    (mutation_preimage [[1, 2], [], [], [3]] \<noteq> mutation_preimage [[1], [2], [], [3]] \<and>
     take 2 (mutation_preimage [[1, 2], [], [], [3]]) = take 2 (mutation_preimage [[1], [2], [], [3]]))"
proof (rule mutation_identity_unambiguous)
  show "new_mutation_identity (take 2) [1, 2] [] [] [3] = new_mutation_identity (take 2) [1] [2] [] [3]"
    by (simp add: new_mutation_identity_def mutation_preimage_def)
qed simp


end
