(* ===== verification/Socket_Frames.thy ===== *)
theory Socket_Frames
  imports Write_Windows
begin

text \<open>
  The rate limits of the room sockets (server/socket\_admission.rs): counters of the frames and of
  the history requests in windows of ten seconds, for the process, each principal and each room.
  Instants are in nanoseconds; the sums stay below the width of \<open>usize\<close>, where the code saturates.
\<close>

section \<open>The contract of a fixed window\<close>

text \<open>
  A limiter keeps the start of its window, if it has one, and what was used in it. A step at a time
  may admit an amount; it stays in the window, opens a new one where the old one has ended, or
  forgets a window that has ended.
\<close>

definition used_in :: "(int \<Rightarrow> bool) \<Rightarrow> charge list \<Rightarrow> nat" where
  "used_in p log = charged_sum (filter (\<lambda>e. p (fst e)) log)"

lemma used_in_simps [simp]:
  "used_in p [] = 0" "used_in p (log @ log') = used_in p log + used_in p log'" "used_in p [e] = (if p (fst e) then snd e else 0)"
  by (simp_all add: used_in_def)

lemma used_in_mono: "(\<And>t. p t \<Longrightarrow> q t) \<Longrightarrow> used_in p log \<le> used_in q log"
  unfolding used_in_def by (induction log) (auto intro: trans_le_add2)

lemma used_in_split: "(\<And>t. p t \<Longrightarrow> q t \<or> r t) \<Longrightarrow> used_in p log \<le> used_in q log + used_in r log"
proof (induction log)
  case (Cons e log)
  have "p (fst e) \<Longrightarrow> q (fst e) \<or> r (fst e)" by (rule Cons.prems)
  then show ?case using Cons unfolding used_in_def by auto
qed (simp add: used_in_def)

locale fixed_window =
  fixes step :: "int \<Rightarrow> 's \<Rightarrow> nat option \<Rightarrow> 's \<Rightarrow> bool"
    and started :: "'s \<Rightarrow> int option"
    and used :: "'s \<Rightarrow> nat"
    and window :: int and limit :: nat
  assumes window_pos: "0 < window"
    and step_cases: "step now s amount s' \<Longrightarrow>
      (started s' = started s \<and> started s \<noteq> None \<and> used s + unwrap_or 0 amount \<le> used s' \<and>
         (amount = None \<or> used s' \<le> limit \<and> (\<forall>t. started s = Some t \<longrightarrow> now < t + window))) \<or>
      (started s' = Some now \<and> (\<forall>t. started s = Some t \<longrightarrow> t + window \<le> now) \<and> unwrap_or 0 amount \<le> used s' \<and> (amount = None \<or> used s' \<le> limit)) \<or>
      (started s' = None \<and> (\<forall>t. started s = Some t \<longrightarrow> t + window \<le> now) \<and> amount = None)"
begin

inductive run :: "'s \<Rightarrow> int \<Rightarrow> 's \<Rightarrow> charge list \<Rightarrow> bool" for s0 where
  initial: "(\<forall>a. started s0 = Some a \<longrightarrow> a \<le> t) \<Longrightarrow> run s0 t s0 []"
| admit: "run s0 t s log \<Longrightarrow> t \<le> now \<Longrightarrow> step now s (Some n) s' \<Longrightarrow> run s0 now s' (log @ [(now, n)])"
| other: "run s0 t s log \<Longrightarrow> t \<le> now \<Longrightarrow> step now s None s' \<Longrightarrow> run s0 now s' log"

text \<open>
  With a window since \<open>a\<close>: what was admitted since \<open>a\<close> is used and within the limit, and so is what was
  admitted in the interval of the window before it. Without one, at the time \<open>t\<close>: what was admitted
  since one window ago is within the limit.
\<close>

definition remembered :: "int \<Rightarrow> 's \<Rightarrow> charge list \<Rightarrow> bool" where
  "remembered t s log \<longleftrightarrow>
     (case started s of
        None \<Rightarrow> (\<forall>e \<in> set log. fst e < t) \<and> used_in (\<lambda>u. t - window \<le> u) log \<le> limit
      | Some a \<Rightarrow> a \<le> t \<and> (\<forall>e \<in> set log. fst e < a + window) \<and>
          used_in (\<lambda>u. a \<le> u) log \<le> used s \<and> used_in (\<lambda>u. a \<le> u) log \<le> limit \<and>
          used_in (\<lambda>u. a - window \<le> u \<and> u < a) log \<le> limit)"

lemma since_end:
  assumes "remembered t s log" "t \<le> now" "\<forall>a. started s = Some a \<longrightarrow> a + window \<le> now"
  shows "used_in (\<lambda>u. now - window \<le> u) log \<le> limit \<and> (\<forall>e \<in> set log. fst e < now)"
proof (cases "started s")
  case None
  have "used_in (\<lambda>u. now - window \<le> u) log \<le> used_in (\<lambda>u. t - window \<le> u) log"
    by (rule used_in_mono) (use assms(2) in auto)
  then show ?thesis using assms(1,2) None by (fastforce simp: remembered_def)
next
  case (Some a)
  have "used_in (\<lambda>u. now - window \<le> u) log \<le> used_in (\<lambda>u. a \<le> u) log"
    by (rule used_in_mono) (use assms(3) Some in auto)
  then show ?thesis using assms(1,3) Some by (fastforce simp: remembered_def)
qed

definition logged :: "int \<Rightarrow> nat option \<Rightarrow> charge list" where
  "logged now amount = (case amount of None \<Rightarrow> [] | Some n \<Rightarrow> [(now, n)])"

lemma used_in_logged: "used_in p (log @ logged now amount) = used_in p log + (if p now then unwrap_or 0 amount else 0)"
  by (cases amount) (simp_all add: logged_def)

lemma logged_time: "e \<in> set (logged now amount) \<Longrightarrow> fst e = now \<and> amount \<noteq> None"
  by (cases amount) (simp_all add: logged_def)

lemma remembered_step:
  assumes "remembered t s log" "t \<le> now" "step now s amount s'"
  shows "remembered now s' (log @ logged now amount)"
proof -
  define n where "n = unwrap_or 0 amount"
  note grow = used_in_logged [of _ log now amount, folded n_def]
  have none: "amount = None \<Longrightarrow> n = 0" by (simp add: n_def)
  from step_cases [OF assms(3)] consider
      (kept) a where "started s = Some a" "started s' = Some a" "used s + n \<le> used s'" "amount = None \<or> used s' \<le> limit \<and> now < a + window"
    | (restarted) "started s' = Some now" "\<forall>t. started s = Some t \<longrightarrow> t + window \<le> now" "n \<le> used s'" "amount = None \<or> used s' \<le> limit"
    | (forgotten) "started s' = None" "\<forall>t. started s = Some t \<longrightarrow> t + window \<le> now" "amount = None"
    unfolding n_def by fastforce
  then show ?thesis
  proof cases
    case kept
    have a: "a \<le> t" "\<forall>e \<in> set log. fst e < a + window" "used_in (\<lambda>u. a \<le> u) log \<le> used s" "used_in (\<lambda>u. a \<le> u) log \<le> limit"
      "used_in (\<lambda>u. a - window \<le> u \<and> u < a) log \<le> limit"
      using assms(1) kept(1) by (simp_all add: remembered_def)
    have sums: "used_in (\<lambda>u. a \<le> u) log + n \<le> used s'" using a(3) kept(3) by linarith
    then have "used_in (\<lambda>u. a \<le> u) log + n \<le> limit" using kept(4) none a(4) by auto
    moreover have "\<forall>e \<in> set (log @ logged now amount). fst e < a + window" using a(2) kept(4) logged_time by fastforce
    ultimately show ?thesis using kept(2) a assms(2) sums unfolding remembered_def grow by simp
  next
    case restarted
    have before: "used_in (\<lambda>u. now - window \<le> u) log \<le> limit" "\<forall>e \<in> set log. fst e < now"
      using since_end [OF assms(1,2) restarted(2)] by simp_all
    have "used_in (\<lambda>u. now - window \<le> u \<and> u < now) log \<le> limit"
      using before(1) used_in_mono [of "\<lambda>u. now - window \<le> u \<and> u < now" "\<lambda>u. now - window \<le> u" log] by simp
    moreover have "used_in (\<lambda>u. now \<le> u) log = 0" using before(2) by (auto simp: used_in_def charged_sum_def)
    moreover have "\<forall>e \<in> set (log @ logged now amount). fst e < now + window" using before(2) window_pos logged_time by fastforce
    ultimately show ?thesis using restarted none unfolding remembered_def grow by auto
  next
    case forgotten
    have "used_in (\<lambda>u. now - window \<le> u) log \<le> limit" "\<forall>e \<in> set log. fst e < now"
      using since_end [OF assms(1,2) forgotten(2)] by simp_all
    then show ?thesis using forgotten by (simp add: remembered_def logged_def)
  qed
qed

lemma run_remembers: "run s0 t s log \<Longrightarrow> remembered t s log"
proof (induction rule: run.induct)
  case (initial t)
  then show ?case by (simp add: remembered_def split: option.splits)
next
  case (admit t s log now n s')
  then show ?case using remembered_step [of t s log now "Some n" s'] by (simp add: logged_def)
next
  case (other t s log now s')
  then show ?case using remembered_step [of t s log now None s'] by (simp add: logged_def)
qed

text \<open>An interval of the length of the window meets at most two windows.\<close>

lemma two_windows:
  assumes "remembered t s log" "t \<le> x" "started s \<noteq> None"
  shows "used_in (\<lambda>u. x - window < u \<and> u \<le> x) log \<le> 2 * limit"
proof -
  obtain a where a: "started s = Some a" using assms(3) by auto
  have "used_in (\<lambda>u. x - window < u \<and> u \<le> x) log \<le> used_in (\<lambda>u. a \<le> u) log + used_in (\<lambda>u. a - window \<le> u \<and> u < a) log"
    by (rule used_in_split) (use assms(1,2) a in \<open>auto simp: remembered_def\<close>)
  then show ?thesis using assms(1) a by (simp add: remembered_def)
qed

lemma admit_starts: "step now s (Some n) s' \<Longrightarrow> started s' \<noteq> None"
  using step_cases [of now s "Some n" s'] by auto

lemma every_interval_within: "run s0 t s log \<Longrightarrow> used_in (\<lambda>u. x - window < u \<and> u \<le> x) log \<le> 2 * limit"
proof (induction arbitrary: x rule: run.induct)
  case (admit t s log now n s')
  show ?case
  proof (cases "now \<le> x")
    case True
    have "run s0 now s' (log @ [(now, n)])" using admit.hyps by (rule run.admit)
    from two_windows [OF run_remembers [OF this] True admit_starts [OF admit.hyps(3)]] show ?thesis .
  next
    case False
    then show ?thesis using admit.IH [of x] by simp
  qed
qed simp_all

end

section \<open>The limits of the room sockets\<close>

definition WINDOW :: int where "WINDOW = 10000000000"
definition MAX_TRACKED_SCOPES :: nat where "MAX_TRACKED_SCOPES = 512"

record scope_policy =
  sp_messages :: nat
  sp_bytes :: nat
  sp_control_frames :: nat
  sp_history_requests :: nat
  sp_history_events :: nat

definition GLOBAL_POLICY :: scope_policy where
  "GLOBAL_POLICY = \<lparr>sp_messages = 4096, sp_bytes = 32 * 1024 * 1024, sp_control_frames = 1024,
     sp_history_requests = 640, sp_history_events = 6400\<rparr>"

definition PRINCIPAL_POLICY :: scope_policy where
  "PRINCIPAL_POLICY = \<lparr>sp_messages = 256, sp_bytes = 2 * 1024 * 1024, sp_control_frames = 64,
     sp_history_requests = 10, sp_history_events = 1000\<rparr>"

definition ROOM_POLICY :: scope_policy where
  "ROOM_POLICY = \<lparr>sp_messages = 2048, sp_bytes = 16 * 1024 * 1024, sp_control_frames = 512,
     sp_history_requests = 320, sp_history_events = 3200\<rparr>"

record window_counters =
  wc_started_at :: int
  wc_messages :: nat
  wc_bytes :: nat
  wc_control_frames :: nat
  wc_history_requests :: nat
  wc_history_events :: nat

definition new_counters :: "int \<Rightarrow> window_counters" where
  "new_counters now = \<lparr>wc_started_at = now, wc_messages = 0, wc_bytes = 0, wc_control_frames = 0,
     wc_history_requests = 0, wc_history_events = 0\<rparr>"

definition window_expired :: "int \<Rightarrow> window_counters \<Rightarrow> bool" where
  "window_expired now w \<longleftrightarrow> WINDOW \<le> max 0 (now - wc_started_at w)"

definition prepare_counters :: "int \<Rightarrow> window_counters \<Rightarrow> window_counters" where
  "prepare_counters now w = (if window_expired now w then new_counters now else w)"

definition charge_frame :: "int \<Rightarrow> nat \<Rightarrow> bool \<Rightarrow> scope_policy \<Rightarrow> window_counters \<Rightarrow> bool \<times> window_counters" where
  "charge_frame now bytes control_frame policy w =
     (let w = prepare_counters now w;
          w = w\<lparr>wc_messages := wc_messages w + 1, wc_bytes := wc_bytes w + bytes,
                wc_control_frames := (if control_frame then wc_control_frames w + 1 else wc_control_frames w)\<rparr> in
      (wc_messages w \<le> sp_messages policy \<and> wc_bytes w \<le> sp_bytes policy \<and>
         wc_control_frames w \<le> sp_control_frames policy, w))"

definition admits_history :: "nat \<Rightarrow> scope_policy \<Rightarrow> window_counters \<Rightarrow> bool" where
  "admits_history events policy w \<longleftrightarrow>
     wc_history_requests w + 1 \<le> sp_history_requests policy \<and> wc_history_events w + events \<le> sp_history_events policy"

definition commit_history :: "nat \<Rightarrow> window_counters \<Rightarrow> window_counters" where
  "commit_history events w =
     w\<lparr>wc_history_requests := wc_history_requests w + 1, wc_history_events := wc_history_events w + events\<rparr>"

type_synonym windows = "(rstr, window_counters) omap"

record socket_admission_state =
  sk_global :: window_counters
  sk_principals :: windows
  sk_rooms :: windows

definition new_socket_admission :: "int \<Rightarrow> socket_admission_state" where
  "new_socket_admission now = \<lparr>sk_global = new_counters now, sk_principals = [], sk_rooms = []\<rparr>"

definition ensure_capacity :: "rstr \<Rightarrow> int \<Rightarrow> windows \<Rightarrow> bool \<times> windows" where
  "ensure_capacity k now m =
     (if om_contains m k then (True, m)
      else let m = (if MAX_TRACKED_SCOPES \<le> length m then filter (\<lambda>e. \<not> window_expired now (snd e)) m else m) in
        (length m < MAX_TRACKED_SCOPES, m))"

definition charge_existing_frame :: "rstr \<Rightarrow> int \<Rightarrow> nat \<Rightarrow> bool \<Rightarrow> scope_policy \<Rightarrow> windows \<Rightarrow> windows" where
  "charge_existing_frame k now bytes control_frame policy m =
     (case om_get m k of None \<Rightarrow> m | Some w \<Rightarrow> om_insert k (snd (charge_frame now bytes control_frame policy w)) m)"

definition charge_entry :: "rstr \<Rightarrow> int \<Rightarrow> nat \<Rightarrow> bool \<Rightarrow> scope_policy \<Rightarrow> windows \<Rightarrow> bool \<times> windows" where
  "charge_entry k now bytes control_frame policy m =
     (let (allowed, w) = charge_frame now bytes control_frame policy (unwrap_or (new_counters now) (om_get m k)) in
      (allowed, om_insert k w m))"

definition charge_frame_scopes ::
  "rstr \<Rightarrow> rstr \<Rightarrow> int \<Rightarrow> nat \<Rightarrow> bool \<Rightarrow> socket_admission_state \<Rightarrow> bool \<times> socket_admission_state" where
  "charge_frame_scopes principal_id rid now bytes control_frame st =
     (let (principal_capacity, principals) = ensure_capacity principal_id now (sk_principals st);
          (room_capacity, rooms) = ensure_capacity rid now (sk_rooms st);
          (global_allowed, global) = charge_frame now bytes control_frame GLOBAL_POLICY (sk_global st) in
      if \<not> principal_capacity \<or> \<not> room_capacity
      then (False, \<lparr>sk_global = global,
              sk_principals = charge_existing_frame principal_id now bytes control_frame PRINCIPAL_POLICY principals,
              sk_rooms = charge_existing_frame rid now bytes control_frame ROOM_POLICY rooms\<rparr>)
      else
        let (principal_allowed, principals) = charge_entry principal_id now bytes control_frame PRINCIPAL_POLICY principals;
            (room_allowed, rooms) = charge_entry rid now bytes control_frame ROOM_POLICY rooms in
        (global_allowed \<and> principal_allowed \<and> room_allowed,
         \<lparr>sk_global = global, sk_principals = principals, sk_rooms = rooms\<rparr>))"

text \<open>The windows of a history request are prepared even when it is refused; the tables are checked in order.\<close>

definition prepare_entry :: "rstr \<Rightarrow> int \<Rightarrow> windows \<Rightarrow> window_counters" where
  "prepare_entry k now m = prepare_counters now (unwrap_or (new_counters now) (om_get m k))"

definition admit_history :: "rstr \<Rightarrow> rstr \<Rightarrow> int \<Rightarrow> nat \<Rightarrow> socket_admission_state \<Rightarrow> bool \<times> socket_admission_state" where
  "admit_history principal_id rid now requested st =
     (let (principal_capacity, principals) = ensure_capacity principal_id now (sk_principals st) in
      if \<not> principal_capacity then (False, st\<lparr>sk_principals := principals\<rparr>)
      else
        let (room_capacity, rooms) = ensure_capacity rid now (sk_rooms st) in
        if \<not> room_capacity then (False, st\<lparr>sk_principals := principals, sk_rooms := rooms\<rparr>)
        else
          let global = prepare_counters now (sk_global st);
              p = prepare_entry principal_id now principals;
              r = prepare_entry rid now rooms;
              admitted = admits_history requested GLOBAL_POLICY global \<and> admits_history requested PRINCIPAL_POLICY p \<and>
                admits_history requested ROOM_POLICY r;
              commit = (\<lambda>w. if admitted then commit_history requested w else w) in
          (admitted, \<lparr>sk_global = commit global, sk_principals = om_insert principal_id (commit p) principals,
             sk_rooms = om_insert rid (commit r) rooms\<rparr>))"

section \<open>What is limited\<close>

datatype socket_scope = Global_Scope | Principal_Scope rstr | Room_Scope rstr

datatype socket_measure = Messages | Bytes | Control_Frames | History_Requests | History_Events

fun counter :: "socket_measure \<Rightarrow> window_counters \<Rightarrow> nat" where
  "counter Messages w = wc_messages w"
| "counter Bytes w = wc_bytes w"
| "counter Control_Frames w = wc_control_frames w"
| "counter History_Requests w = wc_history_requests w"
| "counter History_Events w = wc_history_events w"

fun policy_limit :: "socket_measure \<Rightarrow> scope_policy \<Rightarrow> nat" where
  "policy_limit Messages p = sp_messages p"
| "policy_limit Bytes p = sp_bytes p"
| "policy_limit Control_Frames p = sp_control_frames p"
| "policy_limit History_Requests p = sp_history_requests p"
| "policy_limit History_Events p = sp_history_events p"

fun scope_window :: "socket_scope \<Rightarrow> socket_admission_state \<Rightarrow> window_counters option" where
  "scope_window Global_Scope st = Some (sk_global st)"
| "scope_window (Principal_Scope p) st = om_get (sk_principals st) p"
| "scope_window (Room_Scope rid) st = om_get (sk_rooms st) rid"

fun policy_of :: "socket_scope \<Rightarrow> scope_policy" where
  "policy_of Global_Scope = GLOBAL_POLICY"
| "policy_of (Principal_Scope _) = PRINCIPAL_POLICY"
| "policy_of (Room_Scope _) = ROOM_POLICY"

datatype socket_op =
    Frame (op_time: int) (op_principal: rstr) (op_room: rstr) nat bool
  | History (op_time: int) (op_principal: rstr) (op_room: rstr) nat

fun socket_op_run :: "socket_op \<Rightarrow> socket_admission_state \<Rightarrow> bool \<times> socket_admission_state" where
  "socket_op_run (Frame now p rid bytes control_frame) st = charge_frame_scopes p rid now bytes control_frame st"
| "socket_op_run (History now p rid requested) st = admit_history p rid now requested st"

text \<open>What an admitted operation uses.\<close>

fun op_amount :: "socket_measure \<Rightarrow> socket_op \<Rightarrow> nat option" where
  "op_amount Messages (Frame _ _ _ _ _) = Some 1"
| "op_amount Bytes (Frame _ _ _ bytes _) = Some bytes"
| "op_amount Control_Frames (Frame _ _ _ _ control_frame) = Some (of_bool control_frame)"
| "op_amount History_Requests (History _ _ _ _) = Some 1"
| "op_amount History_Events (History _ _ _ requested) = Some requested"
| "op_amount _ _ = None"

fun in_scope :: "socket_scope \<Rightarrow> socket_op \<Rightarrow> bool" where
  "in_scope Global_Scope x = True"
| "in_scope (Principal_Scope p) x = (op_principal x = p)"
| "in_scope (Room_Scope rid) x = (op_room x = rid)"

definition admitted_amount :: "socket_scope \<Rightarrow> socket_measure \<Rightarrow> socket_op \<Rightarrow> bool \<Rightarrow> nat option" where
  "admitted_amount sc m x admitted = (if admitted \<and> in_scope sc x then op_amount m x else None)"

definition socket_ok :: "socket_admission_state \<Rightarrow> bool" where
  "socket_ok st \<longleftrightarrow> om_wf (sk_principals st) \<and> om_wf (sk_rooms st) \<and>
     length (sk_principals st) \<le> MAX_TRACKED_SCOPES \<and> length (sk_rooms st) \<le> MAX_TRACKED_SCOPES"

section \<open>One window\<close>

definition window_used :: "socket_measure \<Rightarrow> window_counters option \<Rightarrow> nat" where
  "window_used m wo = (case wo of None \<Rightarrow> 0 | Some w \<Rightarrow> counter m w)"

definition window_start :: "window_counters option \<Rightarrow> int option" where
  "window_start wo = map_option wc_started_at wo"

definition window_step ::
  "socket_measure \<Rightarrow> scope_policy \<Rightarrow> int \<Rightarrow> window_counters option \<Rightarrow> nat option \<Rightarrow> window_counters option \<Rightarrow> bool" where
  "window_step m policy now wo amount wo' \<longleftrightarrow>
     (window_start wo' = window_start wo \<and> window_start wo \<noteq> None \<and> window_used m wo + unwrap_or 0 amount \<le> window_used m wo' \<and>
        (amount = None \<or> window_used m wo' \<le> policy_limit m policy \<and> (\<forall>t. window_start wo = Some t \<longrightarrow> now < t + WINDOW))) \<or>
     (window_start wo' = Some now \<and> (\<forall>t. window_start wo = Some t \<longrightarrow> t + WINDOW \<le> now) \<and> unwrap_or 0 amount \<le> window_used m wo' \<and>
        (amount = None \<or> window_used m wo' \<le> policy_limit m policy)) \<or>
     (window_start wo' = None \<and> (\<forall>t. window_start wo = Some t \<longrightarrow> t + WINDOW \<le> now) \<and> amount = None)"

lemma expired_iff: "window_expired now w \<longleftrightarrow> wc_started_at w + WINDOW \<le> now"
  by (auto simp: window_expired_def WINDOW_def)

lemma not_expired_new: "\<not> window_expired now (new_counters now)"
  by (simp add: expired_iff new_counters_def WINDOW_def)

lemma window_step_refl: "window_step m policy now wo None wo"
  by (cases wo) (simp_all add: window_step_def window_start_def)

text \<open>An entry that is made now is a window that starts now.\<close>

lemma window_step_new:
  assumes "window_step m policy now (Some (new_counters now)) amount (Some w')"
  shows "window_step m policy now None amount (Some w')"
  using assms by (cases m) (auto simp: window_step_def window_start_def window_used_def new_counters_def WINDOW_def)

definition frame_amount :: "socket_measure \<Rightarrow> nat \<Rightarrow> bool \<Rightarrow> nat option" where
  "frame_amount m bytes control_frame = op_amount m (Frame 0 [] [] bytes control_frame)"

definition history_amount :: "socket_measure \<Rightarrow> nat \<Rightarrow> nat option" where
  "history_amount m requested = op_amount m (History 0 [] [] requested)"

lemma op_amount_eq:
  "op_amount m (Frame now p rid bytes control_frame) = frame_amount m bytes control_frame"
  "op_amount m (History now p rid requested) = history_amount m requested"
  by (cases m; simp add: frame_amount_def history_amount_def)+

lemma window_stepI:
  assumes "wc_started_at w' = wc_started_at (prepare_counters now w)"
    and "counter m (prepare_counters now w) + unwrap_or 0 amount \<le> counter m w'"
    and "amount = None \<or> counter m w' \<le> policy_limit m policy"
  shows "window_step m policy now (Some w) amount (Some w')"
proof (cases "window_expired now w")
  case True
  then have "wc_started_at w' = now" using assms(1) by (simp add: prepare_counters_def new_counters_def)
  then show ?thesis using True assms(2,3) by (simp add: window_step_def window_start_def window_used_def expired_iff)
next
  case False
  then have "prepare_counters now w = w" by (simp add: prepare_counters_def)
  then show ?thesis using False assms by (auto simp: window_step_def window_start_def window_used_def expired_iff)
qed

lemma window_step_frame:
  assumes "charge_frame now bytes control_frame policy w = (allowed, w')" "amount = None \<or> allowed \<and> amount = frame_amount m bytes control_frame"
  shows "window_step m policy now (Some w) amount (Some w')"
proof (rule window_stepI)
  define p where "p = prepare_counters now w"
  have w': "w' = p\<lparr>wc_messages := wc_messages p + 1, wc_bytes := wc_bytes p + bytes,
      wc_control_frames := (if control_frame then wc_control_frames p + 1 else wc_control_frames p)\<rparr>"
    and allowed: "allowed \<longleftrightarrow> wc_messages w' \<le> sp_messages policy \<and> wc_bytes w' \<le> sp_bytes policy \<and> wc_control_frames w' \<le> sp_control_frames policy"
    using assms(1) by (auto simp: charge_frame_def p_def Let_def)
  show "wc_started_at w' = wc_started_at (prepare_counters now w)" by (simp add: w' p_def)
  show "counter m (prepare_counters now w) + unwrap_or 0 amount \<le> counter m w'"
    using assms(2) unfolding w' p_def [symmetric] by (cases m; cases "amount = None") (auto simp: frame_amount_def)
  show "amount = None \<or> counter m w' \<le> policy_limit m policy"
    using assms(2) allowed by (cases m) (auto simp: frame_amount_def)
qed

lemma window_step_history:
  assumes "w' = (if admitted then commit_history requested (prepare_counters now w) else prepare_counters now w)"
    and "admitted \<Longrightarrow> admits_history requested policy (prepare_counters now w)"
    and "amount = None \<or> admitted \<and> amount = history_amount m requested"
  shows "window_step m policy now (Some w) amount (Some w')"
proof (rule window_stepI)
  show "wc_started_at w' = wc_started_at (prepare_counters now w)" by (simp add: assms(1) commit_history_def)
  show "counter m (prepare_counters now w) + unwrap_or 0 amount \<le> counter m w'"
    using assms(3) unfolding assms(1) by (cases m; cases "amount = None"; cases admitted) (auto simp: history_amount_def commit_history_def)
  show "amount = None \<or> counter m w' \<le> policy_limit m policy"
    using assms by (cases m) (auto simp: history_amount_def admits_history_def commit_history_def)
qed

lemma ensure_capacity_step:
  assumes "ensure_capacity k now m = (room, m')" "om_wf m" "length m \<le> MAX_TRACKED_SCOPES"
  shows "om_wf m' \<and> length m' \<le> MAX_TRACKED_SCOPES \<and> om_get m' k = om_get m k \<and> window_step me policy now (om_get m j) None (om_get m' j) \<and>
    (room \<longrightarrow> om_get m' k \<noteq> None \<or> length m' < MAX_TRACKED_SCOPES)"
proof (cases "om_contains m k \<or> length m < MAX_TRACKED_SCOPES")
  case True
  then have "m' = m" using assms(1) by (auto simp: ensure_capacity_def Let_def split: if_splits)
  then show ?thesis using assms True by (auto simp: window_step_refl ensure_capacity_def om_contains_def split: if_splits)
next
  case False
  then have m': "m' = filter (\<lambda>e. \<not> window_expired now (snd e)) m" and room: "room \<longleftrightarrow> length m' < MAX_TRACKED_SCOPES"
    using assms(1) by (auto simp: ensure_capacity_def Let_def)
  have distinct: "distinct (map fst m)" using assms(2) by (auto simp: om_wf_def strict_sorted_iff)
  have get: "om_get m' x = (case om_get m x of None \<Rightarrow> None | Some w \<Rightarrow> if window_expired now w then None else Some w)" for x
    using distinct unfolding m' om_get_def by (induction m) (auto split: option.splits simp: map_of_eq_None_iff rev_image_eqI)
  have "sorted_wrt (<) (map fst m')" using assms(2) unfolding m' om_wf_def sorted_wrt_map by (rule sorted_wrt_filter)
  moreover have "window_step me policy now (om_get m j) None (om_get m' j)"
    by (cases "om_get m j") (auto simp: get window_step_refl window_step_def window_start_def expired_iff)
  moreover have "om_get m k = None" using False by (simp add: om_contains_def)
  ultimately show ?thesis using room assms(3) get [of k] by (auto simp: om_wf_def m' intro: order_trans [OF length_filter_le])
qed

text \<open>Charging or preparing the entry of a key after the capacity was ensured.\<close>

definition windows_ok :: "windows \<Rightarrow> bool" where
  "windows_ok m \<longleftrightarrow> om_wf m \<and> length m \<le> MAX_TRACKED_SCOPES"

lemma windows_ok_insert:
  "windows_ok m \<Longrightarrow> om_get m k \<noteq> None \<or> length m < MAX_TRACKED_SCOPES \<Longrightarrow> windows_ok (om_insert k w m)"
  using om_length_insert [of m k w] by (auto simp: windows_ok_def om_wf_insert)

definition windows_step :: "socket_measure \<Rightarrow> scope_policy \<Rightarrow> int \<Rightarrow> rstr \<Rightarrow> windows \<Rightarrow> nat option \<Rightarrow> windows \<Rightarrow> bool" where
  "windows_step me policy now k m amount m' \<longleftrightarrow> windows_ok m' \<and> window_step me policy now (om_get m k) amount (om_get m' k) \<and>
     (\<forall>j. j \<noteq> k \<longrightarrow> window_step me policy now (om_get m j) None (om_get m' j))"

lemma ensured_refused:
  assumes "windows_ok m" "ensure_capacity k now m = (room, m1)"
  shows "windows_step me policy now k m None m1"
proof -
  have m: "om_wf m" "length m \<le> MAX_TRACKED_SCOPES" using assms(1) by (simp_all add: windows_ok_def)
  have "window_step me policy now (om_get m j) None (om_get m1 j)" for j using ensure_capacity_step [OF assms(2) m] by blast
  moreover have "windows_ok m1" using ensure_capacity_step [OF assms(2) m] unfolding windows_ok_def by blast
  ultimately show ?thesis by (simp add: windows_step_def)
qed

lemma ensured_insert:
  assumes "windows_ok m" "ensure_capacity k now m = (room, m1)" "room \<or> om_get m1 k \<noteq> None"
    and "window_step me policy now (Some (unwrap_or (new_counters now) (om_get m1 k))) amount (Some w')"
  shows "windows_step me policy now k m amount (om_insert k w' m1)"
proof -
  note e = ensure_capacity_step [OF assms(2)]
  have m: "om_wf m" "length m \<le> MAX_TRACKED_SCOPES" using assms(1) by (simp_all add: windows_ok_def)
  have m1: "windows_ok m1" "om_get m1 k = om_get m k" "\<And>j. window_step me policy now (om_get m j) None (om_get m1 j)"
    "om_get m1 k \<noteq> None \<or> length m1 < MAX_TRACKED_SCOPES"
    using e [OF m] assms(3) unfolding windows_ok_def by blast+
  have "window_step me policy now (om_get m k) amount (Some w')"
    using assms(4) window_step_new [of me policy now amount w'] m1(2) by (cases "om_get m k") simp_all
  then show ?thesis using m1 windows_ok_insert [OF m1(1,4)] by (auto simp: windows_step_def)
qed

lemma ensured_charge:
  assumes "windows_ok m" "ensure_capacity k now m = (True, m1)" "charge_entry k now bytes control_frame policy m1 = (allowed, m')"
    and "amount = None \<or> allowed \<and> amount = frame_amount me bytes control_frame"
  shows "windows_step me policy now k m amount m'"
proof -
  obtain w' where c: "charge_frame now bytes control_frame policy (unwrap_or (new_counters now) (om_get m1 k)) = (allowed, w')" "m' = om_insert k w' m1"
    using assms(3) by (auto simp: charge_entry_def split: prod.splits)
  show ?thesis unfolding c(2) by (rule ensured_insert [OF assms(1,2) _ window_step_frame [OF c(1) assms(4)]]) simp
qed

lemma ensured_existing:
  assumes "windows_ok m" "ensure_capacity k now m = (room, m1)"
  shows "windows_step me policy now k m None (charge_existing_frame k now bytes control_frame policy m1)"
proof (cases "om_get m1 k")
  case None
  then show ?thesis using ensured_refused [OF assms] by (simp add: charge_existing_frame_def)
next
  case (Some w)
  obtain allowed w' where c: "charge_frame now bytes control_frame policy w = (allowed, w')" by fastforce
  have "window_step me policy now (Some (unwrap_or (new_counters now) (om_get m1 k))) None (Some w')"
    using window_step_frame [OF c] Some by simp
  from ensured_insert [OF assms _ this] show ?thesis using Some c by (simp add: charge_existing_frame_def)
qed

lemma ensured_history:
  assumes "windows_ok m" "ensure_capacity k now m = (True, m1)" "p = prepare_entry k now m1"
    and "w' = (if admitted then commit_history requested p else p)" "admitted \<Longrightarrow> admits_history requested policy p"
    and "amount = None \<or> admitted \<and> amount = history_amount me requested"
  shows "windows_step me policy now k m amount (om_insert k w' m1)"
  by (rule ensured_insert [OF assms(1,2) _ window_step_history [OF _ _ assms(6)]])
    (use assms(3-5) in \<open>auto simp: prepare_entry_def\<close>)

section \<open>Every operation is a step of every window\<close>

definition scope_step :: "socket_measure \<Rightarrow> socket_op \<Rightarrow> socket_admission_state \<Rightarrow> bool \<Rightarrow> socket_admission_state \<Rightarrow> bool" where
  "scope_step me x st admitted st' \<longleftrightarrow>
     (\<forall>sc. window_step me (policy_of sc) (op_time x) (scope_window sc st) (admitted_amount sc me x admitted) (scope_window sc st'))"

lemma scope_stepI:
  assumes "window_step me GLOBAL_POLICY (op_time x) (Some (sk_global st)) amount (Some (sk_global st'))"
    and "windows_step me PRINCIPAL_POLICY (op_time x) (op_principal x) (sk_principals st) amount (sk_principals st')"
    and "windows_step me ROOM_POLICY (op_time x) (op_room x) (sk_rooms st) amount (sk_rooms st')"
    and "amount = (if admitted then op_amount me x else None)"
  shows "scope_step me x st admitted st'"
  unfolding scope_step_def
proof
  fix sc
  show "window_step me (policy_of sc) (op_time x) (scope_window sc st) (admitted_amount sc me x admitted) (scope_window sc st')"
  proof (cases sc)
    case Global_Scope
    then show ?thesis using assms(1,4) by (simp add: admitted_amount_def)
  next
    case (Principal_Scope p)
    then show ?thesis using assms(2,4) by (cases "p = op_principal x") (simp_all add: admitted_amount_def windows_step_def)
  next
    case (Room_Scope rid)
    then show ?thesis using assms(3,4) by (cases "rid = op_room x") (simp_all add: admitted_amount_def windows_step_def)
  qed
qed

lemma socket_ok_iff: "socket_ok st \<longleftrightarrow> windows_ok (sk_principals st) \<and> windows_ok (sk_rooms st)"
  by (auto simp: socket_ok_def windows_ok_def)

lemma frame_scope_step:
  assumes "socket_ok st" "charge_frame_scopes p rid now bytes control_frame st = (admitted, st')"
  shows "socket_ok st' \<and> scope_step me (Frame now p rid bytes control_frame) st admitted st'"
proof -
  have ok: "windows_ok (sk_principals st)" "windows_ok (sk_rooms st)" using assms(1) by (simp_all add: socket_ok_iff)
  obtain pc ps where e1: "ensure_capacity p now (sk_principals st) = (pc, ps)" by fastforce
  obtain rc rs where e2: "ensure_capacity rid now (sk_rooms st) = (rc, rs)" by fastforce
  obtain ga g where e3: "charge_frame now bytes control_frame GLOBAL_POLICY (sk_global st) = (ga, g)" by fastforce
  show ?thesis
  proof (cases "pc \<and> rc")
    case False
    then have r: "admitted = False" "st' = \<lparr>sk_global = g,
        sk_principals = charge_existing_frame p now bytes control_frame PRINCIPAL_POLICY ps,
        sk_rooms = charge_existing_frame rid now bytes control_frame ROOM_POLICY rs\<rparr>"
      using assms(2) e1 e2 e3 by (auto simp: charge_frame_scopes_def Let_def)
    note P = ensured_existing [OF ok(1) e1, of me PRINCIPAL_POLICY bytes control_frame]
      and R = ensured_existing [OF ok(2) e2, of me ROOM_POLICY bytes control_frame]
      and G = window_step_frame [OF e3, of None me]
    have "scope_step me (Frame now p rid bytes control_frame) st admitted st'"
      using P R G by (intro scope_stepI [where amount = None]) (simp_all add: r)
    then show ?thesis using P R by (simp add: socket_ok_iff r windows_step_def)
  next
    case True
    obtain pa ps' where c1: "charge_entry p now bytes control_frame PRINCIPAL_POLICY ps = (pa, ps')" by fastforce
    obtain ra rs' where c2: "charge_entry rid now bytes control_frame ROOM_POLICY rs = (ra, rs')" by fastforce
    have r: "admitted \<longleftrightarrow> ga \<and> pa \<and> ra" "st' = \<lparr>sk_global = g, sk_principals = ps', sk_rooms = rs'\<rparr>"
      using assms(2) e1 e2 e3 c1 c2 True by (auto simp: charge_frame_scopes_def Let_def)
    define amount where "amount = (if admitted then frame_amount me bytes control_frame else None)"
    have a: "amount = None \<or> admitted \<and> amount = frame_amount me bytes control_frame" by (simp add: amount_def)
    have P: "windows_step me PRINCIPAL_POLICY now p (sk_principals st) amount ps'"
      using e1 True a r(1) by (intro ensured_charge [OF ok(1) _ c1]) auto
    have R: "windows_step me ROOM_POLICY now rid (sk_rooms st) amount rs'"
      using e2 True a r(1) by (intro ensured_charge [OF ok(2) _ c2]) auto
    have G: "window_step me GLOBAL_POLICY now (Some (sk_global st)) amount (Some g)"
      using a r(1) by (intro window_step_frame [OF e3]) auto
    have "scope_step me (Frame now p rid bytes control_frame) st admitted st'"
      using P R G by (intro scope_stepI [where amount = amount]) (simp_all add: r(2) amount_def op_amount_eq)
    then show ?thesis using P R by (simp add: socket_ok_iff r(2) windows_step_def)
  qed
qed

lemma history_scope_step:
  assumes "socket_ok st" "admit_history p rid now requested st = (admitted, st')"
  shows "socket_ok st' \<and> scope_step me (History now p rid requested) st admitted st'"
proof -
  have ok: "windows_ok (sk_principals st)" "windows_ok (sk_rooms st)" using assms(1) by (simp_all add: socket_ok_iff)
  have idle: "windows_step me policy now k m None m" if "windows_ok m" for policy k m
    using that by (simp add: windows_step_def window_step_refl)
  obtain pc ps where e1: "ensure_capacity p now (sk_principals st) = (pc, ps)" by fastforce
  obtain rc rs where e2: "ensure_capacity rid now (sk_rooms st) = (rc, rs)" by fastforce
  note P = ensured_refused [OF ok(1) e1, of me PRINCIPAL_POLICY] and R = ensured_refused [OF ok(2) e2, of me ROOM_POLICY]
  consider "\<not> pc" | "pc" "\<not> rc" | "pc" "rc" by blast
  then show ?thesis
  proof cases
    case 1
    then have r: "admitted = False" "st' = st\<lparr>sk_principals := ps\<rparr>" using assms(2) e1 by (auto simp: admit_history_def)
    have "scope_step me (History now p rid requested) st admitted st'"
      using P idle [OF ok(2)] by (intro scope_stepI [where amount = None]) (simp_all add: r window_step_refl)
    then show ?thesis using P ok(2) by (simp add: socket_ok_iff r windows_step_def)
  next
    case 2
    then have r: "admitted = False" "st' = st\<lparr>sk_principals := ps, sk_rooms := rs\<rparr>" using assms(2) e1 e2 by (auto simp: admit_history_def)
    have "scope_step me (History now p rid requested) st admitted st'"
      using P R by (intro scope_stepI [where amount = None]) (simp_all add: r window_step_refl)
    then show ?thesis using P R by (simp add: socket_ok_iff r windows_step_def)
  next
    case 3
    define g where "g = prepare_counters now (sk_global st)"
    define wp where "wp = prepare_entry p now ps"
    define wr where "wr = prepare_entry rid now rs"
    have r: "admitted \<longleftrightarrow> admits_history requested GLOBAL_POLICY g \<and> admits_history requested PRINCIPAL_POLICY wp \<and> admits_history requested ROOM_POLICY wr"
      "st' = \<lparr>sk_global = if admitted then commit_history requested g else g,
         sk_principals = om_insert p (if admitted then commit_history requested wp else wp) ps,
         sk_rooms = om_insert rid (if admitted then commit_history requested wr else wr) rs\<rparr>"
      using assms(2) e1 e2 3 by (auto simp: admit_history_def g_def wp_def wr_def Let_def)
    define amount where "amount = (if admitted then history_amount me requested else None)"
    have a: "amount = None \<or> admitted \<and> amount = history_amount me requested" by (simp add: amount_def)
    have P: "windows_step me PRINCIPAL_POLICY now p (sk_principals st) amount (sk_principals st')"
      unfolding r(2) using ensured_history [OF ok(1) _ wp_def refl _ a, of PRINCIPAL_POLICY] e1 3 r(1) by simp
    have R: "windows_step me ROOM_POLICY now rid (sk_rooms st) amount (sk_rooms st')"
      unfolding r(2) using ensured_history [OF ok(2) _ wr_def refl _ a, of ROOM_POLICY] e2 3 r(1) by simp
    have G: "window_step me GLOBAL_POLICY now (Some (sk_global st)) amount (Some (sk_global st'))"
      using r a by (intro window_step_history [where admitted = admitted and requested = requested]) (auto simp: g_def)
    have "scope_step me (History now p rid requested) st admitted st'"
      using P R G by (intro scope_stepI [where amount = amount]) (simp_all add: amount_def op_amount_eq)
    then show ?thesis using P R by (simp add: socket_ok_iff windows_step_def)
  qed
qed

lemma socket_op_step: "socket_ok st \<Longrightarrow> socket_op_run x st = (admitted, st') \<Longrightarrow> socket_ok st' \<and> scope_step me x st admitted st'"
proof (cases x)
  case (Frame now p rid bytes control_frame)
  then show "socket_ok st \<Longrightarrow> socket_op_run x st = (admitted, st') \<Longrightarrow> ?thesis" by (simp add: frame_scope_step)
next
  case (History now p rid requested)
  then show "socket_ok st \<Longrightarrow> socket_op_run x st = (admitted, st') \<Longrightarrow> ?thesis" by (simp add: history_scope_step)
qed

definition socket_step ::
  "socket_scope \<Rightarrow> socket_measure \<Rightarrow> int \<Rightarrow> socket_admission_state \<Rightarrow> nat option \<Rightarrow> socket_admission_state \<Rightarrow> bool" where
  "socket_step sc me now st amount st' \<longleftrightarrow> socket_ok st \<and>
     (\<exists>x admitted. op_time x = now \<and> socket_op_run x st = (admitted, st') \<and> amount = admitted_amount sc me x admitted)"

interpretation socket_limits: fixed_window "socket_step sc me" "\<lambda>st. window_start (scope_window sc st)"
  "\<lambda>st. window_used me (scope_window sc st)" WINDOW "policy_limit me (policy_of sc)"
  for sc me
proof unfold_locales
  show "0 < WINDOW" by (simp add: WINDOW_def)
  fix now st amount st'
  assume "socket_step sc me now st amount st'"
  then obtain x admitted where ok: "socket_ok st" and x: "op_time x = now" "socket_op_run x st = (admitted, st')" "amount = admitted_amount sc me x admitted"
    unfolding socket_step_def by blast
  have "window_step me (policy_of sc) now (scope_window sc st) amount (scope_window sc st')"
    using socket_op_step [OF ok x(2), of me] x by (simp add: scope_step_def)
  then show "(window_start (scope_window sc st') = window_start (scope_window sc st) \<and> window_start (scope_window sc st) \<noteq> None \<and>
        window_used me (scope_window sc st) + unwrap_or 0 amount \<le> window_used me (scope_window sc st') \<and>
        (amount = None \<or> window_used me (scope_window sc st') \<le> policy_limit me (policy_of sc) \<and>
           (\<forall>t. window_start (scope_window sc st) = Some t \<longrightarrow> now < t + WINDOW))) \<or>
      (window_start (scope_window sc st') = Some now \<and> (\<forall>t. window_start (scope_window sc st) = Some t \<longrightarrow> t + WINDOW \<le> now) \<and>
        unwrap_or 0 amount \<le> window_used me (scope_window sc st') \<and>
        (amount = None \<or> window_used me (scope_window sc st') \<le> policy_limit me (policy_of sc))) \<or>
      (window_start (scope_window sc st') = None \<and> (\<forall>t. window_start (scope_window sc st) = Some t \<longrightarrow> t + WINDOW \<le> now) \<and> amount = None)"
    unfolding window_step_def .
qed

text \<open>Operations with whether each was admitted, and what they used of a scope.\<close>

fun socket_ops :: "socket_op list \<Rightarrow> socket_admission_state \<Rightarrow> (socket_op \<times> bool) list \<times> socket_admission_state" where
  "socket_ops [] st = ([], st)"
| "socket_ops (x # xs) st =
     (let (admitted, st) = socket_op_run x st; (log, st) = socket_ops xs st in ((x, admitted) # log, st))"

definition used_by :: "socket_scope \<Rightarrow> socket_measure \<Rightarrow> (socket_op \<times> bool) list \<Rightarrow> charge list" where
  "used_by sc me log = concat (map (\<lambda>(x, admitted). case admitted_amount sc me x admitted of None \<Rightarrow> [] | Some n \<Rightarrow> [(op_time x, n)]) log)"

lemma socket_ops_run:
  assumes "socket_limits.run sc me s0 t st used" "socket_ok st" "sorted (t # map op_time xs)" "socket_ops xs st = (log, st')"
  shows "socket_ok st' \<and> (\<exists>t'. socket_limits.run sc me s0 t' st' (used @ used_by sc me log))"
  using assms
proof (induction xs arbitrary: t st used log)
  case Nil
  then show ?case by (auto simp: used_by_def)
next
  case (Cons x xs)
  obtain admitted st1 where one: "socket_op_run x st = (admitted, st1)" by fastforce
  obtain rest where two: "socket_ops xs st1 = (rest, st')" and log: "log = (x, admitted) # rest"
    using Cons.prems(4) one by (auto split: prod.splits)
  have ok: "socket_ok st1" using socket_op_step [OF Cons.prems(2) one] by blast
  have step: "socket_step sc me (op_time x) st (admitted_amount sc me x admitted) st1"
    unfolding socket_step_def using Cons.prems(2) one by blast
  have later: "t \<le> op_time x" "sorted (op_time x # map op_time xs)" using Cons.prems(3) by auto
  show ?case
  proof (cases "admitted_amount sc me x admitted")
    case None
    then have "socket_limits.run sc me s0 (op_time x) st1 used"
      using socket_limits.run.other [OF Cons.prems(1) later(1)] step by simp
    from Cons.IH [OF this ok later(2) two] show ?thesis by (simp add: log used_by_def None)
  next
    case (Some n)
    then have "socket_limits.run sc me s0 (op_time x) st1 (used @ [(op_time x, n)])"
      using socket_limits.run.admit [OF Cons.prems(1) later(1)] step by simp
    from Cons.IH [OF this ok later(2) two] show ?thesis by (simp add: log used_by_def Some)
  qed
qed

text \<open>C36: whatever frames and history requests arrive on the sockets of all rooms, in time order, what is admitted in
  any interval of ten seconds is at most twice the limit of its scope, for the frames, their bytes, the control frames, the history
  requests and the events they ask for, and for the process, each principal and each room; the windows of idle principals and rooms may
  be forgotten meanwhile, and at most 512 of each are kept.\<close>

theorem socket_rate_bounded:
  assumes "sorted (created # map op_time xs)" and "socket_ops xs (new_socket_admission created) = (log, st)"
  shows "used_in (\<lambda>u. t - WINDOW < u \<and> u \<le> t) (used_by sc me log) \<le> 2 * policy_limit me (policy_of sc) \<and>
    length (sk_principals st) \<le> 512 \<and> length (sk_rooms st) \<le> 512"
proof -
  have ok: "socket_ok (new_socket_admission created)" by (simp add: socket_ok_def new_socket_admission_def om_wf_def)
  have "socket_limits.run sc me (new_socket_admission created) created (new_socket_admission created) []"
    by (rule socket_limits.run.initial) (cases sc; simp add: new_socket_admission_def window_start_def new_counters_def)
  from socket_ops_run [OF this ok assms] obtain t' where
    run: "socket_limits.run sc me (new_socket_admission created) t' st (used_by sc me log)" and "socket_ok st" by auto
  then show ?thesis using socket_limits.every_interval_within [OF run, of t]
    by (simp add: socket_ok_def MAX_TRACKED_SCOPES_def)
qed

lemma socket_rate_bounded_witness:
  "let xs = [Frame 0 (str ''p'') (str ''r'') 2097152 False, Frame 1 (str ''p'') (str ''r'') 3 False, History 2 (str ''p'') (str ''r'') 1000];
       (log, st) = socket_ops xs (new_socket_admission 0) in
   map snd log = [True, False, True] \<and>
   used_in (\<lambda>u. 2 - WINDOW < u \<and> u \<le> 2) (used_by (Principal_Scope (str ''p'')) Bytes log) \<le> 2 * policy_limit Bytes (policy_of (Principal_Scope (str ''p'')))"
proof -
  define xs where "xs = [Frame 0 (str ''p'') (str ''r'') 2097152 False, Frame 1 (str ''p'') (str ''r'') 3 False, History 2 (str ''p'') (str ''r'') 1000]"
  obtain log st where run: "socket_ops xs (new_socket_admission 0) = (log, st)" by fastforce
  have "sorted (0 # map op_time xs)" by (simp add: xs_def)
  note bound = socket_rate_bounded [OF this run, of 2 "Principal_Scope (str ''p'')" Bytes]
  have "map snd (fst (socket_ops xs (new_socket_admission 0))) = [True, False, True]" unfolding xs_def by code_simp
  then show ?thesis using bound run by (simp add: xs_def [symmetric])
qed

end
