(* ===== verification/Connections.thy ===== *)
theory Connections
  imports Prelude
begin

text \<open>
  The admission of socket connections (server/connection\_admission.rs): counts of the open
  leases in all, of each principal and of each room, kept with a generation for each scope.
  The abstract view is the set of the open leases; \<open>connection_ok\<close> says that every counter is
  the number of leases it stands for.
\<close>

section \<open>State\<close>

record limits =
  lim_total :: nat
  lim_principal :: nat
  lim_room :: nat

definition default_limits :: limits where
  "default_limits = \<lparr>lim_total = 128, lim_principal = 8, lim_room = 64\<rparr>"

record scope_entry =
  sc_generation :: "64 word"
  sc_active :: nat

record lease_record =
  lr_principal_id :: rstr
  lr_principal_generation :: "64 word"
  lr_room_id :: rstr
  lr_room_generation :: "64 word"

record admission_state =
  ad_sequence :: "64 word"
  ad_active :: nat
  ad_principals :: "rstr \<rightharpoonup> scope_entry"
  ad_rooms :: "rstr \<rightharpoonup> scope_entry"
  ad_leases :: "64 word \<rightharpoonup> lease_record"

datatype connection_error = GlobalLimit | PrincipalLimit | RoomLimit | IdentityUnavailable

definition new_admission :: admission_state where
  "new_admission = \<lparr>ad_sequence = 0, ad_active = 0, ad_principals = Map.empty, ad_rooms = Map.empty, ad_leases = Map.empty\<rparr>"

section \<open>Operations\<close>

definition scope_full :: "(rstr \<rightharpoonup> scope_entry) \<Rightarrow> rstr \<Rightarrow> nat \<Rightarrow> bool" where
  "scope_full scopes k limit \<longleftrightarrow> (case scopes k of None \<Rightarrow> False | Some e \<Rightarrow> limit \<le> sc_active e)"

definition checked_add_u64 :: "64 word \<Rightarrow> nat \<Rightarrow> 64 word option" where
  "checked_add_u64 w n = (if unat w + n < 2 ^ 64 then Some (w + of_nat n) else None)"

text \<open>The generation of a scope: a fresh identity if the scope is new, and the last identity used.\<close>

definition allocate_generation :: "(rstr \<rightharpoonup> scope_entry) \<Rightarrow> rstr \<Rightarrow> 64 word \<Rightarrow> 64 word \<times> 64 word" where
  "allocate_generation scopes k next = (case scopes k of None \<Rightarrow> (next + 1, next + 1) | Some e \<Rightarrow> (sc_generation e, next))"

definition charge_scope :: "rstr \<Rightarrow> 64 word \<Rightarrow> (rstr \<rightharpoonup> scope_entry) \<Rightarrow> (rstr \<rightharpoonup> scope_entry)" where
  "charge_scope k generation scopes =
     (let e = unwrap_or \<lparr>sc_generation = generation, sc_active = 0\<rparr> (scopes k) in scopes(k \<mapsto> e\<lparr>sc_active := sc_active e + 1\<rparr>))"

definition acquire_connection ::
  "limits \<Rightarrow> rstr \<Rightarrow> rstr \<Rightarrow> admission_state \<Rightarrow> (connection_error + 64 word) \<times> admission_state" where
  "acquire_connection limits principal_id rid st =
     (if lim_total limits \<le> ad_active st then (Err GlobalLimit, st)
      else if scope_full (ad_principals st) principal_id (lim_principal limits) then (Err PrincipalLimit, st)
      else if scope_full (ad_rooms st) rid (lim_room limits) then (Err RoomLimit, st)
      else
        let identities = 1 + of_bool (ad_principals st principal_id = None) + of_bool (ad_rooms st rid = None) in
        case checked_add_u64 (ad_sequence st) identities of
          None \<Rightarrow> (Err IdentityUnavailable, st)
        | Some final_sequence \<Rightarrow>
            let (principal_generation, next) = allocate_generation (ad_principals st) principal_id (ad_sequence st);
                (room_generation, next) = allocate_generation (ad_rooms st) rid next;
                lease_id = next + 1 in
            (Ok lease_id,
             \<lparr>ad_sequence = final_sequence, ad_active = ad_active st + 1,
              ad_principals = charge_scope principal_id principal_generation (ad_principals st),
              ad_rooms = charge_scope rid room_generation (ad_rooms st),
              ad_leases = (ad_leases st)(lease_id \<mapsto>
                \<lparr>lr_principal_id = principal_id, lr_principal_generation = principal_generation,
                 lr_room_id = rid, lr_room_generation = room_generation\<rparr>)\<rparr>))"

definition release_scope :: "rstr \<Rightarrow> 64 word \<Rightarrow> (rstr \<rightharpoonup> scope_entry) \<Rightarrow> (rstr \<rightharpoonup> scope_entry)" where
  "release_scope k generation scopes =
     (case scopes k of
        None \<Rightarrow> scopes
      | Some e \<Rightarrow>
          if sc_generation e \<noteq> generation then scopes
          else let e = e\<lparr>sc_active := sc_active e - 1\<rparr> in
            if sc_active e = 0 then scopes(k := None) else scopes(k \<mapsto> e))"

definition release_connection :: "64 word \<Rightarrow> admission_state \<Rightarrow> admission_state" where
  "release_connection lease_id st =
     (case ad_leases st lease_id of
        None \<Rightarrow> st
      | Some record \<Rightarrow>
          st\<lparr>ad_leases := (ad_leases st)(lease_id := None), ad_active := ad_active st - 1,
             ad_principals := release_scope (lr_principal_id record) (lr_principal_generation record) (ad_principals st),
             ad_rooms := release_scope (lr_room_id record) (lr_room_generation record) (ad_rooms st)\<rparr>)"

section \<open>Every counter is the number of its leases\<close>

definition holders :: "(lease_record \<Rightarrow> rstr) \<Rightarrow> (64 word \<rightharpoonup> lease_record) \<Rightarrow> rstr \<Rightarrow> 64 word set" where
  "holders key leases k = {i \<in> dom leases. key (the (leases i)) = k}"

definition scope_ok ::
  "(lease_record \<Rightarrow> rstr) \<Rightarrow> (lease_record \<Rightarrow> 64 word) \<Rightarrow> (64 word \<rightharpoonup> lease_record) \<Rightarrow> (rstr \<rightharpoonup> scope_entry) \<Rightarrow> bool" where
  "scope_ok key generation leases scopes \<longleftrightarrow>
     (\<forall>k. case scopes k of
        None \<Rightarrow> holders key leases k = {}
      | Some e \<Rightarrow> sc_active e = card (holders key leases k) \<and> holders key leases k \<noteq> {} \<and>
          (\<forall>i \<in> holders key leases k. generation (the (leases i)) = sc_generation e))"

definition connection_ok :: "admission_state \<Rightarrow> bool" where
  "connection_ok st \<longleftrightarrow> ad_active st = card (dom (ad_leases st)) \<and> (\<forall>i \<in> dom (ad_leases st). i \<le> ad_sequence st) \<and>
     scope_ok lr_principal_id lr_principal_generation (ad_leases st) (ad_principals st) \<and>
     scope_ok lr_room_id lr_room_generation (ad_leases st) (ad_rooms st)"

lemma finite_leases [simp]: "finite (dom leases)" "finite (holders key leases k)"
  for leases :: "64 word \<rightharpoonup> lease_record"
  by simp_all

lemma holders_insert:
  "leases i = None \<Longrightarrow> holders key (leases(i \<mapsto> r)) k = (if key r = k then insert i (holders key leases k) else holders key leases k)"
  by (auto simp: holders_def split: if_splits)

lemma holders_remove: "holders key (leases(i := None)) k = holders key leases k - {i}"
  by (auto simp: holders_def)

lemma scope_ok_charge:
  assumes "scope_ok key generation leases scopes" "leases i = None" "key r = k" "generation r = g"
    and "\<And>e. scopes k = Some e \<Longrightarrow> g = sc_generation e"
  shows "scope_ok key generation (leases(i \<mapsto> r)) (charge_scope k g scopes)"
  unfolding scope_ok_def
proof
  fix j
  have new: "i \<notin> holders key leases j" using assms(2) by (auto simp: holders_def)
  have old: "generation (the ((leases(i \<mapsto> r)) x)) = generation (the (leases x))" if "x \<in> holders key leases j" for x
    using that new by auto
  show "case charge_scope k g scopes j of
      None \<Rightarrow> holders key (leases(i \<mapsto> r)) j = {}
    | Some e \<Rightarrow> sc_active e = card (holders key (leases(i \<mapsto> r)) j) \<and> holders key (leases(i \<mapsto> r)) j \<noteq> {} \<and>
        (\<forall>x \<in> holders key (leases(i \<mapsto> r)) j. generation (the ((leases(i \<mapsto> r)) x)) = sc_generation e)"
  proof (cases "j = k")
    case True
    then show ?thesis using assms new old spec [OF assms(1) [unfolded scope_ok_def], of j]
      by (cases "scopes k") (auto simp: charge_scope_def holders_insert Let_def)
  next
    case False
    then show ?thesis using assms new old spec [OF assms(1) [unfolded scope_ok_def], of j]
      by (cases "scopes j") (auto simp: charge_scope_def holders_insert Let_def)
  qed
qed

lemma scope_ok_release:
  assumes "scope_ok key generation leases scopes" "leases i = Some r"
  shows "scope_ok key generation (leases(i := None)) (release_scope (key r) (generation r) scopes)"
  unfolding scope_ok_def
proof
  fix j
  note at = spec [OF assms(1) [unfolded scope_ok_def]]
  have mem: "i \<in> holders key leases (key r)" using assms(2) by (auto simp: holders_def)
  then obtain e where e: "scopes (key r) = Some e" "sc_active e = card (holders key leases (key r))" "generation r = sc_generation e"
    using at [of "key r"] assms(2) by (fastforce split: option.splits)
  have card: "card (holders key leases (key r) - {i}) = sc_active e - 1" using mem e(2) by simp
  have empty: "sc_active e - 1 = 0 \<longleftrightarrow> holders key leases (key r) - {i} = {}" using card by (metis card_0_eq finite_Diff finite_leases(2))
  show "case release_scope (key r) (generation r) scopes j of
      None \<Rightarrow> holders key (leases(i := None)) j = {}
    | Some e \<Rightarrow> sc_active e = card (holders key (leases(i := None)) j) \<and> holders key (leases(i := None)) j \<noteq> {} \<and>
        (\<forall>x \<in> holders key (leases(i := None)) j. generation (the ((leases(i := None)) x)) = sc_generation e)"
  proof (cases "j = key r")
    case True
    then show ?thesis using e card empty at [of "key r"]
      by (auto simp: release_scope_def holders_remove Let_def)
  next
    case False
    then have "i \<notin> holders key leases j" using assms(2) by (auto simp: holders_def)
    then show ?thesis using False at [of j] e
      by (cases "scopes j") (auto simp: release_scope_def holders_remove Let_def)
  qed
qed

lemma checked_add_u64_unat: "checked_add_u64 w n = Some v \<Longrightarrow> unat v = unat w + n"
  by (auto simp: checked_add_u64_def unat_word_ariths unat_of_nat split: if_splits)

lemma unat_plus1: "unat w + 1 < 2 ^ 64 \<Longrightarrow> unat (w + 1) = unat w + 1" for w :: "64 word"
  by (simp add: unat_word_ariths)

lemma allocate_generation_unat:
  assumes "allocate_generation scopes k next = (g, next')" "unat next + of_bool (scopes k = None) < 2 ^ 64"
  shows "unat next' = unat next + of_bool (scopes k = None) \<and> (\<forall>e. scopes k = Some e \<longrightarrow> g = sc_generation e)"
  using assms unat_plus1 [of "next"] by (auto simp: allocate_generation_def split: option.splits)

lemma acquire_connection_new:
  assumes "connection_ok st" "acquire_connection limits p rid st = (Ok i, st')"
  shows "ad_leases st i = None \<and> i = ad_sequence st' \<and> connection_ok st' \<and> (\<exists>r. ad_leases st' = (ad_leases st)(i \<mapsto> r) \<and> lr_principal_id r = p \<and> lr_room_id r = rid)"
proof -
  obtain fin where fin: "checked_add_u64 (ad_sequence st) (1 + of_bool (ad_principals st p = None) + of_bool (ad_rooms st rid = None)) = Some fin"
    using assms(2) by (auto simp: acquire_connection_def Let_def split: if_splits option.splits)
  obtain pg n1 where a1: "allocate_generation (ad_principals st) p (ad_sequence st) = (pg, n1)" by fastforce
  obtain rg n2 where a2: "allocate_generation (ad_rooms st) rid n1 = (rg, n2)" by fastforce
  define r where "r = \<lparr>lr_principal_id = p, lr_principal_generation = pg, lr_room_id = rid, lr_room_generation = rg\<rparr>"
  have st': "i = n2 + 1" "st' = \<lparr>ad_sequence = fin, ad_active = ad_active st + 1,
      ad_principals = charge_scope p pg (ad_principals st), ad_rooms = charge_scope rid rg (ad_rooms st),
      ad_leases = (ad_leases st)(i \<mapsto> r)\<rparr>"
    using assms(2) fin a1 a2 by (auto simp: acquire_connection_def r_def Let_def split: if_splits)
  have room: "unat fin = unat (ad_sequence st) + (1 + of_bool (ad_principals st p = None) + of_bool (ad_rooms st rid = None))"
    using checked_add_u64_unat [OF fin] .
  have less: "unat fin < 2 ^ 64" using unsigned_less [of fin] by simp
  have n1: "unat n1 = unat (ad_sequence st) + of_bool (ad_principals st p = None)" "\<And>e. ad_principals st p = Some e \<Longrightarrow> pg = sc_generation e"
    using allocate_generation_unat [OF a1] room less by auto
  have n2: "unat n2 = unat n1 + of_bool (ad_rooms st rid = None)" "\<And>e. ad_rooms st rid = Some e \<Longrightarrow> rg = sc_generation e"
    using allocate_generation_unat [OF a2] n1 room less by auto
  have i: "unat i = unat fin" using st'(1) n1 n2 room less unat_plus1 [of n2] by simp
  then have "ad_sequence st < i" using room by (simp add: word_less_nat_alt)
  then have "i \<notin> dom (ad_leases st)" using assms(1) by (meson connection_ok_def leD)
  then have none: "ad_leases st i = None" by (simp add: domIff)
  have "scope_ok lr_principal_id lr_principal_generation (ad_leases st') (ad_principals st')"
    "scope_ok lr_room_id lr_room_generation (ad_leases st') (ad_rooms st')"
    using assms(1) none n1(2) n2(2) by (auto simp: st'(2) connection_ok_def r_def intro!: scope_ok_charge)
  moreover have "\<forall>j \<in> dom (ad_leases st'). j \<le> ad_sequence st'"
  proof
    fix j
    assume "j \<in> dom (ad_leases st')"
    then have "j = i \<or> j \<in> dom (ad_leases st)" by (auto simp: st'(2))
    moreover have "j \<le> ad_sequence st" if "j \<in> dom (ad_leases st)" using that assms(1) by (simp add: connection_ok_def)
    ultimately have "unat j = unat fin \<or> unat j \<le> unat (ad_sequence st)" using i unfolding word_le_nat_alt by metis
    then have "unat j \<le> unat fin" unfolding room by linarith
    then show "j \<le> ad_sequence st'" by (simp add: st'(2) word_le_nat_alt)
  qed
  ultimately have "connection_ok st'" using assms(1) none by (simp add: connection_ok_def st'(2) domIff)
  moreover have "i = ad_sequence st'" using i by (simp add: st'(2)) (rule unsigned_word_eqI)
  moreover have "ad_leases st' = (ad_leases st)(i \<mapsto> r)" by (simp add: st'(2))
  ultimately show ?thesis using none by (intro conjI exI [of _ r]) (simp_all add: r_def)
qed

lemma acquire_connection_refused: "acquire_connection limits p rid st = (Err e, st') \<Longrightarrow> st' = st"
  by (auto simp: acquire_connection_def Let_def split: if_splits option.splits prod.splits)

lemma release_connection_ok:
  assumes "connection_ok st"
  shows "connection_ok (release_connection i st) \<and> ad_leases (release_connection i st) = (ad_leases st)(i := None)"
proof (cases "ad_leases st i")
  case None
  then show ?thesis using assms by (simp add: release_connection_def) (metis fun_upd_triv)
next
  case (Some r)
  have "scope_ok lr_principal_id lr_principal_generation (ad_leases st) (ad_principals st)"
    "scope_ok lr_room_id lr_room_generation (ad_leases st) (ad_rooms st)" using assms by (simp_all add: connection_ok_def)
  moreover have "card (dom (ad_leases st) - {i}) = card (dom (ad_leases st)) - 1" using Some by (simp add: domI)
  ultimately show ?thesis using assms Some scope_ok_release [of lr_principal_id _ "ad_leases st" _ i r] scope_ok_release [of lr_room_id _ "ad_leases st" _ i r]
    by (auto simp: connection_ok_def release_connection_def)
qed

section \<open>Sequences of connections\<close>

datatype connection_op = Acquire rstr rstr | Release "64 word"

fun connection_step :: "connection_op \<Rightarrow> admission_state \<Rightarrow> admission_state" where
  "connection_step (Acquire p rid) st = snd (acquire_connection default_limits p rid st)"
| "connection_step (Release i) st = release_connection i st"

definition run_connections :: "connection_op list \<Rightarrow> admission_state" where
  "run_connections ops = foldl (\<lambda>st x. connection_step x st) new_admission ops"

text \<open>What a scope holds: the number of its open leases.\<close>

definition open_of_principal :: "admission_state \<Rightarrow> rstr \<Rightarrow> nat" where
  "open_of_principal st p = card (holders lr_principal_id (ad_leases st) p)"

definition open_in_room :: "admission_state \<Rightarrow> rstr \<Rightarrow> nat" where
  "open_in_room st rid = card (holders lr_room_id (ad_leases st) rid)"

definition open_leases :: "admission_state \<Rightarrow> nat" where
  "open_leases st = card (dom (ad_leases st))"

lemmas open_counts = open_of_principal_def open_in_room_def open_leases_def

lemma scope_ok_full: "scope_ok key generation leases scopes \<Longrightarrow> 0 < limit \<Longrightarrow> scope_full scopes k limit \<longleftrightarrow> limit \<le> card (holders key leases k)"
  by (cases "scopes k") (auto simp: scope_ok_def scope_full_def dest!: spec [of _ k])

lemma scope_ok_none: "scope_ok key generation leases scopes \<Longrightarrow> scopes k = None \<longleftrightarrow> card (holders key leases k) = 0"
  by (cases "scopes k") (auto simp: scope_ok_def dest!: spec [of _ k])

lemma acquire_connection_outcome:
  assumes "connection_ok st"
  shows "fst (acquire_connection default_limits p rid st) =
    (if 128 \<le> open_leases st then Err GlobalLimit
     else if 8 \<le> open_of_principal st p then Err PrincipalLimit
     else if 64 \<le> open_in_room st rid then Err RoomLimit
     else if unat (ad_sequence st) + 1 + of_bool (open_of_principal st p = 0) + of_bool (open_in_room st rid = 0) < 2 ^ 64
     then Ok (ad_sequence (snd (acquire_connection default_limits p rid st))) else Err IdentityUnavailable)"
proof -
  define n :: nat where "n = 1 + of_bool (ad_principals st p = None) + of_bool (ad_rooms st rid = None)"
  have ok: "scope_ok lr_principal_id lr_principal_generation (ad_leases st) (ad_principals st)"
    "scope_ok lr_room_id lr_room_generation (ad_leases st) (ad_rooms st)" using assms by (simp_all add: connection_ok_def)
  have scopes: "scope_full (ad_principals st) p 8 \<longleftrightarrow> 8 \<le> open_of_principal st p" "scope_full (ad_rooms st) rid 64 \<longleftrightarrow> 64 \<le> open_in_room st rid"
    unfolding open_counts by (rule scope_ok_full [OF ok(1)] scope_ok_full [OF ok(2)]; simp)+
  have active: "ad_active st = open_leases st" using assms by (simp add: connection_ok_def open_counts)
  have n: "n = 1 + of_bool (open_of_principal st p = 0) + of_bool (open_in_room st rid = 0)"
    unfolding n_def open_counts scope_ok_none [OF ok(1)] scope_ok_none [OF ok(2)] ..
  obtain r st' where run: "acquire_connection default_limits p rid st = (r, st')" by fastforce
  show ?thesis
  proof (cases "128 \<le> open_leases st \<or> 8 \<le> open_of_principal st p \<or> 64 \<le> open_in_room st rid")
    case True
    then show ?thesis using scopes active by (auto simp: acquire_connection_def default_limits_def)
  next
    case False
    then have r: "(case checked_add_u64 (ad_sequence st) n of None \<Rightarrow> r = Err IdentityUnavailable | Some _ \<Rightarrow> \<exists>i. r = Ok i)"
      using run scopes active by (auto simp: acquire_connection_def default_limits_def n_def Let_def split: option.splits prod.splits)
    show ?thesis
    proof (cases "unat (ad_sequence st) + n < 2 ^ 64")
      case True
      then obtain i where i: "r = Ok i" using r by (auto simp: checked_add_u64_def)
      then show ?thesis using acquire_connection_new [OF assms run [unfolded i]] False True n run by (simp add: add.assoc)
    next
      case big: False
      then show ?thesis using r False n run by (simp add: checked_add_u64_def add.assoc)
    qed
  qed
qed

definition within_connection_limits :: "admission_state \<Rightarrow> bool" where
  "within_connection_limits st \<longleftrightarrow> open_leases st \<le> 128 \<and> (\<forall>p. open_of_principal st p \<le> 8) \<and> (\<forall>rid. open_in_room st rid \<le> 64)"

lemma connection_step_ok:
  assumes "connection_ok st" "within_connection_limits st"
  shows "connection_ok (connection_step x st) \<and> within_connection_limits (connection_step x st)"
proof (cases x)
  case (Acquire p rid)
  obtain r st' where run: "acquire_connection default_limits p rid st = (r, st')" by fastforce
  show ?thesis
  proof (cases r)
    case (Inl e)
    then show ?thesis using run assms acquire_connection_refused [of default_limits p rid st e st'] Acquire by simp
  next
    case (Inr i)
    have below: "open_leases st < 128" "open_of_principal st p < 8" "open_in_room st rid < 64"
      using acquire_connection_outcome [OF assms(1), of p rid] run Inr by (auto split: if_splits)
    obtain l where l: "ad_leases st i = None" "connection_ok st'" "ad_leases st' = (ad_leases st)(i \<mapsto> l)" "lr_principal_id l = p" "lr_room_id l = rid"
      using acquire_connection_new [OF assms(1) run [unfolded Inr]] by blast
    then have i: "i \<notin> dom (ad_leases st)" "\<And>key k. i \<notin> holders key (ad_leases st) k" by (auto simp: holders_def)
    have "within_connection_limits st'"
      using assms(2) below i l by (auto simp: within_connection_limits_def open_counts holders_insert card_insert_if)
    then show ?thesis using l(2) run Acquire by simp
  qed
next
  case (Release i)
  have less: "card A \<le> n \<Longrightarrow> card (A - {i}) \<le> n" for A :: "64 word set" and n using card_Diff1_le [of A i] by linarith
  have "within_connection_limits (release_connection i st)"
    using release_connection_ok [OF assms(1), of i] assms(2) unfolding within_connection_limits_def open_counts
    by (auto simp: holders_remove intro!: less)
  then show ?thesis using release_connection_ok [OF assms(1), of i] Release by simp
qed

lemma run_connections_ok: "connection_ok (run_connections ops) \<and> within_connection_limits (run_connections ops)"
proof (induction ops rule: rev_induct)
  case Nil
  show ?case by (simp add: run_connections_def connection_ok_def within_connection_limits_def open_counts scope_ok_def holders_def new_admission_def)
next
  case (snoc x ops)
  then show ?case using connection_step_ok by (simp add: run_connections_def)
qed

text \<open>C38: after any connections were opened and closed, in any order and also when one is closed twice, at
  most 128 leases are open, at most 8 of a principal and 64 in a room; and a connection is refused exactly when one of the three counts
  of open leases is at its limit, with the error of the first such limit, or the lease numbers run out.  Nothing a refused or closed
  connection did counts.\<close>

theorem connection_admission_exact:
  "let st = run_connections ops in
    open_leases st \<le> 128 \<and> open_of_principal st p \<le> 8 \<and> open_in_room st rid \<le> 64 \<and>
    fst (acquire_connection default_limits p rid st) =
      (if 128 \<le> open_leases st then Err GlobalLimit
       else if 8 \<le> open_of_principal st p then Err PrincipalLimit
       else if 64 \<le> open_in_room st rid then Err RoomLimit
       else if unat (ad_sequence st) + 1 + of_bool (open_of_principal st p = 0) + of_bool (open_in_room st rid = 0) < 2 ^ 64
       then Ok (ad_sequence (snd (acquire_connection default_limits p rid st))) else Err IdentityUnavailable)"
  using run_connections_ok [of ops] acquire_connection_outcome [of "run_connections ops" p rid]
  by (simp add: within_connection_limits_def Let_def)


end
