(* ===== verification/Opencode_Events.thy ===== *)
theory Opencode_Events
  imports Commands
begin

text \<open>
  The event stream of an OpenCode turn (provider/opencode\_sse.rs) and the values it carries
  (provider/opencode\_protocol.rs). The response is the list of its chunks and how it ends; the
  JSON parser of the crate serde\_json is a parameter. An operation that changes its state and
  fails returns the state it leaves.
\<close>

section \<open>Values\<close>

definition value_get :: "json \<Rightarrow> string \<Rightarrow> json option" where
  "value_get v k = Option.bind (as_object v) (\<lambda>m. om_get m (str k))"

definition value_str :: "json option \<Rightarrow> rstr" where
  "value_str v = unwrap_or [] (Option.bind v as_str)"

datatype driver_error = Driver_Error string string

definition protocol_error :: driver_error where
  "protocol_error = Driver_Error ''provider_protocol_invalid'' ''The OpenCode session protocol response was invalid.''"

definition exact_alias_step :: "rstr option \<Rightarrow> json \<Rightarrow> driver_error + rstr option" where
  "exact_alias_step observed v =
     rbind (ok_or (as_str v) protocol_error) (\<lambda>s.
     rbind (ensure (s \<noteq> [] \<and> byte_len s \<le> 128 \<and> \<not> list_ex is_control s) protocol_error) (\<lambda>_.
     rbind (ensure (case observed of None \<Rightarrow> True | Some current \<Rightarrow> current = s) protocol_error) (\<lambda>_.
     Ok (Some s))))"

fun exact_alias :: "rstr option \<Rightarrow> json option list \<Rightarrow> driver_error + rstr option" where
  "exact_alias observed [] = Ok observed"
| "exact_alias observed (None # vs) = exact_alias observed vs"
| "exact_alias observed (Some v # vs) = rbind (exact_alias_step observed v) (\<lambda>observed. exact_alias observed vs)"

definition observed_model :: "(rstr, json) omap \<Rightarrow> driver_error + rstr option" where
  "observed_model info =
     rbind (case om_get info (str ''model'') of
              None \<Rightarrow> Ok None
            | Some v \<Rightarrow> rbind (ok_or (as_object v) protocol_error) (\<lambda>m. Ok (Some m))) (\<lambda>nested.
     let nested_get = (\<lambda>k. Option.bind nested (\<lambda>m. om_get m (str k))) in
     rbind (exact_alias None [om_get info (str ''providerID''), nested_get ''providerID'']) (\<lambda>provider.
     rbind (exact_alias None [om_get info (str ''modelID''), nested_get ''modelID'', nested_get ''id'']) (\<lambda>model.
     case (provider, model) of
       (Some p, Some m) \<Rightarrow> Ok (Some (p @ [47] @ m))
     | (None, None) \<Rightarrow> Ok None
     | _ \<Rightarrow> Err protocol_error)))"

definition clean_session_id :: "rstr \<Rightarrow> rstr option" where
  "clean_session_id v =
     (let s = trim v in
      if s \<noteq> [] \<and> s \<noteq> str ''.'' \<and> s \<noteq> str ''..'' \<and> byte_len s \<le> 128 \<and>
         list_all (\<lambda>c. is_ascii_alphanumeric c \<or> c \<in> set (str ''._-'')) s
      then Some s else None)"

definition session_path :: "rstr \<Rightarrow> driver_error + rstr" where
  "session_path i = rbind (ok_or (clean_session_id i) protocol_error) (\<lambda>i. Ok (str ''/session/'' @ i))"

record assistant_response =
  ar_id :: rstr
  ar_parent_id :: rstr
  ar_content :: rstr
  ar_observed_model :: rstr

definition assistant_message :: "json \<Rightarrow> driver_error + assistant_response" where
  "assistant_message v =
     rbind (ok_or (Option.bind (value_get v ''info'') as_object) protocol_error) (\<lambda>info.
     let field = (\<lambda>k. Option.bind (om_get info (str k)) as_str) in
     rbind (ensure (field ''role'' = Some (str ''assistant'')) protocol_error) (\<lambda>_.
     rbind (ok_or (Option.bind (field ''id'') clean_session_id) protocol_error) (\<lambda>i.
     rbind (ok_or (Option.bind (field ''parentID'') clean_session_id) protocol_error) (\<lambda>parent.
     let parts = unwrap_or [] (Option.bind (value_get v ''parts'') as_array);
         texts = List.map_filter (\<lambda>part. Option.bind (value_get part ''text'') as_str)
                   (filter (\<lambda>part. Option.bind (value_get part ''type'') as_str = Some (str ''text'')) parts) in
     rbind (observed_model info) (\<lambda>model.
     rbind (ok_or model protocol_error) (\<lambda>model.
     Ok \<lparr>ar_id = i, ar_parent_id = parent, ar_content = trim (concat texts), ar_observed_model = model\<rparr>))))))"

definition profile_error :: driver_error where
  "profile_error = Driver_Error ''invalid_runtime_profile'' ''The stored OpenCode runtime profile is invalid.''"

definition split_model :: "rstr \<Rightarrow> driver_error + rstr \<times> rstr" where
  "split_model model =
     (let provider = takeWhile (\<lambda>c. c \<noteq> 47) model; rest = dropWhile (\<lambda>c. c \<noteq> 47) model in
      rbind (ensure (rest \<noteq> [] \<and> provider \<in> {str ''opencode'', str ''opencode-go''} \<and> tl rest \<noteq> [] \<and> byte_len model \<le> 128 \<and>
         list_all (\<lambda>c. is_ascii_alphanumeric c \<or> c \<in> set (str ''._:/-'')) model) profile_error) (\<lambda>_.
      Ok (provider, tl rest)))"

definition provider_id :: "rstr \<Rightarrow> driver_error + rstr" where
  "provider_id model = rbind (split_model model) (\<lambda>x. Ok (fst x))"

definition model_id :: "rstr \<Rightarrow> driver_error + rstr" where
  "model_id model = rbind (split_model model) (\<lambda>x. Ok (snd x))"

definition validate_profile :: "durable_agent_session \<Rightarrow> driver_error + unit" where
  "validate_profile s =
     (let public = das_public s in
      rbind (provider_id (as_model public)) (\<lambda>_.
      rbind (model_id (as_model public)) (\<lambda>_.
      ensure (as_variant public \<in> {[], str ''high'', str ''max''} \<and>
              as_permission_mode public \<in> {str ''meeting_read_only'', str ''workspace_write''} \<and>
              as_reasoning_effort public = [] \<and> as_service_tier public = []) profile_error)))"

section \<open>One event\<close>

datatype open_code_event_error = Event_Transport | Event_Too_Large | Event_Protocol | Event_Provider

record open_code_turn_events =
  oce_request_message :: rstr
  oce_assistant_message :: rstr
  oce_observed_model :: rstr

definition no_turn_events :: open_code_turn_events where
  "no_turn_events = \<lparr>oce_request_message = [], oce_assistant_message = [], oce_observed_model = []\<rparr>"

datatype wait_mode = Wait_Turn | Wait_Quiescence

record event_state =
  es_session_id :: rstr
  es_mode :: wait_mode
  es_turn :: open_code_turn_events
  es_provider_error :: bool
  es_request :: "json option"

definition new_event_state :: "rstr \<Rightarrow> wait_mode \<Rightarrow> event_state" where
  "new_event_state session_id mode =
     \<lparr>es_session_id = session_id, es_mode = mode, es_turn = no_turn_events, es_provider_error = False, es_request = None\<rparr>"

definition terminal_idle :: "rstr \<Rightarrow> (rstr, json) omap \<Rightarrow> bool" where
  "terminal_idle event_type properties \<longleftrightarrow>
     event_type = str ''session.status'' \<and>
     Option.bind (Option.bind (om_get properties (str ''status'')) (\<lambda>status. value_get status ''type'')) as_str = Some (str ''idle'')"

definition clean_id :: "rstr \<Rightarrow> rstr" where
  "clean_id v = (let s = trim v in if s = [] \<or> 128 < byte_len s \<or> list_ex is_control s then [] else s)"

definition accept_message_updated ::
  "(rstr, json) omap \<Rightarrow> event_state \<Rightarrow> (open_code_event_error + bool) \<times> event_state" where
  "accept_message_updated info st =
     (let role = value_str (om_get info (str ''role''));
          message_id = clean_id (value_str (om_get info (str ''id'')));
          turn = es_turn st in
      if role = str ''user'' \<and> oce_request_message turn = []
      then (Ok False, st\<lparr>es_turn := turn\<lparr>oce_request_message := message_id\<rparr>\<rparr>)
      else if role = str ''assistant'' \<and> message_id \<noteq> [] \<and>
              Option.bind (om_get info (str ''parentID'')) as_str = Some (oce_request_message turn)
      then
        let turn = turn\<lparr>oce_assistant_message := message_id\<rparr>; st = st\<lparr>es_turn := turn\<rparr>;
            failed = (case om_get info (str ''error'') of None \<Rightarrow> False | Some v \<Rightarrow> as_object v \<noteq> None);
            finish = (\<lambda>st. (Ok False, if failed then st\<lparr>es_provider_error := True\<rparr> else st)) in
        (case observed_model info of
           Inl _ \<Rightarrow> (Err Event_Protocol, st)
         | Inr None \<Rightarrow> finish st
         | Inr (Some model) \<Rightarrow>
             if oce_observed_model turn \<noteq> [] \<and> oce_observed_model turn \<noteq> model then (Err Event_Protocol, st)
             else finish (st\<lparr>es_turn := turn\<lparr>oce_observed_model := model\<rparr>\<rparr>))
      else (Ok False, st))"

definition accept_event :: "json \<Rightarrow> event_state \<Rightarrow> (open_code_event_error + bool) \<times> event_state" where
  "accept_event event st =
     (let event_type = value_str (value_get event ''type'') in
      case Option.bind (value_get event ''properties'') as_object of
        None \<Rightarrow> (Ok False, st)
      | Some properties \<Rightarrow>
          if value_str (om_get properties (str ''sessionID'')) \<noteq> es_session_id st then (Ok False, st)
          else if event_type \<in> {str ''permission.asked'', str ''question.asked''} \<and> es_mode st = Wait_Turn
          then (Ok False, st\<lparr>es_request := Some event\<rparr>)
          else if event_type = str ''session.error'' then (Ok False, st\<lparr>es_provider_error := True\<rparr>)
          else if event_type = str ''message.updated''
          then (case Option.bind (om_get properties (str ''info'')) as_object of
                  None \<Rightarrow> (Ok False, st)
                | Some info \<Rightarrow> accept_message_updated info st)
          else if event_type = str ''session.status'' \<and> terminal_idle event_type properties \<and>
                  (es_mode st = Wait_Quiescence \<or> oce_request_message (es_turn st) \<noteq> [])
          then (if es_mode st = Wait_Turn \<and> es_provider_error st then (Err Event_Provider, st) else (Ok True, st))
          else (Ok False, st))"

section \<open>Lines\<close>

type_synonym bytes = "8 word list"
type_synonym json_reader = "bytes \<Rightarrow> json option"

definition MAX_EVENT_STREAM_BYTES :: nat where "MAX_EVENT_STREAM_BYTES = 8 * 1024 * 1024"
definition MAX_EVENT_LINE_BYTES :: nat where "MAX_EVENT_LINE_BYTES = 512 * 1024"
definition MAX_EVENTS :: nat where "MAX_EVENTS = 8192"

definition is_ascii_whitespace :: "8 word \<Rightarrow> bool" where
  "is_ascii_whitespace b \<longleftrightarrow> b \<in> {9, 10, 12, 13, 32}"

definition trim_ascii :: "bytes \<Rightarrow> bytes" where
  "trim_ascii v = rev (dropWhile is_ascii_whitespace (rev (dropWhile is_ascii_whitespace v)))"

text \<open>The line up to the first line feed, without it, and what follows.\<close>

fun take_line :: "bytes \<Rightarrow> (bytes \<times> bytes) option" where
  "take_line [] = None"
| "take_line (b # bs) =
     (if b = 10 then Some ([], bs) else map_option (\<lambda>(line, rest). (b # line, rest)) (take_line bs))"

lemma take_line_shorter: "take_line p = Some (line, rest) \<Longrightarrow> length rest < length p"
  by (induction p arbitrary: line) (fastforce split: if_splits)+

definition strip_line_end :: "bytes \<Rightarrow> bytes" where
  "strip_line_end line = rev (dropWhile (\<lambda>b. b \<in> {10, 13}) (rev line))"

definition data_of :: "bytes \<Rightarrow> bytes option" where
  "data_of line = (if take 5 line = [100, 97, 116, 97, 58] then Some (drop 5 line) else None)"

text \<open>The result is the bytes that are left, the state, the number of events and the outcome.\<close>

function accept_complete_lines ::
  "json_reader \<Rightarrow> bytes \<Rightarrow> event_state \<Rightarrow> nat \<Rightarrow> bytes \<times> event_state \<times> nat \<times> (open_code_event_error + bool)" where
  "accept_complete_lines J pending st n =
     (case take_line pending of
        None \<Rightarrow> (pending, st, n, Ok False)
      | Some (raw, rest) \<Rightarrow>
          let line = strip_line_end raw in
          if MAX_EVENT_LINE_BYTES < length line then (rest, st, n, Err Event_Too_Large)
          else case data_of line of
            None \<Rightarrow> accept_complete_lines J rest st n
          | Some encoded \<Rightarrow>
              case J (trim_ascii encoded) of
                None \<Rightarrow> (rest, st, n, Err Event_Protocol)
              | Some event \<Rightarrow>
                  if MAX_EVENTS < n + 1 then (rest, st, n + 1, Err Event_Too_Large)
                  else case accept_event event st of
                    (Inl e, st) \<Rightarrow> (rest, st, n + 1, Err e)
                  | (Inr ended, st) \<Rightarrow>
                      if ended \<or> es_request st \<noteq> None then (rest, st, n + 1, Ok True)
                      else accept_complete_lines J rest st (n + 1))"
  by pat_completeness auto
termination
  by (relation "measure (\<lambda>(J, pending, st, n). length pending)") (auto dest: take_line_shorter)

declare accept_complete_lines.simps [simp del]

section \<open>The stream of a turn\<close>

text \<open>The chunks that are still to come; a response that breaks off ends with an error.\<close>

record turn_event_stream =
  ts_chunks :: "bytes list"
  ts_breaks_off :: bool
  ts_state :: event_state
  ts_pending :: bytes
  ts_total :: nat
  ts_events :: nat

definition new_turn_event_stream :: "bytes list \<Rightarrow> bool \<Rightarrow> rstr \<Rightarrow> turn_event_stream" where
  "new_turn_event_stream chunks breaks_off session_id =
     \<lparr>ts_chunks = chunks, ts_breaks_off = breaks_off, ts_state = new_event_state session_id Wait_Turn,
      ts_pending = [], ts_total = 0, ts_events = 0\<rparr>"

datatype turn_event = Turn_Request json | Turn_Completed open_code_turn_events

definition take_turn_event :: "event_state \<Rightarrow> turn_event \<times> event_state" where
  "take_turn_event st =
     (case es_request st of
        None \<Rightarrow> (Turn_Completed (es_turn st), st\<lparr>es_turn := no_turn_events\<rparr>)
      | Some request \<Rightarrow> (Turn_Request request, st\<lparr>es_request := None\<rparr>))"

definition stream_ended :: "bool \<Rightarrow> event_state \<Rightarrow> open_code_event_error" where
  "stream_ended breaks_off st = (if \<not> breaks_off \<and> es_provider_error st then Event_Provider else Event_Transport)"

function next_turn_event :: "json_reader \<Rightarrow> turn_event_stream \<Rightarrow> (open_code_event_error + turn_event) \<times> turn_event_stream" where
  "next_turn_event J s =
     (let (pending, st, n, r) = accept_complete_lines J (ts_pending s) (ts_state s) (ts_events s);
          s = s\<lparr>ts_pending := pending, ts_state := st, ts_events := n\<rparr> in
      case r of
        Inl e \<Rightarrow> (Err e, s)
      | Inr True \<Rightarrow> (let (event, st) = take_turn_event st in (Ok event, s\<lparr>ts_state := st\<rparr>))
      | Inr False \<Rightarrow>
          (case ts_chunks s of
             [] \<Rightarrow> (Err (stream_ended (ts_breaks_off s) st), s)
           | chunk # chunks \<Rightarrow>
               let s = s\<lparr>ts_chunks := chunks, ts_total := ts_total s + length chunk\<rparr> in
               if MAX_EVENT_STREAM_BYTES < ts_total s then (Err Event_Too_Large, s)
               else
                 let s = s\<lparr>ts_pending := pending @ chunk\<rparr> in
                 if MAX_EVENT_LINE_BYTES < length (ts_pending s) \<and> 10 \<notin> set (ts_pending s) then (Err Event_Too_Large, s)
                 else next_turn_event J s))"
  by pat_completeness auto
termination
  by (relation "measure (\<lambda>(J, s). length (ts_chunks s))") auto

declare next_turn_event.simps [simp del]

definition wait_session_idle :: "json_reader \<Rightarrow> bool \<Rightarrow> bytes list \<Rightarrow> bool \<Rightarrow> rstr \<Rightarrow> open_code_event_error + unit" where
  "wait_session_idle J timed_out chunks breaks_off session_id =
     (let s = new_turn_event_stream chunks breaks_off session_id in
      if timed_out then Err Event_Transport
      else rbind (fst (next_turn_event J (s\<lparr>ts_state := (ts_state s)\<lparr>es_mode := Wait_Quiescence\<rparr>\<rparr>))) (\<lambda>event.
      case event of Turn_Completed _ \<Rightarrow> Ok () | Turn_Request _ \<Rightarrow> Err Event_Protocol))"

section \<open>Chunks do not matter\<close>

lemma take_line_append: "take_line p = Some (line, rest) \<Longrightarrow> take_line (p @ q) = Some (line, rest @ q)"
  by (induction p arbitrary: line) (auto split: if_splits)

lemma take_line_None: "take_line p = None \<longleftrightarrow> 10 \<notin> set p"
  by (induction p) auto

lemma take_line_Some: "take_line p = Some (line, rest) \<Longrightarrow> p = line @ 10 # rest \<and> 10 \<notin> set line"
  by (induction p arbitrary: line) (fastforce split: if_splits)+

text \<open>Reading lines of a prefix and then of the rest is reading the lines of the whole.\<close>

lemma accept_append:
  "accept_complete_lines J p st n = (rest, st', n', r) \<Longrightarrow>
   accept_complete_lines J (p @ q) st n =
     (if r = Ok False then accept_complete_lines J (rest @ q) st' n' else (rest @ q, st', n', r))"
proof (induction J p st n arbitrary: rest st' n' r rule: accept_complete_lines.induct)
  case (1 J p st n)
  show ?case
  proof (cases "take_line p")
    case None
    with 1(3) show ?thesis by (simp add: accept_complete_lines.simps [of J p])
  next
    case (Some x)
    then obtain raw left where x: "take_line p = Some (raw, left)" by (cases x) auto
    note whole = take_line_append [OF x, of q]
    note step = accept_complete_lines.simps [of J p] accept_complete_lines.simps [of J "p @ q"]
    let ?line = "strip_line_end raw"
    show ?thesis
    proof (cases "MAX_EVENT_LINE_BYTES < length ?line")
      case True
      with 1(3) x show ?thesis by (auto simp: step whole Let_def)
    next
      case False
      show ?thesis
      proof (cases "data_of ?line")
        case None
        with 1(3) x False have "accept_complete_lines J left st n = (rest, st', n', r)" by (simp add: step Let_def)
        from 1(1) [OF x refl refl False None this] show ?thesis using x False None by (simp add: step whole Let_def)
      next
        case d: (Some encoded)
        show ?thesis
        proof (cases "J (trim_ascii encoded)")
          case None
          with 1(3) x False d show ?thesis by (auto simp: step whole Let_def)
        next
          case e: (Some event)
          show ?thesis
          proof (cases "MAX_EVENTS < n + 1")
            case True
            with 1(3) x False d e show ?thesis by (auto simp: step whole Let_def)
          next
            case few: False
            obtain o1 st1 where a: "accept_event event st = (o1, st1)" by (cases "accept_event event st")
            show ?thesis
            proof (cases "\<exists>b. o1 = Ok b \<and> \<not> (b \<or> es_request st1 \<noteq> None)")
              case False
              with 1(3) x \<open>\<not> MAX_EVENT_LINE_BYTES < length ?line\<close> d e few a show ?thesis
                by (cases o1) (auto simp: step whole Let_def)
            next
              case True
              then obtain b where o1: "o1 = Ok b" and go: "\<not> (b \<or> es_request st1 \<noteq> None)" by blast
              have "accept_complete_lines J left st1 (n + 1) = (rest, st', n', r)"
                using 1(3) x False d e few a o1 go by (simp add: step Let_def)
              from 1(2) [OF x refl refl False d e few _ _ go this] a o1 x False d e few go show ?thesis
                by (simp add: step whole Let_def)
            qed
          qed
        qed
      qed
    qed
  qed
qed

text \<open>The bytes that are still to be read, and the streams none of whose lines is too long.\<close>

definition remaining :: "turn_event_stream \<Rightarrow> bytes" where
  "remaining s = ts_pending s @ concat (ts_chunks s)"

definition lines_bounded :: "bytes \<Rightarrow> bool" where
  "lines_bounded bs \<longleftrightarrow> (\<forall>xs ys zs. bs = xs @ ys @ zs \<and> 10 \<notin> set ys \<longrightarrow> length ys \<le> MAX_EVENT_LINE_BYTES)"

lemma lines_bounded_suffix: "lines_bounded (p @ q) \<Longrightarrow> lines_bounded q"
  unfolding lines_bounded_def by (metis append.assoc)

lemma lines_bounded_prefix: "lines_bounded (p @ q) \<Longrightarrow> 10 \<notin> set p \<Longrightarrow> length p \<le> MAX_EVENT_LINE_BYTES"
  unfolding lines_bounded_def by (metis append_Nil)

lemma lines_bounded_drop: "lines_bounded bs \<Longrightarrow> lines_bounded (drop k bs)"
  using lines_bounded_suffix [of "take k bs" "drop k bs"] by simp

text \<open>Reading an event from the bytes as a whole.\<close>

definition read_turn_event ::
  "json_reader \<Rightarrow> bool \<Rightarrow> bytes \<Rightarrow> event_state \<Rightarrow> nat \<Rightarrow> (open_code_event_error + turn_event) \<times> bytes \<times> event_state \<times> nat" where
  "read_turn_event J breaks_off bs st n =
     (let (rest, st, n, r) = accept_complete_lines J bs st n in
      case r of
        Inl e \<Rightarrow> (Err e, rest, st, n)
      | Inr ended \<Rightarrow>
          if ended then (Ok (fst (take_turn_event st)), rest, snd (take_turn_event st), n)
          else (Err (stream_ended breaks_off st), rest, st, n))"

text \<open>The ways one line can go.\<close>

lemma accept_line_cases:
  assumes run: "accept_complete_lines J p st n = (rest, st', n', r)" and x: "take_line p = Some (raw, left)"
  obtains (skip) "\<not> MAX_EVENT_LINE_BYTES < length (strip_line_end raw)" "data_of (strip_line_end raw) = None"
      "accept_complete_lines J left st n = (rest, st', n', r)"
    | (more) encoded event b st1 where "\<not> MAX_EVENT_LINE_BYTES < length (strip_line_end raw)" "data_of (strip_line_end raw) = Some encoded"
        "J (trim_ascii encoded) = Some event" "\<not> MAX_EVENTS < n + 1" "accept_event event st = (Ok b, st1)"
        "\<not> (b \<or> es_request st1 \<noteq> None)" "accept_complete_lines J left st1 (n + 1) = (rest, st', n', r)"
    | (ended) event b where "rest = left" "r \<noteq> Ok False"
        "accept_event event st = (r, st') \<or> accept_event event st = (Ok b, st') \<and> es_request st' \<noteq> None"
    | (failed) "rest = left" "r \<noteq> Ok False" "r \<noteq> Ok True" "st' = st"
proof -
  note step = accept_complete_lines.simps [of J p st n]
  let ?line = "strip_line_end raw"
  show thesis
  proof (cases "MAX_EVENT_LINE_BYTES < length ?line")
    case True
    with run x failed show thesis by (auto simp: step Let_def)
  next
    case short: False
    show thesis
    proof (cases "data_of ?line")
      case None
      with run x short skip show thesis by (simp add: step Let_def)
    next
      case d: (Some encoded)
      show thesis
      proof (cases "J (trim_ascii encoded)")
        case None
        with run x short d failed show thesis by (auto simp: step Let_def)
      next
        case e: (Some event)
        show thesis
        proof (cases "MAX_EVENTS < n + 1")
          case True
          with run x short d e failed show thesis by (auto simp: step Let_def)
        next
          case few: False
          obtain r1 st1 where a: "accept_event event st = (r1, st1)" by (cases "accept_event event st")
          show thesis
          proof (cases "\<exists>b. r1 = Ok b \<and> \<not> (b \<or> es_request st1 \<noteq> None)")
            case True
            then obtain b where b: "r1 = Ok b" "\<not> (b \<or> es_request st1 \<noteq> None)" by blast
            have "accept_complete_lines J left st1 (n + 1) = (rest, st', n', r)"
              using run x short d e few a b by (simp add: step Let_def)
            with more [OF short d e few] a b show thesis by blast
          next
            case False
            then have "rest = left" "r \<noteq> Ok False" "st' = st1" "r = r1 \<or> (\<exists>b. r1 = Ok b \<and> es_request st1 \<noteq> None)"
              using run x short d e few a by (cases r1; auto simp: step Let_def split: if_splits)+
            with ended a show thesis by metis
          qed
        qed
      qed
    qed
  qed
qed

lemma accept_leaves:
  "accept_complete_lines J p st n = (rest, st', n', r) \<Longrightarrow> (\<exists>k. rest = drop k p) \<and> (r = Ok False \<longrightarrow> 10 \<notin> set rest)"
proof (induction J p st n arbitrary: rest st' n' r rule: accept_complete_lines.induct)
  case (1 J p st n)
  show ?case
  proof (cases "take_line p")
    case None
    with 1(3) show ?thesis by (auto simp: accept_complete_lines.simps [of J p] take_line_None intro: exI [of _ 0])
  next
    case (Some x)
    then obtain raw left where x: "take_line p = Some (raw, left)" by (cases x) auto
    have left: "left = drop (length raw + 1) p" using take_line_Some [OF x] by simp
    then have later: "\<exists>k. drop j left = drop k p" for j by (auto simp: drop_drop)
    have here: "\<exists>k. left = drop k p" using left by blast
    from 1(3) x show ?thesis
    proof (cases rule: accept_line_cases)
      case skip
      from 1(1) [OF x refl refl skip] later show ?thesis by blast
    next
      case more
      from 1(2) [OF x refl refl more(1,2,3,4) _ _ more(6,7)] more(5) later show ?thesis by fastforce
    qed (use here in auto)
  qed
qed

text \<open>A stream in bounds is read like its bytes.\<close>

lemma next_reads:
  assumes "ts_total s + length (concat (ts_chunks s)) \<le> MAX_EVENT_STREAM_BYTES" "lines_bounded (remaining s)"
    and "next_turn_event J s = (r, s')"
  shows "read_turn_event J (ts_breaks_off s) (remaining s) (ts_state s) (ts_events s) = (r, remaining s', ts_state s', ts_events s') \<and>
    ts_breaks_off s' = ts_breaks_off s \<and> ts_total s' + length (concat (ts_chunks s')) \<le> MAX_EVENT_STREAM_BYTES \<and>
    lines_bounded (remaining s')"
  using assms
proof (induction "length (ts_chunks s)" arbitrary: s rule: less_induct)
  case (less s)
  obtain rest st n out where a: "accept_complete_lines J (ts_pending s) (ts_state s) (ts_events s) = (rest, st, n, out)"
    by (cases "accept_complete_lines J (ts_pending s) (ts_state s) (ts_events s)") auto
  obtain k where k: "rest = drop k (ts_pending s)" using accept_leaves [OF a] by blast
  have "remaining s = take k (ts_pending s) @ rest @ concat (ts_chunks s)"
    using k by (simp add: remaining_def)
  then have bounded: "lines_bounded (rest @ concat (ts_chunks s))" using less.prems(2) lines_bounded_suffix by metis
  note app = accept_append [OF a, of "concat (ts_chunks s)"]
  show ?case
  proof (cases "out = Ok False")
    case False
    then show ?thesis using less.prems(1,3) a app bounded
      by (auto simp: next_turn_event.simps [of J s] read_turn_event_def remaining_def Let_def case_prod_unfold split: sum.splits bool.splits)
  next
    case out: True
    have no: "10 \<notin> set rest" using accept_leaves [OF a] out by blast
    show ?thesis
    proof (cases "ts_chunks s")
      case Nil
      have stop: "accept_complete_lines J rest st n = (rest, st, n, Ok False)"
        using no by (subst accept_complete_lines.simps) (simp add: take_line_None [symmetric])
      show ?thesis using less.prems(1,3) a app bounded Nil out stop
        by (auto simp: next_turn_event.simps [of J s] read_turn_event_def remaining_def Let_def)
    next
      case (Cons chunk chunks)
      let ?s = "s\<lparr>ts_state := st, ts_events := n, ts_chunks := chunks, ts_total := ts_total s + length chunk, ts_pending := rest @ chunk\<rparr>"
      have b: "lines_bounded ((rest @ chunk) @ concat chunks)" using bounded Cons by simp
      then have short: "\<not> (MAX_EVENT_LINE_BYTES < length (rest @ chunk) \<and> 10 \<notin> set (rest @ chunk))"
        using lines_bounded_prefix [OF b] by (meson leD)
      have total: "\<not> MAX_EVENT_STREAM_BYTES < ts_total s + length chunk" using less.prems(1) Cons by simp
      have go: "next_turn_event J ?s = (r, s')"
        using less.prems(3) a out Cons short total by (simp add: next_turn_event.simps [of J s] Let_def split: if_splits)
      have "read_turn_event J (ts_breaks_off ?s) (remaining ?s) (ts_state ?s) (ts_events ?s) = (r, remaining s', ts_state s', ts_events s') \<and>
        ts_breaks_off s' = ts_breaks_off ?s \<and> ts_total s' + length (concat (ts_chunks s')) \<le> MAX_EVENT_STREAM_BYTES \<and>
        lines_bounded (remaining s')"
      proof (rule less.hyps)
        show "length (ts_chunks ?s) < length (ts_chunks s)" using Cons by simp
     
        show "ts_total ?s + length (concat (ts_chunks ?s)) \<le> MAX_EVENT_STREAM_BYTES" using less.prems(1) Cons by simp
        show "lines_bounded (remaining ?s)" using b by (simp add: remaining_def)
        show "next_turn_event J ?s = (r, s')" by (rule go)
      qed
      moreover have "remaining ?s = rest @ concat (ts_chunks s)" using Cons by (simp add: remaining_def)
      ultimately show ?thesis using app out by (simp add: read_turn_event_def remaining_def)
    qed
  qed
qed

section \<open>Properties\<close>

text \<open>What the next calls return, one after the other.\<close>

fun turn_events :: "json_reader \<Rightarrow> nat \<Rightarrow> turn_event_stream \<Rightarrow> (open_code_event_error + turn_event) list" where
  "turn_events J 0 s = []"
| "turn_events J (Suc k) s = (let (r, s') = next_turn_event J s in r # turn_events J k s')"

lemma same_bytes_same_events:
  assumes "remaining s1 = remaining s2" "ts_state s1 = ts_state s2" "ts_events s1 = ts_events s2" "ts_breaks_off s1 = ts_breaks_off s2"
    and "ts_total s1 + length (concat (ts_chunks s1)) \<le> MAX_EVENT_STREAM_BYTES"
    and "ts_total s2 + length (concat (ts_chunks s2)) \<le> MAX_EVENT_STREAM_BYTES"
    and "lines_bounded (remaining s1)"
  shows "turn_events J k s1 = turn_events J k s2"
  using assms
proof (induction k arbitrary: s1 s2)
  case (Suc k)
  obtain r1 s1' r2 s2' where n: "next_turn_event J s1 = (r1, s1')" "next_turn_event J s2 = (r2, s2')"
    by (cases "next_turn_event J s1"; cases "next_turn_event J s2") auto
  have "lines_bounded (remaining s2)" using Suc.prems(1,7) by simp
  note a = next_reads [OF Suc.prems(5,7) n(1)] and b = next_reads [OF Suc.prems(6) this n(2)]
  have "r1 = r2 \<and> remaining s1' = remaining s2' \<and> ts_state s1' = ts_state s2' \<and> ts_events s1' = ts_events s2'"
    using a b Suc.prems(1-4) by simp
  then show ?case using Suc.IH [of s1' s2'] a b n Suc.prems(4) by simp
qed simp

text \<open>C12: what an OpenCode turn reports does not depend on how the network cut its event stream into chunks.  As
  long as the stream and each of its lines keep within their limits, two responses with the same bytes that end the same way give
  the same requests, completions and errors in the same order.\<close>

theorem chunking_irrelevant:
  assumes "concat chunks = concat chunks'" and "length (concat chunks) \<le> MAX_EVENT_STREAM_BYTES" and "lines_bounded (concat chunks)"
  shows "turn_events J k (new_turn_event_stream chunks breaks_off session_id) =
    turn_events J k (new_turn_event_stream chunks' breaks_off session_id)"
  using assms by (intro same_bytes_same_events) (simp_all add: remaining_def new_turn_event_stream_def)

lemma accept_event_facts:
  assumes "accept_event event st = (r, st')"
  shows "es_mode st' = es_mode st" "es_provider_error st \<Longrightarrow> es_provider_error st'"
    "r = Ok True \<Longrightarrow> es_mode st = Wait_Turn \<Longrightarrow> oce_request_message (es_turn st') \<noteq> [] \<and> \<not> es_provider_error st'"
  using assms
  by (auto simp: accept_event_def accept_message_updated_def Let_def split: option.splits sum.splits if_splits)

definition still_failed :: "event_state \<Rightarrow> event_state \<Rightarrow> bool" where
  "still_failed st st' \<longleftrightarrow> es_mode st' = es_mode st \<and> (es_provider_error st \<longrightarrow> es_provider_error st')"

lemma accept_lines_facts:
  "accept_complete_lines J p st n = (rest, st', n', r) \<Longrightarrow>
     still_failed st st' \<and>
     (r = Ok True \<and> es_request st' = None \<and> es_mode st = Wait_Turn \<longrightarrow>
        oce_request_message (es_turn st') \<noteq> [] \<and> \<not> es_provider_error st')"
proof (induction J p st n arbitrary: rest st' n' r rule: accept_complete_lines.induct)
  case (1 J p st n)
  note step = accept_complete_lines.simps [of J p]
  show ?case
  proof (cases "take_line p")
    case None
    with 1(3) show ?thesis by (auto simp: step still_failed_def)
  next
    case (Some x)
    then obtain raw left where x: "take_line p = Some (raw, left)" by (cases x) auto
    from 1(3) x show ?thesis
    proof (cases rule: accept_line_cases)
      case skip
      from 1(1) [OF x refl refl skip] show ?thesis .
    next
      case more
      from 1(2) [OF x refl refl more(1,2,3,4) _ _ more(6,7)] more(5) accept_event_facts [OF more(5)] show ?thesis
        by (fastforce simp: still_failed_def)
    next
      case ended
      then show ?thesis using accept_event_facts by (fastforce simp: still_failed_def)
    next
      case failed
      then show ?thesis by (simp add: still_failed_def)
    qed
  qed
qed

lemma next_event_facts:
  "next_turn_event J s = (r, s') \<Longrightarrow>
     still_failed (ts_state s) (ts_state s') \<and>
     (\<forall>t. r = Ok (Turn_Completed t) \<and> es_mode (ts_state s) = Wait_Turn \<longrightarrow>
        oce_request_message t \<noteq> [] \<and> \<not> es_provider_error (ts_state s'))"
proof (induction "length (ts_chunks s)" arbitrary: s rule: less_induct)
  case (less s)
  obtain rest st n out where a: "accept_complete_lines J (ts_pending s) (ts_state s) (ts_events s) = (rest, st, n, out)"
    by (cases "accept_complete_lines J (ts_pending s) (ts_state s) (ts_events s)") auto
  note facts = accept_lines_facts [OF a]
  show ?case
  proof (cases "out = Ok False \<and> ts_chunks s \<noteq> []")
    case False
    then show ?thesis using less.prems a facts
      by (auto simp: next_turn_event.simps [of J s] take_turn_event_def still_failed_def Let_def
          split: sum.splits bool.splits option.splits list.splits)
  next
    case True
    then obtain chunk chunks where c: "ts_chunks s = chunk # chunks" by (cases "ts_chunks s") auto
    let ?s = "s\<lparr>ts_state := st, ts_events := n, ts_chunks := chunks, ts_total := ts_total s + length chunk, ts_pending := rest @ chunk\<rparr>"
    consider (stop) "still_failed (ts_state s) (ts_state s')" "\<forall>t. r \<noteq> Ok (Turn_Completed t)" | (go) "next_turn_event J ?s = (r, s')"
      using less.prems a True c facts by (auto simp: next_turn_event.simps [of J s] Let_def split: if_splits)
    then show ?thesis
    proof cases
      case go
      have "length (ts_chunks ?s) < length (ts_chunks s)" using c by simp
      from less.hyps [OF this go] facts show ?thesis by (auto simp: still_failed_def)
    qed auto
  qed
qed


text \<open>A user message and the end of the turn, in one chunk and cut inside the first line.\<close>

definition sample_reader :: json_reader where
  "sample_reader b =
     (if b = [49] then Some (json_object [(str ''type'', String (str ''message.updated'')),
        (str ''properties'', json_object [(str ''sessionID'', String (str ''s'')),
           (str ''info'', json_object [(str ''id'', String (str ''u1'')), (str ''role'', String (str ''user''))])])])
      else if b = [50] then Some (json_object [(str ''type'', String (str ''session.status'')),
        (str ''properties'', json_object [(str ''sessionID'', String (str ''s'')),
           (str ''status'', json_object [(str ''type'', String (str ''idle''))])])])
      else None)"

definition sample_stream :: bytes where
  "sample_stream = [100, 97, 116, 97, 58, 32, 49, 13, 10, 100, 97, 116, 97, 58, 50, 10]"

theorem chunking_irrelevant_witness:
  "turn_events sample_reader 1 (new_turn_event_stream [take 3 sample_stream, drop 3 sample_stream] False (str ''s'')) =
   turn_events sample_reader 1 (new_turn_event_stream [sample_stream] False (str ''s''))"
proof (rule chunking_irrelevant)
  show "length (concat [take 3 sample_stream, drop 3 sample_stream]) \<le> MAX_EVENT_STREAM_BYTES"
    by (simp add: sample_stream_def MAX_EVENT_STREAM_BYTES_def)
  have "lines_bounded bs" if "length bs \<le> MAX_EVENT_LINE_BYTES" for bs
    using that by (auto simp: lines_bounded_def)
  then show "lines_bounded (concat [take 3 sample_stream, drop 3 sample_stream])"
    by (simp add: sample_stream_def MAX_EVENT_LINE_BYTES_def)
qed simp


end
