(* ===== verification/Openai_Stream.thy ===== *)
theory Openai_Stream
  imports Commands
begin

text \<open>
  The streamed completion of an OpenAI-style provider (provider/openai\_stream.rs). The event
  decoder of the crate eventsource-stream and the derived decoders of chunks and of tool calls
  are parameters; what is done with their results is modelled.
\<close>

definition MAX_REQUEST_BYTES :: nat where "MAX_REQUEST_BYTES = 256000 - 16384 - 32768"
definition MAX_RESPONSE_BYTES :: nat where "MAX_RESPONSE_BYTES = 4 * 1024 * 1024"
definition MAX_TOOL_CALLS :: nat where "MAX_TOOL_CALLS = 16"
definition MAX_TOOL_ARGUMENT_BYTES :: nat where "MAX_TOOL_ARGUMENT_BYTES = 64 * 1024"
definition MAX_IDENTIFIER_BYTES :: nat where "MAX_IDENTIFIER_BYTES = 128"
definition MAX_FINISH_REASON_BYTES :: nat where "MAX_FINISH_REASON_BYTES = 64"

datatype open_ai_stream_error =
  Context_Limit | Credential_Rejected | Rate_Limited | Http_Status | Stream_Transport | Response_Too_Large | Invalid_Response

record open_ai_usage =
  ou_prompt :: "64 word"
  ou_completion :: "64 word"
  ou_total :: "64 word"

record tool_call =
  tc_id :: rstr
  tc_name :: rstr
  tc_arguments :: rstr

record open_ai_completion =
  oc_id :: rstr
  oc_model :: rstr
  oc_finish_reason :: rstr
  oc_content :: "rstr option"
  oc_reasoning_content :: "rstr option"
  oc_tool_calls :: "tool_call list"
  oc_usage :: "open_ai_usage option"

record stream_choice =
  sc_index :: nat
  sc_delta :: json
  sc_finish_reason :: "rstr option"

record stream_chunk =
  ck_id :: "rstr option"
  ck_model :: "rstr option"
  ck_choices :: "stream_choice list"
  ck_usage :: "open_ai_usage option"

record tool_function_delta =
  fd_name :: "rstr option"
  fd_arguments :: "rstr option"

record tool_call_delta =
  td_index :: nat
  td_id :: "rstr option"
  td_kind :: "rstr option"
  td_function :: "tool_function_delta option"

record completion_accumulator =
  ca_id :: rstr
  ca_model :: rstr
  ca_finish_reason :: rstr
  ca_content :: rstr
  ca_reasoning :: rstr
  ca_tools :: "(nat, tool_call) omap"
  ca_usage :: "open_ai_usage option"

definition empty_accumulator :: completion_accumulator where
  "empty_accumulator = \<lparr>ca_id = [], ca_model = [], ca_finish_reason = [], ca_content = [], ca_reasoning = [], ca_tools = [], ca_usage = None\<rparr>"

text \<open>The two derived decoders.\<close>

record stream_decoders =
  sd_chunk :: "rstr \<Rightarrow> stream_chunk option"
  sd_tool_calls :: "json \<Rightarrow> tool_call_delta list option"

type_synonym 'a streamed = "open_ai_stream_error + 'a"

section \<open>Parts\<close>

definition valid_text :: "rstr \<Rightarrow> nat \<Rightarrow> bool" where
  "valid_text v max_bytes \<longleftrightarrow> v \<noteq> [] \<and> byte_len v \<le> max_bytes \<and> trim v = v \<and> \<not> list_ex is_control v"

definition merge_identifier :: "rstr \<Rightarrow> rstr option \<Rightarrow> rstr streamed" where
  "merge_identifier target v =
     (case filter_opt (\<lambda>v. v \<noteq> []) v of
        None \<Rightarrow> Ok target
      | Some v \<Rightarrow>
          rbind (ensure (valid_text v MAX_IDENTIFIER_BYTES \<and> (target = [] \<or> target = v)) Invalid_Response) (\<lambda>_.
          Ok (if target = [] then v else target)))"

definition append_optional_text :: "json option \<Rightarrow> rstr \<Rightarrow> rstr streamed" where
  "append_optional_text v target =
     (case v of
        None \<Rightarrow> Ok target
      | Some v \<Rightarrow> if v = Null then Ok target else rbind (ok_or (as_str v) Invalid_Response) (\<lambda>s. Ok (target @ s)))"

definition no_tool_call :: tool_call where
  "no_tool_call = \<lparr>tc_id = [], tc_name = [], tc_arguments = []\<rparr>"

definition push_tool_function :: "tool_call \<Rightarrow> tool_function_delta \<Rightarrow> tool_call streamed" where
  "push_tool_function call f =
     rbind (case fd_name f of
              None \<Rightarrow> Ok call
            | Some name \<Rightarrow>
                let call = call\<lparr>tc_name := tc_name call @ name\<rparr> in
                rbind (ensure (valid_text (tc_name call) MAX_IDENTIFIER_BYTES) Invalid_Response) (\<lambda>_. Ok call)) (\<lambda>call.
     case fd_arguments f of
       None \<Rightarrow> Ok call
     | Some arguments \<Rightarrow>
         let call = call\<lparr>tc_arguments := tc_arguments call @ arguments\<rparr> in
         rbind (ensure (byte_len (tc_arguments call) \<le> MAX_TOOL_ARGUMENT_BYTES) Invalid_Response) (\<lambda>_. Ok call))"

definition push_tool_delta :: "completion_accumulator \<Rightarrow> tool_call_delta \<Rightarrow> completion_accumulator streamed" where
  "push_tool_delta acc delta =
     rbind (ensure (td_index delta < MAX_TOOL_CALLS) Invalid_Response) (\<lambda>_.
     let call = unwrap_or no_tool_call (om_get (ca_tools acc) (td_index delta)) in
     rbind (ensure (case filter_opt (\<lambda>k. k \<noteq> []) (td_kind delta) of None \<Rightarrow> True | Some kind \<Rightarrow> kind = str ''function'')
              Invalid_Response) (\<lambda>_.
     rbind (merge_identifier (tc_id call) (td_id delta)) (\<lambda>i.
     let call = call\<lparr>tc_id := i\<rparr> in
     rbind (case td_function delta of None \<Rightarrow> Ok call | Some f \<Rightarrow> push_tool_function call f) (\<lambda>call.
     Ok (acc\<lparr>ca_tools := om_insert (td_index delta) call (ca_tools acc)\<rparr>)))))"

fun push_tool_deltas :: "completion_accumulator \<Rightarrow> tool_call_delta list \<Rightarrow> completion_accumulator streamed" where
  "push_tool_deltas acc [] = Ok acc"
| "push_tool_deltas acc (d # ds) = rbind (push_tool_delta acc d) (\<lambda>acc. push_tool_deltas acc ds)"

fun one_reasoning_value :: "json option \<Rightarrow> json option list \<Rightarrow> json option streamed" where
  "one_reasoning_value found [] = Ok found"
| "one_reasoning_value found (v # vs) =
     (case filter_opt (\<lambda>v. v \<noteq> Null) v of
        None \<Rightarrow> one_reasoning_value found vs
      | Some v \<Rightarrow> rbind (ensure (found = None) Invalid_Response) (\<lambda>_. one_reasoning_value (Some v) vs))"

definition note_usage :: "completion_accumulator \<Rightarrow> open_ai_usage option \<Rightarrow> completion_accumulator streamed" where
  "note_usage acc usage =
     (case usage of
        None \<Rightarrow> Ok acc
      | Some u \<Rightarrow>
          rbind (ensure (ca_usage acc \<in> {None, Some u}) Invalid_Response) (\<lambda>_. Ok (acc\<lparr>ca_usage := Some u\<rparr>)))"

definition note_finish_reason :: "completion_accumulator \<Rightarrow> rstr option \<Rightarrow> completion_accumulator streamed" where
  "note_finish_reason acc reason =
     (case reason of
        None \<Rightarrow> Ok acc
      | Some r \<Rightarrow>
          rbind (ensure (valid_text r MAX_FINISH_REASON_BYTES \<and> ca_finish_reason acc \<in> {[], r}) Invalid_Response) (\<lambda>_.
          Ok (acc\<lparr>ca_finish_reason := r\<rparr>)))"

definition push_delta :: "stream_decoders \<Rightarrow> completion_accumulator \<Rightarrow> (rstr, json) omap \<Rightarrow> completion_accumulator streamed" where
  "push_delta D acc delta =
     rbind (ensure (case om_get delta (str ''role'') of None \<Rightarrow> True | Some role \<Rightarrow> as_str role = Some (str ''assistant''))
              Invalid_Response) (\<lambda>_.
     rbind (append_optional_text (om_get delta (str ''content'')) (ca_content acc)) (\<lambda>content.
     rbind (one_reasoning_value None (map (\<lambda>k. om_get delta (str k)) [''reasoning_content'', ''reasoning'', ''thinking''])) (\<lambda>found.
     rbind (append_optional_text found (ca_reasoning acc)) (\<lambda>reasoning.
     let acc = acc\<lparr>ca_content := content, ca_reasoning := reasoning\<rparr> in
     case om_get delta (str ''tool_calls'') of
       None \<Rightarrow> Ok acc
     | Some tool_calls \<Rightarrow>
         rbind (ok_or (sd_tool_calls D tool_calls) Invalid_Response) (\<lambda>calls. push_tool_deltas acc calls)))))"

definition push_chunk :: "stream_decoders \<Rightarrow> completion_accumulator \<Rightarrow> stream_chunk \<Rightarrow> completion_accumulator streamed" where
  "push_chunk D acc chunk =
     rbind (merge_identifier (ca_id acc) (ck_id chunk)) (\<lambda>i.
     rbind (merge_identifier (ca_model acc) (ck_model chunk)) (\<lambda>model.
     rbind (note_usage (acc\<lparr>ca_id := i, ca_model := model\<rparr>) (ck_usage chunk)) (\<lambda>acc.
     case ck_choices chunk of
       [] \<Rightarrow> Ok acc
     | [choice] \<Rightarrow>
         rbind (ensure (sc_index choice = 0) Invalid_Response) (\<lambda>_.
         rbind (note_finish_reason acc (sc_finish_reason choice)) (\<lambda>acc.
         rbind (ok_or (as_object (sc_delta choice)) Invalid_Response) (\<lambda>delta.
         push_delta D acc delta)))
     | _ \<Rightarrow> Err Invalid_Response)))"

fun finish_tools :: "nat \<Rightarrow> rstr set \<Rightarrow> (nat, tool_call) omap \<Rightarrow> tool_call list streamed" where
  "finish_tools expected ids [] = Ok []"
| "finish_tools expected ids ((index, call) # tools) =
     rbind (ensure (index = expected \<and> valid_text (tc_id call) MAX_IDENTIFIER_BYTES \<and> tc_id call \<notin> ids \<and>
                    valid_text (tc_name call) MAX_IDENTIFIER_BYTES \<and> byte_len (tc_arguments call) \<le> MAX_TOOL_ARGUMENT_BYTES)
              Invalid_Response) (\<lambda>_.
     rbind (finish_tools (expected + 1) (insert (tc_id call) ids) tools) (\<lambda>calls. Ok (call # calls)))"

definition finish_completion :: "completion_accumulator \<Rightarrow> open_ai_completion streamed" where
  "finish_completion acc =
     rbind (ensure (valid_text (ca_id acc) MAX_IDENTIFIER_BYTES \<and> valid_text (ca_model acc) MAX_IDENTIFIER_BYTES \<and>
                    valid_text (ca_finish_reason acc) MAX_FINISH_REASON_BYTES) Invalid_Response) (\<lambda>_.
     rbind (finish_tools 0 {} (ca_tools acc)) (\<lambda>tool_calls.
     Ok \<lparr>oc_id = ca_id acc, oc_model = ca_model acc, oc_finish_reason = ca_finish_reason acc,
         oc_content = (if ca_content acc = [] then None else Some (ca_content acc)),
         oc_reasoning_content = (if ca_reasoning acc = [] then None else Some (ca_reasoning acc)),
         oc_tool_calls = tool_calls, oc_usage = ca_usage acc\<rparr>))"

section \<open>The stream\<close>

text \<open>An event has a name and its data; the decoder reports its own failures as an invalid response.\<close>

type_synonym stream_event = "(rstr \<times> rstr) streamed"

fun decode_events_from :: "stream_decoders \<Rightarrow> completion_accumulator \<Rightarrow> stream_event list \<Rightarrow> completion_accumulator streamed" where
  "decode_events_from D acc [] = Err Invalid_Response"
| "decode_events_from D acc (event # events) =
     rbind event (\<lambda>(name, data).
     rbind (ensure (name = str ''message'') Invalid_Response) (\<lambda>_.
     if data = str ''[DONE]'' then Ok acc
     else
       rbind (ok_or (sd_chunk D data) Invalid_Response) (\<lambda>chunk.
       rbind (push_chunk D acc chunk) (\<lambda>acc.
       decode_events_from D acc events))))"

definition decode_events :: "stream_decoders \<Rightarrow> stream_event list \<Rightarrow> open_ai_completion streamed" where
  "decode_events D events = rbind (decode_events_from D empty_accumulator events) finish_completion"

text \<open>The bytes of a response are counted before they reach the event decoder.\<close>

fun limit_response :: "nat \<Rightarrow> (8 word list) streamed list \<Rightarrow> (8 word list) streamed list" where
  "limit_response observed [] = []"
| "limit_response observed (Inl e # items) = Err e # limit_response observed items"
| "limit_response observed (Inr bytes # items) =
     (let observed = observed + length bytes in
      (if MAX_RESPONSE_BYTES < observed then Err Response_Too_Large else Ok bytes) # limit_response observed items)"

record open_ai_response =
  or_status :: nat
  or_content_type :: "rstr option"
  or_body :: "(8 word list) streamed list"

definition send_chat_completion ::
  "stream_decoders \<Rightarrow> ((8 word list) streamed list \<Rightarrow> stream_event list) \<Rightarrow> (8 word list \<Rightarrow> open_ai_response option)
     \<Rightarrow> 8 word list \<Rightarrow> open_ai_completion streamed" where
  "send_chat_completion D eventsource send body =
     rbind (ensure (length body \<le> MAX_REQUEST_BYTES) Context_Limit) (\<lambda>_.
     rbind (ok_or (send body) Stream_Transport) (\<lambda>response.
     let status = or_status response in
     rbind (if 200 \<le> status \<and> status < 300 then Ok ()
            else if status = 401 \<or> status = 403 then Err Credential_Rejected
            else if status = 429 then Err Rate_Limited
            else Err Http_Status) (\<lambda>_.
     rbind (ensure (map ascii_lower (trim (hd (split_on (\<lambda>c. c = 59) (unwrap_or [] (or_content_type response))))) = str ''text/event-stream'')
              Invalid_Response) (\<lambda>_.
     decode_events D (eventsource (limit_response 0 (or_body response)))))))"

section \<open>What a completion is made of\<close>

text \<open>The fragments that a chunk carries.\<close>

definition chunk_delta :: "stream_chunk \<Rightarrow> (rstr, json) omap" where
  "chunk_delta chunk = (case ck_choices chunk of [choice] \<Rightarrow> unwrap_or [] (as_object (sc_delta choice)) | _ \<Rightarrow> [])"

definition fragment :: "string \<Rightarrow> stream_chunk \<Rightarrow> rstr" where
  "fragment k chunk = unwrap_or [] (Option.bind (om_get (chunk_delta chunk) (str k)) as_str)"

definition reasoning_fragment :: "stream_chunk \<Rightarrow> rstr" where
  "reasoning_fragment chunk = concat (map (\<lambda>k. fragment k chunk) [''reasoning_content'', ''reasoning'', ''thinking''])"

definition tool_fragments :: "stream_decoders \<Rightarrow> stream_chunk \<Rightarrow> tool_call_delta list" where
  "tool_fragments D chunk = unwrap_or [] (Option.bind (om_get (chunk_delta chunk) (str ''tool_calls'')) (sd_tool_calls D))"

definition tool_text :: "(tool_function_delta \<Rightarrow> rstr option) \<Rightarrow> nat \<Rightarrow> tool_call_delta list \<Rightarrow> rstr" where
  "tool_text f i ds = concat (map (\<lambda>d. unwrap_or [] (Option.bind (td_function d) f)) (filter (\<lambda>d. td_index d = i) ds))"

lemma tool_text_snoc [simp]:
  "tool_text f i [] = []"
  "tool_text f i (ds @ [d]) = tool_text f i ds @ (if td_index d = i then unwrap_or [] (Option.bind (td_function d) f) else [])"
  by (simp_all add: tool_text_def)

text \<open>The calls collected from the fragments so far.\<close>

definition tools_collected :: "tool_call_delta list \<Rightarrow> (nat, tool_call) omap \<Rightarrow> bool" where
  "tools_collected ds tools \<longleftrightarrow>
     om_wf tools \<and> (\<forall>i call. om_get tools i = Some call \<longrightarrow>
        i < MAX_TOOL_CALLS \<and> tc_name call = tool_text fd_name i ds \<and> tc_arguments call = tool_text fd_arguments i ds) \<and>
     (\<forall>i. om_get tools i = None \<longrightarrow> filter (\<lambda>d. td_index d = i) ds = [])"

lemma push_tool_function_texts:
  "push_tool_function call f = Ok call' \<Longrightarrow>
     tc_name call' = tc_name call @ unwrap_or [] (fd_name f) \<and> tc_arguments call' = tc_arguments call @ unwrap_or [] (fd_arguments f)"
  by (cases "fd_name f"; cases "fd_arguments f") (auto simp: push_tool_function_def Let_def)

lemma push_tool_delta_collects:
  assumes "push_tool_delta acc d = Ok acc'" "tools_collected ds (ca_tools acc)"
  shows "tools_collected (ds @ [d]) (ca_tools acc') \<and> ca_content acc' = ca_content acc \<and> ca_reasoning acc' = ca_reasoning acc"
proof -
  from assms(1) obtain call where i: "td_index d < MAX_TOOL_CALLS"
    and acc': "acc' = acc\<lparr>ca_tools := om_insert (td_index d) call (ca_tools acc)\<rparr>"
    and call: "tc_name call = tc_name (unwrap_or no_tool_call (om_get (ca_tools acc) (td_index d))) @
         unwrap_or [] (Option.bind (td_function d) fd_name)"
      "tc_arguments call = tc_arguments (unwrap_or no_tool_call (om_get (ca_tools acc) (td_index d))) @
         unwrap_or [] (Option.bind (td_function d) fd_arguments)"
    by (cases "td_function d") (auto simp: push_tool_delta_def Let_def dest!: push_tool_function_texts)
  have old: "tc_name (unwrap_or no_tool_call (om_get (ca_tools acc) (td_index d))) = tool_text fd_name (td_index d) ds"
    "tc_arguments (unwrap_or no_tool_call (om_get (ca_tools acc) (td_index d))) = tool_text fd_arguments (td_index d) ds"
    using assms(2) by (cases "om_get (ca_tools acc) (td_index d)"; simp add: tools_collected_def no_tool_call_def tool_text_def)+
  show ?thesis using assms(2) i call old unfolding acc' tools_collected_def by (auto simp: om_wf_insert)
qed

lemma push_tool_deltas_collects:
  "push_tool_deltas acc ds = Ok acc' \<Longrightarrow> tools_collected before (ca_tools acc) \<Longrightarrow>
     tools_collected (before @ ds) (ca_tools acc') \<and> ca_content acc' = ca_content acc \<and> ca_reasoning acc' = ca_reasoning acc"
proof (induction ds arbitrary: acc before)
  case (Cons d ds)
  then obtain acc1 where d: "push_tool_delta acc d = Ok acc1" and ds: "push_tool_deltas acc1 ds = Ok acc'" by auto
  from push_tool_delta_collects [OF d Cons.prems(2)] Cons.IH [OF ds, of "before @ [d]"] show ?case by simp
qed simp

lemma append_text: "append_optional_text v t = Ok t' \<Longrightarrow> t' = t @ unwrap_or [] (Option.bind v as_str)"
  by (auto simp: append_optional_text_def split: option.splits if_splits)

lemma one_reasoning:
  "one_reasoning_value found vs = Ok r \<Longrightarrow>
     unwrap_or [] (Option.bind r as_str) = unwrap_or [] (Option.bind found as_str) @ concat (map (\<lambda>v. unwrap_or [] (Option.bind v as_str)) vs)"
proof (induction found vs rule: one_reasoning_value.induct)
  case (2 found v vs)
  show ?case
  proof (cases "filter_opt (\<lambda>v. v \<noteq> Null) v")
    case None
    then have "unwrap_or [] (Option.bind v as_str) = []" by (cases v) (auto simp: filter_opt_def split: if_splits)
    then show ?thesis using 2 None by simp
  next
    case (Some w)
    then have v: "v = Some w" by auto
    from 2(3) Some have "found = None" "one_reasoning_value (Some w) vs = Ok r" by auto
    with 2(2) [OF Some] v show ?thesis by simp
  qed
qed simp

definition collected :: "stream_decoders \<Rightarrow> stream_chunk list \<Rightarrow> completion_accumulator \<Rightarrow> bool" where
  "collected D chunks acc \<longleftrightarrow>
     ca_content acc = concat (map (fragment ''content'') chunks) \<and>
     ca_reasoning acc = concat (map reasoning_fragment chunks) \<and>
     tools_collected (concat (map (tool_fragments D) chunks)) (ca_tools acc)"

lemma noted:
  "note_usage acc u = Ok acc' \<Longrightarrow>
     ca_content acc' = ca_content acc \<and> ca_reasoning acc' = ca_reasoning acc \<and> ca_tools acc' = ca_tools acc"
  "note_finish_reason acc r = Ok acc' \<Longrightarrow>
     ca_content acc' = ca_content acc \<and> ca_reasoning acc' = ca_reasoning acc \<and> ca_tools acc' = ca_tools acc"
  by (cases u; auto simp: note_usage_def) (cases r; auto simp: note_finish_reason_def)

lemma push_delta_collects:
  assumes "push_delta D acc delta = Ok acc'" "collected D chunks acc" "chunk_delta chunk = delta"
  shows "collected D (chunks @ [chunk]) acc'"
proof -
  from assms(1) obtain content found reasoning where
    content: "append_optional_text (om_get delta (str ''content'')) (ca_content acc) = Ok content"
    and found: "one_reasoning_value None (map (\<lambda>k. om_get delta (str k)) [''reasoning_content'', ''reasoning'', ''thinking'']) = Ok found"
    and reasoning: "append_optional_text found (ca_reasoning acc) = Ok reasoning"
    and tools: "(case om_get delta (str ''tool_calls'') of
           None \<Rightarrow> Ok (acc\<lparr>ca_content := content, ca_reasoning := reasoning\<rparr>)
         | Some tool_calls \<Rightarrow>
             rbind (ok_or (sd_tool_calls D tool_calls) Invalid_Response)
               (\<lambda>calls. push_tool_deltas (acc\<lparr>ca_content := content, ca_reasoning := reasoning\<rparr>) calls)) = Ok acc'"
    by (auto simp: push_delta_def Let_def)
  have c: "content = ca_content acc @ fragment ''content'' chunk"
    using append_text [OF content] by (simp add: fragment_def assms(3))
  have r: "reasoning = ca_reasoning acc @ reasoning_fragment chunk"
    using append_text [OF reasoning] one_reasoning [OF found] by (simp add: reasoning_fragment_def fragment_def assms(3))
  have "tools_collected (concat (map (tool_fragments D) chunks) @ tool_fragments D chunk) (ca_tools acc') \<and>
    ca_content acc' = content \<and> ca_reasoning acc' = reasoning"
  proof (cases "om_get delta (str ''tool_calls'')")
    case None
    then show ?thesis using tools assms(2) by (auto simp: collected_def tool_fragments_def assms(3))
  next
    case (Some v)
    then obtain calls where v: "sd_tool_calls D v = Some calls"
      and push: "push_tool_deltas (acc\<lparr>ca_content := content, ca_reasoning := reasoning\<rparr>) calls = Ok acc'" using tools by auto
    then show ?thesis using push_tool_deltas_collects [OF push, of "concat (map (tool_fragments D) chunks)"] assms(2) Some
      by (simp add: collected_def tool_fragments_def assms(3))
  qed
  then show ?thesis using assms(2) c r by (simp add: collected_def)
qed

lemma push_chunk_collects:
  assumes run: "push_chunk D acc chunk = Ok acc'" and ok: "collected D chunks acc"
  shows "collected D (chunks @ [chunk]) acc'"
proof -
  from run obtain i model acc1 where u: "note_usage (acc\<lparr>ca_id := i, ca_model := model\<rparr>) (ck_usage chunk) = Ok acc1"
    and rest: "(case ck_choices chunk of
       [] \<Rightarrow> Ok acc1
     | [choice] \<Rightarrow>
         rbind (ensure (sc_index choice = 0) Invalid_Response) (\<lambda>_.
         rbind (note_finish_reason acc1 (sc_finish_reason choice)) (\<lambda>acc.
         rbind (ok_or (as_object (sc_delta choice)) Invalid_Response) (\<lambda>delta.
         push_delta D acc delta)))
     | _ \<Rightarrow> Err Invalid_Response) = Ok acc'"
    by (auto simp: push_chunk_def)
  have ok1: "collected D chunks acc1" using ok noted(1) [OF u] by (simp add: collected_def)
  show ?thesis
  proof (cases "ck_choices chunk")
    case Nil
    then have "chunk_delta chunk = []" by (simp add: chunk_delta_def)
    then have "fragment k chunk = []" "reasoning_fragment chunk = []" "tool_fragments D chunk = []" for k
      by (simp_all add: fragment_def reasoning_fragment_def tool_fragments_def om_get_def)
    then show ?thesis using ok1 rest Nil by (simp add: collected_def)
  next
    case (Cons choice more)
    then have more: "more = []" using rest by (cases more) auto
    with rest Cons obtain acc2 delta where f: "note_finish_reason acc1 (sc_finish_reason choice) = Ok acc2"
      and delta: "as_object (sc_delta choice) = Some delta" and push: "push_delta D acc2 delta = Ok acc'" by auto
    have "collected D chunks acc2" using ok1 noted(2) [OF f] by (simp add: collected_def)
    moreover have "chunk_delta chunk = delta" using Cons more delta by (simp add: chunk_delta_def)
    ultimately show ?thesis using push_delta_collects [OF push] by blast
  qed
qed

lemma decode_collects:
  "decode_events_from D acc events = Ok acc' \<Longrightarrow> collected D before acc \<Longrightarrow>
     \<exists>datas chunks rest. events = map (\<lambda>d. Ok (str ''message'', d)) datas @ Ok (str ''message'', str ''[DONE]'') # rest \<and>
       map (sd_chunk D) datas = map Some chunks \<and> collected D (before @ chunks) acc'"
proof (induction D acc events arbitrary: before rule: decode_events_from.induct)
  case (2 D acc event events)
  then obtain data where e: "event = Ok (str ''message'', data)" by (auto split: prod.splits)
  show ?case
  proof (cases "data = str ''[DONE]''")
    case True
    then show ?thesis using 2(2,3) e by (intro exI [of _ "[]"] exI [of _ events]) auto
  next
    case False
    with 2(2) e obtain chunk acc1 where c: "sd_chunk D data = Some chunk" "push_chunk D acc chunk = Ok acc1"
      "decode_events_from D acc1 events = Ok acc'" by auto
    from 2(1) [OF e refl _ False _ c(2,3) push_chunk_collects [OF c(2) 2(3)]] c(1)
    obtain datas chunks rest where r: "events = map (\<lambda>d. Ok (str ''message'', d)) datas @ Ok (str ''message'', str ''[DONE]'') # rest"
      "map (sd_chunk D) datas = map Some chunks" "collected D (before @ chunk # chunks) acc'" by auto
    show ?thesis using r e c(1) by (intro exI [of _ "data # datas"] exI [of _ "chunk # chunks"]) auto
  qed
qed simp

lemma finish_tools_calls:
  "finish_tools n ids tools = Ok calls \<Longrightarrow>
     tools = zip [n..<n + length calls] calls \<and> distinct (map tc_id calls) \<and> (\<forall>call \<in> set calls. tc_id call \<notin> ids)"
proof (induction n ids tools arbitrary: calls rule: finish_tools.induct)
  case (2 n ids i call tools)
  then obtain calls' where c: "finish_tools (n + 1) (insert (tc_id call) ids) tools = Ok calls'" "calls = call # calls'"
    and i: "i = n" "tc_id call \<notin> ids" by auto
  have "[n..<n + length calls] = n # [n + 1..<n + 1 + length calls']" using c(2) by (simp add: upt_rec)
  then show ?case using 2(1) [OF _ c(1)] 2(2) c(2) i by auto
qed simp

text \<open>C14: a completion that is returned is exactly what the provider streamed.  The stream consisted of message
  events whose chunks were all understood, up to its end marker; the content and the reasoning are their fragments in order; the
  tool calls number at most sixteen, have different identifiers, cover every fragment that was streamed, and the name and the
  arguments of each are its fragments in order.\<close>

theorem completion_faithful:
  assumes "decode_events D events = Ok c"
  shows "\<exists>datas chunks rest. events = map (\<lambda>d. Ok (str ''message'', d)) datas @ Ok (str ''message'', str ''[DONE]'') # rest \<and>
    map (sd_chunk D) datas = map Some chunks \<and>
    unwrap_or [] (oc_content c) = concat (map (fragment ''content'') chunks) \<and>
    unwrap_or [] (oc_reasoning_content c) = concat (map reasoning_fragment chunks) \<and>
    distinct (map tc_id (oc_tool_calls c)) \<and> length (oc_tool_calls c) \<le> 16 \<and>
    (\<forall>d \<in> set (concat (map (tool_fragments D) chunks)). td_index d < length (oc_tool_calls c)) \<and>
    (\<forall>i < length (oc_tool_calls c).
       tc_name (oc_tool_calls c ! i) = tool_text fd_name i (concat (map (tool_fragments D) chunks)) \<and>
       tc_arguments (oc_tool_calls c ! i) = tool_text fd_arguments i (concat (map (tool_fragments D) chunks)))"
proof -
  from assms obtain acc where d: "decode_events_from D empty_accumulator events = Ok acc" and f: "finish_completion acc = Ok c"
    by (auto simp: decode_events_def)
  have "collected D [] empty_accumulator" by (simp add: collected_def empty_accumulator_def tools_collected_def om_wf_def om_get_def)
  from decode_collects [OF d this] obtain datas chunks rest where
    e: "events = map (\<lambda>d. Ok (str ''message'', d)) datas @ Ok (str ''message'', str ''[DONE]'') # rest"
      "map (sd_chunk D) datas = map Some chunks" and acc: "collected D chunks acc" by auto
  let ?ds = "concat (map (tool_fragments D) chunks)"
  from f obtain calls where t: "finish_tools 0 {} (ca_tools acc) = Ok calls" and c: "oc_tool_calls c = calls"
    "oc_content c = (if ca_content acc = [] then None else Some (ca_content acc))"
    "oc_reasoning_content c = (if ca_reasoning acc = [] then None else Some (ca_reasoning acc))"
    by (auto simp: finish_completion_def)
  have zip: "ca_tools acc = zip [0..<length calls] calls" and dist: "distinct (map tc_id calls)"
    using finish_tools_calls [OF t] by simp_all
  have get: "om_get (ca_tools acc) i = (if i < length calls then Some (calls ! i) else None)" for i
  proof (cases "i < length calls")
    case True
    then show ?thesis unfolding zip om_get_def using map_of_zip_nth [of "[0..<length calls]" calls i] by simp
  next
    case False
    then have "i \<notin> set [0..<length calls]" by simp
    then show ?thesis using False unfolding zip om_get_def by (simp add: map_of_zip_is_None [of "[0..<length calls]" calls i, THEN iffD2])
  qed
  have tools: "tools_collected ?ds (ca_tools acc)" using acc by (simp add: collected_def)
  have calls: "i < length calls \<Longrightarrow> i < MAX_TOOL_CALLS \<and> tc_name (calls ! i) = tool_text fd_name i ?ds \<and>
      tc_arguments (calls ! i) = tool_text fd_arguments i ?ds" for i
    using tools get [of i] unfolding tools_collected_def by auto
  have "length calls \<le> 16"
  proof (rule ccontr)
    assume "\<not> length calls \<le> 16"
    then show False using calls [of 16] by (simp add: MAX_TOOL_CALLS_def)
  qed
  moreover have "td_index d < length calls" if "d \<in> set ?ds" for d
  proof (rule ccontr)
    assume "\<not> td_index d < length calls"
    then have "filter (\<lambda>x. td_index x = td_index d) ?ds = []" using tools get [of "td_index d"] unfolding tools_collected_def by simp
    then show False using that unfolding filter_empty_conv by blast
  qed
  ultimately show ?thesis using e acc calls dist c by (intro exI [of _ datas] exI [of _ chunks] exI [of _ rest]) (auto simp: collected_def)
qed

text \<open>Two chunks with the parts of a text, and the end marker.\<close>

definition sample_decoders :: stream_decoders where
  "sample_decoders = \<lparr>sd_chunk = (\<lambda>d. Some \<lparr>ck_id = Some (str ''c1''), ck_model = Some (str ''m''), 
      ck_choices = [\<lparr>sc_index = 0, sc_delta = json_object [(str ''content'', String d)], sc_finish_reason = Some (str ''stop'')\<rparr>], ck_usage = None\<rparr>),
     sd_tool_calls = (\<lambda>_. None)\<rparr>"

definition sample_events :: "stream_event list" where
  "sample_events = map (\<lambda>d. Ok (str ''message'', d)) [str ''Hel'', str ''lo'', str ''[DONE]'']"

theorem completion_faithful_witness:
  "\<exists>c datas rest. decode_events sample_decoders sample_events = Ok c \<and> oc_content c = Some (str ''Hello'') \<and>
     sample_events = map (\<lambda>d. Ok (str ''message'', d)) datas @ Ok (str ''message'', str ''[DONE]'') # rest"
proof -
  have "\<not> isl (decode_events sample_decoders sample_events)" by code_simp
  then obtain c where c: "decode_events sample_decoders sample_events = Ok c" by (cases "decode_events sample_decoders sample_events") auto
  moreover have "oc_content (projr (decode_events sample_decoders sample_events)) = Some (str ''Hello'')" by code_simp
  ultimately show ?thesis using completion_faithful [OF c] by auto
qed

end
