(* ===== verification/Turn_Effects.thy ===== *)
theory Turn_Effects
  imports Turn_Ends
begin

text \<open>
  The start of a provider turn and its exact interrupt (persistence/provider\_turn\_start.rs,
  provider\_turn\_effect.rs, provider\_turn\_effect\_finalize.rs and the recovery half of
  provider\_turn\_execution.rs). An execution and its interrupt are two rows with one key; each
  operation is one transaction over them, its UPDATE statements as conditional changes of one
  row whose failure to match is the error of the operation. Clock readings that only stamp a row are left
  out; a reading that decides something is an argument.
\<close>

section \<open>Rows and what is read of them\<close>

definition invalid_effect :: persistence_error where
  "invalid_effect = rejected ''stored_turn_effect_invalid'' ''Stored provider turn effect authority is invalid.''"

definition stale_effect :: persistence_error where
  "stale_effect = rejected ''stale_provider_turn_effect'' ''Provider turn effect authority changed before this operation.''"

definition unresolved_effect :: persistence_error where
  "unresolved_effect = Command_Unresolved ''provider_turn_effect_unresolved''
     (str ''The exact provider turn effect is owned by recovery or remains unresolved.'')"

text \<open>The key of a generation, with the error of the module that binds it.\<close>

definition turn_key :: "persistence_error \<Rightarrow> rstr \<Rightarrow> rstr \<Rightarrow> 64 word \<Rightarrow> persistence_error + rstr \<times> rstr \<times> int" where
  "turn_key err rid sid g = (if uint g \<le> i64_max then Ok (rid, sid, uint g) else Err err)"

text \<open>An execution as it is loaded: its key and its row.\<close>

record loaded_execution =
  le_room_id :: rstr
  le_session_id :: rstr
  le_turn_generation :: "64 word"
  le_row :: provider_turn_execution

definition load_execution_in :: "rstr \<Rightarrow> rstr \<Rightarrow> 64 word \<Rightarrow> 'x turn_db \<Rightarrow> persistence_error + loaded_execution" where
  "load_execution_in rid sid g db =
     rbind (turn_key invalid_execution rid sid g) (\<lambda>key.
     rbind (ok_or (om_get (db_executions db) key) stale_execution) (\<lambda>row.
     Ok \<lparr>le_room_id = rid, le_session_id = sid, le_turn_generation = g, le_row = row\<rparr>))"

record provider_turn_start_authority =
  psa_room_id :: rstr
  psa_session_id :: rstr
  psa_turn_generation :: "64 word"
  psa_execution_id :: rstr
  psa_turn_id :: rstr
  psa_runtime_handle_id :: rstr
  psa_runtime_owner_id :: rstr
  psa_runtime_lease_token :: rstr
  psa_start_dispatch_nonce :: rstr

definition start_authority_of :: "loaded_execution \<Rightarrow> provider_turn_start_authority" where
  "start_authority_of x =
     \<lparr>psa_room_id = le_room_id x, psa_session_id = le_session_id x, psa_turn_generation = le_turn_generation x,
      psa_execution_id = pte_execution_id (le_row x), psa_turn_id = pte_turn_id (le_row x),
      psa_runtime_handle_id = pte_runtime_handle_id (le_row x), psa_runtime_owner_id = pte_runtime_owner_id (le_row x),
      psa_runtime_lease_token = pte_runtime_lease_token (le_row x),
      psa_start_dispatch_nonce = pte_start_dispatch_nonce (le_row x)\<rparr>"

record provider_turn_interrupt_effect =
  pie_room_id :: rstr
  pie_session_id :: rstr
  pie_turn_generation :: "64 word"
  pie_effect_id :: rstr
  pie_cause :: provider_turn_interrupt_cause
  pie_phase :: provider_turn_effect_phase
  pie_execution_id :: rstr
  pie_participant_id :: rstr
  pie_turn_id :: rstr
  pie_start_dispatch_nonce :: rstr
  pie_runtime_handle_id :: rstr
  pie_runtime_owner_id :: rstr
  pie_runtime_lease_token :: rstr
  pie_dispatch_nonce :: rstr

record provider_turn_effect_claim =
  pec_effect :: provider_turn_interrupt_effect
  pec_claim_owner :: rstr

text \<open>The join of an interrupt with its execution.\<close>

definition load_effect_in :: "rstr \<Rightarrow> rstr \<Rightarrow> 64 word \<Rightarrow> 'x turn_db \<Rightarrow> persistence_error + provider_turn_interrupt_effect" where
  "load_effect_in rid sid g db =
     rbind (turn_key invalid_effect rid sid g) (\<lambda>key.
     case (om_get (db_effects db) key, om_get (db_executions db) key) of
       (Some e, Some x) \<Rightarrow>
         Ok \<lparr>pie_room_id = rid, pie_session_id = sid, pie_turn_generation = g,
             pie_effect_id = pe_effect_id e, pie_cause = pe_cause e, pie_phase = pe_phase e,
             pie_execution_id = pte_execution_id x, pie_participant_id = pte_participant_id x,
             pie_turn_id = pte_turn_id x, pie_start_dispatch_nonce = pte_start_dispatch_nonce x,
             pie_runtime_handle_id = pte_runtime_handle_id x, pie_runtime_owner_id = pte_runtime_owner_id x,
             pie_runtime_lease_token = pte_runtime_lease_token x, pie_dispatch_nonce = pe_dispatch_nonce e\<rparr>
     | _ \<Rightarrow> Err stale_effect)"

definition load_optional_effect_in ::
  "rstr \<Rightarrow> rstr \<Rightarrow> 64 word \<Rightarrow> 'x turn_db \<Rightarrow> persistence_error + provider_turn_interrupt_effect option" where
  "load_optional_effect_in rid sid g db =
     rbind (turn_key invalid_effect rid sid g) (\<lambda>key.
     if om_get (db_effects db) key = None then Ok None
     else rbind (load_effect_in rid sid g db) (\<lambda>e. Ok (Some e)))"

definition load_effect_of :: "provider_turn_interrupt_effect \<Rightarrow> 'x turn_db \<Rightarrow> persistence_error + provider_turn_interrupt_effect" where
  "load_effect_of v = load_effect_in (pie_room_id v) (pie_session_id v) (pie_turn_generation v)"

definition load_execution_of :: "provider_turn_interrupt_effect \<Rightarrow> 'x turn_db \<Rightarrow> persistence_error + loaded_execution" where
  "load_execution_of v = load_execution_in (pie_room_id v) (pie_session_id v) (pie_turn_generation v)"

text \<open>Everything but the phase has to agree.\<close>

definition require_exact_effect ::
  "provider_turn_interrupt_effect \<Rightarrow> provider_turn_interrupt_effect \<Rightarrow> persistence_error + unit" where
  "require_exact_effect expected current =
     ensure (pie_room_id expected = pie_room_id current \<and> pie_session_id expected = pie_session_id current \<and>
             pie_turn_generation expected = pie_turn_generation current \<and>
             pie_effect_id expected = pie_effect_id current \<and> pie_cause expected = pie_cause current \<and>
             pie_execution_id expected = pie_execution_id current \<and>
             pie_participant_id expected = pie_participant_id current \<and> pie_turn_id expected = pie_turn_id current \<and>
             pie_start_dispatch_nonce expected = pie_start_dispatch_nonce current \<and>
             pie_runtime_handle_id expected = pie_runtime_handle_id current \<and>
             pie_runtime_owner_id expected = pie_runtime_owner_id current \<and>
             pie_runtime_lease_token expected = pie_runtime_lease_token current \<and>
             pie_dispatch_nonce expected = pie_dispatch_nonce current) stale_effect"

text \<open>An UPDATE that names an execution by its key, and one that names an interrupt by its room and
  identifier, which is the primary key of the table.\<close>

definition update_execution ::
  "persistence_error \<Rightarrow> rstr \<times> rstr \<times> int \<Rightarrow> (provider_turn_execution \<Rightarrow> bool)
     \<Rightarrow> (provider_turn_execution \<Rightarrow> provider_turn_execution) \<Rightarrow> ('x turn_db, unit) tx" where
  "update_execution err key hit f = (\<lambda>db.
     case om_get (db_executions db) key of
       None \<Rightarrow> Err err
     | Some row \<Rightarrow>
         if hit row then Ok ((), db\<lparr>db_executions := om_insert key (f row) (db_executions db)\<rparr>) else Err err)"

definition find_effect :: "rstr \<Rightarrow> rstr \<Rightarrow> 'x turn_db \<Rightarrow> ((rstr \<times> rstr \<times> int) \<times> provider_turn_effect) option" where
  "find_effect rid eid db = find (\<lambda>row. fst (fst row) = rid \<and> pe_effect_id (snd row) = eid) (db_effects db)"

definition update_effect ::
  "persistence_error \<Rightarrow> rstr \<Rightarrow> rstr \<Rightarrow> (provider_turn_effect \<Rightarrow> bool)
     \<Rightarrow> (provider_turn_effect \<Rightarrow> provider_turn_effect) \<Rightarrow> ('x turn_db, unit) tx" where
  "update_effect err rid eid hit f = (\<lambda>db.
     case find_effect rid eid db of
       None \<Rightarrow> Err err
     | Some (key, e) \<Rightarrow>
         if hit e then Ok ((), db\<lparr>db_effects := om_insert key (f e) (db_effects db)\<rparr>) else Err err)"

text \<open>The custody columns that most statements compare.\<close>

definition execution_has_custody :: "rstr \<Rightarrow> rstr \<Rightarrow> rstr \<Rightarrow> rstr \<Rightarrow> provider_turn_execution \<Rightarrow> bool" where
  "execution_has_custody execution_id handle owner lease row \<longleftrightarrow>
     pte_execution_id row = execution_id \<and> pte_runtime_handle_id row = handle \<and>
     pte_runtime_owner_id row = owner \<and> pte_runtime_lease_token row = lease"

definition held_by_effect :: "provider_turn_interrupt_effect \<Rightarrow> provider_turn_execution \<Rightarrow> bool" where
  "held_by_effect v = execution_has_custody (pie_execution_id v) (pie_runtime_handle_id v)
     (pie_runtime_owner_id v) (pie_runtime_lease_token v)"

section \<open>Starting a turn\<close>

definition session_holds_execution :: "durable_agent_session \<Rightarrow> rstr \<Rightarrow> rstr \<Rightarrow> rstr \<Rightarrow> bool" where
  "session_holds_execution s handle owner lease \<longleftrightarrow>
     das_runtime_handle_id s = handle \<and> das_runtime_owner_id s = owner \<and> das_runtime_lease_token s = lease"

definition require_start_authority ::
  "rstr \<Rightarrow> 64 word \<Rightarrow> rstr \<Rightarrow> durable_agent_session \<Rightarrow> participant \<Rightarrow> persistence_error + unit" where
  "require_start_authority rid g turn_id s p =
     (if part_room_id p \<noteq> rid \<or> part_id p \<noteq> as_participant_id (das_public s) \<or> part_status p \<noteq> Joined \<or>
         part_muted p \<or> as_active_turn_id (das_public s) \<noteq> turn_id \<or> das_turn_generation s \<noteq> g
      then Err stale_execution
      else rbind (ok_or (active_turn_authority s) invalid_execution) (\<lambda>active. ensure active stale_execution))"

definition authorize_start_in ::
  "'x turn_env \<Rightarrow> rstr \<Rightarrow> rstr \<Rightarrow> 64 word \<Rightarrow> rstr \<Rightarrow> ('x turn_db, provider_turn_start_authority) tx" where
  "authorize_start_in E rid sid g turn_id =
     tx_bind (tx_read (load_session rid sid)) (\<lambda>s.
     tx_bind (tx_read (load_participant rid (as_participant_id (das_public s)))) (\<lambda>p.
     tx_bind (tx_try (require_start_authority rid g turn_id s p)) (\<lambda>_.
     tx_bind (draw_uuid E) (\<lambda>nonce.
     tx_bind (tx_try (turn_key invalid_execution rid sid g)) (\<lambda>key.
     tx_bind (tx_read (\<lambda>db. ensure (\<not> effect_unsettled db key) stale_execution)) (\<lambda>_.
     tx_bind (update_execution stale_execution key
        (\<lambda>row. pte_turn_id row = turn_id \<and> pte_participant_id row = as_participant_id (das_public s) \<and>
               pte_phase row = Assigned \<and> pte_runtime_handle_id row = das_runtime_handle_id s \<and>
               pte_runtime_owner_id row = das_runtime_owner_id s \<and> pte_runtime_lease_token row = das_runtime_lease_token s)
        (\<lambda>row. row\<lparr>pte_phase := Start_Dispatching, pte_start_dispatch_nonce := uuid_string nonce\<rparr>)) (\<lambda>_.
     tx_bind (tx_read (load_execution_in rid sid g)) (\<lambda>x.
     tx_return (start_authority_of x)))))))))"

definition matches_start_authority :: "provider_turn_start_authority \<Rightarrow> provider_turn_execution \<Rightarrow> bool" where
  "matches_start_authority a row \<longleftrightarrow>
     execution_has_custody (psa_execution_id a) (psa_runtime_handle_id a) (psa_runtime_owner_id a)
       (psa_runtime_lease_token a) row \<and>
     pte_turn_id row = psa_turn_id a \<and> pte_start_dispatch_nonce row = psa_start_dispatch_nonce a"

definition mark_running_in :: "provider_turn_start_authority \<Rightarrow> rstr \<Rightarrow> ('x turn_db, unit) tx" where
  "mark_running_in a provider_turn_id =
     tx_bind (tx_try (ensure (is_provider_turn_id provider_turn_id) invalid_execution)) (\<lambda>_.
     tx_bind (tx_try (turn_key invalid_execution (psa_room_id a) (psa_session_id a) (psa_turn_generation a))) (\<lambda>key.
     update_execution stale_execution key
       (\<lambda>row. matches_start_authority a row \<and> pte_phase row = Start_Dispatching)
       (\<lambda>row. row\<lparr>pte_phase := Running, pte_provider_turn_id := provider_turn_id\<rparr>)))"

section \<open>Quarantine\<close>

definition mark_provider_turn_recovery_required ::
  "'x turn_env \<Rightarrow> provider_turn_start_authority \<Rightarrow> ('x turn_db, agent_turn_commit) tx" where
  "mark_provider_turn_recovery_required E a =
     tx_bind (tx_read (load_session (psa_room_id a) (psa_session_id a))) (\<lambda>s.
     tx_bind (tx_read (load_execution_in (psa_room_id a) (psa_session_id a) (psa_turn_generation a))) (\<lambda>x.
     tx_bind (tx_try (ensure
        (matches_start_authority a (le_row x) \<and> pte_phase (le_row x) \<in> {Start_Dispatching, Running} \<and>
         as_active_turn_id (das_public s) = psa_turn_id a \<and> das_turn_generation s = psa_turn_generation a \<and>
         session_holds_execution s (psa_runtime_handle_id a) (psa_runtime_owner_id a) (psa_runtime_lease_token a))
        stale_execution)) (\<lambda>_.
     tx_bind (tx_try (rbind (ok_or (active_turn_authority s) invalid_execution) (\<lambda>active. ensure active stale_execution))) (\<lambda>_.
     tx_bind (tx_try (turn_key invalid_execution (psa_room_id a) (psa_session_id a) (psa_turn_generation a))) (\<lambda>key.
     tx_bind (update_execution stale_execution key
        (\<lambda>row. matches_start_authority a row \<and> pte_phase row \<in> {Start_Dispatching, Running})
        (\<lambda>row. row\<lparr>pte_phase := Recovery_Required\<rparr>)) (\<lambda>_.
     tx_bind (draw_now E) (\<lambda>now.
     let s = s\<lparr>das_public := (das_public s)
           \<lparr>as_recovery_required := True,
            as_last_error_code := str ''provider_turn_recovery_required'',
            as_last_error := str ''The exact provider turn remains quarantined pending recovery.'',
            as_updated_at := now\<rparr>\<rparr> in
     tx_bind (save_session s) (\<lambda>_.
     tx_bind (session_state_event E s) (\<lambda>state.
     tx_return (commit_of [state] []))))))))))"

text \<open>The provider never saw the turn: it fails, and its inputs are queued again.\<close>

definition finalize_proven_no_effect_task_death ::
  "'x turn_env \<Rightarrow> durable_agent_session \<Rightarrow> loaded_execution \<Rightarrow> ('x turn_db, agent_turn_commit) tx" where
  "finalize_proven_no_effect_task_death E s x =
     (let code = ''provider_turn_task_failed'';
          m = str ''Provider turn ownership ended before provider I/O was authorized.'' in
      tx_bind (tx_read (load_active_room E (le_room_id x))) (\<lambda>(room, settings).
      tx_bind (tx_try (turn_key invalid_execution (le_room_id x) (le_session_id x) (le_turn_generation x))) (\<lambda>key.
      tx_bind (tx_read (\<lambda>db. ensure (\<not> effect_unsettled db key) stale_execution)) (\<lambda>_.
      tx_bind (update_execution stale_execution key
         (\<lambda>row. pte_execution_id row = pte_execution_id (le_row x) \<and> pte_phase row = pte_phase (le_row x) \<and>
                \<not> pte_requeue_finalized row)
         (\<lambda>row. row\<lparr>pte_phase := Failed, pte_requeue_finalized := True\<rparr>)) (\<lambda>_.
      tx_bind (error_event E s (pte_turn_id (le_row x)) (str code) m) (\<lambda>error.
      tx_bind (turn_finished_event E s (pte_turn_id (le_row x)) ''error'' None (Some (str code))) (\<lambda>finished.
      tx_bind (tx_read (merged_turn_queue s)) (\<lambda>restored.
      tx_bind (draw_now E) (\<lambda>now.
      let s = fail_session_state now restored m (str code) s in
      tx_bind (save_session s) (\<lambda>_.
      tx_bind (session_state_event E s) (\<lambda>state.
      tx_bind (assign_available_pending E room settings) (\<lambda>prepared.
      tx_return (commit_of [error, finished, state] prepared)))))))))))))"

definition quarantine_effect :: "provider_turn_effect \<Rightarrow> provider_turn_effect" where
  "quarantine_effect e =
     (if pe_phase e \<in> {Effect_Prepared, Effect_Claimed, Effect_Dispatching, Effect_Issued_Waiting_Quiescence}
      then e\<lparr>pe_phase := if pe_phase e = Effect_Dispatching then Effect_Interrupt_Ambiguous else Effect_Recovery_Required\<rparr>
      else e)"

definition quarantine_effect_row :: "rstr \<times> rstr \<times> int \<Rightarrow> ('x turn_db, unit) tx" where
  "quarantine_effect_row key = (\<lambda>db.
     case om_get (db_effects db) key of
       None \<Rightarrow> Ok ((), db)
     | Some e \<Rightarrow> Ok ((), db\<lparr>db_effects := om_insert key (quarantine_effect e) (db_effects db)\<rparr>))"

definition effect_is_dispatching :: "'x turn_db \<Rightarrow> rstr \<times> rstr \<times> int \<Rightarrow> bool" where
  "effect_is_dispatching db key \<longleftrightarrow> map_option pe_phase (om_get (db_effects db) key) = Some Effect_Dispatching"

text \<open>The provider may have seen the turn: it is quarantined, never queued again.\<close>

definition quarantine_dispatched_task_death ::
  "'x turn_env \<Rightarrow> durable_agent_session \<Rightarrow> loaded_execution \<Rightarrow> ('x turn_db, agent_turn_commit) tx" where
  "quarantine_dispatched_task_death E s x =
     tx_bind (tx_try (turn_key invalid_execution (le_room_id x) (le_session_id x) (le_turn_generation x))) (\<lambda>key.
     tx_bind (tx_read (\<lambda>db. Ok (effect_is_dispatching db key))) (\<lambda>dispatching.
     tx_bind (update_execution stale_execution key
        (\<lambda>row. execution_has_custody (pte_execution_id (le_row x)) (pte_runtime_handle_id (le_row x))
                 (pte_runtime_owner_id (le_row x)) (pte_runtime_lease_token (le_row x)) row \<and>
               pte_phase row = pte_phase (le_row x))
        (\<lambda>row. row\<lparr>pte_phase := if dispatching then Interrupt_Ambiguous else Recovery_Required\<rparr>)) (\<lambda>_.
     tx_bind (quarantine_effect_row key) (\<lambda>_.
     tx_bind (draw_now E) (\<lambda>now.
     let s = s\<lparr>das_public := (das_public s)\<lparr>as_recovery_required := True, as_updated_at := now\<rparr>\<rparr> in
     tx_bind (save_session s) (\<lambda>_.
     tx_bind (session_state_event E s) (\<lambda>state.
     tx_return (commit_of [state] []))))))))"

definition record_provider_turn_task_death ::
  "'x turn_env \<Rightarrow> rstr \<Rightarrow> rstr \<Rightarrow> 64 word \<Rightarrow> rstr \<Rightarrow> ('x turn_db, agent_turn_commit) tx" where
  "record_provider_turn_task_death E rid sid g execution_id =
     tx_bind (tx_read (load_execution_in rid sid g)) (\<lambda>x.
     tx_bind (tx_read (load_session rid sid)) (\<lambda>s.
     let row = le_row x in
     tx_bind (tx_try (ensure
        (pte_execution_id row = execution_id \<and> pte_participant_id row = as_participant_id (das_public s) \<and>
         pte_turn_id row = as_active_turn_id (das_public s) \<and> le_turn_generation x = das_turn_generation s \<and>
         session_holds_execution s (pte_runtime_handle_id row) (pte_runtime_owner_id row) (pte_runtime_lease_token row))
        stale_execution)) (\<lambda>_.
     tx_bind (tx_try (rbind (ok_or (active_turn_authority s) invalid_execution) (\<lambda>active. ensure active stale_execution))) (\<lambda>_.
     if pte_phase row = Assigned then finalize_proven_no_effect_task_death E s x
     else if pte_phase row \<in> {Start_Dispatching, Running, Interrupt_Pending, Quiescing}
     then quarantine_dispatched_task_death E s x
     else tx_try (Err stale_execution)))))"

section \<open>The exact interrupt\<close>

text \<open>The insertion is ignored when the execution has an interrupt, or the identifier is taken.\<close>

definition insert_effect :: "rstr \<times> rstr \<times> int \<Rightarrow> provider_turn_effect \<Rightarrow> ('x turn_db, unit) tx" where
  "insert_effect key e = (\<lambda>db.
     if om_get (db_effects db) key \<noteq> None \<or> find_effect (fst key) (pe_effect_id e) db \<noteq> None then Ok ((), db)
     else if om_get (db_executions db) key = None then Err Database_Error
     else Ok ((), db\<lparr>db_effects := om_insert key e (db_effects db)\<rparr>))"

definition prepare_interrupt_effect ::
  "'x turn_env \<Rightarrow> loaded_execution \<Rightarrow> provider_turn_interrupt_cause \<Rightarrow> ('x turn_db, provider_turn_interrupt_effect) tx" where
  "prepare_interrupt_effect E x cause =
     (let row = le_row x; load = load_effect_in (le_room_id x) (le_session_id x) (le_turn_generation x) in
      tx_bind (tx_try (ensure (is_blocking (pte_phase row)) stale_effect)) (\<lambda>_.
      tx_bind (draw_uuid E) (\<lambda>uid.
      tx_bind (tx_try (turn_key invalid_effect (le_room_id x) (le_session_id x) (le_turn_generation x))) (\<lambda>key.
      tx_bind (insert_effect key
         \<lparr>pe_effect_id = uuid_string uid, pe_cause = cause, pe_phase = Effect_Prepared,
          pe_claim_owner = [], pe_claim_expires_at = None, pe_dispatch_nonce = []\<rparr>) (\<lambda>_.
      tx_bind (tx_read load) (\<lambda>effect.
      tx_bind (tx_try (ensure (pie_cause effect = cause) unresolved_effect)) (\<lambda>_.
      tx_bind (if pte_phase row \<in> {Assigned, Start_Dispatching, Running}
               then update_execution stale_effect key
                 (\<lambda>now. execution_has_custody (pte_execution_id row) (pte_runtime_handle_id row)
                          (pte_runtime_owner_id row) (pte_runtime_lease_token row) now \<and>
                        pte_turn_id now = pte_turn_id row \<and> pte_phase now = pte_phase row)
                 (\<lambda>now. now\<lparr>pte_phase := Interrupt_Pending\<rparr>)
               else tx_return ()) (\<lambda>_.
      tx_read load))))))))"

definition CLAIM_TTL_MILLIS :: int where "CLAIM_TTL_MILLIS = 30000"

definition claim_expiry :: "int \<Rightarrow> int" where
  "claim_expiry now = min i64_max (now + CLAIM_TTL_MILLIS)"

definition claim_provider_turn_interrupt ::
  "(rstr \<Rightarrow> bool) \<Rightarrow> int \<Rightarrow> provider_turn_interrupt_effect \<Rightarrow> rstr \<Rightarrow> ('x turn_db, provider_turn_effect_claim) tx" where
  "claim_provider_turn_interrupt is_uuid now expected claim_owner =
     tx_bind (tx_try (ensure (is_uuid claim_owner) invalid_effect)) (\<lambda>_.
     tx_bind (tx_read (load_effect_of expected)) (\<lambda>current.
     tx_bind (tx_try (require_exact_effect expected current)) (\<lambda>_.
     tx_bind (update_effect unresolved_effect (pie_room_id current) (pie_effect_id current)
        (\<lambda>e. pe_phase e = Effect_Prepared \<or>
             pe_phase e = Effect_Claimed \<and>
               (pe_claim_owner e = claim_owner \<or> (case pe_claim_expires_at e of None \<Rightarrow> False | Some t \<Rightarrow> t < now)))
        (\<lambda>e. e\<lparr>pe_phase := Effect_Claimed, pe_claim_owner := claim_owner,
               pe_claim_expires_at := Some (claim_expiry now)\<rparr>)) (\<lambda>_.
     tx_bind (tx_read (load_effect_of current)) (\<lambda>effect.
     tx_return \<lparr>pec_effect = effect, pec_claim_owner = claim_owner\<rparr>)))))"

definition recoverable_interrupt_pair :: "provider_turn_effect_phase \<Rightarrow> provider_turn_execution_phase \<Rightarrow> bool" where
  "recoverable_interrupt_pair effect execution =
     (case effect of
        Effect_Prepared \<Rightarrow> execution \<in> {Interrupt_Pending, Start_Ambiguous, Recovery_Required}
      | Effect_Claimed \<Rightarrow> execution = Interrupt_Pending
      | Effect_Dispatching \<Rightarrow> execution = Interrupt_Pending
      | Effect_Issued_Waiting_Quiescence \<Rightarrow> execution = Quiescing
      | Effect_Interrupt_Ambiguous \<Rightarrow> execution = Interrupt_Ambiguous
      | Effect_Recovery_Required \<Rightarrow> execution = Recovery_Required
      | Effect_Finalized \<Rightarrow> False)"

text \<open>What a recovery demands of the two rows as they are now.\<close>

definition require_recoverable :: "provider_turn_interrupt_effect \<Rightarrow> provider_turn_execution \<Rightarrow> persistence_error + unit" where
  "require_recoverable current row =
     ensure (recoverable_interrupt_pair (pie_phase current) (pte_phase row) \<and> held_by_effect current row \<and>
             \<not> pte_requeue_finalized row) stale_effect"

definition claim_provider_turn_interrupt_recovery ::
  "(rstr \<Rightarrow> bool) \<Rightarrow> int \<Rightarrow> provider_turn_interrupt_effect \<Rightarrow> rstr \<Rightarrow> ('x turn_db, provider_turn_effect_claim) tx" where
  "claim_provider_turn_interrupt_recovery is_uuid now expected claim_owner =
     tx_bind (tx_try (ensure (is_uuid claim_owner) invalid_effect)) (\<lambda>_.
     tx_bind (tx_read (load_effect_of expected)) (\<lambda>current.
     tx_bind (tx_try (require_exact_effect expected current)) (\<lambda>_.
     tx_bind (tx_read (load_execution_of expected)) (\<lambda>x.
     tx_bind (tx_try (require_recoverable current (le_row x))) (\<lambda>_.
     tx_bind (update_effect unresolved_effect (pie_room_id current) (pie_effect_id current)
        (\<lambda>e. pe_phase e = pie_phase current \<and> pe_dispatch_nonce e = pie_dispatch_nonce current \<and>
             (pe_claim_owner e = [] \<or> pe_claim_owner e = claim_owner \<or>
              (case pe_claim_expires_at e of None \<Rightarrow> True | Some t \<Rightarrow> t < now)))
        (\<lambda>e. e\<lparr>pe_claim_owner := claim_owner, pe_claim_expires_at := Some (claim_expiry now)\<rparr>)) (\<lambda>_.
     tx_bind (tx_read (load_effect_of current)) (\<lambda>effect.
     tx_return \<lparr>pec_effect = effect, pec_claim_owner = claim_owner\<rparr>)))))))"

definition claim_is_live :: "int \<Rightarrow> rstr \<Rightarrow> provider_turn_effect \<Rightarrow> bool" where
  "claim_is_live now claim_owner e \<longleftrightarrow>
     pe_claim_owner e = claim_owner \<and> (case pe_claim_expires_at e of None \<Rightarrow> False | Some t \<Rightarrow> now \<le> t)"

text \<open>The fence before the first byte of the interrupt is a statement of its own; what it left is
  read back afterwards, so a failure of that reading does not undo the fence.\<close>

definition fence_interrupt_dispatch :: "'x turn_env \<Rightarrow> int \<Rightarrow> provider_turn_effect_claim \<Rightarrow> ('x turn_db, unit) tx" where
  "fence_interrupt_dispatch E now claim =
     tx_bind (draw_uuid E) (\<lambda>nonce.
     update_effect stale_effect (pie_room_id (pec_effect claim)) (pie_effect_id (pec_effect claim))
       (\<lambda>e. pe_phase e = Effect_Claimed \<and> claim_is_live now (pec_claim_owner claim) e)
       (\<lambda>e. e\<lparr>pe_phase := Effect_Dispatching, pe_dispatch_nonce := uuid_string nonce\<rparr>))"

definition authorize_provider_interrupt_dispatch ::
  "'x turn_env \<Rightarrow> int \<Rightarrow> provider_turn_effect_claim \<Rightarrow> 'x turn_db
     \<Rightarrow> (persistence_error + provider_turn_interrupt_effect) \<times> 'x turn_db" where
  "authorize_provider_interrupt_dispatch E now claim db =
     (case fence_interrupt_dispatch E now claim db of
        Err e \<Rightarrow> (Err e, db)
      | Ok (_, db') \<Rightarrow> (load_effect_of (pec_effect claim) db', db'))"

text \<open>Both rows change or none does.\<close>

definition move_pair ::
  "provider_turn_interrupt_effect \<Rightarrow> (provider_turn_effect \<Rightarrow> bool) \<Rightarrow> (provider_turn_effect \<Rightarrow> provider_turn_effect)
     \<Rightarrow> (provider_turn_execution \<Rightarrow> bool) \<Rightarrow> (provider_turn_execution \<Rightarrow> provider_turn_execution) \<Rightarrow> ('x turn_db, unit) tx" where
  "move_pair v hit_effect f hit_execution g =
     tx_bind (tx_try (turn_key invalid_effect (pie_room_id v) (pie_session_id v) (pie_turn_generation v))) (\<lambda>key.
     tx_bind (update_effect stale_effect (pie_room_id v) (pie_effect_id v) hit_effect f) (\<lambda>_.
     update_execution stale_effect key (\<lambda>row. held_by_effect v row \<and> hit_execution row) g))"

definition transition_to_waiting_in ::
  "int \<Rightarrow> provider_turn_interrupt_effect \<Rightarrow> rstr option \<Rightarrow> ('x turn_db, provider_turn_interrupt_effect) tx" where
  "transition_to_waiting_in now expected claim_owner =
     tx_bind (move_pair expected
        (\<lambda>e. case claim_owner of
               Some owner \<Rightarrow> pe_phase e = Effect_Claimed \<and> claim_is_live now owner e
             | None \<Rightarrow> pe_phase e = Effect_Dispatching \<and> pe_dispatch_nonce e = pie_dispatch_nonce expected)
        (\<lambda>e. e\<lparr>pe_phase := Effect_Issued_Waiting_Quiescence\<rparr>)
        (\<lambda>row. pte_phase row = Interrupt_Pending)
        (\<lambda>row. row\<lparr>pte_phase := Quiescing\<rparr>)) (\<lambda>_.
     tx_read (load_effect_of expected))"

definition mark_unstarted_interrupt_waiting ::
  "int \<Rightarrow> provider_turn_effect_claim \<Rightarrow> ('x turn_db, provider_turn_interrupt_effect) tx" where
  "mark_unstarted_interrupt_waiting now claim = transition_to_waiting_in now (pec_effect claim) (Some (pec_claim_owner claim))"

definition mark_provider_interrupt_issued ::
  "int \<Rightarrow> provider_turn_interrupt_effect \<Rightarrow> ('x turn_db, provider_turn_interrupt_effect) tx" where
  "mark_provider_interrupt_issued now dispatched = transition_to_waiting_in now dispatched None"

definition mark_provider_interrupt_ambiguous :: "provider_turn_interrupt_effect \<Rightarrow> ('x turn_db, unit) tx" where
  "mark_provider_interrupt_ambiguous dispatched =
     move_pair dispatched
       (\<lambda>e. pe_phase e = Effect_Dispatching \<and> pe_dispatch_nonce e = pie_dispatch_nonce dispatched)
       (\<lambda>e. e\<lparr>pe_phase := Effect_Interrupt_Ambiguous\<rparr>)
       (\<lambda>row. pte_phase row = Interrupt_Pending)
       (\<lambda>row. row\<lparr>pte_phase := Interrupt_Ambiguous\<rparr>)"

definition transition_to_recovery_required ::
  "provider_turn_interrupt_effect \<Rightarrow> rstr option \<Rightarrow> ('x turn_db, unit) tx" where
  "transition_to_recovery_required expected release_claim_owner =
     (let (effect_phase, execution_phase) =
            (if release_claim_owner \<noteq> None then (Effect_Claimed, Interrupt_Pending)
             else (Effect_Issued_Waiting_Quiescence, Quiescing)) in
      tx_bind (tx_read (load_effect_of expected)) (\<lambda>current.
      tx_bind (tx_try (require_exact_effect expected current)) (\<lambda>_.
      tx_bind (tx_read (load_execution_of current)) (\<lambda>x.
      tx_bind (tx_try (ensure
         (pie_phase current = effect_phase \<and> pte_phase (le_row x) = execution_phase \<and>
          held_by_effect current (le_row x) \<and> \<not> pte_requeue_finalized (le_row x)) stale_effect)) (\<lambda>_.
      move_pair current
        (\<lambda>e. pe_phase e = effect_phase \<and>
             (case release_claim_owner of None \<Rightarrow> True | Some owner \<Rightarrow> pe_claim_owner e = owner))
        (\<lambda>e. case release_claim_owner of
               None \<Rightarrow> e\<lparr>pe_phase := Effect_Recovery_Required\<rparr>
             | Some _ \<Rightarrow> e\<lparr>pe_phase := Effect_Recovery_Required, pe_claim_owner := [], pe_claim_expires_at := None\<rparr>)
        (\<lambda>row. pte_phase row = execution_phase \<and> \<not> pte_requeue_finalized row)
        (\<lambda>row. row\<lparr>pte_phase := Recovery_Required\<rparr>))))))"

definition handoff_unissued_provider_interrupt_claim :: "provider_turn_effect_claim \<Rightarrow> ('x turn_db, unit) tx" where
  "handoff_unissued_provider_interrupt_claim claim =
     transition_to_recovery_required (pec_effect claim) (Some (pec_claim_owner claim))"

definition mark_provider_interrupt_recovery_required :: "provider_turn_interrupt_effect \<Rightarrow> ('x turn_db, unit) tx" where
  "mark_provider_interrupt_recovery_required expected = transition_to_recovery_required expected None"

definition release_provider_interrupt_recovery_claim :: "provider_turn_effect_claim \<Rightarrow> ('x turn_db, unit) tx" where
  "release_provider_interrupt_recovery_claim claim =
     tx_bind (tx_read (load_effect_of (pec_effect claim))) (\<lambda>current.
     tx_bind (tx_try (require_exact_effect (pec_effect claim) current)) (\<lambda>_.
     update_effect stale_effect (pie_room_id current) (pie_effect_id current)
       (\<lambda>e. pe_phase e = pie_phase current \<and> pe_dispatch_nonce e = pie_dispatch_nonce current \<and>
            pe_claim_owner e = pec_claim_owner claim)
       (\<lambda>e. e\<lparr>pe_claim_owner := [], pe_claim_expires_at := None\<rparr>)))"

definition authorize_provider_interrupt_recovery_wait ::
  "int \<Rightarrow> provider_turn_effect_claim \<Rightarrow> ('x turn_db, provider_turn_interrupt_effect) tx" where
  "authorize_provider_interrupt_recovery_wait now claim =
     (let expected = pec_effect claim in
      tx_bind (tx_read (load_effect_of expected)) (\<lambda>current.
      tx_bind (tx_try (require_exact_effect expected current)) (\<lambda>_.
      tx_bind (tx_read (load_execution_of expected)) (\<lambda>x.
      tx_bind (tx_try (require_recoverable current (le_row x))) (\<lambda>_.
      tx_bind (move_pair current
         (\<lambda>e. pe_phase e = pie_phase current \<and> pe_dispatch_nonce e = pie_dispatch_nonce current \<and>
              claim_is_live now (pec_claim_owner claim) e)
         (\<lambda>e. e\<lparr>pe_phase := Effect_Issued_Waiting_Quiescence\<rparr>)
         (\<lambda>row. pte_phase row = pte_phase (le_row x) \<and> \<not> pte_requeue_finalized row)
         (\<lambda>row. row\<lparr>pte_phase := Quiescing\<rparr>)) (\<lambda>_.
      tx_return (current\<lparr>pie_phase := Effect_Issued_Waiting_Quiescence\<rparr>)))))))"

section \<open>The end of an interrupted turn\<close>

fun interrupt_cause_str :: "provider_turn_interrupt_cause \<Rightarrow> string" where
  "interrupt_cause_str Participant_Muted = ''participant_muted''"
| "interrupt_cause_str Agent_Interrupt = ''agent_interrupt''"

definition INTERRUPTED_CODE :: rstr where "INTERRUPTED_CODE = str ''interrupted''"

definition INTERRUPTED_MESSAGE :: rstr where
  "INTERRUPTED_MESSAGE = str ''The provider turn was interrupted by a room operator.''"

definition terminalize_retained_interrupt :: "provider_turn_interrupt_effect \<Rightarrow> ('x turn_db, unit) tx" where
  "terminalize_retained_interrupt expected =
     tx_bind (tx_read (load_execution_of expected)) (\<lambda>x.
     tx_bind (tx_try (ensure
        (pte_phase (le_row x) = Quiescing \<and> held_by_effect expected (le_row x) \<and>
         pte_participant_id (le_row x) = pie_participant_id expected \<and> pte_turn_id (le_row x) = pie_turn_id expected \<and>
         \<not> pte_requeue_finalized (le_row x)) stale_effect)) (\<lambda>_.
     tx_bind (tx_read (load_effect_of expected)) (\<lambda>effect.
     tx_bind (tx_try (require_exact_effect expected effect)) (\<lambda>_.
     tx_bind (tx_try (ensure (pie_phase effect = Effect_Issued_Waiting_Quiescence) stale_effect)) (\<lambda>_.
     move_pair effect
       (\<lambda>e. pe_phase e = Effect_Issued_Waiting_Quiescence \<and> pe_dispatch_nonce e = pie_dispatch_nonce effect)
       (\<lambda>e. e\<lparr>pe_phase := Effect_Finalized, pe_claim_expires_at := None\<rparr>)
       (\<lambda>row. pte_phase row = Quiescing \<and> \<not> pte_requeue_finalized row)
       (\<lambda>row. row\<lparr>pte_phase := Interrupted, pte_requeue_finalized := True\<rparr>))))))"

definition retained_session_state ::
  "timestamp \<Rightarrow> provider_turn_interrupt_cause \<Rightarrow> queued_room_input list \<Rightarrow> durable_agent_session \<Rightarrow> durable_agent_session" where
  "retained_session_state now cause restored s =
     clear_active_turn_fields
       (s\<lparr>das_pending_inputs := restored,
          das_inflight_inputs := [],
          das_public := (das_public s)
            \<lparr>as_status := Session_Attached,
             as_runtime_status := Runtime_Idle,
             as_turn_phase := Phase_None,
             as_active_turn_id := [],
             as_last_error := if cause = Agent_Interrupt then INTERRUPTED_MESSAGE else [],
             as_last_error_code := if cause = Agent_Interrupt then INTERRUPTED_CODE else [],
             as_recovery_required := False,
             as_updated_at := now\<rparr>\<rparr>)"

definition require_retained_session ::
  "provider_turn_interrupt_effect \<Rightarrow> durable_agent_session \<Rightarrow> persistence_error + unit" where
  "require_retained_session expected s =
     rbind (ok_or (active_turn_authority s) invalid_effect) (\<lambda>active.
     ensure (active \<and> as_participant_id (das_public s) = pie_participant_id expected \<and>
             as_active_turn_id (das_public s) = pie_turn_id expected \<and>
             das_turn_generation s = pie_turn_generation expected \<and>
             session_holds_execution s (pie_runtime_handle_id expected) (pie_runtime_owner_id expected)
               (pie_runtime_lease_token expected)) stale_effect)"

text \<open>The turn ends where it was quiescent and its runtime stays.\<close>

definition interruption_events ::
  "'x turn_env \<Rightarrow> durable_agent_session \<Rightarrow> rstr \<Rightarrow> provider_turn_interrupt_cause \<Rightarrow> ('x turn_db, room_event list) tx" where
  "interruption_events E s turn_id cause =
     tx_bind (if cause = Agent_Interrupt
              then tx_bind (error_event E s turn_id INTERRUPTED_CODE INTERRUPTED_MESSAGE) (\<lambda>e. tx_return [e])
              else tx_return []) (\<lambda>errors.
     tx_bind (turn_finished_event E s turn_id ''interrupted'' None (Some (str (interrupt_cause_str cause)))) (\<lambda>finished.
     tx_return (errors @ [finished])))"

definition schedule_after_interrupt ::
  "'x turn_env \<Rightarrow> rstr \<Rightarrow> provider_turn_interrupt_cause \<Rightarrow> ('x turn_db, agent_turn_commit) tx" where
  "schedule_after_interrupt E rid cause =
     (if cause = Participant_Muted
      then tx_bind (tx_read (load_active_room E rid)) (\<lambda>(room, settings). assign_pending_in E room settings)
      else tx_return (commit_of [] []))"

definition finalize_retained_in ::
  "'x turn_env \<Rightarrow> provider_turn_interrupt_effect \<Rightarrow> ('x turn_db, agent_turn_commit) tx" where
  "finalize_retained_in E expected =
     tx_bind (tx_read (load_session (pie_room_id expected) (pie_session_id expected))) (\<lambda>s.
     tx_bind (tx_try (require_retained_session expected s)) (\<lambda>_.
     tx_bind (terminalize_retained_interrupt expected) (\<lambda>_.
     tx_bind (interruption_events E s (as_active_turn_id (das_public s)) (pie_cause expected)) (\<lambda>events.
     tx_bind (tx_read (merged_turn_queue s)) (\<lambda>restored.
     tx_bind (draw_now E) (\<lambda>now.
     let s = retained_session_state now (pie_cause expected) restored s in
     tx_bind (save_session s) (\<lambda>_.
     tx_bind (session_state_event E s) (\<lambda>state.
     tx_bind (schedule_after_interrupt E (pie_room_id expected) (pie_cause expected)) (\<lambda>scheduled.
     tx_return (scheduled\<lparr>atc_events := events @ [state] @ atc_events scheduled\<rparr>))))))))))"

end
