(* ===== verification/Turn_Recovery.thy ===== *)
theory Turn_Recovery
  imports Turn_Effects
begin

text \<open>
  The recovery of blocking provider turns (persistence/provider\_turn\_reconciliation.rs and
  provider\_turn\_stop.rs): the page scan over the blocking executions, the handing back of a
  turn that was never dispatched, and the ends of a turn whose provider is proved not to have
  started it, to be gone, or to be stopped. The pending removals of rooms and the pending lifecycle
  commands belong to other tables; what this module asks of them is an argument.
\<close>

definition invalid_reconciliation :: persistence_error where
  "invalid_reconciliation = rejected ''stored_turn_reconciliation_invalid''
     ''Stored provider turn reconciliation authority is invalid.''"

definition stale_reconciliation :: persistence_error where
  "stale_reconciliation = rejected ''stale_turn_reconciliation_candidate''
     ''Provider turn reconciliation authority changed before commit.''"

record turn_candidate =
  tcd_session :: durable_agent_session
  tcd_execution :: loaded_execution
  tcd_effect :: "provider_turn_interrupt_effect option"

text \<open>The execution as the code compares it: the assignment is not one of its columns.\<close>

definition same_execution :: "loaded_execution \<Rightarrow> loaded_execution \<Rightarrow> bool" where
  "same_execution x y \<longleftrightarrow>
     le_room_id x = le_room_id y \<and> le_session_id x = le_session_id y \<and> le_turn_generation x = le_turn_generation y \<and>
     (le_row x)\<lparr>pte_assignment := pte_assignment (le_row y)\<rparr> = le_row y"

definition validate_candidate :: "durable_agent_session \<Rightarrow> loaded_execution \<Rightarrow> persistence_error + unit" where
  "validate_candidate s x =
     (let row = le_row x in
      if \<not> is_blocking (pte_phase row) then Err invalid_reconciliation
      else rbind (ok_or (active_turn_authority s) invalid_reconciliation) (\<lambda>active.
           ensure (active \<and> as_room_id (das_public s) = le_room_id x \<and> as_session_id (das_public s) = le_session_id x \<and>
                   as_participant_id (das_public s) = pte_participant_id row \<and>
                   as_active_turn_id (das_public s) = pte_turn_id row \<and> das_turn_generation s = le_turn_generation x \<and>
                   session_holds_execution s (pte_runtime_handle_id row) (pte_runtime_owner_id row)
                     (pte_runtime_lease_token row)) invalid_reconciliation))"

text \<open>\<open>u64::try_from\<close> of a column, which is an i64.\<close>

definition u64_of :: "int \<Rightarrow> persistence_error + 64 word" where
  "u64_of g = (if 0 \<le> g \<and> g \<le> i64_max then Ok (word_of_int g) else Err invalid_reconciliation)"

definition load_candidate_at :: "rstr \<Rightarrow> rstr \<Rightarrow> 64 word \<Rightarrow> 'x turn_db \<Rightarrow> persistence_error + turn_candidate" where
  "load_candidate_at rid sid g db =
     rbind (load_execution_in rid sid g db) (\<lambda>x.
     rbind (load_session rid sid db) (\<lambda>s.
     rbind (validate_candidate s x) (\<lambda>_.
     rbind (load_optional_effect_in rid sid g db) (\<lambda>effect.
     Ok \<lparr>tcd_session = s, tcd_execution = x, tcd_effect = effect\<rparr>))))"

definition load_active_candidate_in :: "rstr \<Rightarrow> rstr \<Rightarrow> 'x turn_db \<Rightarrow> persistence_error + turn_candidate option" where
  "load_active_candidate_in rid sid db =
     (let generations = take 2 (rev (map (\<lambda>row. snd (snd (fst row)))
            (filter (\<lambda>row. fst (fst row) = rid \<and> fst (snd (fst row)) = sid \<and> is_blocking (pte_phase (snd row)))
              (db_executions db)))) in
      case generations of
        [] \<Rightarrow> Ok None
      | [g] \<Rightarrow> rbind (u64_of g) (\<lambda>g. rbind (load_candidate_at rid sid g db) (\<lambda>c. Ok (Some c)))
      | _ \<Rightarrow> Err invalid_reconciliation)"

section \<open>The page scan\<close>

definition SCAN_LIMIT :: nat where "SCAN_LIMIT = 64"

record turn_cursor =
  tcu_room_id :: rstr
  tcu_session_id :: rstr
  tcu_turn_generation :: "64 word"

definition cursor_key :: "turn_cursor \<Rightarrow> persistence_error + rstr \<times> rstr \<times> int" where
  "cursor_key c = turn_key invalid_reconciliation (tcu_room_id c) (tcu_session_id c) (tcu_turn_generation c)"

text \<open>The keys of the blocking executions after a key, in their order, but for the sessions whose
  room is being removed.\<close>

definition blocking_after ::
  "(rstr \<Rightarrow> rstr \<Rightarrow> 'x turn_db \<Rightarrow> bool) \<Rightarrow> (rstr \<times> rstr \<times> int) option \<Rightarrow> 'x turn_db \<Rightarrow> (rstr \<times> rstr \<times> int) list" where
  "blocking_after cleanup after db =
     map fst (filter (\<lambda>(k, row). is_blocking (pte_phase row) \<and> \<not> cleanup (fst k) (fst (snd k)) db \<and>
                        (case after of None \<Rightarrow> True | Some a \<Rightarrow> a < k)) (db_executions db))"

definition require_server_custody :: "durable_agent_session \<Rightarrow> persistence_error + unit" where
  "require_server_custody s =
     ensure (\<not> (as_external_owned (das_public s) \<or> as_process_ownership (das_public s) \<noteq> str ''server''))
       (rejected ''external_runtime_owned'' ''This provider runtime is owned by its external attendee.'')"

text \<open>The turns of an external owner are skipped.\<close>

definition scan_row :: "'x turn_db \<Rightarrow> rstr \<times> rstr \<times> int \<Rightarrow> persistence_error + turn_candidate list" where
  "scan_row db k =
     (let rid = fst k; sid = fst (snd k) in
      rbind (u64_of (snd (snd k))) (\<lambda>g.
      rbind (load_execution_in rid sid g db) (\<lambda>x.
      rbind (load_session rid sid db) (\<lambda>s.
      if as_external_owned (das_public s) \<and> as_process_ownership (das_public s) = str ''external'' then Ok []
      else
        rbind (require_server_custody s) (\<lambda>_.
        rbind (validate_candidate s x) (\<lambda>_.
        rbind (load_optional_effect_in rid sid g db) (\<lambda>effect.
        Ok [\<lparr>tcd_session = s, tcd_execution = x, tcd_effect = effect\<rparr>])))))))"

definition cursor_of :: "rstr \<times> rstr \<times> int \<Rightarrow> persistence_error + turn_cursor" where
  "cursor_of k =
     rbind (u64_of (snd (snd k))) (\<lambda>g.
     Ok \<lparr>tcu_room_id = fst k, tcu_session_id = fst (snd k), tcu_turn_generation = g\<rparr>)"

record turn_page =
  tpg_candidates :: "turn_candidate list"
  tpg_next_cursor :: "turn_cursor option"

definition load_reconciliation_page ::
  "(rstr \<Rightarrow> rstr \<Rightarrow> 'x turn_db \<Rightarrow> bool) \<Rightarrow> turn_cursor option \<Rightarrow> 'x turn_db \<Rightarrow> persistence_error + turn_page" where
  "load_reconciliation_page cleanup cursor db =
     rbind (case cursor of None \<Rightarrow> Ok None | Some c \<Rightarrow> rbind (cursor_key c) (\<lambda>k. Ok (Some k))) (\<lambda>after.
     let rows = take SCAN_LIMIT (blocking_after cleanup after db) in
     rbind (if length rows = SCAN_LIMIT then rbind (cursor_of (last rows)) (\<lambda>c. Ok (Some c)) else Ok None) (\<lambda>next_cursor.
     rbind (traverse (scan_row db) rows) (\<lambda>found.
     Ok \<lparr>tpg_candidates = concat found, tpg_next_cursor = next_cursor\<rparr>)))"

text \<open>The scan at startup: page after page until one has no cursor. A page with a cursor ends at a
  key beyond the one it started from, so there are finitely many.\<close>

lemma cursor_of_key: "cursor_of k = Ok c \<Longrightarrow> cursor_key c = Ok k"
proof -
  assume c: "cursor_of k = Ok c"
  obtain r s g where k: "k = (r, s, g)" by (cases k)
  have "uint (word_of_int g :: 64 word) = g" if "0 \<le> g" "g \<le> i64_max"
    using that by (simp add: uint_word_of_int i64_max_def take_bit_int_eq_self)
  with c show "cursor_key c = Ok k"
    by (auto simp: k cursor_of_def cursor_key_def turn_key_def u64_of_def split: if_splits)
qed

definition cursor_after :: "turn_cursor option \<Rightarrow> (rstr \<times> rstr \<times> int) option" where
  "cursor_after cursor = (case cursor of None \<Rightarrow> None | Some c \<Rightarrow> (case cursor_key c of Err _ \<Rightarrow> None | Ok k \<Rightarrow> Some k))"

definition past :: "'k::linorder option \<Rightarrow> 'k \<Rightarrow> bool" where
  "past after k = (case after of None \<Rightarrow> True | Some a \<Rightarrow> a < k)"

lemma blocking_after_filter: "blocking_after cleanup after db = filter (past after) (blocking_after cleanup None db)"
  by (simp add: blocking_after_def filter_map comp_def case_prod_unfold past_def conj_assoc)

lemma past_trans: "past after l \<Longrightarrow> past (Some l) k \<Longrightarrow> past after k"
  by (auto simp: past_def split: option.splits)

text \<open>Starting again from one of the keys.\<close>

lemma blocking_after_step:
  assumes "l \<in> set (blocking_after cleanup after db)"
  shows "blocking_after cleanup (Some l) db = filter (past (Some l)) (blocking_after cleanup after db)"
proof -
  have "past after l" using assms by (simp add: blocking_after_filter [of cleanup after])
  then have "past (Some l) k \<and> past after k \<longleftrightarrow> past (Some l) k" for k by (blast intro: past_trans)
  then show ?thesis by (simp add: blocking_after_filter [of cleanup after] blocking_after_filter [of cleanup "Some l"] conj_commute)
qed

lemma blocking_after_last:
  assumes "rows = take n (blocking_after cleanup after db)" "rows \<noteq> []"
  shows "last rows \<in> set (blocking_after cleanup after db)"
    "length (blocking_after cleanup (Some (last rows)) db) < length (blocking_after cleanup after db)"
proof -
  show l: "last rows \<in> set (blocking_after cleanup after db)"
    using last_in_set [OF assms(2)] unfolding assms(1) by (rule in_set_takeD)
  show "length (blocking_after cleanup (Some (last rows)) db) < length (blocking_after cleanup after db)"
    unfolding blocking_after_step [OF l] by (rule length_filter_less [OF l]) (simp add: past_def)
qed

lemma page_next:
  assumes "load_reconciliation_page cleanup cursor db = Ok page" "tpg_next_cursor page = Some c"
  obtains rows where "rows = take SCAN_LIMIT (blocking_after cleanup (cursor_after cursor) db)"
    "length rows = SCAN_LIMIT" "cursor_key c = Ok (last rows)"
  using assms
  by (cases cursor) (auto simp: load_reconciliation_page_def cursor_after_def Let_def dest: cursor_of_key split: if_splits)

lemma page_moves_on:
  assumes "load_reconciliation_page cleanup cursor db = Ok page" "tpg_next_cursor page = Some c"
  shows "length (blocking_after cleanup (cursor_after (Some c)) db) < length (blocking_after cleanup (cursor_after cursor) db)"
proof -
  from assms obtain rows where rows: "rows = take SCAN_LIMIT (blocking_after cleanup (cursor_after cursor) db)"
    "length rows = SCAN_LIMIT" "cursor_key c = Ok (last rows)" by (rule page_next)
  from rows(2) have "rows \<noteq> []" by (auto simp: SCAN_LIMIT_def)
  with blocking_after_last(2) [OF rows(1)] rows(3) show ?thesis by (simp add: cursor_after_def)
qed

function scan_pages ::
  "(rstr \<Rightarrow> rstr \<Rightarrow> 'x turn_db \<Rightarrow> bool) \<Rightarrow> turn_cursor option \<Rightarrow> 'x turn_db \<Rightarrow> persistence_error + turn_candidate list" where
  "scan_pages cleanup cursor db =
     rbind (load_reconciliation_page cleanup cursor db) (\<lambda>page.
     case tpg_next_cursor page of
       None \<Rightarrow> Ok (tpg_candidates page)
     | Some c \<Rightarrow> rbind (scan_pages cleanup (Some c) db) (\<lambda>rest. Ok (tpg_candidates page @ rest)))"
  by pat_completeness auto

termination scan_pages
  by (relation "measure (\<lambda>(cleanup, cursor, db). length (blocking_after cleanup (cursor_after cursor) db))")
    (simp_all add: page_moves_on)

declare scan_pages.simps [simp del]

lemma sorted_after_prefix:
  assumes "sorted_wrt (<) (xs :: 'a::linorder list)" "0 < n" "n \<le> length xs"
  shows "filter (past (Some (last (take n xs)))) xs = drop n xs"
proof -
  have x: "last (take n xs) = xs ! (n - 1)"
    using assms(2,3) by (subst last_conv_nth) (auto simp: min_def)
  have lt: "i < j \<Longrightarrow> j < length xs \<Longrightarrow> xs ! i < xs ! j" for i j using assms(1) by (rule sorted_wrt_nth_less)
  have "filter (past (Some (xs ! (n - 1)))) (take n xs) = []"
  proof (rule ccontr)
    assume "filter (past (Some (xs ! (n - 1)))) (take n xs) \<noteq> []"
    then obtain i where i: "i < n" "xs ! (n - 1) < xs ! i"
      using assms(3) by (auto simp: filter_empty_conv in_set_conv_nth past_def)
    then consider "i < n - 1" | "i = n - 1" by linarith
    then show False
    proof cases
      case 1
      from lt [OF this] assms(2,3) i(2) show False using less_asym by fastforce
    qed (use i(2) in simp)
  qed
  moreover have "filter (past (Some (xs ! (n - 1)))) (drop n xs) = drop n xs"
    using lt assms(2,3) by (auto simp: in_set_conv_nth past_def intro!: filter_True)
  ultimately show ?thesis unfolding x by (metis append_take_drop_id filter_append append_Nil)
qed

text \<open>The keys are kept in order and hold positive 64-bit generations, as the table's CHECK demands.\<close>

definition executions_ok :: "'x turn_db \<Rightarrow> bool" where
  "executions_ok db \<longleftrightarrow> om_wf (db_executions db) \<and>
     (\<forall>row \<in> set (db_executions db). 0 < snd (snd (fst row)) \<and> snd (snd (fst row)) \<le> i64_max)"

lemma blocking_after_sorted: "executions_ok db \<Longrightarrow> sorted_wrt (<) (blocking_after cleanup after db)"
  by (auto simp: executions_ok_def om_wf_def om_keys_def blocking_after_def sorted_wrt_map intro: sorted_wrt_filter)

lemma blocking_after_next:
  assumes "executions_ok db" "rows = take n (blocking_after cleanup after db)" "0 < n" "length rows = n"
  shows "blocking_after cleanup (Some (last rows)) db = drop n (blocking_after cleanup after db)"
proof -
  from assms(3,4) have "rows \<noteq> []" by auto
  from blocking_after_step [OF blocking_after_last(1) [OF assms(2) this]]
  show ?thesis using sorted_after_prefix [OF blocking_after_sorted [OF assms(1)], of n] assms(2-4) by simp
qed

lemma cursor_of_ok: "executions_ok db \<Longrightarrow> k \<in> set (blocking_after cleanup after db) \<Longrightarrow> \<exists>c. cursor_of k = Ok c \<and> cursor_key c = Ok k"
proof -
  assume a: "executions_ok db" "k \<in> set (blocking_after cleanup after db)"
  then have "0 < snd (snd k) \<and> snd (snd k) \<le> i64_max" by (auto simp: executions_ok_def blocking_after_def)
  then obtain c where "cursor_of k = Ok c" by (auto simp: cursor_of_def u64_of_def)
  with cursor_of_key show ?thesis by blast
qed

lemma traverse_append: "traverse f (xs @ ys) = rbind (traverse f xs) (\<lambda>a. rbind (traverse f ys) (\<lambda>b. Ok (a @ b)))"
  by (induction xs) (simp_all add: rbind_assoc rbind_def split: sum.split)

lemma scan_from:
  assumes "executions_ok db" "\<And>c. cursor = Some c \<Longrightarrow> \<exists>k. cursor_key c = Ok k"
  shows "scan_pages cleanup cursor db =
    rbind (traverse (scan_row db) (blocking_after cleanup (cursor_after cursor) db)) (\<lambda>found. Ok (concat found))"
  using assms
proof (induction cleanup cursor db rule: scan_pages.induct)
  case (1 cleanup cursor db)
  define B where "B = blocking_after cleanup (cursor_after cursor) db"
  define rows where "rows = take SCAN_LIMIT B"
  have page: "load_reconciliation_page cleanup cursor db =
    rbind (if length rows = SCAN_LIMIT then rbind (cursor_of (last rows)) (\<lambda>c. Ok (Some c)) else Ok None) (\<lambda>next_cursor.
    rbind (traverse (scan_row db) rows) (\<lambda>found. Ok \<lparr>tpg_candidates = concat found, tpg_next_cursor = next_cursor\<rparr>))"
    using "1.prems"(2) by (cases cursor) (auto simp: load_reconciliation_page_def cursor_after_def rows_def B_def Let_def)
  show ?case
  proof (cases "length rows = SCAN_LIMIT")
    case False
    then have "rows = B" by (auto simp: rows_def min_def split: if_splits)
    with False page show ?thesis
      by (subst scan_pages.simps) (auto simp: B_def rbind_def split: sum.split)
  next
    case True
    then have "rows \<noteq> []" by (auto simp: SCAN_LIMIT_def)
    note l = blocking_after_last(1) [OF rows_def [unfolded B_def] this]
    from cursor_of_ok [OF "1.prems"(1) l] obtain c where c: "cursor_of (last rows) = Ok c" "cursor_key c = Ok (last rows)" by blast
    have nxt: "blocking_after cleanup (cursor_after (Some c)) db = drop SCAN_LIMIT B"
      using blocking_after_next [OF "1.prems"(1) rows_def [unfolded B_def] _ True] c(2)
      by (simp add: cursor_after_def B_def SCAN_LIMIT_def)
    show ?thesis
    proof (cases "traverse (scan_row db) rows")
      case (Inl e)
      have "traverse (scan_row db) (rows @ drop SCAN_LIMIT B) = Inl e" using Inl by (simp add: traverse_append)
      then have "traverse (scan_row db) B = Inl e" by (simp add: rows_def)
      with Inl page c(1) True show ?thesis by (subst scan_pages.simps) (simp add: B_def)
    next
      case (Inr found)
      have p: "load_reconciliation_page cleanup cursor db = Ok \<lparr>tpg_candidates = concat found, tpg_next_cursor = Some c\<rparr>"
        using page True c(1) Inr by simp
      have "scan_pages cleanup (Some c) db = rbind (traverse (scan_row db) (drop SCAN_LIMIT B)) (\<lambda>found. Ok (concat found))"
        using "1.IH" [OF p, of c] "1.prems"(1) c(2) nxt by (cases "last rows") simp
      moreover have "traverse (scan_row db) B = rbind (traverse (scan_row db) rows) (\<lambda>a. rbind (traverse (scan_row db) (drop SCAN_LIMIT B)) (\<lambda>b. Ok (a @ b)))"
        by (metis append_take_drop_id rows_def traverse_append)
      ultimately show ?thesis using p Inr
        by (subst scan_pages.simps) (simp add: B_def [symmetric] rbind_assoc)
    qed
  qed
qed



section \<open>A turn that was never dispatched\<close>

definition validate_assignment_envelope ::
  "'x turn_env \<Rightarrow> durable_agent_session \<Rightarrow> provider_turn_assignment_envelope \<Rightarrow> 'x turn_db \<Rightarrow> persistence_error + unit" where
  "validate_assignment_envelope E s a db =
     rbind (traverse (\<lambda>i. rbind (load_event (as_room_id (das_public s)) (qi_event_id i) db) (\<lambda>e. ok_or e invalid_reconciliation))
              (das_inflight_inputs s)) (\<lambda>events.
     rbind (map_err (\<lambda>_. invalid_reconciliation) (message_attachment_ids_from_events events)) (\<lambda>expected.
     ensure (\<not> (das_input_up_to_seq s \<le> 0 \<or> das_active_source_event_id s = [] \<or>
                das_input_up_to_event_id s \<noteq> das_active_source_event_id s \<or> das_inflight_inputs s = [] \<or>
                list_ex (\<lambda>i. qi_delivery_kind i \<noteq> env_delivery_kind a) (das_inflight_inputs s) \<or>
                \<not> is_provider_input (te_unicode E) (env_provider_input a) \<or>
                \<not> is_room_observation_view (te_unicode E) (env_room_view a) \<or>
                env_attachment_ids a \<noteq> expected \<or>
                length (env_room_agent_ids a) > MAX_ROOM_OBSERVATION_AGENT_IDS \<or>
                length (remdups (env_room_agent_ids a)) \<noteq> length (env_room_agent_ids a) \<or>
                list_ex (\<lambda>i. \<not> is_room_observation_agent_id i) (env_room_agent_ids a)))
       invalid_reconciliation))"

definition load_assignment_in ::
  "'x turn_env \<Rightarrow> durable_agent_session \<Rightarrow> loaded_execution \<Rightarrow> 'x turn_db
     \<Rightarrow> persistence_error + provider_turn_assignment_envelope" where
  "load_assignment_in E s x db =
     rbind (turn_key invalid_reconciliation (le_room_id x) (le_session_id x) (le_turn_generation x)) (\<lambda>key.
     rbind (case om_get (db_executions db) key of
              None \<Rightarrow> Err stale_reconciliation
            | Some row \<Rightarrow>
                if pte_execution_id row = pte_execution_id (le_row x) \<and> pte_phase row = pte_phase (le_row x)
                then Ok (pte_assignment row) else Err stale_reconciliation) (\<lambda>a.
     rbind (validate_assignment_envelope E s a db) (\<lambda>_. Ok a)))"

definition recover_assigned_provider_turn ::
  "'x turn_env \<Rightarrow> turn_candidate \<Rightarrow> 'x turn_db \<Rightarrow> persistence_error + agent_turn_assignment" where
  "recover_assigned_provider_turn E c db =
     (let expected = tcd_execution c; rid = le_room_id expected; sid = le_session_id expected;
          g = le_turn_generation expected in
      rbind (ensure (\<not> (pte_phase (le_row expected) \<noteq> Assigned \<or> tcd_effect c \<noteq> None \<or>
                        pte_start_dispatch_nonce (le_row expected) \<noteq> [] \<or> pte_provider_turn_id (le_row expected) \<noteq> [] \<or>
                        pte_requeue_finalized (le_row expected))) stale_reconciliation) (\<lambda>_.
      rbind (load_session rid sid db) (\<lambda>s.
      rbind (load_execution_in rid sid g db) (\<lambda>x.
      rbind (validate_candidate s x) (\<lambda>_.
      rbind (ensure (s = tcd_session c \<and> same_execution x expected) stale_reconciliation) (\<lambda>_.
      rbind (load_optional_effect_in rid sid g db) (\<lambda>effect.
      rbind (ensure (effect = None) stale_reconciliation) (\<lambda>_.
      rbind (load_participant rid (pte_participant_id (le_row expected)) db) (\<lambda>p.
      rbind (ensure (\<not> (part_status p \<noteq> Joined \<or> part_muted p)) stale_reconciliation) (\<lambda>_.
      rbind (load_assignment_in E s x db) (\<lambda>a.
      Ok \<lparr>ata_session = s, ata_turn_id = pte_turn_id (le_row x), ata_turn_generation = g,
          ata_execution_id = pte_execution_id (le_row x), ata_delivery_kind = env_delivery_kind a,
          ata_provider_input = env_provider_input a, ata_room_view = env_room_view a,
          ata_attachment_ids = env_attachment_ids a, ata_room_agent_ids = env_room_agent_ids a,
          ata_tabletop_tools = env_tabletop_tools a\<rparr>)))))))))))"

definition finalize_provider_turn_not_started ::
  "'x turn_env \<Rightarrow> turn_candidate \<Rightarrow> ('x turn_db, agent_turn_commit) tx" where
  "finalize_provider_turn_not_started E c =
     (let expected = tcd_execution c; rid = le_room_id expected; sid = le_session_id expected;
          g = le_turn_generation expected in
      tx_bind (tx_try (ensure (tcd_effect c = None \<and> pte_phase (le_row expected) \<in> {Assigned, Start_Dispatching})
                         stale_reconciliation)) (\<lambda>_.
      tx_bind (tx_read (load_session rid sid)) (\<lambda>s.
      tx_bind (tx_read (load_execution_in rid sid g)) (\<lambda>x.
      tx_bind (tx_try (validate_candidate s x)) (\<lambda>_.
      tx_bind (tx_try (ensure (same_execution expected x) stale_reconciliation)) (\<lambda>_.
      tx_bind (tx_read (load_optional_effect_in rid sid g)) (\<lambda>effect.
      tx_bind (tx_try (ensure (effect = None) stale_reconciliation)) (\<lambda>_.
      finalize_proven_no_effect_task_death E s x))))))))"

section \<open>A turn whose runtime is stopped\<close>

definition invalid_stop_turn :: persistence_error where
  "invalid_stop_turn = rejected ''stored_provider_stop_turn_invalid''
     ''Stored provider turn authority is invalid during confirmed stop.''"

definition stale_stop_turn :: persistence_error where
  "stale_stop_turn = rejected ''stale_provider_stop_turn''
     ''Provider turn authority changed before confirmed stop committed.''"

definition effect_belongs_to :: "provider_turn_execution \<Rightarrow> provider_turn_interrupt_effect \<Rightarrow> bool" where
  "effect_belongs_to row v \<longleftrightarrow>
     held_by_effect v row \<and> pie_participant_id v = pte_participant_id row \<and> pie_turn_id v = pte_turn_id row \<and>
     pie_start_dispatch_nonce v = pte_start_dispatch_nonce row"

definition exact_stop_turn_is_terminal ::
  "durable_agent_session \<Rightarrow> provider_turn_execution \<Rightarrow> provider_turn_interrupt_effect option \<Rightarrow> persistence_error + bool" where
  "exact_stop_turn_is_terminal s row effect =
     (if pte_participant_id row \<noteq> as_participant_id (das_public s) \<or> pte_turn_id row \<noteq> as_active_turn_id (das_public s) \<or>
         \<not> session_holds_execution s (pte_runtime_handle_id row) (pte_runtime_owner_id row) (pte_runtime_lease_token row) \<or>
         (case effect of None \<Rightarrow> False | Some v \<Rightarrow> \<not> effect_belongs_to row v)
      then Err invalid_stop_turn
      else if pte_phase row = Interrupted \<and> pte_requeue_finalized row
      then (case effect of
              None \<Rightarrow> Ok True
            | Some v \<Rightarrow> if pie_phase v = Effect_Finalized then Ok True else Err invalid_stop_turn)
      else if \<not> is_blocking (pte_phase row) \<or> pte_requeue_finalized row \<or>
              (case effect of None \<Rightarrow> False | Some v \<Rightarrow> pie_phase v = Effect_Finalized)
      then Err invalid_stop_turn
      else Ok False)"

text \<open>The two updates that end an execution and its interrupt, the same in the confirmed stop and for a
  runtime that is gone but for the errors: the execution by its key and custody, the interrupt by its
  identifier, phase and dispatch.\<close>

definition terminalize_authority ::
  "persistence_error \<Rightarrow> persistence_error \<Rightarrow> loaded_execution \<Rightarrow> provider_turn_interrupt_effect option
     \<Rightarrow> provider_turn_execution_phase \<Rightarrow> ('x turn_db, unit) tx" where
  "terminalize_authority invalid stale x effect terminal_phase =
     tx_bind (tx_try (turn_key invalid (le_room_id x) (le_session_id x) (le_turn_generation x))) (\<lambda>key.
     tx_bind (update_execution stale key
        (\<lambda>row. execution_has_custody (pte_execution_id (le_row x)) (pte_runtime_handle_id (le_row x))
                 (pte_runtime_owner_id (le_row x)) (pte_runtime_lease_token (le_row x)) row \<and>
               pte_phase row = pte_phase (le_row x) \<and> \<not> pte_requeue_finalized row)
        (\<lambda>row. row\<lparr>pte_phase := terminal_phase, pte_requeue_finalized := True\<rparr>)) (\<lambda>_.
     case effect of
       None \<Rightarrow> tx_return ()
     | Some v \<Rightarrow>
         update_effect stale (pie_room_id v) (pie_effect_id v)
           (\<lambda>e. pe_phase e = pie_phase v \<and> pe_dispatch_nonce e = pie_dispatch_nonce v)
           (\<lambda>e. e\<lparr>pe_phase := Effect_Finalized, pe_claim_expires_at := None\<rparr>)))"

definition terminalize_confirmed_stop_turn ::
  "'x turn_env \<Rightarrow> durable_agent_session \<Rightarrow> ('x turn_db, room_event option) tx" where
  "terminalize_confirmed_stop_turn E s =
     (let rid = as_room_id (das_public s); sid = as_session_id (das_public s); g = das_turn_generation s in
      tx_bind (tx_try (ok_or (active_turn_authority s) invalid_stop_turn)) (\<lambda>active.
      if \<not> active then tx_return None
      else
        tx_bind (tx_read (load_execution_in rid sid g)) (\<lambda>x.
        tx_bind (tx_read (load_optional_effect_in rid sid g)) (\<lambda>effect.
        tx_bind (tx_try (exact_stop_turn_is_terminal s (le_row x) effect)) (\<lambda>over.
        if over then tx_return None
        else
          tx_bind (terminalize_authority invalid_stop_turn stale_stop_turn x effect Interrupted) (\<lambda>_.
          tx_bind (turn_finished_event E s (pte_turn_id (le_row x)) ''interrupted'' None (Some (str ''operator_stop''))) (\<lambda>e.
          tx_return (Some e))))))))"

definition failed_session_has_confirmed_runtime_exit ::
  "durable_agent_session \<Rightarrow> 'x turn_db \<Rightarrow> persistence_error + bool" where
  "failed_session_has_confirmed_runtime_exit s db =
     (let p = das_public s in
      if as_runtime_status p \<noteq> Runtime_Error \<or> as_provider_session_active p \<or> das_runtime_handle_id s \<noteq> [] \<or>
         das_runtime_owner_id s \<noteq> [] \<or> das_runtime_lease_token s \<noteq> []
      then Ok False
      else rbind (ok_or (active_turn_authority s) invalid_stop_turn) (\<lambda>active.
           if active then Ok False
           else if as_status p = Session_Unavailable \<and> \<not> as_enabled p \<and> \<not> as_recovery_required p then Ok True
           else if \<not> as_recovery_required p \<or> das_turn_generation s = 0 then Ok False
           else rbind (load_execution_in (as_room_id p) (as_session_id p) (das_turn_generation s) db) (\<lambda>x.
                Ok (pte_phase (le_row x) = Failed \<and> pte_participant_id (le_row x) = as_participant_id p \<and>
                    pte_runtime_handle_id (le_row x) \<noteq> [] \<and> pte_runtime_owner_id (le_row x) \<noteq> [] \<and>
                    pte_runtime_lease_token (le_row x) \<noteq> []))))"

section \<open>A turn whose runtime is gone\<close>

datatype floor_progression = Progress_Assign | Progress_Defer

text \<open>The lifecycle candidate of a session: the session, and the action and operation of its
  reservation. It is an argument, since the lifecycle commands are other tables.\<close>

type_synonym 'x lifecycle_lookup =
  "rstr \<Rightarrow> rstr \<Rightarrow> 'x turn_db \<Rightarrow> persistence_error + (durable_agent_session \<times> (rstr \<times> rstr) option) option"

definition stop_effect_is_confirmed_by_runtime_gone ::
  "'x lifecycle_lookup \<Rightarrow> durable_agent_session \<Rightarrow> 'x turn_db \<Rightarrow> persistence_error + bool" where
  "stop_effect_is_confirmed_by_runtime_gone lifecycle s db =
     (if das_lifecycle_intent_action s \<noteq> Action_Stop \<or>
         das_lifecycle_intent_status s \<notin> {Intent_Effect_Inflight, Intent_Unconfirmed, Intent_Effect_Applied}
      then Ok False
      else
        rbind (lifecycle (as_room_id (das_public s)) (as_session_id (das_public s)) db) (\<lambda>found.
        rbind (ok_or found invalid_reconciliation) (\<lambda>(candidate, reservation).
        rbind (ok_or reservation invalid_reconciliation) (\<lambda>(action, operation_id).
        rbind (ensure (candidate = s \<and> action = str ''agent.stop'' \<and> operation_id = das_lifecycle_intent_id s)
                 invalid_reconciliation) (\<lambda>_. Ok True)))))"

definition save_participant_row :: "persistence_error \<Rightarrow> participant \<Rightarrow> ('x turn_db, unit) tx" where
  "save_participant_row missing p = (\<lambda>db.
     let key = (part_room_id p, part_id p) in
     if db_participants db key = None then Err missing
     else Ok ((), db\<lparr>db_participants := (db_participants db)(key \<mapsto> p)\<rparr>))"

definition gone_session_state ::
  "timestamp \<Rightarrow> provider_turn_interrupt_cause option \<Rightarrow> queued_room_input list \<Rightarrow> durable_agent_session \<Rightarrow> durable_agent_session" where
  "gone_session_state now cause restored s =
     clear_active_turn_fields
       (s\<lparr>das_pending_inputs := restored,
          das_inflight_inputs := [],
          das_public := (das_public s)
            \<lparr>as_status := Session_Detached,
             as_runtime_status := Runtime_Stopped,
             as_enabled := False,
             as_provider_session_active := False,
             as_provider_session_reused := False,
             as_active_turn_id := [],
             as_turn_phase := Phase_None,
             as_last_error := if cause = Some Agent_Interrupt then INTERRUPTED_MESSAGE else as_last_error (das_public s),
             as_last_error_code := if cause = Some Agent_Interrupt then INTERRUPTED_CODE else as_last_error_code (das_public s),
             as_recovery_required := False,
             as_updated_at := now\<rparr>,
          das_provider_session_id := [],
          das_runtime_handle_id := [],
          das_runtime_owner_id := [],
          das_runtime_lease_token := [],
          das_schedule_requested := False\<rparr>)"

definition gone_events ::
  "'x turn_env \<Rightarrow> durable_agent_session \<Rightarrow> rstr \<Rightarrow> provider_turn_interrupt_cause option \<Rightarrow> ('x turn_db, room_event list) tx" where
  "gone_events E s turn_id cause =
     tx_bind (case cause of
         None \<Rightarrow> tx_bind (error_event E s turn_id (str ''provider_runtime_gone'')
             (str ''The provider runtime exited before its exact turn could be recovered.'')) (\<lambda>e. tx_return [e])
       | Some c \<Rightarrow>
           if c = Agent_Interrupt
           then tx_bind (error_event E s turn_id INTERRUPTED_CODE INTERRUPTED_MESSAGE) (\<lambda>e. tx_return [e])
           else tx_return []) (\<lambda>errors.
     tx_bind (turn_finished_event E s turn_id (if cause \<noteq> None then ''interrupted'' else ''error'') None
        (Some (str (case cause of None \<Rightarrow> ''provider_runtime_gone'' | Some c \<Rightarrow> interrupt_cause_str c)))) (\<lambda>finished.
     tx_return (errors @ [finished])))"

definition finalize_runtime_gone_session ::
  "'x turn_env \<Rightarrow> durable_agent_session \<Rightarrow> loaded_execution \<Rightarrow> provider_turn_interrupt_cause option
     \<Rightarrow> floor_progression \<Rightarrow> ('x turn_db, agent_turn_commit) tx" where
  "finalize_runtime_gone_session E s x cause progression =
     tx_bind (gone_events E s (pte_turn_id (le_row x)) cause) (\<lambda>events.
     tx_bind (tx_read (merged_turn_queue s)) (\<lambda>restored.
     tx_bind (draw_now E) (\<lambda>now.
     let s = gone_session_state now cause restored s in
     tx_bind (save_session s) (\<lambda>_.
     tx_bind (tx_read (load_participant (as_room_id (das_public s)) (as_participant_id (das_public s)))) (\<lambda>p.
     tx_bind (draw_now E) (\<lambda>now.
     tx_bind (save_participant_row stale_reconciliation (detach_runtime now p)) (\<lambda>_.
     tx_bind (session_state_event E s) (\<lambda>state.
     tx_bind (if progression = Progress_Assign \<and> cause \<noteq> Some Agent_Interrupt
              then tx_bind (tx_read (load_active_room E (le_room_id x))) (\<lambda>(room, settings). assign_pending_in E room settings)
              else tx_return (commit_of [] [])) (\<lambda>scheduled.
     tx_return (scheduled\<lparr>atc_events := events @ [state] @ atc_events scheduled\<rparr>))))))))))"

text \<open>The interrupt is still the one the candidate was loaded with, and not finalized.\<close>

definition require_candidate_effect ::
  "provider_turn_interrupt_effect option \<Rightarrow> provider_turn_interrupt_effect option \<Rightarrow> persistence_error + unit" where
  "require_candidate_effect expected current =
     (case (expected, current) of
        (Some v, Some w) \<Rightarrow>
          rbind (require_exact_effect v w) (\<lambda>_. ensure (pie_phase w \<noteq> Effect_Finalized) stale_reconciliation)
      | (None, None) \<Rightarrow> Ok ()
      | _ \<Rightarrow> Err stale_reconciliation)"

definition confirm_stop_by_runtime_gone :: "'x turn_env \<Rightarrow> durable_agent_session \<Rightarrow> ('x turn_db, agent_turn_commit) tx" where
  "confirm_stop_by_runtime_gone E s =
     tx_bind (terminalize_confirmed_stop_turn E s) (\<lambda>_.
     tx_bind (draw_now E) (\<lambda>now.
     let s = s\<lparr>das_lifecycle_intent_status := Intent_Effect_Applied,
               das_public := (das_public s)\<lparr>as_updated_at := now\<rparr>\<rparr> in
     tx_bind (save_session s) (\<lambda>_.
     tx_return (commit_of [] []))))"

definition finalize_runtime_gone_in ::
  "'x turn_env \<Rightarrow> 'x lifecycle_lookup \<Rightarrow> turn_candidate \<Rightarrow> floor_progression \<Rightarrow> ('x turn_db, agent_turn_commit) tx" where
  "finalize_runtime_gone_in E lifecycle c progression =
     (let expected = tcd_execution c; rid = le_room_id expected; sid = le_session_id expected;
          g = le_turn_generation expected in
      tx_bind (tx_read (load_session rid sid)) (\<lambda>s.
      tx_bind (tx_read (load_execution_in rid sid g)) (\<lambda>x.
      tx_bind (tx_try (ensure (same_execution expected x) stale_reconciliation)) (\<lambda>_.
      tx_bind (tx_try (validate_candidate s x)) (\<lambda>_.
      tx_bind (tx_read (load_optional_effect_in rid sid g)) (\<lambda>effect.
      tx_bind (tx_try (require_candidate_effect (tcd_effect c) effect)) (\<lambda>_.
      tx_bind (tx_read (stop_effect_is_confirmed_by_runtime_gone lifecycle s)) (\<lambda>stopping.
      if stopping then confirm_stop_by_runtime_gone E s
      else
        tx_bind (terminalize_authority invalid_reconciliation stale_reconciliation x effect
                   (if effect \<noteq> None then Interrupted else Failed)) (\<lambda>_.
        finalize_runtime_gone_session E s x (map_option pie_cause (tcd_effect c)) progression)))))))))"

end
