(* ===== verification/Turn_Interrupts.thy ===== *)
theory Turn_Interrupts
  imports Turn_Recovery
begin

text \<open>
  What makes the start and the interrupt of a provider turn exact: whatever the operations of the
  turn and its recovery, and in whatever order they come, a start is authorized at most once, never
  after an interrupt exists, an interrupt is dispatched at most once, and an execution and its
  interrupt stay in phases that go together.
\<close>

section \<open>The operations as one type\<close>

datatype turn_operation =
  Op_Assign rstr
| Op_Start rstr rstr "64 word" rstr
| Op_Running provider_turn_start_authority rstr
| Op_End rstr rstr provider_turn_authority turn_end
| Op_Quarantine provider_turn_start_authority
| Op_Task_Death rstr rstr "64 word" rstr
| Op_Interrupt rstr rstr "64 word" provider_turn_interrupt_cause
| Op_Claim int provider_turn_interrupt_effect rstr
| Op_Claim_Recovery int provider_turn_interrupt_effect rstr
| Op_Dispatch int provider_turn_effect_claim
| Op_Unstarted int provider_turn_effect_claim
| Op_Issued int provider_turn_interrupt_effect
| Op_Ambiguous provider_turn_interrupt_effect
| Op_Handoff provider_turn_effect_claim
| Op_Lost_Quiescence provider_turn_interrupt_effect
| Op_Release provider_turn_effect_claim
| Op_Recovery_Wait int provider_turn_effect_claim
| Op_Retained provider_turn_interrupt_effect
| Op_Not_Started turn_candidate
| Op_Stopped durable_agent_session
| Op_Gone turn_candidate floor_progression

text \<open>An interrupt is prepared in the transaction that loaded its execution.\<close>

definition interrupt_turn ::
  "'x turn_env \<Rightarrow> rstr \<Rightarrow> rstr \<Rightarrow> 64 word \<Rightarrow> provider_turn_interrupt_cause \<Rightarrow> ('x turn_db, provider_turn_interrupt_effect) tx" where
  "interrupt_turn E rid sid g cause =
     tx_bind (tx_read (load_execution_in rid sid g)) (\<lambda>x. prepare_interrupt_effect E x cause)"

text \<open>What an operation leaves in the store, and the interrupts it tells its caller of.\<close>

record 'x turn_system =
  ts_env :: "'x turn_env"
  ts_is_uuid :: "rstr \<Rightarrow> bool"
  ts_redact :: "rstr \<Rightarrow> nat \<Rightarrow> rstr"
  ts_lifecycle :: "'x lifecycle_lookup"

definition quiet :: "('s, 'a) tx \<Rightarrow> ('s, provider_turn_interrupt_effect list) tx" where
  "quiet m = tx_bind m (\<lambda>_. tx_return [])"

definition telling :: "('s, provider_turn_interrupt_effect) tx \<Rightarrow> ('s, provider_turn_interrupt_effect list) tx" where
  "telling m = tx_bind m (\<lambda>v. tx_return [v])"

fun perform :: "'x turn_system \<Rightarrow> turn_operation \<Rightarrow> ('x turn_db, provider_turn_interrupt_effect list) tx" where
  "perform Y (Op_Assign rid) = quiet (assign_pending_turn (ts_env Y) rid)"
| "perform Y (Op_Start rid sid g turn_id) = quiet (authorize_start_in (ts_env Y) rid sid g turn_id)"
| "perform Y (Op_Running a provider_turn_id) = quiet (mark_running_in a provider_turn_id)"
| "perform Y (Op_End rid sid a how) = quiet (end_turn (ts_env Y) (ts_redact Y) rid sid a how)"
| "perform Y (Op_Quarantine a) = quiet (mark_provider_turn_recovery_required (ts_env Y) a)"
| "perform Y (Op_Task_Death rid sid g execution_id) = quiet (record_provider_turn_task_death (ts_env Y) rid sid g execution_id)"
| "perform Y (Op_Interrupt rid sid g cause) = telling (interrupt_turn (ts_env Y) rid sid g cause)"
| "perform Y (Op_Claim now v owner) =
     tx_bind (claim_provider_turn_interrupt (ts_is_uuid Y) now v owner) (\<lambda>c. tx_return [pec_effect c])"
| "perform Y (Op_Claim_Recovery now v owner) =
     tx_bind (claim_provider_turn_interrupt_recovery (ts_is_uuid Y) now v owner) (\<lambda>c. tx_return [pec_effect c])"
| "perform Y (Op_Dispatch now c) =
     tx_bind (fence_interrupt_dispatch (ts_env Y) now c) (\<lambda>_.
     tx_read (\<lambda>db. Ok (case load_effect_of (pec_effect c) db of Err _ \<Rightarrow> [] | Ok v \<Rightarrow> [v])))"
| "perform Y (Op_Unstarted now c) = telling (mark_unstarted_interrupt_waiting now c)"
| "perform Y (Op_Issued now v) = telling (mark_provider_interrupt_issued now v)"
| "perform Y (Op_Ambiguous v) = quiet (mark_provider_interrupt_ambiguous v)"
| "perform Y (Op_Handoff c) = quiet (handoff_unissued_provider_interrupt_claim c)"
| "perform Y (Op_Lost_Quiescence v) = quiet (mark_provider_interrupt_recovery_required v)"
| "perform Y (Op_Release c) = quiet (release_provider_interrupt_recovery_claim c)"
| "perform Y (Op_Recovery_Wait now c) = telling (authorize_provider_interrupt_recovery_wait now c)"
| "perform Y (Op_Retained v) = quiet (finalize_retained_in (ts_env Y) v)"
| "perform Y (Op_Not_Started c) = quiet (finalize_provider_turn_not_started (ts_env Y) c)"
| "perform Y (Op_Stopped s) = quiet (terminalize_confirmed_stop_turn (ts_env Y) s)"
| "perform Y (Op_Gone c progression) = quiet (finalize_runtime_gone_in (ts_env Y) (ts_lifecycle Y) c progression)"

text \<open>The interrupts an operation is called with.\<close>

fun used_effects :: "turn_operation \<Rightarrow> provider_turn_interrupt_effect list" where
  "used_effects (Op_Claim now v owner) = [v]"
| "used_effects (Op_Claim_Recovery now v owner) = [v]"
| "used_effects (Op_Dispatch now c) = [pec_effect c]"
| "used_effects (Op_Unstarted now c) = [pec_effect c]"
| "used_effects (Op_Issued now v) = [v]"
| "used_effects (Op_Ambiguous v) = [v]"
| "used_effects (Op_Handoff c) = [pec_effect c]"
| "used_effects (Op_Lost_Quiescence v) = [v]"
| "used_effects (Op_Release c) = [pec_effect c]"
| "used_effects (Op_Recovery_Wait now c) = [pec_effect c]"
| "used_effects (Op_Retained v) = [v]"
| "used_effects _ = []"

fun starts :: "turn_operation \<Rightarrow> (rstr \<times> rstr \<times> int) option" where
  "starts (Op_Start rid sid g turn_id) = Some (rid, sid, uint g)"
| "starts _ = None"

fun interrupts :: "turn_operation \<Rightarrow> (rstr \<times> rstr \<times> int) option" where
  "interrupts (Op_Interrupt rid sid g cause) = Some (rid, sid, uint g)"
| "interrupts _ = None"

definition effect_key :: "provider_turn_interrupt_effect \<Rightarrow> rstr \<times> rstr \<times> int" where
  "effect_key v = (pie_room_id v, pie_session_id v, uint (pie_turn_generation v))"

fun dispatches :: "turn_operation \<Rightarrow> (rstr \<times> rstr \<times> int) option" where
  "dispatches (Op_Dispatch now c) = Some (effect_key (pec_effect c))"
| "dispatches _ = None"

text \<open>A run: operations that commit, latest first, each called with interrupts the store returned
  earlier. Operations that fail leave the store as it was.\<close>

inductive turn_run ::
  "'x turn_system \<Rightarrow> 'x turn_db \<Rightarrow> 'x turn_db \<Rightarrow> provider_turn_interrupt_effect set \<Rightarrow> turn_operation list \<Rightarrow> bool"
  for Y db0 where
  run_start: "turn_run Y db0 db0 {} []"
| run_step: "turn_run Y db0 db known log \<Longrightarrow> set (used_effects op) \<subseteq> known \<Longrightarrow> perform Y op db = Ok (told, db') \<Longrightarrow>
    turn_run Y db0 db' (known \<union> set told) (op # log)"

section \<open>The phases that go together\<close>

definition phases_agree :: "provider_turn_effect_phase \<Rightarrow> provider_turn_execution_phase \<Rightarrow> bool" where
  "phases_agree e p \<longleftrightarrow>
     recoverable_interrupt_pair e p \<or>
     e \<in> {Effect_Claimed, Effect_Dispatching} \<and> p \<in> {Start_Ambiguous, Recovery_Required} \<or>
     e = Effect_Finalized \<and> \<not> is_blocking p"

text \<open>An interrupt has an execution in a phase that agrees with its own, an interrupted execution has
  an interrupt, and the identifiers of the interrupts of a room are distinct.\<close>

definition pairs_match ::
  "('k \<Rightarrow> rstr) \<Rightarrow> ('k \<Rightarrow> provider_turn_effect option) \<Rightarrow> ('k \<Rightarrow> provider_turn_execution option) \<Rightarrow> bool" where
  "pairs_match rm es xs \<longleftrightarrow>
     (\<forall>k e. es k = Some e \<longrightarrow> (\<exists>x. xs k = Some x \<and> phases_agree (pe_phase e) (pte_phase x))) \<and>
     (\<forall>k x. xs k = Some x \<longrightarrow> pte_phase x \<in> {Interrupt_Pending, Quiescing, Interrupt_Ambiguous} \<longrightarrow> es k \<noteq> None) \<and>
     (\<forall>k k' e e'. es k = Some e \<longrightarrow> es k' = Some e' \<longrightarrow> rm k = rm k' \<longrightarrow> pe_effect_id e = pe_effect_id e' \<longrightarrow> k = k')"

definition pairs_ok ::
  "(rstr \<times> rstr \<times> int, provider_turn_effect) omap \<Rightarrow> (rstr \<times> rstr \<times> int, provider_turn_execution) omap \<Rightarrow> bool" where
  "pairs_ok es xs \<longleftrightarrow> om_wf es \<and> pairs_match fst (om_get es) (om_get xs)"

definition custody_ok :: "'x turn_db \<Rightarrow> bool" where
  "custody_ok db \<longleftrightarrow> pairs_ok (db_effects db) (db_executions db)"

text \<open>The interrupt a caller holds is a row, under its key.\<close>

definition effect_named :: "provider_turn_interrupt_effect \<Rightarrow> 'x turn_db \<Rightarrow> bool" where
  "effect_named v db \<longleftrightarrow> map_option pe_effect_id (om_get (db_effects db) (effect_key v)) = Some (pie_effect_id v)"

definition begun :: "rstr \<times> rstr \<times> int \<Rightarrow> 'x turn_db \<Rightarrow> bool" where
  "begun k db \<longleftrightarrow> (\<exists>x. om_get (db_executions db) k = Some x \<and> pte_phase x \<noteq> Assigned)"

definition sent :: "rstr \<times> rstr \<times> int \<Rightarrow> 'x turn_db \<Rightarrow> bool" where
  "sent k db \<longleftrightarrow> (\<exists>e. om_get (db_effects db) k = Some e \<and> pe_phase e \<notin> {Effect_Prepared, Effect_Claimed})"

section \<open>What leaves the interrupts alone\<close>

lemma keeps_ef_draws [keeps_intros]: "keeps db_effects (draw_now E)" "keeps db_effects (draw_uuid E)"
  by (auto simp: keeps_def draw_now_def draw_uuid_def)

lemma keeps_ef_save [keeps_intros]: "keeps db_effects (save_session s)" "keeps db_effects (save_participant_row e p)"
  by (auto simp: keeps_def save_session_Ok save_participant_row_def Let_def)

lemma keeps_ef_insert_event [keeps_intros]: "keeps db_effects (insert_event E e)"
  unfolding keeps_def insert_event_def by auto

lemma keeps_ef_events [keeps_intros]:
  "keeps db_effects (internal_event E s ty a c x)"
  "keeps db_effects (agent_final_event E s ti pj si ct tg)"
  unfolding internal_event_def agent_final_event_def Let_def by (intro keeps_intros)+

lemma keeps_ef_turn_events [keeps_intros]:
  "keeps db_effects (turn_started_event E s)" "keeps db_effects (turn_state_event E s)"
  "keeps db_effects (turn_finished_event E s ti st pi rc)" "keeps db_effects (error_event E s ti ec m)"
  unfolding turn_started_event_def turn_state_event_def turn_finished_event_def error_event_def by (intro keeps_intros)+

lemma keeps_ef_session_state [keeps_intros]:
  assumes "reconcile_frame E"
  shows "keeps db_effects (session_state_event E s)"
proof -
  have "keeps db_effects (te_reconcile E (das_public s) now)" for now
    using assms by (auto simp: reconcile_frame_def keeps_def)
  then show ?thesis unfolding session_state_event_def by (intro keeps_intros)
qed

lemma keeps_ef_floor_pick [keeps_intros]: "keeps db_effects (floor_pick E settings e cs)"
  unfolding floor_pick_def Let_def by (intro keeps_intros)

lemma keeps_ef_ordered [keeps_intros]: "keeps db_effects (ordered_targets E settings e ss)"
  unfolding ordered_targets_def Let_def by (auto split: option.splits intro!: keeps_intros)

lemma keeps_ef_queue [keeps_intros]: "keeps db_effects (queue_input E e target)"
  unfolding queue_input_def by (intro keeps_intros)

lemma keeps_ef_route [keeps_intros]: "keeps db_effects (route_message E settings e)"
  unfolding route_message_def by (intro keeps_intros)

lemma keeps_ef_survey [keeps_intros]:
  "keeps db_effects (survey_session E room s)" "keeps db_effects (clear_schedule_request E s)"
  unfolding survey_session_def clear_schedule_request_def is_available_def
  by (intro keeps_intros; auto split: list.splits intro!: keeps_intros)+

lemma keeps_ef_insert_execution [keeps_intros]: "keeps db_effects (insert_assigned_execution E s turn_id a)"
proof -
  have "keeps db_effects (\<lambda>db. rbind (ensure (c db) Database_Error) (\<lambda>_. Ok (row, db\<lparr>db_executions := f db\<rparr>)))" for c row f
    by (auto simp: keeps_def)
  then show ?thesis unfolding insert_assigned_execution_def Let_def by (intro keeps_intros)
qed

lemma keeps_ef_assign [keeps_intros]:
  assumes "reconcile_frame E"
  shows "keeps db_effects (prepare_assignment E room settings s)" "keeps db_effects (assign_available_pending E room settings)"
proof -
  show p: "keeps db_effects (prepare_assignment E room settings s)" for s
    unfolding prepare_assignment_def Let_def by (intro keeps_intros assms)
  show "keeps db_effects (assign_available_pending E room settings)"
    unfolding assign_available_pending_def Let_def by (intro keeps_intros p assms)
qed

lemma keeps_ef_update_execution [keeps_intros]: "keeps db_effects (update_execution err key hit f)"
  by (auto simp: keeps_def update_execution_def split: option.splits if_splits)

lemma keeps_ex_update_effect [keeps_intros]:
  "keeps rooms_executions (update_effect err rid eid hit f)" "keeps rooms_executions (insert_effect key e)"
  "keeps rooms_executions (quarantine_effect_row key)"
  by (auto simp: keeps_def update_effect_def insert_effect_def quarantine_effect_row_def rooms_executions_def
      split: option.splits if_splits)

lemma keeps_re_participant [keeps_intros]: "keeps rooms_executions (save_participant_row e p)"
  by (auto simp: keeps_def save_participant_row_def rooms_executions_def Let_def)

section \<open>Assertions\<close>

definition triple :: "('s \<Rightarrow> bool) \<Rightarrow> ('s, 'a) tx \<Rightarrow> ('a \<Rightarrow> 's \<Rightarrow> bool) \<Rightarrow> bool" where
  "triple P m Q \<longleftrightarrow> (\<forall>s y t. P s \<longrightarrow> m s = Inr (y, t) \<longrightarrow> Q y t)"

lemma tripleD: "triple P m Q \<Longrightarrow> P s \<Longrightarrow> m s = Inr (y, t) \<Longrightarrow> Q y t"
  by (auto simp: triple_def)

lemma triple_bind: "triple P m R \<Longrightarrow> (\<And>y. triple (R y) (f y) Q) \<Longrightarrow> triple P (tx_bind m f) Q"
  by (fastforce simp: triple_def)

lemma triple_keep: "triple P m (\<lambda>_. P) \<Longrightarrow> (\<And>y. triple P (f y) Q) \<Longrightarrow> triple P (tx_bind m f) Q"
  by (rule triple_bind)

lemma triple_read: "(\<And>y. triple (\<lambda>s. P s \<and> q s = Ok y) (f y) Q) \<Longrightarrow> triple P (tx_bind (tx_read q) f) Q"
  by (auto simp: triple_def)

lemma triple_try: "(\<And>y. c = Ok y \<Longrightarrow> triple P (f y) Q) \<Longrightarrow> triple P (tx_bind (tx_try c) f) Q"
  by (auto simp: triple_def)

lemma triple_if: "(c \<Longrightarrow> triple P m Q) \<Longrightarrow> (\<not> c \<Longrightarrow> triple P n Q) \<Longrightarrow> triple P (if c then m else n) Q"
  by simp

lemma triple_weaken: "triple P' m Q \<Longrightarrow> (\<And>s. P s \<Longrightarrow> P' s) \<Longrightarrow> triple P m Q"
  by (auto simp: triple_def)

lemma triple_post: "triple P m Q' \<Longrightarrow> (\<And>y s. Q' y s \<Longrightarrow> Q y s) \<Longrightarrow> triple P m Q"
  by (auto simp: triple_def)

lemma triple_preserves: "preserves P m \<longleftrightarrow> triple P m (\<lambda>_. P)"
  by (auto simp: triple_def preserves_def)

lemma triple_return: "(\<And>s. P s \<Longrightarrow> Q y s) \<Longrightarrow> triple P (tx_return y) Q"
  by (auto simp: triple_def)

lemma triple_conj: "triple P m Q \<Longrightarrow> triple P m R \<Longrightarrow> triple P m (\<lambda>y s. Q y s \<and> R y s)"
  by (auto simp: triple_def)

lemma preserves_case_option [ok_intros]:
  "preserves P m \<Longrightarrow> (\<And>x. preserves P (f x)) \<Longrightarrow> preserves P (case v of None \<Rightarrow> m | Some x \<Rightarrow> f x)"
  by (cases v) simp_all

lemma preserves_quiet [ok_intros]: "preserves P m \<Longrightarrow> preserves P (quiet m)" "preserves P n \<Longrightarrow> preserves P (telling n)"
  unfolding quiet_def telling_def by (intro ok_intros; assumption)+

section \<open>The statements\<close>

text \<open>A part of the store that depends on the two tables only.\<close>

lemma tables_kept:
  "keeps rooms_executions m \<Longrightarrow> keeps db_effects m \<Longrightarrow> preserves (\<lambda>db. Q (db_effects db) (db_executions db)) m"
  by (auto simp: keeps_def preserves_def rooms_executions_def)

lemma pairs_matchD:
  assumes "pairs_match rm es xs"
  shows "es k = Some e \<Longrightarrow> \<exists>x. xs k = Some x \<and> phases_agree (pe_phase e) (pte_phase x)"
    and "xs k = Some x \<Longrightarrow> pte_phase x \<in> {Interrupt_Pending, Quiescing, Interrupt_Ambiguous} \<Longrightarrow> es k \<noteq> None"
    and "es k = Some e \<Longrightarrow> es k' = Some e' \<Longrightarrow> rm k = rm k' \<Longrightarrow> pe_effect_id e = pe_effect_id e' \<Longrightarrow> k = k'"
  using assms unfolding pairs_match_def by metis+

lemma om_get_insert_upd: "om_get (om_insert k v m) = (om_get m)(k \<mapsto> v)"
  by (rule ext) simp

lemma find_effect_get:
  assumes "om_wf (db_effects db)" "find_effect rid eid db = Some (k, e)"
  shows "om_get (db_effects db) k = Some e" "fst k = rid" "pe_effect_id e = eid"
proof -
  from assms(2) obtain i where i: "i < length (db_effects db)" "(k, e) = db_effects db ! i"
    "fst (fst (db_effects db ! i)) = rid \<and> pe_effect_id (snd (db_effects db ! i)) = eid"
    by (auto simp: find_effect_def find_Some_iff)
  from i(1,2) have "(k, e) \<in> set (db_effects db)" by (metis nth_mem)
  then show "om_get (db_effects db) k = Some e" using om_wf_get_set [OF assms(1)] by simp
  from i(3) show "fst k = rid" "pe_effect_id e = eid" by (simp_all flip: i(2))
qed

lemma find_effect_named:
  assumes "custody_ok db" "effect_named v db" "find_effect (pie_room_id v) (pie_effect_id v) db = Some (k, e)"
  shows "k = effect_key v"
proof -
  from assms(1) have wf: "om_wf (db_effects db)" and m: "pairs_match fst (om_get (db_effects db)) (om_get (db_executions db))"
    by (simp_all add: custody_ok_def pairs_ok_def)
  note get = find_effect_get [OF wf assms(3)]
  from assms(2) obtain e' where e': "om_get (db_effects db) (effect_key v) = Some e'" "pe_effect_id e' = pie_effect_id v"
    by (auto simp: effect_named_def)
  show ?thesis by (rule pairs_matchD(3) [OF m get(1) e'(1)]) (use get(2,3) e'(2) in \<open>simp_all add: effect_key_def\<close>)
qed

lemma update_execution_Ok:
  "update_execution err key hit f db = Ok (u, db') \<longleftrightarrow>
     (\<exists>x. om_get (db_executions db) key = Some x \<and> hit x \<and> db' = db\<lparr>db_executions := om_insert key (f x) (db_executions db)\<rparr>)"
  by (auto simp: update_execution_def split: option.splits)

lemma update_effect_Ok:
  "update_effect err rid eid hit f db = Ok (u, db') \<longleftrightarrow>
     (\<exists>k e. find_effect rid eid db = Some (k, e) \<and> hit e \<and> db' = db\<lparr>db_effects := om_insert k (f e) (db_effects db)\<rparr>)"
  by (auto simp: update_effect_def split: option.splits)

text \<open>A change of one row of each table that leaves identifiers alone.\<close>

lemma pairs_matchI:
  assumes "\<And>k e. es k = Some e \<Longrightarrow> \<exists>x. xs k = Some x \<and> phases_agree (pe_phase e) (pte_phase x)"
    and "\<And>k x. xs k = Some x \<Longrightarrow> pte_phase x \<in> {Interrupt_Pending, Quiescing, Interrupt_Ambiguous} \<Longrightarrow> es k \<noteq> None"
    and "\<And>k k' e e'. es k = Some e \<Longrightarrow> es k' = Some e' \<Longrightarrow> rm k = rm k' \<Longrightarrow> pe_effect_id e = pe_effect_id e' \<Longrightarrow> k = k'"
  shows "pairs_match rm es xs"
  unfolding pairs_match_def by (intro conjI allI impI assms)

text \<open>Changing or adding an interrupt with a new identifier, together with its execution.\<close>

lemma match_both:
  assumes m: "pairs_match rm es xs" and a: "phases_agree (pe_phase e') (pte_phase x')"
    and new: "\<And>k' e. es k' = Some e \<Longrightarrow> rm k' = rm k \<Longrightarrow> pe_effect_id e = pe_effect_id e' \<Longrightarrow> k' = k"
  shows "pairs_match rm (es(k \<mapsto> e')) (xs(k \<mapsto> x'))"
proof (rule pairs_matchI)
  fix j e assume "(es(k \<mapsto> e')) j = Some e"
  then show "\<exists>x. (xs(k \<mapsto> x')) j = Some x \<and> phases_agree (pe_phase e) (pte_phase x)"
    using pairs_matchD(1) [OF m, of j e] a by (cases "j = k") auto
next
  fix j x assume "(xs(k \<mapsto> x')) j = Some x" "pte_phase x \<in> {Interrupt_Pending, Quiescing, Interrupt_Ambiguous}"
  then show "(es(k \<mapsto> e')) j \<noteq> None" using pairs_matchD(2) [OF m, of j x] by (cases "j = k") simp_all
next
  fix i j d e assume h: "(es(k \<mapsto> e')) i = Some d" "(es(k \<mapsto> e')) j = Some e" "rm i = rm j" "pe_effect_id d = pe_effect_id e"
  show "i = j"
  proof (cases "i = k"; cases "j = k")
    assume "i = k" "j \<noteq> k" then show ?thesis using h new [of j e] by simp
  next
    assume "i \<noteq> k" "j = k" then show ?thesis using h new [of i d] by simp
  next
    assume "i \<noteq> k" "j \<noteq> k" then show ?thesis using h pairs_matchD(3) [OF m, of i d j e] by simp
  qed simp
qed

lemma match_update:
  assumes "pairs_match rm es xs" "es k = Some e"
    and "pe_effect_id e' = pe_effect_id e" "phases_agree (pe_phase e') (pte_phase x')"
  shows "pairs_match rm (es(k \<mapsto> e')) (xs(k \<mapsto> x'))"
  using match_both [OF assms(1,4), of k] pairs_matchD(3) [OF assms(1) _ assms(2)] assms(3) by simp

lemma match_effect:
  assumes "pairs_match rm es xs" "es k = Some e" "pe_effect_id e' = pe_effect_id e"
    and "\<And>p. phases_agree (pe_phase e) p \<Longrightarrow> phases_agree (pe_phase e') p"
  shows "pairs_match rm (es(k \<mapsto> e')) xs"
proof -
  obtain x where x: "xs k = Some x" "phases_agree (pe_phase e) (pte_phase x)" using pairs_matchD(1) [OF assms(1,2)] by blast
  have "xs(k \<mapsto> x) = xs" using x(1) by auto
  with match_update [OF assms(1-3) assms(4) [OF x(2)]] show ?thesis by simp
qed

lemma match_execution:
  assumes m: "pairs_match rm es xs" and none: "es k = None" and x: "pte_phase x' \<notin> {Interrupt_Pending, Quiescing, Interrupt_Ambiguous}"
  shows "pairs_match rm es (xs(k \<mapsto> x'))"
proof (rule pairs_matchI)
  fix j e assume "es j = Some e"
  then show "\<exists>x. (xs(k \<mapsto> x')) j = Some x \<and> phases_agree (pe_phase e) (pte_phase x)"
    using pairs_matchD(1) [OF m, of j e] none by (cases "j = k") auto
next
  fix j y assume "(xs(k \<mapsto> x')) j = Some y" "pte_phase y \<in> {Interrupt_Pending, Quiescing, Interrupt_Ambiguous}"
  then show "es j \<noteq> None" using pairs_matchD(2) [OF m, of j y] x by (cases "j = k") simp_all
qed (rule pairs_matchD(3) [OF m])

lemma pairs_ok_update:
  assumes "pairs_ok es xs" "om_get es k = Some e" "pe_effect_id e' = pe_effect_id e" "phases_agree (pe_phase e') (pte_phase x')"
  shows "pairs_ok (om_insert k e' es) (om_insert k x' xs)"
  using assms match_update [of fst "om_get es" "om_get xs" k e e' x'] by (simp add: pairs_ok_def om_wf_insert om_get_insert_upd)

lemma pairs_ok_effect:
  assumes "pairs_ok es xs" "om_get es k = Some e" "pe_effect_id e' = pe_effect_id e"
    and "\<And>p. phases_agree (pe_phase e) p \<Longrightarrow> phases_agree (pe_phase e') p"
  shows "pairs_ok (om_insert k e' es) xs"
  using assms match_effect [of fst "om_get es" "om_get xs" k e e'] by (simp add: pairs_ok_def om_wf_insert om_get_insert_upd)

lemma pairs_ok_execution:
  assumes "pairs_ok es xs" "om_get es k = None" "pte_phase x' \<notin> {Interrupt_Pending, Quiescing, Interrupt_Ambiguous}"
  shows "pairs_ok es (om_insert k x' xs)"
  using assms match_execution [of fst "om_get es" "om_get xs" k x'] by (simp add: pairs_ok_def om_get_insert_upd)

lemma agreed:
  assumes "pairs_ok es xs" "om_get es k = Some e" "om_get xs k = Some x"
  shows "phases_agree (pe_phase e) (pte_phase x)"
  using assms pairs_matchD(1) [of fst "om_get es" "om_get xs" k e] by (auto simp: pairs_ok_def)

lemma no_effect_yet:
  assumes "pairs_ok es xs" "om_get xs k = Some x" "pte_phase x \<in> {Assigned, Start_Dispatching, Running}"
  shows "om_get es k = None"
proof (cases "om_get es k")
  case (Some e)
  from agreed [OF assms(1) this assms(2)] assms(3) show ?thesis
    by (cases "pe_phase e") (auto simp: phases_agree_def recoverable_interrupt_pair_def is_blocking_def)
qed

lemma no_effect_settled:
  assumes "pairs_ok (db_effects db) (db_executions db)" "om_get (db_executions db) k = Some x" "is_blocking (pte_phase x)"
    and "\<not> effect_unsettled db k"
  shows "om_get (db_effects db) k = None"
proof (cases "om_get (db_effects db) k")
  case (Some e)
  with assms(4) have "pe_phase e = Effect_Finalized" by (simp add: effect_unsettled_def)
  with agreed [OF assms(1) Some assms(2)] assms(3) show ?thesis
    by (simp add: phases_agree_def recoverable_interrupt_pair_def)
qed simp

section \<open>What no operation takes back\<close>

lemma keeps_cases [keeps_intros]:
  "keeps v m \<Longrightarrow> (\<And>x. keeps v (f x)) \<Longrightarrow> keeps v (case u of None \<Rightarrow> m | Some x \<Rightarrow> f x)"
  "keeps v m \<Longrightarrow> (\<And>x xs. keeps v (g x xs)) \<Longrightarrow> keeps v (case us of [] \<Rightarrow> m | x # xs \<Rightarrow> g x xs)"
  by (cases u; simp) (cases us; simp)

lemma keeps_terminal_events [keeps_intros]:
  "keeps rooms_executions (interruption_events E s ti c)" "keeps db_effects (interruption_events E s ti c)"
  "keeps rooms_executions (gone_events E s ti cc)" "keeps db_effects (gone_events E s ti cc)"
  unfolding interruption_events_def gone_events_def by (intro keeps_intros)+

lemma keeps_ends [keeps_intros]:
  "keeps rooms_executions (apply_disposition E ti d s es)" "keeps db_effects (apply_disposition E ti d s es)"
  "keeps rooms_executions (route_first E settings route es)" "keeps db_effects (route_first E settings route es)"
proof -
  show "keeps rooms_executions (apply_disposition E ti d s es)" "keeps db_effects (apply_disposition E ti d s es)"
    unfolding apply_disposition_def by (cases d; simp; intro keeps_intros)+
  show "keeps rooms_executions (route_first E settings route es)" "keeps db_effects (route_first E settings route es)"
    unfolding route_first_def by (intro keeps_intros)+
qed

lemma terminalize_Ok:
  assumes "terminalize_ordinary_execution s a ph db = Ok (u, db')"
  obtains key x where "om_get (db_executions db) key = Some x" "ordinary_execution_matches a x (effect_unsettled db key)"
    "ph \<in> {Completed, Declined, Failed}"
    "db' = db\<lparr>db_executions := om_insert key (x\<lparr>pte_phase := ph, pte_provider_turn_id := pta_provider_turn_id a\<rparr>) (db_executions db)\<rparr>"
  using assms unfolding terminalize_ordinary_execution_def Let_def
  by (elim rbind_eq_Ok [THEN iffD1, elim_format] exE conjE)
    (auto split: option.split_asm if_split_asm)

text \<open>A fact of the two tables that an ordinary turn maintains: nothing but the two tables matters to
  it, and it allows new assignments and the moves of an execution that is not being interrupted.\<close>

locale table_fact =
  fixes P :: "'x turn_db \<Rightarrow> bool"
  assumes local: "P db \<Longrightarrow> db_executions db' = db_executions db \<Longrightarrow> db_effects db' = db_effects db \<Longrightarrow> P db'"
    and execution_added: "P db \<Longrightarrow> om_get (db_executions db) k = None \<Longrightarrow> pte_phase x = Assigned \<Longrightarrow>
      P (db\<lparr>db_executions := om_insert k x (db_executions db)\<rparr>)"
    and ordinary_move: "P db \<Longrightarrow> om_get (db_executions db) k = Some x \<Longrightarrow> pte_phase x \<in> {Assigned, Start_Dispatching, Running} \<Longrightarrow>
      pte_phase x' \<notin> {Assigned, Interrupt_Pending, Quiescing, Interrupt_Ambiguous} \<Longrightarrow>
      P (db\<lparr>db_executions := om_insert k x' (db_executions db)\<rparr>)"
begin

lemma kept: "keeps rooms_executions m \<Longrightarrow> keeps db_effects m \<Longrightarrow> preserves P m"
  by (fastforce simp: keeps_def preserves_def rooms_executions_def intro: local)

lemma kept_ordinary:
  "(\<And>x. hit x \<Longrightarrow> pte_phase x \<in> {Assigned, Start_Dispatching, Running}) \<Longrightarrow>
   (\<And>x. pte_phase (f x) \<notin> {Assigned, Interrupt_Pending, Quiescing, Interrupt_Ambiguous}) \<Longrightarrow>
   preserves P (update_execution err key hit f)"
  by (auto simp: preserves_def update_execution_Ok intro: ordinary_move)

lemma kept_frame:
  "preserves P (draw_now E)" "preserves P (draw_uuid E)" "preserves P (save_session s)" "preserves P (save_participant_row err p)"
  "preserves P (turn_finished_event E s ti st pi rc)" "preserves P (error_event E s ti ec m)"
  "preserves P (agent_final_event E s ti pj si ct tg)" "preserves P (interruption_events E s ti c)" "preserves P (gone_events E s ti cc)"
  "preserves P (apply_disposition E ti d s es)" "preserves P (route_first E settings route es)"
  "reconcile_frame E \<Longrightarrow> preserves P (session_state_event E s)"
  by (intro kept keeps_intros; assumption)+

lemma kept_insert_execution: "preserves P (insert_assigned_execution E s ti a)"
proof -
  have "preserves P (\<lambda>db. rbind (ensure (om_get (db_executions db) q = None \<and> c db) Database_Error) (\<lambda>_.
      Ok (row, db\<lparr>db_executions := om_insert q row (db_executions db)\<rparr>)))" if "pte_phase row = Assigned" for q c row
    using that by (auto simp: preserves_def intro: execution_added)
  then show ?thesis unfolding insert_assigned_execution_def Let_def by (intro ok_intros kept_frame) simp
qed

lemma kept_terminalize: "preserves P (terminalize_ordinary_execution s a ph)"
  unfolding preserves_def
  by (fastforce elim!: terminalize_Ok intro: ordinary_move simp: ordinary_execution_matches_def)

lemma kept_more_frame:
  "preserves P (route_message E settings e)" "preserves P (survey_session E room s)" "preserves P (clear_schedule_request E s)"
  "preserves P (turn_started_event E s)" "preserves P (turn_state_event E s)"
  by (intro kept keeps_intros)+

lemmas table_rules = ok_intros kept_frame kept_more_frame kept_ordinary kept_insert_execution kept_terminalize

lemma kept_assign:
  assumes "reconcile_frame E"
  shows "preserves P (assign_available_pending E room settings)" "preserves P (assign_pending_in E room settings)"
    "preserves P (assign_pending_turn E rid)"
proof -
  have p: "preserves P (prepare_assignment E room settings s)" for room settings s
    unfolding prepare_assignment_def Let_def by (intro table_rules assms)
  show a: "preserves P (assign_available_pending E room settings)" for room settings
    unfolding assign_available_pending_def Let_def by (intro table_rules p assms)
  show i: "preserves P (assign_pending_in E room settings)" for room settings
    unfolding assign_pending_in_def by (intro table_rules a)
  show "preserves P (assign_pending_turn E rid)"
    unfolding assign_pending_turn_def by (intro table_rules i)
qed

lemma kept_end:
  assumes "reconcile_frame E"
  shows "preserves P (end_turn E redact rid sid a how)"
proof -
  have f: "preserves P (apply_finalization E F s es)" for F s es
    unfolding apply_finalization_def Let_def by (intro table_rules kept_assign assms)
  show ?thesis
    by (cases how; simp add: complete_message_def decline_def fail_def Let_def)
      (intro table_rules f kept_assign assms)+
qed

lemma kept_start:
  "preserves P (authorize_start_in E rid sid g ti)" "preserves P (mark_running_in sa pti)"
  "reconcile_frame E \<Longrightarrow> preserves P (mark_provider_turn_recovery_required E sa)"
  unfolding authorize_start_in_def mark_running_in_def mark_provider_turn_recovery_required_def Let_def
  by (intro table_rules; simp)+

end

text \<open>A fact that survives every kind of row change the operations make: an execution
  leaves the phase \<open>Assigned\<close> and does not come back to it, and an interrupt keeps its
  identifier and does not come back to the phases before its dispatch.\<close>

locale turn_fact = table_fact P for P :: "'x turn_db \<Rightarrow> bool" +
  assumes wf: "P db \<Longrightarrow> om_wf (db_effects db)"
    and execution_moves: "P db \<Longrightarrow> om_get (db_executions db) k = Some x \<Longrightarrow> pte_phase x' \<noteq> Assigned \<Longrightarrow>
      P (db\<lparr>db_executions := om_insert k x' (db_executions db)\<rparr>)"
    and effect_moves: "P db \<Longrightarrow> om_get (db_effects db) k = Some e \<Longrightarrow> pe_effect_id e' = pe_effect_id e \<Longrightarrow>
      (pe_phase e \<notin> {Effect_Prepared, Effect_Claimed} \<Longrightarrow> pe_phase e' \<notin> {Effect_Prepared, Effect_Claimed}) \<Longrightarrow>
      P (db\<lparr>db_effects := om_insert k e' (db_effects db)\<rparr>)"
    and effect_added: "P db \<Longrightarrow> om_get (db_effects db) k = None \<Longrightarrow>
      P (db\<lparr>db_effects := om_insert k e (db_effects db)\<rparr>)"
begin

lemma kept_updates:
  "(\<And>x. pte_phase (f x) \<noteq> Assigned) \<Longrightarrow> preserves P (update_execution err key hit f)"
  "(\<And>e. pe_effect_id (g e) = pe_effect_id e) \<Longrightarrow>
   (\<And>e. hit' e \<Longrightarrow> pe_phase e \<notin> {Effect_Prepared, Effect_Claimed} \<Longrightarrow> pe_phase (g e) \<notin> {Effect_Prepared, Effect_Claimed}) \<Longrightarrow>
   preserves P (update_effect err rid eid hit' g)"
  "preserves P (insert_effect key row)" "preserves P (quarantine_effect_row key)"
     apply (auto simp: preserves_def update_execution_Ok intro: execution_moves)[1]
    apply (unfold preserves_def update_effect_Ok split_paired_All)[1]
    apply (metis effect_moves find_effect_get(1) snd_conv wf)
   apply (auto simp: preserves_def insert_effect_def intro: effect_added split: if_splits)[1]
  apply (auto simp: preserves_def quarantine_effect_row_def quarantine_effect_def intro!: effect_moves split: option.splits)
  done

lemmas turn_rules = ok_intros kept_frame kept_updates

lemma kept_task_death:
  assumes "reconcile_frame E"
  shows "preserves P (finalize_proven_no_effect_task_death E s x)" "preserves P (record_provider_turn_task_death E rid sid g ei)"
proof -
  show f: "preserves P (finalize_proven_no_effect_task_death E s x)" for s x
    unfolding finalize_proven_no_effect_task_death_def Let_def by (intro turn_rules kept_assign assms; simp)
  have q: "preserves P (quarantine_dispatched_task_death E s x)" for s x
    unfolding quarantine_dispatched_task_death_def Let_def by (intro turn_rules assms; simp)
  show "preserves P (record_provider_turn_task_death E rid sid g ei)"
    unfolding record_provider_turn_task_death_def Let_def by (intro turn_rules f q)
qed

lemma kept_interrupt: "preserves P (interrupt_turn E rid sid g cause)"
  unfolding interrupt_turn_def prepare_interrupt_effect_def Let_def by (intro turn_rules; simp)

lemma kept_claims:
  "preserves P (claim_provider_turn_interrupt iu now v owner)" "preserves P (claim_provider_turn_interrupt_recovery iu now v owner)"
  "preserves P (fence_interrupt_dispatch E now c)" "preserves P (release_provider_interrupt_recovery_claim c)"
  unfolding claim_provider_turn_interrupt_def claim_provider_turn_interrupt_recovery_def fence_interrupt_dispatch_def
    release_provider_interrupt_recovery_claim_def
  by (intro turn_rules; auto)+

lemma kept_pair:
  assumes "\<And>e. pe_effect_id (f e) = pe_effect_id e" "\<And>e. pe_phase (f e) \<notin> {Effect_Prepared, Effect_Claimed}"
    and "\<And>x. pte_phase (h x) \<noteq> Assigned"
  shows "preserves P (move_pair v he f hx h)"
  unfolding move_pair_def by (intro turn_rules; use assms in auto)

lemma kept_moves:
  "preserves P (transition_to_waiting_in now v co)" "preserves P (mark_provider_interrupt_ambiguous v)"
  "preserves P (transition_to_recovery_required v co)" "preserves P (authorize_provider_interrupt_recovery_wait now c)"
  "preserves P (terminalize_retained_interrupt v)"
  unfolding transition_to_waiting_in_def mark_provider_interrupt_ambiguous_def transition_to_recovery_required_def
    authorize_provider_interrupt_recovery_wait_def terminalize_retained_interrupt_def Let_def split_beta
  by (intro turn_rules kept_pair; simp split: option.split)+

lemma kept_retained:
  assumes "reconcile_frame E"
  shows "preserves P (finalize_retained_in E v)"
  unfolding finalize_retained_in_def schedule_after_interrupt_def Let_def by (intro turn_rules kept_moves kept_assign assms)

lemma kept_terminal: "ph \<noteq> Assigned \<Longrightarrow> preserves P (terminalize_authority e e' x v ph)"
  unfolding terminalize_authority_def by (intro turn_rules; simp)

lemma kept_stop: "preserves P (terminalize_confirmed_stop_turn E s)"
  unfolding terminalize_confirmed_stop_turn_def Let_def by (intro turn_rules kept_terminal) simp_all

lemma kept_gone:
  assumes "reconcile_frame E"
  shows "preserves P (finalize_provider_turn_not_started E c)" "preserves P (finalize_runtime_gone_in E lc c p)"
proof -
  show "preserves P (finalize_provider_turn_not_started E c)"
    unfolding finalize_provider_turn_not_started_def Let_def by (intro turn_rules kept_task_death assms)
  have s: "preserves P (finalize_runtime_gone_session E s x cause p)" for s x cause
    unfolding finalize_runtime_gone_session_def Let_def by (intro turn_rules kept_assign assms)
  show "preserves P (finalize_runtime_gone_in E lc c p)"
    unfolding finalize_runtime_gone_in_def confirm_stop_by_runtime_gone_def Let_def
    by (intro turn_rules s kept_stop kept_terminal) simp_all
qed

lemma perform_keeps:
  assumes "reconcile_frame (ts_env Y)"
  shows "preserves P (perform Y op)"
  by (cases op; simp add: quiet_def telling_def mark_unstarted_interrupt_waiting_def mark_provider_interrupt_issued_def
      handoff_unissued_provider_interrupt_claim_def mark_provider_interrupt_recovery_required_def)
    (intro ok_intros kept_assign kept_start kept_end kept_task_death kept_interrupt kept_claims kept_moves kept_retained
      kept_stop kept_gone assms; simp)+

end

text \<open>Begun, sent and named are such facts.\<close>

definition begun_wf :: "rstr \<times> rstr \<times> int \<Rightarrow> 'x turn_db \<Rightarrow> bool" where
  "begun_wf k db \<longleftrightarrow> om_wf (db_effects db) \<and> begun k db"

definition sent_wf :: "rstr \<times> rstr \<times> int \<Rightarrow> 'x turn_db \<Rightarrow> bool" where
  "sent_wf k db \<longleftrightarrow> om_wf (db_effects db) \<and> sent k db"

definition named_wf :: "provider_turn_interrupt_effect \<Rightarrow> 'x turn_db \<Rightarrow> bool" where
  "named_wf v db \<longleftrightarrow> om_wf (db_effects db) \<and> effect_named v db"

interpretation begun: turn_fact "begun_wf k"
  by unfold_locales (auto simp: begun_wf_def begun_def om_wf_insert)

interpretation sent: turn_fact "sent_wf k"
  by unfold_locales (auto simp: sent_wf_def sent_def om_wf_insert)

interpretation named: turn_fact "named_wf v"
  by unfold_locales (auto simp: named_wf_def effect_named_def om_wf_insert)

section \<open>What every operation maintains\<close>

text \<open>An interrupt that was claimed, or even dispatched, while its execution was quarantined.\<close>

definition stranded :: "rstr \<times> rstr \<times> int \<Rightarrow> 'x turn_db \<Rightarrow> bool" where
  "stranded k db \<longleftrightarrow>
     (\<exists>e x. om_get (db_effects db) k = Some e \<and> om_get (db_executions db) k = Some x \<and>
        pe_phase e \<in> {Effect_Claimed, Effect_Dispatching} \<and> pte_phase x \<in> {Start_Ambiguous, Recovery_Required})"

text \<open>The two invariants are maintained by the same steps: the agreement of the phases always, a stranded
  interrupt except by proof that the runtime is stopped or gone.\<close>

definition custody_with :: "bool \<Rightarrow> rstr \<times> rstr \<times> int \<Rightarrow> 'x turn_db \<Rightarrow> bool" where
  "custody_with b k db \<longleftrightarrow> custody_ok db \<and> (b \<longrightarrow> stranded k db)"

lemma custody_withD: "custody_with b k db \<Longrightarrow> pairs_ok (db_effects db) (db_executions db)"
  "custody_with b k db \<Longrightarrow> om_wf (db_effects db)"
  by (simp_all add: custody_with_def custody_ok_def pairs_ok_def)

lemma with_execution:
  assumes "custody_with b k db" "om_get (db_effects db) key = None"
    and "pte_phase x' \<notin> {Interrupt_Pending, Quiescing, Interrupt_Ambiguous}"
  shows "custody_with b k (db\<lparr>db_executions := om_insert key x' (db_executions db)\<rparr>)"
  using assms pairs_ok_execution [OF custody_withD(1) [OF assms(1)] assms(2,3)]
  by (auto simp: custody_with_def custody_ok_def stranded_def)

lemma with_pair:
  assumes c: "custody_with b k db" and e: "om_get (db_effects db) key = Some e" and x: "om_get (db_executions db) key = Some x"
    and i: "pe_effect_id e' = pe_effect_id e" and a: "phases_agree (pe_phase e') (pte_phase x')"
    and free: "b \<Longrightarrow> \<not> (pe_phase e \<in> {Effect_Claimed, Effect_Dispatching} \<and> pte_phase x \<in> {Start_Ambiguous, Recovery_Required})"
  shows "custody_with b k (db\<lparr>db_effects := om_insert key e' (db_effects db), db_executions := om_insert key x' (db_executions db)\<rparr>)"
proof -
  have "custody_ok (db\<lparr>db_effects := om_insert key e' (db_effects db), db_executions := om_insert key x' (db_executions db)\<rparr>)"
    using pairs_ok_update [OF custody_withD(1) [OF c] e i a] by (simp add: custody_ok_def)
  moreover have "b \<Longrightarrow> stranded k db \<Longrightarrow> k \<noteq> key" using e x free by (auto simp: stranded_def)
  ultimately show ?thesis using c by (auto simp: custody_with_def stranded_def)
qed

lemma with_effect:
  assumes c: "custody_with b k db" and e: "om_get (db_effects db) key = Some e" and i: "pe_effect_id e' = pe_effect_id e"
    and a: "\<And>p. phases_agree (pe_phase e) p \<Longrightarrow> phases_agree (pe_phase e') p"
    and st: "pe_phase e \<in> {Effect_Claimed, Effect_Dispatching} \<Longrightarrow> pe_phase e' \<in> {Effect_Claimed, Effect_Dispatching}"
  shows "custody_with b k (db\<lparr>db_effects := om_insert key e' (db_effects db)\<rparr>)"
  using c pairs_ok_effect [OF custody_withD(1) [OF c] e i a] e st
  by (auto simp: custody_with_def custody_ok_def stranded_def)

interpretation custody: table_fact "custody_with b k"
proof
  fix db db' :: "'a turn_db"
  assume "custody_with b k db" "db_executions db' = db_executions db" "db_effects db' = db_effects db"
  then show "custody_with b k db'" by (simp add: custody_with_def custody_ok_def stranded_def)
next
  fix db :: "'a turn_db" and q and x :: provider_turn_execution
  assume h: "custody_with b k db" "om_get (db_executions db) q = None" "pte_phase x = Assigned"
  have "om_get (db_effects db) q = None"
    using pairs_matchD(1) [of fst "om_get (db_effects db)" "om_get (db_executions db)" q] custody_withD(1) [OF h(1)] h(2)
    by (cases "om_get (db_effects db) q") (auto simp: pairs_ok_def)
  with h show "custody_with b k (db\<lparr>db_executions := om_insert q x (db_executions db)\<rparr>)"
    by (intro with_execution) simp_all
next
  fix db :: "'a turn_db" and q and x x' :: provider_turn_execution
  assume h: "custody_with b k db" "om_get (db_executions db) q = Some x" "pte_phase x \<in> {Assigned, Start_Dispatching, Running}"
    "pte_phase x' \<notin> {Assigned, Interrupt_Pending, Quiescing, Interrupt_Ambiguous}"
  from no_effect_yet [OF custody_withD(1) [OF h(1)] h(2,3)] h(1,4)
  show "custody_with b k (db\<lparr>db_executions := om_insert q x' (db_executions db)\<rparr>)"
    by (intro with_execution) simp_all
qed

lemma with_settled:
  assumes "\<And>x. hit x \<Longrightarrow> is_blocking (pte_phase x)"
    and "\<And>x. hit x \<Longrightarrow> pte_phase (f x) \<notin> {Interrupt_Pending, Quiescing, Interrupt_Ambiguous}"
  shows "triple (\<lambda>db. custody_with b k db \<and> \<not> effect_unsettled db key) (update_execution err key hit f) (\<lambda>_. custody_with b k)"
  unfolding triple_def update_execution_Ok
  using assms by (blast intro: with_execution no_effect_settled custody_withD(1))

lemma with_claim:
  assumes "\<And>e. pe_effect_id (f e) = pe_effect_id e"
    and "\<And>e p. hit e \<Longrightarrow> phases_agree (pe_phase e) p \<Longrightarrow> phases_agree (pe_phase (f e)) p"
    and "\<And>e. hit e \<Longrightarrow> pe_phase e \<in> {Effect_Claimed, Effect_Dispatching} \<Longrightarrow> pe_phase (f e) \<in> {Effect_Claimed, Effect_Dispatching}"
  shows "preserves (custody_with b k) (update_effect err rid eid hit f)"
proof -
  have "custody_with b k (db\<lparr>db_effects := om_insert q (f e) (db_effects db)\<rparr>)"
    if "custody_with b k db" "find_effect rid eid db = Some (q, e)" "hit e" for db q e
    by (rule with_effect [OF that(1) find_effect_get(1) [OF custody_withD(2) [OF that(1)] that(2)]]) (use assms that(3) in blast)+
  then show ?thesis by (auto simp: preserves_def update_effect_Ok)
qed

lemma with_move_pair:
  assumes "\<And>e. pe_effect_id (f e) = pe_effect_id e"
    and "\<And>e x. he e \<Longrightarrow> hx x \<Longrightarrow> phases_agree (pe_phase e) (pte_phase x) \<Longrightarrow> phases_agree (pe_phase (f e)) (pte_phase (g x))"
    and "\<And>e x. he e \<Longrightarrow> hx x \<Longrightarrow>
      \<not> (pe_phase e \<in> {Effect_Claimed, Effect_Dispatching} \<and> pte_phase x \<in> {Start_Ambiguous, Recovery_Required})"
  shows "triple (\<lambda>db. custody_with b k db \<and> effect_named v db) (move_pair v he f hx g) (\<lambda>_. custody_with b k)"
  unfolding triple_def
proof (intro allI impI)
  fix db u db'
  assume pre: "custody_with b k db \<and> effect_named v db" and run: "move_pair v he f hx g db = Inr (u, db')"
  then obtain q e x where r: "find_effect (pie_room_id v) (pie_effect_id v) db = Some (q, e)" "he e"
    "om_get (db_executions db) (effect_key v) = Some x" "hx x"
    "db' = db\<lparr>db_effects := om_insert q (f e) (db_effects db), db_executions := om_insert (effect_key v) (g x) (db_executions db)\<rparr>"
    by (auto simp: move_pair_def turn_key_def effect_key_def tx_bind_def update_execution_Ok update_effect_Ok split: if_splits sum.splits prod.splits)
  from pre have "custody_ok db" by (simp add: custody_with_def)
  from find_effect_named [OF this _ r(1)] pre have q: "q = effect_key v" by simp
  from pre have c: "custody_with b k db" by simp
  note e = find_effect_get(1) [OF custody_withD(2) [OF c] r(1), unfolded q]
  note a = agreed [OF custody_withD(1) [OF c] e r(3)]
  show "custody_with b k db'"
    unfolding r(5) q by (rule with_pair [OF c e r(3) assms(1) assms(2) [OF r(2,4) a]]) (rule assms(3) [OF r(2,4)])
qed

lemma load_effect_Ok:
  "load_effect_in rid sid g db = Ok v \<longleftrightarrow> uint g \<le> i64_max \<and>
     (\<exists>e x. om_get (db_effects db) (rid, sid, uint g) = Some e \<and> om_get (db_executions db) (rid, sid, uint g) = Some x \<and>
       v = \<lparr>pie_room_id = rid, pie_session_id = sid, pie_turn_generation = g,
             pie_effect_id = pe_effect_id e, pie_cause = pe_cause e, pie_phase = pe_phase e,
             pie_execution_id = pte_execution_id x, pie_participant_id = pte_participant_id x,
             pie_turn_id = pte_turn_id x, pie_start_dispatch_nonce = pte_start_dispatch_nonce x,
             pie_runtime_handle_id = pte_runtime_handle_id x, pie_runtime_owner_id = pte_runtime_owner_id x,
             pie_runtime_lease_token = pte_runtime_lease_token x, pie_dispatch_nonce = pe_dispatch_nonce e\<rparr>)"
  by (cases "om_get (db_effects db) (rid, sid, uint g)"; cases "om_get (db_executions db) (rid, sid, uint g)")
    (auto simp: load_effect_in_def turn_key_def)

lemma loaded_effect:
  assumes "load_effect_in rid sid g db = Ok v"
  shows "effect_named v db" "effect_key v = (rid, sid, uint g)"
    "\<exists>e. om_get (db_effects db) (effect_key v) = Some e \<and> pe_phase e = pie_phase v \<and> pe_effect_id e = pie_effect_id v"
  using assms by (auto simp: load_effect_Ok effect_named_def effect_key_def)

lemma loaded_effect_of:
  assumes "load_effect_of w db = Ok v"
  shows "effect_named v db" "effect_key v = effect_key w"
  using loaded_effect [OF assms [unfolded load_effect_of_def]] by (simp_all add: effect_key_def)

lemmas agree_defs = phases_agree_def recoverable_interrupt_pair_def is_blocking_def

lemma with_claims:
  "preserves (custody_with b k) (claim_provider_turn_interrupt iu now v owner)"
  "preserves (custody_with b k) (claim_provider_turn_interrupt_recovery iu now v owner)"
  "preserves (custody_with b k) (fence_interrupt_dispatch E now c)"
  "preserves (custody_with b k) (release_provider_interrupt_recovery_claim c)"
  unfolding claim_provider_turn_interrupt_def claim_provider_turn_interrupt_recovery_def fence_interrupt_dispatch_def
    release_provider_interrupt_recovery_claim_def
  by (intro custody.table_rules with_claim; auto simp: agree_defs)+

text \<open>Each move of a pair.\<close>

lemma with_waiting:
  "triple (\<lambda>db. custody_with b k db \<and> effect_named v db) (transition_to_waiting_in now v co) (\<lambda>_. custody_with b k)"
  unfolding transition_to_waiting_in_def
  by (rule triple_bind [OF with_move_pair]; (cases co)?) (auto simp: agree_defs triple_def)

lemma with_ambiguous:
  "triple (\<lambda>db. custody_with b k db \<and> effect_named v db) (mark_provider_interrupt_ambiguous v) (\<lambda>_. custody_with b k)"
  unfolding mark_provider_interrupt_ambiguous_def by (rule with_move_pair) (auto simp: agree_defs)

lemma with_current:
  assumes "\<And>current. triple (\<lambda>db. custody_with b k db \<and> effect_named current db) (f current) (\<lambda>_. custody_with b k)"
  shows "triple (custody_with b k) (tx_bind (tx_read (load_effect_of v)) f) (\<lambda>_. custody_with b k)"
  by (rule triple_read) (auto intro: triple_weaken [OF assms] loaded_effect_of)

lemma with_read:
  assumes "\<And>y. triple P (f y) Q"
  shows "triple P (tx_bind (tx_read q) f) Q"
  by (rule triple_read) (auto intro: triple_weaken [OF assms])

lemma with_lost:
  "triple (custody_with b k) (transition_to_recovery_required v co) (\<lambda>_. custody_with b k)"
  unfolding transition_to_recovery_required_def Let_def split_beta
  by (intro with_current triple_try with_read with_move_pair; cases co) (auto simp: agree_defs)

lemma with_recovery_wait:
  "triple (custody_with b k) (authorize_provider_interrupt_recovery_wait now c) (\<lambda>_. custody_with b k)"
  unfolding authorize_provider_interrupt_recovery_wait_def Let_def
  by (intro with_current triple_try with_read triple_bind [OF with_move_pair])
    (auto simp: agree_defs require_recoverable_def triple_def split: provider_turn_effect_phase.splits)

lemma with_retained_pair:
  "triple (custody_with b k) (terminalize_retained_interrupt v) (\<lambda>_. custody_with b k)"
  unfolding terminalize_retained_interrupt_def
  by (intro with_current triple_try with_read with_move_pair) (auto simp: agree_defs)

lemma triple_table: "preserves P m \<Longrightarrow> triple P m (\<lambda>_. P)"
  by (simp add: triple_preserves)

lemma with_retained:
  assumes "reconcile_frame E"
  shows "triple (custody_with b k) (finalize_retained_in E v) (\<lambda>_. custody_with b k)"
proof -
  have "preserves (custody_with b k) (schedule_after_interrupt E rid c)" for rid c
    unfolding schedule_after_interrupt_def by (intro custody.table_rules custody.kept_assign assms)
  then show ?thesis
    unfolding finalize_retained_in_def Let_def
    by (intro with_read triple_try triple_keep [OF with_retained_pair] triple_table custody.table_rules assms)
qed

text \<open>The provider never saw the turn.\<close>

lemma with_no_effect_death:
  assumes "reconcile_frame E" "pte_phase (le_row x) \<in> {Assigned, Start_Dispatching}"
  shows "triple (custody_with b k) (finalize_proven_no_effect_task_death E s x) (\<lambda>_. custody_with b k)"
proof -
  have u: "triple (\<lambda>db. custody_with b k db \<and> ensure (\<not> effect_unsettled db key) err = Ok y) (update_execution stale_execution key
         (\<lambda>row. pte_execution_id row = i \<and> pte_phase row = pte_phase (le_row x) \<and> \<not> pte_requeue_finalized row)
         (\<lambda>row. row\<lparr>pte_phase := Failed, pte_requeue_finalized := True\<rparr>)) (\<lambda>_. custody_with b k)" for key err y i
    by (rule triple_weaken [OF with_settled]) (use assms(2) in \<open>auto simp: is_blocking_def\<close>)
  have m: "triple (custody_with b k) (tx_bind (tx_read (\<lambda>db. ensure (\<not> effect_unsettled db key) err)) (\<lambda>_.
      tx_bind (update_execution stale_execution key
         (\<lambda>row. pte_execution_id row = i \<and> pte_phase row = pte_phase (le_row x) \<and> \<not> pte_requeue_finalized row)
         (\<lambda>row. row\<lparr>pte_phase := Failed, pte_requeue_finalized := True\<rparr>)) g)) (\<lambda>_. custody_with b k)"
    if "\<And>y. triple (custody_with b k) (g y) (\<lambda>_. custody_with b k)"
    for key err i and g :: "unit \<Rightarrow> ('a turn_db, agent_turn_commit) tx"
    by (rule triple_read) (rule triple_bind [OF u that])
  show ?thesis
    unfolding finalize_proven_no_effect_task_death_def Let_def
    by (intro with_read triple_try) (simp only: split_beta, intro with_read triple_try m triple_table custody.table_rules
        custody.kept_assign assms(1))
qed

lemma with_pair':
  assumes "custody_with b k db" "om_get (db_effects db) key = Some e" "om_get (db_executions db) key = Some x"
    and "pe_effect_id e' = pe_effect_id e" "phases_agree (pe_phase e') (pte_phase x')"
    and "b \<Longrightarrow> \<not> (pe_phase e \<in> {Effect_Claimed, Effect_Dispatching} \<and> pte_phase x \<in> {Start_Ambiguous, Recovery_Required})"
  shows "custody_with b k (db\<lparr>db_executions := om_insert key x' (db_executions db), db_effects := om_insert key e' (db_effects db)\<rparr>)"
  using with_pair [OF assms] by (cases db) simp

lemma quarantine_effect_row_Ok:
  "quarantine_effect_row key db = Ok (u, db') \<longleftrightarrow>
     db' = (case om_get (db_effects db) key of None \<Rightarrow> db
            | Some e \<Rightarrow> db\<lparr>db_effects := om_insert key (quarantine_effect e) (db_effects db)\<rparr>)"
  by (auto simp: quarantine_effect_row_def split: option.splits)

lemma with_quarantine:
  assumes hit: "\<And>x. hit x \<Longrightarrow> pte_phase x \<in> {Start_Dispatching, Running, Interrupt_Pending, Quiescing}"
    and g: "\<And>y. triple (custody_with b k) (g y) (\<lambda>_. custody_with b k)"
  shows "triple (custody_with b k)
     (tx_bind (tx_read (\<lambda>db. Ok (effect_is_dispatching db key))) (\<lambda>dispatching.
      tx_bind (update_execution err key hit
        (\<lambda>row. row\<lparr>pte_phase := if dispatching then Interrupt_Ambiguous else Recovery_Required\<rparr>)) (\<lambda>_.
      tx_bind (quarantine_effect_row key) g))) (\<lambda>_. custody_with b k)"
proof (rule triple_read, rule triple_bind [where R = "\<lambda>_ db'. \<exists>db x. custody_with b k db \<and> om_get (db_executions db) key = Some x \<and> hit x \<and>
    db' = db\<lparr>db_executions := om_insert key (x\<lparr>pte_phase := if effect_is_dispatching db key then Interrupt_Ambiguous else Recovery_Required\<rparr>)
                (db_executions db)\<rparr>"], goal_cases)
  case (1 y)
  then show ?case by (auto simp: triple_def update_execution_Ok)
next
  case (2 y u)
  show ?case
  proof (rule triple_bind [OF _ g], unfold triple_def quarantine_effect_row_Ok, intro allI impI, elim exE conjE)
    fix db' u' db'' db x
    assume c: "custody_with b k db" and x: "om_get (db_executions db) key = Some x" "hit x"
      and db': "db' = db\<lparr>db_executions := om_insert key (x\<lparr>pte_phase := if effect_is_dispatching db key then Interrupt_Ambiguous else Recovery_Required\<rparr>)
                (db_executions db)\<rparr>"
      and db'': "db'' = (case om_get (db_effects db') key of None \<Rightarrow> db'
            | Some e \<Rightarrow> db'\<lparr>db_effects := om_insert key (quarantine_effect e) (db_effects db')\<rparr>)"
    show "custody_with b k db''"
    proof (cases "om_get (db_effects db) key")
      case None
      with c show ?thesis unfolding db'' db' by (auto simp: effect_is_dispatching_def intro!: with_execution)
    next
      case (Some e)
      note a = agreed [OF custody_withD(1) [OF c] Some x(1)]
      have "custody_with b k (db\<lparr>db_executions := om_insert key (x\<lparr>pte_phase := if effect_is_dispatching db key then Interrupt_Ambiguous else Recovery_Required\<rparr>)
                (db_executions db), db_effects := om_insert key (quarantine_effect e) (db_effects db)\<rparr>)"
        by (rule with_pair' [OF c Some x(1)]; use a hit [OF x(2)] Some in
            \<open>cases "pe_phase e"; auto simp: agree_defs quarantine_effect_def effect_is_dispatching_def\<close>)
      with Some show ?thesis unfolding db'' db' by simp
    qed
  qed
qed

lemma with_task_death:
  assumes "reconcile_frame E"
  shows "triple (custody_with b k) (record_provider_turn_task_death E rid sid g ei) (\<lambda>_. custody_with b k)"
proof -
  have "triple (custody_with b k) (quarantine_dispatched_task_death E s x) (\<lambda>_. custody_with b k)"
    if "pte_phase (le_row x) \<in> {Start_Dispatching, Running, Interrupt_Pending, Quiescing}" for s x
    unfolding quarantine_dispatched_task_death_def Let_def
    by (intro triple_try with_quarantine triple_table custody.table_rules assms) (use that in simp)
  then show ?thesis
    unfolding record_provider_turn_task_death_def Let_def
    by (intro with_read triple_try triple_if with_no_effect_death [OF assms]) (auto simp: triple_def)
qed

text \<open>Preparing an interrupt.\<close>

lemma with_new_effect:
  assumes c: "custody_with b k db" and none: "om_get (db_effects db) key = None" "find_effect (fst key) (pe_effect_id e) db = None"
    and x: "om_get (db_executions db) key = Some x" and a: "phases_agree (pe_phase e) (pte_phase x')"
  shows "custody_with b k (db\<lparr>db_effects := om_insert key e (db_effects db), db_executions := om_insert key x' (db_executions db)\<rparr>)"
proof -
  from c have p: "om_wf (db_effects db)" "pairs_match fst (om_get (db_effects db)) (om_get (db_executions db))"
    using custody_withD(1) [OF c] by (simp_all add: pairs_ok_def)
  have "pairs_match fst ((om_get (db_effects db))(key \<mapsto> e)) ((om_get (db_executions db))(key \<mapsto> x'))"
  proof (rule match_both [OF p(2) a])
    fix q d assume "om_get (db_effects db) q = Some d" "fst q = fst key" "pe_effect_id d = pe_effect_id e"
    then have "(q, d) \<in> set (db_effects db)" by (blast dest: om_get_in_set)
    with none(2) \<open>fst q = fst key\<close> \<open>pe_effect_id d = pe_effect_id e\<close> show "q = key"
      by (cases q) (auto simp: find_effect_def find_None_iff)
  qed
  then have "custody_ok (db\<lparr>db_effects := om_insert key e (db_effects db), db_executions := om_insert key x' (db_executions db)\<rparr>)"
    using p(1) by (simp add: custody_ok_def pairs_ok_def om_get_insert_upd om_wf_insert)
  moreover have "stranded k db \<Longrightarrow> k \<noteq> key" using none(1) by (auto simp: stranded_def)
  ultimately show ?thesis using c by (auto simp: custody_with_def stranded_def)
qed

lemma with_same_execution:
  assumes "custody_with b k (db\<lparr>db_executions := om_insert key x (db_executions db)\<rparr>)" "om_get (db_executions db) key = Some x"
  shows "custody_with b k db"
proof -
  have "om_get (om_insert key x (db_executions db)) = om_get (db_executions db)" using assms(2) by (simp add: om_get_insert_upd fun_upd_idem)
  with assms(1) show ?thesis by (simp add: custody_with_def custody_ok_def pairs_ok_def stranded_def)
qed

lemma with_draw: "custody_with b k (db\<lparr>db_draws := n\<rparr>) \<longleftrightarrow> custody_with b k db"
  by (simp add: custody_with_def custody_ok_def stranded_def)

lemma insert_effect_Ok:
  "insert_effect key e db = Ok (u, db') \<longleftrightarrow>
     (if om_get (db_effects db) key \<noteq> None \<or> find_effect (fst key) (pe_effect_id e) db \<noteq> None then db' = db
      else om_get (db_executions db) key \<noteq> None \<and> db' = db\<lparr>db_effects := om_insert key e (db_effects db)\<rparr>)"
  by (auto simp: insert_effect_def)

lemma with_interrupt: "triple (custody_with b k) (interrupt_turn E rid sid g cause) (\<lambda>_. custody_with b k)"
  unfolding triple_def
proof (intro allI impI)
  fix db v db'
  let ?key = "(rid, sid, uint g)"
  assume c: "custody_with b k db" and "interrupt_turn E rid sid g cause db = Inr (v, db')"
  then obtain l where l: "load_execution_in rid sid g db = Ok l" and run: "prepare_interrupt_effect E l cause db = Inr (v, db')"
    by (auto simp: interrupt_turn_def)
  define x where "x = le_row l"
  define e where "e = \<lparr>pe_effect_id = uuid_string (te_uuid E (db_draws db)), pe_cause = cause, pe_phase = Effect_Prepared,
          pe_claim_owner = [], pe_claim_expires_at = None, pe_dispatch_nonce = []\<rparr>"
  from l have x: "om_get (db_executions db) ?key = Some x" and l': "le_room_id l = rid" "le_session_id l = sid" "le_turn_generation l = g"
    and key: "turn_key err rid sid g = Ok ?key" for err
    by (auto simp: load_execution_in_def turn_key_def x_def split: if_splits)
  from run have blk: "is_blocking (pte_phase x)"
    by (auto simp: prepare_interrupt_effect_def Let_def x_def)
  from run blk obtain u db1 w where ins: "insert_effect ?key e (db\<lparr>db_draws := db_draws db + 1\<rparr>) = Ok (u, db1)"
    and ld: "load_effect_in rid sid g db1 = Ok w"
    and upd: "(if pte_phase x \<in> {Assigned, Start_Dispatching, Running}
               then update_execution stale_effect ?key
                 (\<lambda>now. execution_has_custody (pte_execution_id x) (pte_runtime_handle_id x)
                          (pte_runtime_owner_id x) (pte_runtime_lease_token x) now \<and>
                        pte_turn_id now = pte_turn_id x \<and> pte_phase now = pte_phase x)
                 (\<lambda>now. now\<lparr>pte_phase := Interrupt_Pending\<rparr>)
               else tx_return ()) db1 = Ok ((), db')"
    unfolding prepare_interrupt_effect_def Let_def l' x_def [symmetric]
    by (auto simp: key draw_uuid_def e_def [symmetric] split del: if_split)
  note p = custody_withD(1) [OF c]
  show "custody_with b k db'"
  proof (cases "om_get (db_effects db) ?key")
    case (Some d)
    then have "db1 = db\<lparr>db_draws := db_draws db + 1\<rparr>" using ins by (simp add: insert_effect_Ok)
    moreover have "pte_phase x \<notin> {Assigned, Start_Dispatching, Running}" using no_effect_yet [OF p x] Some by auto
    ultimately have "db' = db\<lparr>db_draws := db_draws db + 1\<rparr>" using upd by (simp add: tx_return_def)
    then show ?thesis using c by (simp add: with_draw del: turn_db.update_convs)
  next
    case None
    have fresh: "find_effect rid (pe_effect_id e) db = None"
    proof (rule ccontr)
      assume "find_effect rid (pe_effect_id e) db \<noteq> None"
      then have "db1 = db\<lparr>db_draws := db_draws db + 1\<rparr>" using ins by (auto simp: insert_effect_Ok find_effect_def)
      with ld None show False by (auto simp: load_effect_Ok)
    qed
    with ins None have db1: "db1 = db\<lparr>db_draws := db_draws db + 1, db_effects := om_insert ?key e (db_effects db)\<rparr>"
      by (simp add: insert_effect_Ok find_effect_def)
    have nw: "custody_with b k (db\<lparr>db_effects := om_insert ?key e (db_effects db), db_executions := om_insert ?key x' (db_executions db)\<rparr>)"
      if "pte_phase x' \<in> {Interrupt_Pending, Start_Ambiguous, Recovery_Required}" for x'
      by (rule with_new_effect [OF c None _ x]) (use fresh that in \<open>auto simp: agree_defs e_def\<close>)
    show ?thesis
    proof (cases "pte_phase x \<in> {Assigned, Start_Dispatching, Running}")
      case True
      with upd db1 x have "db' = (db\<lparr>db_effects := om_insert ?key e (db_effects db),
          db_executions := om_insert ?key (x\<lparr>pte_phase := Interrupt_Pending\<rparr>) (db_executions db)\<rparr>)\<lparr>db_draws := db_draws db + 1\<rparr>" by (auto simp: update_execution_Ok)
      then show ?thesis using nw by (simp add: with_draw del: turn_db.update_convs)
    next
      case False
      have "pte_phase x \<notin> {Interrupt_Pending, Quiescing, Interrupt_Ambiguous}"
        using pairs_matchD(2) [of fst "om_get (db_effects db)" "om_get (db_executions db)" ?key x] p x None by (auto simp: pairs_ok_def)
      with False blk have "pte_phase x \<in> {Interrupt_Pending, Start_Ambiguous, Recovery_Required}" by (auto simp: is_blocking_def)
      from nw [OF this] have "custody_with b k (db\<lparr>db_effects := om_insert ?key e (db_effects db)\<rparr>)"
        using x by (intro with_same_execution [where db = "db\<lparr>db_effects := om_insert ?key e (db_effects db)\<rparr>" and key = ?key and x = x]) simp_all
      moreover have "db' = (db\<lparr>db_effects := om_insert ?key e (db_effects db)\<rparr>)\<lparr>db_draws := db_draws db + 1\<rparr>" using upd False db1 by (cases db) (simp add: tx_return_def)
      ultimately show ?thesis by (simp add: with_draw del: turn_db.update_convs)
    qed
  qed
qed

text \<open>The end of a turn with its runtime.\<close>

lemma with_terminal:
  assumes ph: "\<not> is_blocking ph"
  shows "triple (\<lambda>db. custody_with False k db \<and> load_execution_in rid sid g db = Ok x \<and> load_optional_effect_in rid sid g db = Ok v)
    (terminalize_authority invalid stale x v ph) (\<lambda>_. custody_with False k)"
  unfolding triple_def
proof (intro allI impI, elim conjE)
  fix db u db'
  let ?key = "(rid, sid, uint g)"
  let ?f = "\<lambda>x. x\<lparr>pte_phase := ph, pte_requeue_finalized := True\<rparr>"
  assume c: "custody_with False k db" and x: "load_execution_in rid sid g db = Ok x" and v: "load_optional_effect_in rid sid g db = Ok v"
    and run: "terminalize_authority invalid stale x v ph db = Inr (u, db')"
  from x have row: "om_get (db_executions db) ?key = Some (le_row x)"
    and key: "turn_key err (le_room_id x) (le_session_id x) (le_turn_generation x) = Ok ?key" for err
    by (auto simp: load_execution_in_def turn_key_def split: if_splits)
  let ?db1 = "db\<lparr>db_executions := om_insert ?key (?f (le_row x)) (db_executions db)\<rparr>"
  show "custody_with False k db'"
  proof (cases v)
    case None
    with run row have "db' = ?db1" by (auto simp: terminalize_authority_def key update_execution_Ok)
    moreover have "om_get (db_effects db) ?key = None"
      using v None by (auto simp: load_optional_effect_in_def turn_key_def split: if_splits)
    ultimately show ?thesis using c ph by (auto simp: is_blocking_def intro: with_execution)
  next
    case (Some w)
    with v have w: "load_effect_in rid sid g db = Ok w" by (auto simp: load_optional_effect_in_def split: if_splits)
    note named = loaded_effect(1,2) [OF w]
    from run row Some obtain q e where r: "find_effect (pie_room_id w) (pie_effect_id w) ?db1 = Some (q, e)"
      "db' = ?db1\<lparr>db_effects := om_insert q (e\<lparr>pe_phase := Effect_Finalized, pe_claim_expires_at := None\<rparr>) (db_effects ?db1)\<rparr>"
      by (auto simp: terminalize_authority_def key update_execution_Ok update_effect_Ok)
    then have fe: "find_effect (pie_room_id w) (pie_effect_id w) db = Some (q, e)" by (simp add: find_effect_def)
    from c have "custody_ok db" by (simp add: custody_with_def)
    from find_effect_named [OF this named(1) fe] named(2) have q: "q = ?key" by simp
    note e = find_effect_get(1) [OF custody_withD(2) [OF c] fe, unfolded q]
    show ?thesis unfolding r(2) q
      using with_pair' [OF c e row, of "e\<lparr>pe_phase := Effect_Finalized, pe_claim_expires_at := None\<rparr>" "?f (le_row x)"] ph
      by (simp add: phases_agree_def)
  qed
qed

lemma with_stop:
  "triple (custody_with False k) (terminalize_confirmed_stop_turn E s) (\<lambda>_. custody_with False k)"
proof -
  have T: "triple (\<lambda>db. (custody_with False k db \<and> load_execution_in rid sid g db = Ok x) \<and> load_optional_effect_in rid sid g db = Ok v)
    (terminalize_authority i st x v Interrupted) (\<lambda>_. custody_with False k)" for rid sid g x v i st
    by (rule triple_weaken [OF with_terminal]) (auto simp: is_blocking_def)
  show ?thesis
    unfolding terminalize_confirmed_stop_turn_def Let_def
    by (intro triple_try triple_if triple_read triple_bind [OF T] triple_table custody.table_rules) (simp_all add: triple_def)
qed

lemma same_execution_phase: "same_execution x y \<Longrightarrow> pte_phase (le_row y) = pte_phase (le_row x)"
proof -
  assume "same_execution x y"
  then have "(le_row x)\<lparr>pte_assignment := pte_assignment (le_row y)\<rparr> = le_row y" by (simp add: same_execution_def)
  from arg_cong [OF this, of pte_phase] show ?thesis by simp
qed

lemma with_not_started:
  assumes "reconcile_frame E"
  shows "triple (custody_with b k) (finalize_provider_turn_not_started E c) (\<lambda>_. custody_with b k)"
  unfolding finalize_provider_turn_not_started_def Let_def
  by (intro triple_try with_read with_no_effect_death assms) (auto dest: same_execution_phase)

lemma with_gone:
  assumes "reconcile_frame E"
  shows "triple (custody_with False k) (finalize_runtime_gone_in E lc c p) (\<lambda>_. custody_with False k)"
proof -
  have s: "preserves (custody_with False k) (finalize_runtime_gone_session E s x cause p)" for s x cause
    unfolding finalize_runtime_gone_session_def Let_def by (intro custody.table_rules custody.kept_assign assms)
  have stop: "triple (custody_with False k) (confirm_stop_by_runtime_gone E s) (\<lambda>_. custody_with False k)" for s
    unfolding confirm_stop_by_runtime_gone_def Let_def
    by (intro triple_keep [OF with_stop] triple_table custody.table_rules)
  have T: "triple (\<lambda>db. (custody_with False k db \<and> load_execution_in rid sid g db = Ok x) \<and> load_optional_effect_in rid sid g db = Ok v)
    (terminalize_authority i st x v (if v \<noteq> None then Interrupted else Failed)) (\<lambda>_. custody_with False k)" for rid sid g x v i st
    by (rule triple_weaken [OF with_terminal]) (auto simp: is_blocking_def)
  have W: "triple (\<lambda>db. (custody_with False k db \<and> A db) \<and> B db) m (\<lambda>_. custody_with False k)"
    if "triple (custody_with False k) m (\<lambda>_. custody_with False k)" for A B and m :: "('a turn_db, agent_turn_commit) tx"
    by (rule triple_weaken [OF that]) simp
  show ?thesis
    unfolding finalize_runtime_gone_in_def Let_def
    by (rule with_read, rule triple_read, rule triple_try, rule triple_try, rule triple_read, rule triple_try, rule with_read, rule triple_if)
      (rule W [OF stop], rule triple_bind [OF T], rule triple_table [OF s])
qed

text \<open>What an operation tells its caller of is a row.\<close>

lemma tells_current: "triple P (tx_bind m (\<lambda>y. tx_read (load_effect_in (r y) (s y) (g y)))) effect_named"
  unfolding triple_def by (auto dest: loaded_effect(1))

lemma told_bind: "(\<And>y. triple (\<lambda>_. True) (f y) Q) \<Longrightarrow> triple P (tx_bind m f) Q"
  by (fastforce simp: triple_def)

lemma told_recovery_wait:
  "triple custody_ok (authorize_provider_interrupt_recovery_wait now c) effect_named"
proof -
  have p: "preserves (named_wf v) (move_pair v he (\<lambda>e. e\<lparr>pe_phase := Effect_Issued_Waiting_Quiescence\<rparr>) hx (\<lambda>row. row\<lparr>pte_phase := Quiescing\<rparr>))" for v he hx
    by (rule named.kept_pair) simp_all
  show ?thesis
    unfolding authorize_provider_interrupt_recovery_wait_def Let_def triple_def
  proof (intro allI impI)
    fix db v db'
    assume "custody_ok db" and "tx_bind (tx_read (load_effect_of (pec_effect c))) (\<lambda>current.
      tx_bind (tx_try (require_exact_effect (pec_effect c) current)) (\<lambda>_.
      tx_bind (tx_read (load_execution_of (pec_effect c))) (\<lambda>x.
      tx_bind (tx_try (require_recoverable current (le_row x))) (\<lambda>_.
      tx_bind (move_pair current
         (\<lambda>e. pe_phase e = pie_phase current \<and> pe_dispatch_nonce e = pie_dispatch_nonce current \<and>
              claim_is_live now (pec_claim_owner c) e)
         (\<lambda>e. e\<lparr>pe_phase := Effect_Issued_Waiting_Quiescence\<rparr>)
         (\<lambda>row. pte_phase row = pte_phase (le_row x) \<and> \<not> pte_requeue_finalized row)
         (\<lambda>row. row\<lparr>pte_phase := Quiescing\<rparr>)) (\<lambda>_.
      tx_return (current\<lparr>pie_phase := Effect_Issued_Waiting_Quiescence\<rparr>)))))) db = Inr (v, db')"
    then obtain current he hx where current: "load_effect_of (pec_effect c) db = Ok current"
      and move: "move_pair current he (\<lambda>e. e\<lparr>pe_phase := Effect_Issued_Waiting_Quiescence\<rparr>) hx (\<lambda>row. row\<lparr>pte_phase := Quiescing\<rparr>) db = Ok ((), db')"
      and v: "v = current\<lparr>pie_phase := Effect_Issued_Waiting_Quiescence\<rparr>"
      by auto
    have "named_wf current db"
      using loaded_effect_of(1) [OF current] \<open>custody_ok db\<close> by (simp add: named_wf_def custody_ok_def pairs_ok_def)
    from preservesD [OF p move this] have "effect_named current db'" by (simp add: named_wf_def)
    then show "effect_named v db'" by (simp add: v effect_named_def effect_key_def)
  qed
qed

lemma triple_telling: "triple P m Q \<Longrightarrow> triple P (telling m) (\<lambda>told db. \<forall>v \<in> set told. Q v db)"
  by (auto simp: telling_def triple_def)

lemma triple_quiet: "triple P (quiet m) (\<lambda>told db. \<forall>v \<in> set told. Q v db)"
  by (auto simp: quiet_def triple_def)

lemma perform_tells:
  "triple custody_ok (perform Y op) (\<lambda>told db. \<forall>v \<in> set told. effect_named v db)"
proof (cases op)
  case (Op_Interrupt rid sid g cause)
  have "triple custody_ok (interrupt_turn (ts_env Y) rid sid g cause) effect_named"
    unfolding interrupt_turn_def prepare_interrupt_effect_def Let_def
    by (intro told_bind) (auto simp: triple_def dest: loaded_effect(1))
  then show ?thesis unfolding Op_Interrupt perform.simps by (rule triple_telling)
next
  case (Op_Recovery_Wait now c)
  then show ?thesis by (simp add: triple_telling told_recovery_wait)
next
  case (Op_Dispatch now c)
  then show ?thesis by (auto simp: triple_def dest: loaded_effect_of loaded_effect_of [OF sym] split: sum.splits)
next
  case (Op_Claim now v owner)
  then show ?thesis by (auto simp: triple_def claim_provider_turn_interrupt_def dest: loaded_effect_of)
next
  case (Op_Claim_Recovery now v owner)
  then show ?thesis by (auto simp: triple_def claim_provider_turn_interrupt_recovery_def dest: loaded_effect_of)
next
  case (Op_Unstarted now c)
  then show ?thesis
    by (auto simp: triple_def telling_def mark_unstarted_interrupt_waiting_def transition_to_waiting_in_def dest: loaded_effect_of)
next
  case (Op_Issued now v)
  then show ?thesis
    by (auto simp: triple_def telling_def mark_provider_interrupt_issued_def transition_to_waiting_in_def dest: loaded_effect_of)
qed (simp_all add: triple_quiet)

text \<open>Every operation maintains the agreement of the phases, when it is called with interrupts that the
  store knows, and only the two proofs of absence free a stranded interrupt.\<close>

fun proves_absence :: "turn_operation \<Rightarrow> bool" where
  "proves_absence (Op_Stopped s) = True"
| "proves_absence (Op_Gone c p) = True"
| "proves_absence _ = False"

lemma triple_silent: "triple P m (\<lambda>_. R) \<Longrightarrow> triple P (quiet m) (\<lambda>_. R)" "triple P n (\<lambda>_. R) \<Longrightarrow> triple P (telling n) (\<lambda>_. R)"
  by (auto simp: quiet_def telling_def triple_def)

lemma perform_custody:
  assumes frame: "reconcile_frame (ts_env Y)" and b: "b \<Longrightarrow> \<not> proves_absence op"
  shows "triple (\<lambda>db. custody_with b k db \<and> (\<forall>v \<in> set (used_effects op). effect_named v db)) (perform Y op)
    (\<lambda>_. custody_with b k)"
proof (cases op)
  case (Op_Unstarted now c)
  then show ?thesis
    using triple_silent(2) [OF with_waiting [of b k "pec_effect c" now "Some (pec_claim_owner c)"]] by (simp add: mark_unstarted_interrupt_waiting_def)
next
  case (Op_Issued now v)
  then show ?thesis
    using triple_silent(2) [OF with_waiting [of b k v now None]] by (simp add: mark_provider_interrupt_issued_def)
next
  case (Op_Ambiguous v)
  then show ?thesis using triple_silent(1) [OF with_ambiguous] by simp
next
  case (Op_Stopped s)
  have "\<not> b" by (rule notI) (use b Op_Stopped in simp)
  with Op_Stopped show ?thesis using triple_silent(1) [OF with_stop [of k "ts_env Y" s]] by simp
next
  case (Op_Gone c p)
  have "\<not> b" by (rule notI) (use b Op_Gone in simp)
  with Op_Gone show ?thesis using triple_silent(1) [OF with_gone [OF frame]] by simp
next
  case (Op_Retained v)
  show ?thesis unfolding Op_Retained perform.simps
    by (rule triple_silent(1) [OF triple_weaken [OF with_retained [OF frame]]]) simp
next
  case (Op_Lost_Quiescence v)
  show ?thesis unfolding Op_Lost_Quiescence perform.simps mark_provider_interrupt_recovery_required_def
    by (rule triple_silent(1) [OF triple_weaken [OF with_lost]]) simp
next
  case (Op_Handoff c)
  show ?thesis unfolding Op_Handoff perform.simps handoff_unissued_provider_interrupt_claim_def
    by (rule triple_silent(1) [OF triple_weaken [OF with_lost]]) simp
next
  case (Op_Recovery_Wait now c)
  show ?thesis unfolding Op_Recovery_Wait perform.simps
    by (rule triple_silent(2) [OF triple_weaken [OF with_recovery_wait]]) simp
next
  case (Op_Claim now v owner)
  show ?thesis unfolding Op_Claim perform.simps
    by (rule triple_weaken [OF triple_table]) (intro ok_intros with_claims, simp)
next
  case (Op_Claim_Recovery now v owner)
  show ?thesis unfolding Op_Claim_Recovery perform.simps
    by (rule triple_weaken [OF triple_table]) (intro ok_intros with_claims, simp)
next
  case (Op_Dispatch now c)
  show ?thesis unfolding Op_Dispatch perform.simps
    by (rule triple_weaken [OF triple_table]) (intro ok_intros with_claims, simp)
next
  case (Op_Release c)
  show ?thesis unfolding Op_Release perform.simps
    by (rule triple_silent(1) [OF triple_weaken [OF triple_table [OF with_claims(4)]]]) simp
qed (simp_all add: triple_silent custody.kept_assign custody.kept_start custody.kept_end triple_table
    with_task_death with_interrupt with_not_started frame)

section \<open>What a run guarantees\<close>

lemma start_fresh:
  assumes "perform Y (Op_Start rid sid g ti) db = Ok (told, db')"
  shows "\<not> begun (rid, sid, uint g) db" "begun (rid, sid, uint g) db'"
proof -
  from assms obtain x where x: "om_get (db_executions db) (rid, sid, uint g) = Some x" "pte_phase x = Assigned"
    and y: "\<exists>y. om_get (db_executions db') (rid, sid, uint g) = Some y \<and> pte_phase y = Start_Dispatching"
    by (auto simp: quiet_def authorize_start_in_def update_execution_Ok draw_uuid_def turn_key_def split: if_splits)
  from x y show "\<not> begun (rid, sid, uint g) db" "begun (rid, sid, uint g) db'" by (auto simp: begun_def)
qed

lemma interrupt_begun:
  assumes "custody_ok db" "om_get (db_effects db) k \<noteq> None"
  shows "begun k db"
proof -
  from assms obtain e x where "om_get (db_effects db) k = Some e" "om_get (db_executions db) k = Some x"
    "phases_agree (pe_phase e) (pte_phase x)"
    using pairs_matchD(1) [of fst "om_get (db_effects db)" "om_get (db_executions db)" k] by (auto simp: custody_ok_def pairs_ok_def)
  then show ?thesis by (cases "pe_phase e") (auto simp: begun_def agree_defs)
qed

lemma find_effect_draws: "find_effect rid eid (db\<lparr>db_draws := n\<rparr>) = find_effect rid eid db"
  by (simp add: find_effect_def)

lemma dispatch_fresh:
  assumes "custody_ok db" "effect_named (pec_effect c) db" "perform Y (Op_Dispatch now c) db = Ok (told, db')"
  shows "\<not> sent (effect_key (pec_effect c)) db" "sent (effect_key (pec_effect c)) db'"
proof -
  from assms(3) have "fence_interrupt_dispatch (ts_env Y) now c db = Ok ((), db')" by auto
  then have "update_effect stale_effect (pie_room_id (pec_effect c)) (pie_effect_id (pec_effect c))
       (\<lambda>e. pe_phase e = Effect_Claimed \<and> claim_is_live now (pec_claim_owner c) e)
       (\<lambda>e. e\<lparr>pe_phase := Effect_Dispatching, pe_dispatch_nonce := uuid_string (te_uuid (ts_env Y) (db_draws db))\<rparr>)
       (db\<lparr>db_draws := db_draws db + 1\<rparr>) = Ok ((), db')"
    by (simp add: fence_interrupt_dispatch_def draw_uuid_def)
  then obtain q e where f: "find_effect (pie_room_id (pec_effect c)) (pie_effect_id (pec_effect c)) db = Some (q, e)"
    "pe_phase e = Effect_Claimed"
    "db_effects db' = om_insert q (e\<lparr>pe_phase := Effect_Dispatching,
        pe_dispatch_nonce := uuid_string (te_uuid (ts_env Y) (db_draws db))\<rparr>) (db_effects db)"
    unfolding update_effect_Ok find_effect_draws by (elim exE conjE) simp
  from assms(1) have "om_wf (db_effects db)" by (simp add: custody_ok_def pairs_ok_def)
  note get = find_effect_get(1) [OF this f(1), unfolded find_effect_named [OF assms(1,2) f(1)]]
  show "\<not> sent (effect_key (pec_effect c)) db" using get f(2) by (simp add: sent_def)
  show "sent (effect_key (pec_effect c)) db'"
    using f(3) find_effect_named [OF assms(1,2) f(1)] by (auto simp: sent_def)
qed

lemma interrupt_leaves_effect:
  assumes "perform Y (Op_Interrupt rid sid g cause) db = Ok (told, db')"
  shows "om_get (db_effects db') (rid, sid, uint g) \<noteq> None"
proof -
  from assms obtain l v where l: "load_execution_in rid sid g db = Ok l" "prepare_interrupt_effect (ts_env Y) l cause db = Ok (v, db')"
    by (auto simp: telling_def interrupt_turn_def)
  have "load_effect_in (le_room_id l) (le_session_id l) (le_turn_generation l) db' = Ok v"
    using l(2) by (auto simp: prepare_interrupt_effect_def Let_def split del: if_split)
  with l(1) show ?thesis by (auto simp: load_execution_in_def load_effect_Ok)
qed

text \<open>The state of a run: everything known is a row, and what the log has begun or sent is begun or
  sent in the store.\<close>

definition run_ok :: "'x turn_db \<Rightarrow> provider_turn_interrupt_effect set \<Rightarrow> turn_operation list \<Rightarrow> bool" where
  "run_ok db known log \<longleftrightarrow> custody_ok db \<and> (\<forall>v \<in> known. effect_named v db) \<and>
     (\<forall>op \<in> set log. \<forall>k. starts op = Some k \<or> interrupts op = Some k \<longrightarrow> begun k db) \<and>
     (\<forall>op \<in> set log. \<forall>k. dispatches op = Some k \<longrightarrow> sent k db)"

lemma perform_carries:
  assumes "reconcile_frame (ts_env Y)" "custody_ok db" "perform Y op db = Ok (told, db')"
  shows "begun k db \<Longrightarrow> begun k db'" "sent k db \<Longrightarrow> sent k db'" "effect_named v db \<Longrightarrow> effect_named v db'"
  using preservesD [OF begun.perform_keeps [OF assms(1)] assms(3), of k] preservesD [OF sent.perform_keeps [OF assms(1)] assms(3), of k]
    preservesD [OF named.perform_keeps [OF assms(1)] assms(3), of v] assms(2)
  by (simp_all add: begun_wf_def sent_wf_def named_wf_def custody_ok_def pairs_ok_def)

lemma step_custody:
  assumes "reconcile_frame (ts_env Y)" "custody_ok db" "\<forall>v \<in> set (used_effects op). effect_named v db" "perform Y op db = Ok (told, db')"
  shows "custody_ok db'"
  using tripleD [OF perform_custody [OF assms(1), of False op] _ assms(4), of undefined] assms(2,3) by (simp add: custody_with_def)

lemma run_ok_step:
  assumes frame: "reconcile_frame (ts_env Y)" and inv: "run_ok db known log" and used: "set (used_effects op) \<subseteq> known"
    and run: "perform Y op db = Ok (told, db')"
  shows "run_ok db' (known \<union> set told) (op # log)"
    and "starts op = Some k \<Longrightarrow> \<not> (\<exists>op \<in> set log. starts op = Some k \<or> interrupts op = Some k)"
    and "dispatches op = Some k \<Longrightarrow> \<not> (\<exists>op \<in> set log. dispatches op = Some k)"
proof -
  from inv have c: "custody_ok db" and named: "\<forall>v \<in> known. effect_named v db" by (simp_all add: run_ok_def)
  from used named have u: "\<forall>v \<in> set (used_effects op). effect_named v db" by auto
  note carries = perform_carries [OF frame c run]
  note c' = step_custody [OF frame c u run]
  have new: "starts op = Some k \<Longrightarrow> \<not> begun k db \<and> begun k db'" for k
    using run by (cases op) (auto dest: start_fresh simp del: perform.simps)
  have told: "\<forall>v \<in> set told. effect_named v db'" using tripleD [OF perform_tells c run] .
  have int: "interrupts op = Some k \<Longrightarrow> begun k db'" for k
    using run c' by (cases op) (auto dest: interrupt_leaves_effect interrupt_begun simp del: perform.simps)
  have send: "dispatches op = Some k \<Longrightarrow> \<not> sent k db \<and> sent k db'" for k
    using run c u by (cases op) (auto dest: dispatch_fresh simp del: perform.simps)
  show "run_ok db' (known \<union> set told) (op # log)"
    using inv c' told named new int send carries unfolding run_ok_def by (auto 4 3)
  show "starts op = Some k \<Longrightarrow> \<not> (\<exists>op \<in> set log. starts op = Some k \<or> interrupts op = Some k)"
    using inv new unfolding run_ok_def by blast
  show "dispatches op = Some k \<Longrightarrow> \<not> (\<exists>op \<in> set log. dispatches op = Some k)"
    using inv send unfolding run_ok_def by blast
qed

lemma run_ok_run:
  assumes "reconcile_frame (ts_env Y)" "custody_ok db0" "turn_run Y db0 db known log"
  shows "run_ok db known log \<and> length (filter (\<lambda>op. starts op = Some k) log) \<le> 1 \<and>
    length (filter (\<lambda>op. dispatches op = Some k) log) \<le> 1 \<and>
    (\<forall>later op earlier. log = later @ op # earlier \<longrightarrow> starts op = Some k \<longrightarrow> (\<forall>op \<in> set earlier. interrupts op \<noteq> Some k))"
  using assms(3)
proof induction
  case run_start
  then show ?case using assms(2) by (simp add: run_ok_def)
next
  case (run_step db known log op told db')
  from run_step.IH have inv: "run_ok db known log" by blast
  note step = run_ok_step [OF assms(1) inv run_step.hyps(2,3)]
  have s: "starts op = Some k \<Longrightarrow> filter (\<lambda>op. starts op = Some k) log = []" using step(2) by (auto simp: filter_empty_conv)
  have d: "dispatches op = Some k \<Longrightarrow> filter (\<lambda>op. dispatches op = Some k) log = []" using step(3) by (auto simp: filter_empty_conv)
  have "\<forall>o' \<in> set earlier. interrupts o' \<noteq> Some k" if "op # log = later @ o2 # earlier" "starts o2 = Some k" for later o2 earlier
    using that run_step.IH step(2) by (cases later) auto
  with step(1) run_step.IH s d show ?case by auto
qed




section \<open>Witnesses\<close>

definition sample_system :: "unit turn_system" where
  "sample_system = \<lparr>ts_env = sample_env, ts_is_uuid = (\<lambda>_. True), ts_redact = (\<lambda>m _. m), ts_lifecycle = (\<lambda>_ _ _. Ok None)\<rparr>"

text \<open>A store with one execution, in a given phase.\<close>

definition sample_bare :: "provider_turn_execution_phase \<Rightarrow> unit turn_db" where
  "sample_bare p =
     \<lparr>db_rooms = Map.empty, db_participants = Map.empty, db_sessions = [], db_events = [], db_search = [],
      db_executions = [((str ''main'', str ''agent-1'', 1),
         \<lparr>pte_execution_id = str ''x1'', pte_participant_id = str ''agent-1'', pte_turn_id = str ''turn-1'',
          pte_assignment = \<lparr>env_delivery_kind = Ordered_Observation, env_provider_input = [], env_room_view = [],
             env_attachment_ids = [], env_room_agent_ids = [], env_tabletop_tools = False\<rparr>,
          pte_phase = p, pte_runtime_handle_id = str ''h'', pte_runtime_owner_id = str ''o'',
          pte_runtime_lease_token = str ''l'', pte_start_dispatch_nonce = str ''n1'', pte_provider_turn_id = [],
          pte_requeue_finalized = False\<rparr>)],
      db_effects = [], db_restart = None, db_draws = 0, db_rest = ()\<rparr>"

definition op_mute :: turn_operation where "op_mute = Op_Interrupt (str ''main'') (str ''agent-1'') 1 Participant_Muted"
definition op_claim :: "provider_turn_interrupt_effect list \<Rightarrow> turn_operation" where "op_claim vs = Op_Claim 5 (hd vs) (str ''owner'')"
definition op_dispatch :: "provider_turn_interrupt_effect list \<Rightarrow> turn_operation" where
  "op_dispatch vs = Op_Dispatch 6 \<lparr>pec_effect = hd vs, pec_claim_owner = str ''owner''\<rparr>"

text \<open>The outcome of each operation of a sample run, as functions of its result.\<close>

fun dispatched_next :: "persistence_error + provider_turn_interrupt_effect list \<times> unit turn_db \<Rightarrow> bool" where
  "dispatched_next (Ok (us, db)) \<longleftrightarrow> map (pe_phase \<circ> snd) (db_effects db) = [Effect_Dispatching]"
| "dispatched_next (Err _) \<longleftrightarrow> False"

fun claimed_next :: "persistence_error + provider_turn_interrupt_effect list \<times> unit turn_db \<Rightarrow> bool" where
  "claimed_next (Ok (ws, db)) \<longleftrightarrow> ws \<noteq> [] \<and> dispatched_next (perform sample_system (op_dispatch ws) db)"
| "claimed_next (Err _) \<longleftrightarrow> False"

fun muted_next :: "persistence_error + provider_turn_interrupt_effect list \<times> unit turn_db \<Rightarrow> bool" where
  "muted_next (Ok (vs, db)) \<longleftrightarrow> vs \<noteq> [] \<and>
     effect_key (hd vs) = (str ''main'', str ''agent-1'', 1) \<and>
     map_option pte_phase (om_get (db_executions db) (str ''main'', str ''agent-1'', 1)) = Some Recovery_Required \<and>
     claimed_next (perform sample_system (op_claim vs) db)"
| "muted_next (Err _) \<longleftrightarrow> False"

lemma next_cases:
  "dispatched_next r \<Longrightarrow> \<exists>us db. r = Ok (us, db)"
  "claimed_next r \<Longrightarrow> \<exists>ws db. r = Ok (ws, db) \<and> ws \<noteq> [] \<and> dispatched_next (perform sample_system (op_dispatch ws) db)"
  "muted_next r \<Longrightarrow> \<exists>vs db. r = Ok (vs, db) \<and> vs \<noteq> [] \<and>
     effect_key (hd vs) = (str ''main'', str ''agent-1'', 1) \<and>
     map_option pte_phase (om_get (db_executions db) (str ''main'', str ''agent-1'', 1)) = Some Recovery_Required \<and>
     claimed_next (perform sample_system (op_claim vs) db)"
  by (cases r; auto)+

lemma sample_quarantined: "muted_next (perform sample_system op_mute (sample_bare Recovery_Required))"
  by code_simp

lemma sample_frame: "reconcile_frame (ts_env sample_system)"
proof -
  have "reconcile_idle (ts_env sample_system)" using sample_drain(1) by (simp add: sample_system_def)
  then show ?thesis by (simp add: reconcile_idle_def reconcile_frame_def)
qed

lemma sample_custody: "custody_ok (sample_bare Recovery_Required)"
  by (auto simp: custody_ok_def pairs_ok_def pairs_match_def sample_bare_def om_get_def om_wf_def)

lemma sample_run:
  obtains vs ws db1 db2 db3 known where
    "turn_run sample_system (sample_bare Recovery_Required) db1 (set vs) [op_mute]"
    "hd vs \<in> set vs" "effect_key (hd vs) = (str ''main'', str ''agent-1'', 1)"
    "map_option pte_phase (om_get (db_executions db1) (str ''main'', str ''agent-1'', 1)) = Some Recovery_Required"
    "perform sample_system (op_claim vs) db1 = Ok (ws, db2)"
    "turn_run sample_system (sample_bare Recovery_Required) db3 known [op_dispatch ws, op_claim vs, op_mute]"
proof -
  from next_cases(3) [OF sample_quarantined] obtain vs db1
    where m: "perform sample_system op_mute (sample_bare Recovery_Required) = Ok (vs, db1)" and v: "vs \<noteq> []"
      and k: "effect_key (hd vs) = (str ''main'', str ''agent-1'', 1)"
      and x: "map_option pte_phase (om_get (db_executions db1) (str ''main'', str ''agent-1'', 1)) = Some Recovery_Required"
      and n: "claimed_next (perform sample_system (op_claim vs) db1)" by blast
  from next_cases(2) [OF n] obtain ws db2 where c: "perform sample_system (op_claim vs) db1 = Ok (ws, db2)" and w: "ws \<noteq> []"
    and n2: "dispatched_next (perform sample_system (op_dispatch ws) db2)" by blast
  from next_cases(1) [OF n2] obtain us db3 where d: "perform sample_system (op_dispatch ws) db2 = Ok (us, db3)" by blast
  have "turn_run sample_system (sample_bare Recovery_Required) db1 ({} \<union> set vs) (op_mute # [])"
    by (rule run_step [OF run_start _ m]) (simp add: op_mute_def)
  then have r1: "turn_run sample_system (sample_bare Recovery_Required) db1 (set vs) [op_mute]" by simp
  have r2: "turn_run sample_system (sample_bare Recovery_Required) db2 (set vs \<union> set ws) [op_claim vs, op_mute]"
    by (rule run_step [OF r1 _ c]) (simp add: op_claim_def v)
  have "turn_run sample_system (sample_bare Recovery_Required) db3 (set vs \<union> set ws \<union> set us) [op_dispatch ws, op_claim vs, op_mute]"
    by (rule run_step [OF r2 _ d]) (simp add: op_dispatch_def w)
  from that [OF r1 hd_in_set [OF v] k x c this] show thesis .
qed




end
