(* ===== verification/Spec2Isabelle.thy ===== *)
theory Spec2Isabelle
  imports Room_Directory Message_Commands Random_Commands Tickets Socket_Frames Connections
    Opencode_Events Openai_Stream Turn_Interrupts
begin

text \<open>
  A model of the durable core of AgentsAssemble: rooms in which people and Agent Sessions talk,
  kept in one SQLite store by a single writer process.

  The program. The crate agentsassemble-domain holds the rules (texts, identifiers, messages,
  votes, settings, what a principal may read); agentsassemble-persistence applies them to the
  tables inside transactions; agentsassemble-server accepts requests and calls the store;
  agentsassemble-provider runs the agents. A message of a person is admitted once, charged to
  the write budget of its room, written to the event log, indexed, and routed to the queues of
  the agents; free agents are then assigned a turn, in an ordered room one at a time; an agent
  ends its turn by a message, a poll, a refusal or a failure, and the floor moves on. The model
  follows this path from the payload to the tables.

  Conventions. A text is a list of code points (\<open>rstr\<close>); machine integers are words where
  they can wrap and integers with their bounds written out where the code checks them;
  \<open>BTreeMap\<close> and tables with an order are ordered association lists (\<open>omap\<close>), other
  tables are maps; an error is the left of a sum, so every early return of the code is a branch.
  A transaction is a function from the tables to an error or a result with the new tables: an
  error abandons what was written, as rolling back does. SQL constraints are written into the
  row operations. Unicode tables, SHA-256, the clock, random identifiers, image decoding, time
  formats and the modules that are not modelled are parameters: fields of \<open>turn_env\<close>,
  \<open>asset_env\<close> and \<open>command_env\<close>. What is assumed of them is named: \<open>reconcile_frame\<close>
  (closing the provider requests of a session keeps the rooms, sessions and executions),
  \<open>command_frame\<close> (it does not decide requests of clients, and a time that was written can
  be read back). All recursion is structural or on a measure; there is no fuel.

  Theories, with the files under src/crates they model (domain, persistence and server for
  the src directories of those crates).

  Prelude, Ordered\_Map, Idempotency: results, texts, machine arithmetic; the map interface
  \<open>keyed_map\<close> and its interpretation; the contract \<open>idempotent_request\<close> of a request that
  may be retried, which room creation and message commands provide.

  Text\_Policy (domain/text.rs, message\_search.rs and the identifiers), Json
  (domain/canonical\_json.rs and what serde\_json does), Room\_Model (domain/model.rs,
  agent\_session\_state.rs): validated identifiers are canonical, cleaned texts are fixed points,
  canonical JSON does not depend on the order of keys and tells different documents apart.

  Commands (domain/command.rs, room\_history.rs, channel\_messages.rs, side\_chat.rs), Votes
  (domain/vote.rs), Mutations (domain/message\_mutations.rs), Projection (domain/projection.rs),
  Room\_Settings (domain/room\_settings.rs), Event\_Codec (the derived JSON form of events): what
  payloads are accepted, who may write, edit and delete, what a principal can read, and that
  stored events and settings are read back exactly.

  Store\_Base and Room\_Directory (persistence/sqlite.rs, room\_directory.rs,
  server/room\_directory\_web.rs): rooms are created once per request and listed.

  Turn\_Store, Turn\_Authority, Turn\_Routing, Turn\_Context, Turn\_Scheduler
  (persistence/room\_turn\_support.rs, turn\_queue.rs, turn\_authority.rs, room\_turn\_routing.rs,
  room\_turn\_context.rs, room\_turn\_scheduler.rs, provider\_turn\_execution.rs): an ordered room
  has at most one active agent, assigning turns loses no queued input, routing queues a message
  exactly once for each target, and what an agent is shown is bounded.

  Turn\_Completion and Turn\_Ends (persistence/room\_turn\_completion.rs,
  room\_turn\_finalization.rs): a turn ends at most once, its unread inputs go back to the queue,
  and a draining runtime still accepts the end of a turn.

  Turn\_Effects, Turn\_Recovery, Turn\_Interrupts (persistence/provider\_turn\_start.rs,
  provider\_turn\_effect.rs, provider\_turn\_effect\_finalize.rs, provider\_turn\_reconciliation.rs,
  provider\_turn\_stop.rs and the rest of provider\_turn\_execution.rs): the two rows of a turn
  that is running, its execution and its interrupt, with every operation that starts, interrupts,
  quarantines, recovers or ends it; the contracts \<open>table_fact\<close> and \<open>turn_fact\<close> of facts about one
  of the rows that every operation keeps, and the runs of operations in any order. A start and an
  interrupt are authorized at most once, the rows stay in phases that go together but for one
  state that only a proof of absence ends, and the page scan at startup ends and is complete.

  Message\_Payload and Message\_Index (persistence/message\_attachments.rs,
  message\_search\_index.rs), Attachments (with asset\_storage.rs, raster\_assets.rs and
  authority.rs), Vote\_Store (room\_votes.rs): the search index holds exactly the searchable
  messages, attachments are in the custody of one user until a message binds them, and the
  rows of polls refine polls seen as maps from participants to choices.

  Room\_Commands and Message\_Commands (persistence/room\_turns.rs, command\_admission.rs,
  room\_write\_budget.rs, message\_mutations.rs): a retried message returns the stored result and
  changes nothing, the writes of a room stay within its budget, and deleting a message removes
  everything that refers to it.

  Room\_Random and Random\_Commands (domain/room\_turn.rs, persistence/room\_random.rs,
  server/room\_random\_runtime.rs): dice and choices; a draw answers its request, is made once
  however often it is retried, and an agent draws a bounded number of times in a turn.

  Tickets (server/ticket.rs and server/ticket): the operations of the store of tickets and the
  runs they lead to, as a step relation with the history of what was issued and used; a ticket
  works at most once, in time, for what it was issued for, and the store is bounded.

  Write\_Windows (server/provider\_write\_budget.rs, principal\_mutation\_admission.rs): the
  contract \<open>sliding_window\<close>, provided by both limiters: every interval of a minute is
  within the limits, not only those a counter starts; a pending mutation is retried for free
  and its identity is unambiguous.

  Connections (server/connection\_admission.rs): the leases of sockets; every counter is the
  number of the open leases it stands for. Socket\_Frames (server/socket\_admission.rs): the
  contract \<open>fixed_window\<close> of counters that start anew, provided for every scope and measure of
  the room sockets.

  Opencode\_Events and Openai\_Stream (provider/opencode\_protocol.rs, opencode\_sse.rs,
  openai\_stream.rs): what a provider reports of a turn does not depend on how the network cut
  its stream, a failed turn is never reported as completed, and a streamed completion is exactly
  its fragments in order.

  Not modelled. The drivers of provider processes, sockets, web handlers, the desktop shell and
  the opening of the database are asynchronous input and output around the store; migrations
  run once. Invites, bearer sessions and pairing rest on keyed digests and random tokens. The
  lifecycle of Agent Sessions, provider requests, attendees, side chat,
  preferences and profiles follow the same store discipline and are not modelled yet.
\<close>

end
